(* ===== verification/Prelude.thy ===== *)
theory Prelude
  imports Main "HOL-Library.Word"
begin

text \<open>
  Shared vocabulary of the development: the machine integers of the Rust sources, byte
  sequences, results, and the parts of the Rust standard library on strings and slices
  that several crates use.

  A Rust \<open>char\<close> is modelled by the Isabelle character with the same code point, so the
  string functions below are exact on strings whose code points are at most 255 (ASCII and
  Latin-1). A Rust \<open>Vec<u8>\<close> or \<open>[u8; n]\<close> is a list of 8-bit words. Reads of a
  slice out of range panic in Rust: the model of such code returns \<open>None\<close>.
\<close>

section \<open>Machine integers, bytes, results\<close>

type_synonym u8 = "8 word"
type_synonym u16 = "16 word"
type_synonym u32 = "32 word"
type_synonym u64 = "64 word"
type_synonym bytes = "8 word list"

lemma unat_bounds:
  "unat (a :: u8) < 256" "unat (b :: u16) < 65536" "unat (c :: u32) < 4294967296"
  by (rule unsigned_less[THEN less_le_trans], simp)+

text \<open>Collections of rewrite rules the component proofs draw on.\<close>

named_theorems codec_simps "printing and parsing round trips"
named_theorems str_simps "evaluation of string functions on structured input"
named_theorems frame_simps "byte layout of frames"

subsection \<open>Slices\<close>

text \<open>\<open>buf[a..b]\<close>; the caller states that the range lies inside the buffer.\<close>

definition sub :: "nat \<Rightarrow> nat \<Rightarrow> 'a list \<Rightarrow> 'a list" where
  "sub a b xs = take (b - a) (drop a xs)"

text \<open>\<open>buf[a..a + src.len()].copy_from_slice(src)\<close> on a buffer that is long enough.\<close>

definition copy_into :: "nat \<Rightarrow> 'a list \<Rightarrow> 'a list \<Rightarrow> 'a list" where
  "copy_into a src buf = take a buf @ src @ drop (a + length src) buf"

lemma length_sub [simp]: "length (sub a b xs) = min (b - a) (length xs - a)"
  by (simp add: sub_def min.commute)

lemma length_copy_into [simp]:
  "a + length src \<le> length buf \<Longrightarrow> length (copy_into a src buf) = length buf"
  by (simp add: copy_into_def)

lemma sub_append_left: "b \<le> length xs \<Longrightarrow> sub a b (xs @ ys) = sub a b xs"
  by (cases "a \<le> length xs") (simp_all add: sub_def)

lemma sub_append_right:
  "length xs \<le> a \<Longrightarrow> sub a b (xs @ ys) = sub (a - length xs) (b - length xs) ys"
  by (cases "a \<le> b") (simp_all add: sub_def)

lemma sub_all: "b = length xs \<Longrightarrow> sub 0 b xs = xs"
  by (simp add: sub_def)

text \<open>Checked access, for code whose freedom from panics is shown: \<open>None\<close> is the panic.\<close>

definition get_at :: "'a list \<Rightarrow> nat \<Rightarrow> 'a option" where
  "get_at xs i = (if i < length xs then Some (xs ! i) else None)"

definition get_range :: "nat \<Rightarrow> nat \<Rightarrow> 'a list \<Rightarrow> 'a list option" where
  "get_range a b xs = (if a \<le> b \<and> b \<le> length xs then Some (sub a b xs) else None)"

lemma get_at_Some [simp]: "i < length xs \<Longrightarrow> get_at xs i = Some (xs ! i)"
  by (simp add: get_at_def)

lemma get_range_Some [simp]: "a \<le> b \<Longrightarrow> b \<le> length xs \<Longrightarrow> get_range a b xs = Some (sub a b xs)"
  by (simp add: get_range_def)

section \<open>Machines and their invariants\<close>

text \<open>
  The daemons of the program are machines: a state and a step per event. The contract of an
  invariant is that every step on an admissible event keeps it; it then holds after every
  sequence of admissible events.
\<close>

locale invariant_machine =
  fixes step :: "'e \<Rightarrow> 's \<Rightarrow> 's" and ok :: "'e \<Rightarrow> bool" and inv :: "'s \<Rightarrow> bool"
  assumes step_inv: "inv s \<Longrightarrow> ok e \<Longrightarrow> inv (step e s)"
begin

lemma run_inv: "inv s \<Longrightarrow> list_all ok es \<Longrightarrow> inv (fold step es s)"
  by (induction es arbitrary: s) (simp_all add: step_inv)

lemma run_inv_prefix: "inv s \<Longrightarrow> list_all ok es \<Longrightarrow> inv (fold step (take n es) s)"
  by (rule run_inv) (auto simp: list_all_iff dest: in_set_takeD)

end

section \<open>Strings as the standard library treats them\<close>

abbreviation nl :: char where "nl \<equiv> CHR 0x0A"
abbreviation cr :: char where "cr \<equiv> CHR 0x0D"

text \<open>\<open>char::is_whitespace\<close> on code points up to 255.\<close>

definition is_ws :: "char \<Rightarrow> bool" where
  "is_ws c = (let n = of_char c :: nat in (9 \<le> n \<and> n \<le> 13) \<or> n = 32 \<or> n = 133 \<or> n = 160)"

definition is_digit :: "char \<Rightarrow> bool" where
  "is_digit c = (let n = of_char c :: nat in 48 \<le> n \<and> n \<le> 57)"

text \<open>
  \<open>char::is_alphanumeric\<close> on code points up to 255: the ASCII letters and digits, the
  Latin-1 letters, and the numeric characters superscript one to three and the fractions.
\<close>

definition is_alnum :: "char \<Rightarrow> bool" where
  "is_alnum c = (let n = of_char c :: nat in
     (48 \<le> n \<and> n \<le> 57) \<or> (65 \<le> n \<and> n \<le> 90) \<or> (97 \<le> n \<and> n \<le> 122) \<or>
     n \<in> {170, 178, 179, 181, 185, 186, 188, 189, 190} \<or>
     (192 \<le> n \<and> n \<noteq> 215 \<and> n \<noteq> 247))"

text \<open>\<open>to_ascii_uppercase\<close> and \<open>to_ascii_lowercase\<close>.\<close>

definition upper :: "string \<Rightarrow> string" where
  "upper = map (\<lambda>c. let n = of_char c :: nat in if 97 \<le> n \<and> n \<le> 122 then char_of (n - 32) else c)"

definition lower :: "string \<Rightarrow> string" where
  "lower = map (\<lambda>c. let n = of_char c :: nat in if 65 \<le> n \<and> n \<le> 90 then char_of (n + 32) else c)"

definition trim_start :: "string \<Rightarrow> string" where
  "trim_start s = dropWhile is_ws s"

definition trim_end :: "string \<Rightarrow> string" where
  "trim_end s = rev (dropWhile is_ws (rev s))"

definition trim :: "string \<Rightarrow> string" where
  "trim s = trim_end (trim_start s)"

text \<open>\<open>str::split_once\<close>, \<open>str::split\<close> and \<open>str::splitn(2, _)\<close> at a character.\<close>

fun split_once :: "char \<Rightarrow> string \<Rightarrow> (string \<times> string) option" where
  "split_once d [] = None"
| "split_once d (c # cs) =
     (if c = d then Some ([], cs)
      else map_option (\<lambda>(a, b). (c # a, b)) (split_once d cs))"

fun split_chr :: "char \<Rightarrow> string \<Rightarrow> string list" where
  "split_chr d [] = [[]]"
| "split_chr d (c # cs) =
     (if c = d then [] # split_chr d cs
      else (case split_chr d cs of [] \<Rightarrow> [[c]] | p # ps \<Rightarrow> (c # p) # ps))"

definition splitn2 :: "char \<Rightarrow> string \<Rightarrow> string list" where
  "splitn2 d s = (case split_once d s of None \<Rightarrow> [s] | Some (a, b) \<Rightarrow> [a, b])"

text \<open>\<open>str::split_whitespace\<close>.\<close>

fun split_ws_acc :: "string \<Rightarrow> string \<Rightarrow> string list" where
  "split_ws_acc acc [] = (if acc = [] then [] else [rev acc])"
| "split_ws_acc acc (c # cs) =
     (if is_ws c then (if acc = [] then split_ws_acc [] cs else rev acc # split_ws_acc [] cs)
      else split_ws_acc (c # acc) cs)"

definition split_ws :: "string \<Rightarrow> string list" where
  "split_ws s = split_ws_acc [] s"


text \<open>\<open>str::lines\<close>: a line ends at a newline or a carriage return and newline.\<close>

definition strip_cr :: "string \<Rightarrow> string" where
  "strip_cr l = (if l \<noteq> [] \<and> last l = cr then butlast l else l)"

fun lines_acc :: "string \<Rightarrow> string \<Rightarrow> string list" where
  "lines_acc acc [] = (if acc = [] then [] else [rev acc])"
| "lines_acc acc (c # cs) =
     (if c = nl then strip_cr (rev acc) # lines_acc [] cs else lines_acc (c # acc) cs)"

definition str_lines :: "string \<Rightarrow> string list" where
  "str_lines s = lines_acc [] s"

text \<open>\<open>str::strip_prefix\<close>, \<open>strip_suffix\<close>, \<open>starts_with\<close>, \<open>contains\<close>.\<close>

fun strip_prefix :: "'a list \<Rightarrow> 'a list \<Rightarrow> 'a list option" where
  "strip_prefix [] s = Some s"
| "strip_prefix (p # ps) [] = None"
| "strip_prefix (p # ps) (c # cs) = (if p = c then strip_prefix ps cs else None)"

definition starts_with :: "'a list \<Rightarrow> 'a list \<Rightarrow> bool" where
  "starts_with s p = (strip_prefix p s \<noteq> None)"

text \<open>The components of a \<open>Path\<close>, and the equality of paths, which is by components.\<close>

definition path_comps :: "string \<Rightarrow> string list" where
  "path_comps p =
     (let cs = filter (\<lambda>c. c \<noteq> []) (split_chr CHR ''/'' p) in
      if \<not> starts_with p ''/'' \<and> cs \<noteq> [] \<and> hd cs = ''.'' then ''.'' # filter (\<lambda>c. c \<noteq> ''.'') (tl cs)
      else filter (\<lambda>c. c \<noteq> ''.'') cs)"

definition path_eq :: "string \<Rightarrow> string \<Rightarrow> bool" where
  "path_eq p q = (starts_with p ''/'' = starts_with q ''/'' \<and> path_comps p = path_comps q)"

definition strip_suffix :: "'a list \<Rightarrow> 'a list \<Rightarrow> 'a list option" where
  "strip_suffix p s = map_option rev (strip_prefix (rev p) (rev s))"

fun str_contains :: "string \<Rightarrow> string \<Rightarrow> bool" where
  "str_contains p [] = (p = [])"
| "str_contains p (c # cs) = (starts_with (c # cs) p \<or> str_contains p cs)"

definition join :: "'a list \<Rightarrow> 'a list list \<Rightarrow> 'a list" where
  "join sep xss = (case xss of [] \<Rightarrow> [] | x # xs \<Rightarrow> x @ concat (map (\<lambda>y. sep @ y) xs))"

subsection \<open>Decimal numbers\<close>

definition digit_chr :: "nat \<Rightarrow> char" where
  "digit_chr d = char_of (48 + d)"

fun show_nat :: "nat \<Rightarrow> string" where
  "show_nat n = (if n < 10 then [digit_chr n] else show_nat (n div 10) @ [digit_chr (n mod 10)])"

declare show_nat.simps [simp del]

definition show_word :: "'a::len word \<Rightarrow> string" where
  "show_word w = show_nat (unat w)"

definition dec_val :: "string \<Rightarrow> nat" where
  "dec_val s = foldl (\<lambda>a c. 10 * a + (of_char c - 48)) 0 s"

text \<open>
  \<open>str::parse\<close> at an unsigned integer type with values below \<open>bound\<close>: an optional plus
  sign, at least one digit, only digits, and an error on overflow.
\<close>

definition parse_uint :: "nat \<Rightarrow> string \<Rightarrow> nat option" where
  "parse_uint bound s =
     (let t = (case s of [] \<Rightarrow> [] | c # r \<Rightarrow> if c = CHR ''+'' then r else s) in
      if t \<noteq> [] \<and> list_all is_digit t \<and> dec_val t < bound then Some (dec_val t) else None)"

definition parse_word :: "string \<Rightarrow> 'a::len word option" where
  "parse_word s = map_option of_nat (parse_uint (2 ^ LENGTH('a)) s)"

text \<open>\<open>format!("{s:?}")\<close> of a string: quotes, backslashes and control characters are
  escaped, other characters without a printable form (a non-breaking space, a soft hyphen)
  appear by their code point in hexadecimal.\<close>

definition low_hex :: "nat \<Rightarrow> char" where
  "low_hex d = (if d < 10 then char_of (48 + d) else char_of (87 + d))"

definition debug_chr :: "char \<Rightarrow> string" where
  "debug_chr c = (let n = of_char c :: nat in
     if n = 0 then [CHR 0x5C, CHR ''0'']
     else if n = 9 then [CHR 0x5C, CHR ''t'']
     else if n = 10 then [CHR 0x5C, CHR ''n'']
     else if n = 13 then [CHR 0x5C, CHR ''r'']
     else if n = 34 \<or> n = 92 then [CHR 0x5C, c]
     else if n < 32 \<or> (127 \<le> n \<and> n \<le> 160) \<or> n = 173 then
       [CHR 0x5C, CHR ''u'', CHR 0x7B]
       @ (if n < 16 then [low_hex n] else [low_hex (n div 16), low_hex (n mod 16)]) @ [CHR 0x7D]
     else [c])"

definition debug_str :: "string \<Rightarrow> string" where
  "debug_str s = CHR 0x22 # concat (map debug_chr s) @ [CHR 0x22]"

end
