(* ===== verification/Text_Codec.thy ===== *)
theory Text_Codec
  imports Prelude
begin

text \<open>
  Text encodings of the numbers and addresses that travel through configuration files,
  command lines and port specifications: decimal numbers (\<open>to_string\<close> and \<open>parse\<close>
  at the unsigned integer types) and dotted-quad IPv4 addresses (\<open>Ipv4Addr\<close>). The locale
  \<open>text_codec\<close> is the contract the users of these encodings rely on: what was printed
  parses back, and printed text is free of the separators and white space around it.
\<close>

section \<open>Characters and strings\<close>

lemma of_char_digit_chr [simp]: "d < 10 \<Longrightarrow> of_char (digit_chr d) = 48 + d"
  by (simp add: digit_chr_def)

lemma is_digit_digit_chr [simp]: "d < 10 \<Longrightarrow> is_digit (digit_chr d)"
  by (simp add: is_digit_def)

lemma is_digit_not_ws: "is_digit c \<Longrightarrow> \<not> is_ws c"
  by (auto simp: is_digit_def is_ws_def Let_def)

lemma is_digit_neq:
  "is_digit c \<Longrightarrow> c \<noteq> CHR ''+''" "is_digit c \<Longrightarrow> c \<noteq> CHR ''.''"
  "is_digit c \<Longrightarrow> c \<noteq> CHR '':''" "is_digit c \<Longrightarrow> c \<noteq> nl" "is_digit c \<Longrightarrow> c \<noteq> cr"
  by (auto simp: is_digit_def)

lemma trim_clean:
  assumes "s = [] \<or> (\<not> is_ws (hd s) \<and> \<not> is_ws (last s))"
  shows "trim s = s"
proof (cases "s = []")
  case True
  then show ?thesis by (simp add: trim_def trim_start_def trim_end_def)
next
  case False
  with assms have h: "\<not> is_ws (hd s)" and l: "\<not> is_ws (last s)" by auto
  from False h have "trim_start s = s" by (cases s) (auto simp: trim_start_def)
  moreover from False l have "trim_end s = s"
    by (cases s rule: rev_cases) (auto simp: trim_end_def)
  ultimately show ?thesis by (simp add: trim_def)
qed

lemma trim_padded: "list_all is_ws p \<Longrightarrow> trim (p @ s) = trim s"
  by (simp add: trim_def trim_start_def dropWhile_append2 list_all_iff)

text \<open>Words between white space.\<close>

definition is_word :: "string \<Rightarrow> bool" where
  "is_word w = (w \<noteq> [] \<and> list_all (\<lambda>c. \<not> is_ws c) w)"

lemma split_ws_acc_word: "list_all (\<lambda>c. \<not> is_ws c) w \<Longrightarrow> split_ws_acc acc (w @ r) = split_ws_acc (rev w @ acc) r"
  by (induction w arbitrary: acc) auto

lemma split_ws_simps [str_simps]:
  "split_ws [] = []" "is_ws c \<Longrightarrow> split_ws (c # r) = split_ws r" "is_word w \<Longrightarrow> split_ws w = [w]"
  "is_word w \<Longrightarrow> is_ws c \<Longrightarrow> split_ws (w @ c # r) = w # split_ws r"
  using split_ws_acc_word[of w "[]" "[]"] split_ws_acc_word[of w "[]" "c # r"]
  by (simp_all add: split_ws_def is_word_def)

lemma split_once_None: "d \<notin> set s \<Longrightarrow> split_once d s = None"
  by (induction s) auto

lemma split_once_append [str_simps]:
  "d \<notin> set a \<Longrightarrow> split_once d (a @ d # b) = Some (a, b)"
  by (induction a) auto

lemma split_once_Some: "split_once d s = Some (a, b) \<longleftrightarrow> s = a @ d # b \<and> d \<notin> set a"
proof (induction s arbitrary: a)
  case (Cons c cs)
  show ?case
  proof (cases "c = d")
    case True
    then show ?thesis by (cases a) auto
  next
    case False
    then show ?thesis using Cons.IH by (cases a) (auto split: prod.splits)
  qed
qed simp

lemma split_chr_single [str_simps]: "d \<notin> set s \<Longrightarrow> split_chr d s = [s]"
  by (induction s) auto

lemma split_chr_append [str_simps]:
  "d \<notin> set a \<Longrightarrow> split_chr d (a @ d # b) = a # split_chr d b"
  by (induction a) auto

lemma split_chr_not_Nil [simp]: "split_chr d s \<noteq> []"
  by (induction s) (auto split: list.splits)

lemma lines_acc_app:
  "lines_acc acc (s @ nl # t) = lines_acc acc (s @ [nl]) @ str_lines t"
  by (induction s arbitrary: acc) (auto simp: str_lines_def)

lemma str_lines_app: "str_lines (s @ nl # t) = str_lines (s @ [nl]) @ str_lines t"
  unfolding str_lines_def using lines_acc_app[of "[]" s t] by (simp add: str_lines_def)

lemma lines_acc_no_nl:
  "nl \<notin> set s \<Longrightarrow> lines_acc acc (s @ [nl]) = [strip_cr (rev acc @ s)]"
  by (induction s arbitrary: acc) auto

lemma str_lines_one:
  "nl \<notin> set s \<Longrightarrow> s = [] \<or> last s \<noteq> cr \<Longrightarrow> str_lines (s @ [nl]) = [s]"
  unfolding str_lines_def by (subst lines_acc_no_nl) (auto simp: strip_cr_def)

lemma strip_prefix_append [simp]: "strip_prefix p (p @ s) = Some s"
  by (induction p) auto

lemma strip_prefix_Some: "strip_prefix p s = Some t \<longleftrightarrow> s = p @ t"
  by (induction p s rule: strip_prefix.induct) auto

section \<open>Decimal numbers\<close>

lemma dec_val_append: "dec_val (s @ [c]) = 10 * dec_val s + (of_char c - 48)"
  by (simp add: dec_val_def)

lemma show_nat_not_Nil [simp]: "show_nat n \<noteq> []"
  by (subst show_nat.simps) simp

lemma show_nat_digits: "list_all is_digit (show_nat n)"
proof (induction n rule: show_nat.induct)
  case (1 n)
  then show ?case by (subst show_nat.simps) simp
qed

lemma dec_val_show_nat [codec_simps]: "dec_val (show_nat n) = n"
proof (induction n rule: show_nat.induct)
  case (1 n)
  show ?case
  proof (cases "n < 10")
    case True
    then show ?thesis by (subst show_nat.simps) (simp add: dec_val_def)
  next
    case False
    with 1 show ?thesis by (subst show_nat.simps) (simp add: dec_val_append)
  qed
qed

lemma show_nat_inject [simp]: "show_nat a = show_nat b \<longleftrightarrow> a = b"
  by (metis dec_val_show_nat)

lemma digits_set: "list_all is_digit s \<Longrightarrow> c \<in> set s \<Longrightarrow> is_digit c"
  by (simp add: list_all_iff)

lemma show_nat_no: "\<not> is_digit c \<Longrightarrow> c \<notin> set (show_nat n)"
  using show_nat_digits digits_set by blast

lemma not_digit_seps [simp]:
  "\<not> is_digit CHR ''+''" "\<not> is_digit CHR ''.''" "\<not> is_digit CHR '':''" "\<not> is_digit nl"
  "\<not> is_digit cr" "\<not> is_digit CHR ''=''" "\<not> is_digit CHR ''#''" "\<not> is_digit CHR '' ''"
  "\<not> is_digit CHR ''/''" "\<not> is_digit CHR '',''"
  by (simp_all add: is_digit_def)

lemma parse_uint_digits:
  assumes "s \<noteq> []" and "list_all is_digit s"
  shows "parse_uint b s = (if dec_val s < b then Some (dec_val s) else None)"
proof -
  from assms obtain c r where s: "s = c # r" and "is_digit c" by (cases s) auto
  then have "c \<noteq> CHR ''+''" by (auto simp: is_digit_def)
  with s assms show ?thesis by (simp add: parse_uint_def)
qed

lemma parse_uint_show [codec_simps]: "parse_uint b (show_nat n) = (if n < b then Some n else None)"
  by (simp add: parse_uint_digits show_nat_digits dec_val_show_nat)

lemma parse_uint_bound: "parse_uint b s = Some n \<Longrightarrow> n < b"
  by (auto simp: parse_uint_def Let_def split: if_splits list.splits)

lemma parse_word_show [codec_simps]:
  fixes w :: "'a::len word"
  shows "parse_word (show_word w) = Some w"
  by (simp add: parse_word_def show_word_def parse_uint_show unsigned_less)

lemma parse_word_nonempty: "parse_word s = Some w \<Longrightarrow> s \<noteq> []"
  by (auto simp: parse_word_def parse_uint_def)

section \<open>The contract of a text encoding\<close>

locale text_codec =
  fixes enc :: "'a \<Rightarrow> string" and dec :: "string \<Rightarrow> 'a option"
  assumes dec_enc: "dec (enc x) = Some x"
    and enc_not_Nil: "enc x \<noteq> []"
    and enc_no_ws: "c \<in> set (enc x) \<Longrightarrow> \<not> is_ws c"
    and enc_no_colon: "CHR '':'' \<notin> set (enc x)"
begin

lemma enc_inject: "enc x = enc y \<longleftrightarrow> x = y"
  using dec_enc by (metis option.inject)

lemma trim_enc: "trim (enc x) = enc x"
  using enc_no_ws[OF hd_in_set[OF enc_not_Nil]] enc_no_ws[OF last_in_set[OF enc_not_Nil]]
  by (intro trim_clean) simp

lemma enc_no_nl: "nl \<notin> set (enc x)"
  using enc_no_ws by (force simp: is_ws_def)

lemma enc_no_cr: "cr \<notin> set (enc x)"
  using enc_no_ws by (force simp: is_ws_def)

lemma dec_trim_padded: "list_all is_ws p \<Longrightarrow> dec (trim (p @ enc x)) = Some x"
  by (simp add: trim_padded trim_enc dec_enc)

lemma split_pair: "split_once CHR '':'' (enc x @ CHR '':'' # s) = Some (enc x, s)"
  by (simp add: split_once_append enc_no_colon)

end

lemma show_word_clean:
  "show_word w \<noteq> []" "c \<in> set (show_word w) \<Longrightarrow> \<not> is_ws c" "CHR '':'' \<notin> set (show_word w)"
  "CHR ''.'' \<notin> set (show_word w)"
  using digits_set[OF show_nat_digits] is_digit_not_ws
  by (auto simp: show_word_def show_nat_no)

interpretation u16_text: text_codec "show_word :: u16 \<Rightarrow> string" parse_word
  by unfold_locales (simp_all add: parse_word_show show_word_clean)

interpretation u32_text: text_codec "show_word :: u32 \<Rightarrow> string" parse_word
  by unfold_locales (simp_all add: parse_word_show show_word_clean)

interpretation usize_text: text_codec "show_word :: u64 \<Rightarrow> string" parse_word
  by unfold_locales (simp_all add: parse_word_show show_word_clean)

section \<open>IPv4 addresses\<close>

type_synonym ipv4 = "u8 \<times> u8 \<times> u8 \<times> u8"

fun octets :: "ipv4 \<Rightarrow> bytes" where
  "octets (a, b, c, d) = [a, b, c, d]"

text \<open>\<open>Display for Ipv4Addr\<close>.\<close>

fun show_ipv4 :: "ipv4 \<Rightarrow> string" where
  "show_ipv4 (a, b, c, d) =
     show_word a @ CHR ''.'' # show_word b @ CHR ''.'' # show_word c @ CHR ''.'' # show_word d"

text \<open>
  \<open>FromStr for Ipv4Addr\<close>: four decimal groups of one to three digits separated by dots,
  each at most 255 and without a leading zero unless it is the single digit zero.
\<close>

definition parse_octet :: "string \<Rightarrow> u8 option" where
  "parse_octet s =
     (if s \<noteq> [] \<and> length s \<le> 3 \<and> list_all is_digit s \<and> (hd s = CHR ''0'' \<longrightarrow> length s = 1)
         \<and> dec_val s < 256
      then Some (of_nat (dec_val s)) else None)"

definition parse_ipv4 :: "string \<Rightarrow> ipv4 option" where
  "parse_ipv4 s =
     (case split_chr CHR ''.'' s of
        [a, b, c, d] \<Rightarrow>
          (case (parse_octet a, parse_octet b, parse_octet c, parse_octet d) of
             (Some a', Some b', Some c', Some d') \<Rightarrow> Some (a', b', c', d')
           | _ \<Rightarrow> None)
      | _ \<Rightarrow> None)"

lemma show_nat_shape:
  "length (show_nat n) \<le> 3 \<and> (hd (show_nat n) = CHR ''0'' \<longrightarrow> length (show_nat n) = 1)"
  if "n < 256"
proof -
  have one: "show_nat m = [digit_chr m]" if "m < 10" for m
    using that by (subst show_nat.simps) simp
  have two: "show_nat m = [digit_chr (m div 10), digit_chr (m mod 10)]" if "10 \<le> m" "m < 100" for m
    using that by (subst show_nat.simps) (simp add: one)
  have three: "show_nat m = [digit_chr (m div 100), digit_chr (m div 10 mod 10), digit_chr (m mod 10)]"
    if "100 \<le> m" "m < 256" for m
    using that by (subst show_nat.simps) (simp add: two div_mult2_eq[symmetric])
  have nz: "digit_chr d \<noteq> CHR ''0''" if "0 < d" "d < 10" for d
  proof
    assume "digit_chr d = CHR ''0''"
    then have "of_char (digit_chr d) = (48::nat)" by simp
    with that show False by simp
  qed
  consider "n < 10" | "10 \<le> n" "n < 100" | "100 \<le> n" by linarith
  then show ?thesis using that by cases (simp_all add: one two three nz)
qed

lemma parse_octet_show [codec_simps]: "parse_octet (show_word (w :: u8)) = Some w"
proof -
  have "unat w < 256" by (rule unat_bounds)
  then show ?thesis
    using show_nat_shape[of "unat w"]
    by (simp add: parse_octet_def show_word_def show_nat_digits dec_val_show_nat)
qed

lemma parse_show_ipv4 [codec_simps]: "parse_ipv4 (show_ipv4 ip) = Some ip"
  by (cases ip)
     (simp add: parse_ipv4_def split_chr_append split_chr_single show_word_clean parse_octet_show)

lemma show_ipv4_clean:
  "show_ipv4 ip \<noteq> []" "c \<in> set (show_ipv4 ip) \<Longrightarrow> \<not> is_ws c" "CHR '':'' \<notin> set (show_ipv4 ip)"
  by (cases ip; auto simp: show_word_clean; force simp: is_ws_def)+

interpretation ipv4_text: text_codec show_ipv4 parse_ipv4
  by unfold_locales (simp_all add: parse_show_ipv4 show_ipv4_clean)

end
