(* ===== verification/State_Dir.thy ===== *)
theory State_Dir
  imports Text_Codec "HOL-Library.Monad_Syntax"
begin

text \<open>
  The state directory of \<open>pelagos-mac/src/state.rs\<close>: where the files of a profile live, the
  pid file, the mounts and extra-disk files, the parser of a profile's \<open>vm.conf\<close>, and the
  allocation of one IPv4 subnet per profile, which keeps the networks of machines that run
  at the same time apart. The file system is a map from paths to contents.
\<close>

section \<open>Files\<close>

datatype io_err = NotFound string | InvalidData string | OtherErr string

text \<open>
  \<open>files\<close> gives the text of a file, or the error of a file that exists but cannot be read.
  \<open>listing\<close> is what reading the directory of named profiles returns, \<open>None\<close> when it cannot
  be read. \<open>write_err\<close> is the error of creating or writing at a path.
\<close>

record fs =
  files :: "string \<Rightarrow> (string + string) option"
  listing :: "string list option"
  write_err :: "string \<Rightarrow> string option"

record env =
  xdg_data_home :: "string option"
  home_dir :: "string option"

text \<open>\<open>Path::join\<close>: an absolute argument replaces the path.\<close>

definition path_join :: "string \<Rightarrow> string \<Rightarrow> string" where
  "path_join a b =
     (if starts_with b ''/'' then b
      else if a = [] \<or> last a = CHR ''/'' then a @ b else a @ ''/'' @ b)"

text \<open>\<open>Path::with_extension\<close>: the part of the file name after its last dot is replaced; a
  dot at the start of the name does not begin an extension.\<close>

definition file_name :: "string \<Rightarrow> string" where
  "file_name p = rev (takeWhile (\<lambda>c. c \<noteq> CHR ''/'') (rev p))"

definition parent_part :: "string \<Rightarrow> string" where
  "parent_part p = rev (dropWhile (\<lambda>c. c \<noteq> CHR ''/'') (rev p))"

definition file_stem :: "string \<Rightarrow> string" where
  "file_stem n =
     (if CHR ''.'' \<in> set (tl n) then rev (tl (dropWhile (\<lambda>c. c \<noteq> CHR ''.'') (rev n))) else n)"

definition with_extension :: "string \<Rightarrow> string \<Rightarrow> string" where
  "with_extension p e = parent_part p @ file_stem (file_name p) @ ''.'' @ e"

definition read_to_string :: "fs \<Rightarrow> string \<Rightarrow> io_err + string" where
  "read_to_string f p =
     (case files f p of
        None \<Rightarrow> Inl (NotFound p)
      | Some (Inl e) \<Rightarrow> Inl (OtherErr e)
      | Some (Inr t) \<Rightarrow> Inr t)"

definition write_file :: "string \<Rightarrow> string \<Rightarrow> fs \<Rightarrow> (io_err + unit) \<times> fs" where
  "write_file p t f =
     (case write_err f p of
        Some e \<Rightarrow> (Inl (OtherErr e), f)
      | None \<Rightarrow> (Inr (), f\<lparr>files := (files f)(p := Some (Inr t))\<rparr>))"

definition rename_file :: "string \<Rightarrow> string \<Rightarrow> fs \<Rightarrow> (io_err + unit) \<times> fs" where
  "rename_file a b f =
     (case files f a of
        None \<Rightarrow> (Inl (NotFound a), f)
      | Some t \<Rightarrow>
          (case write_err f b of
             Some e \<Rightarrow> (Inl (OtherErr e), f)
           | None \<Rightarrow> (Inr (), f\<lparr>files := (files f)(a := None, b := Some t)\<rparr>)))"

definition remove_file :: "string \<Rightarrow> fs \<Rightarrow> fs" where
  "remove_file p f = f\<lparr>files := (files f)(p := None)\<rparr>"

text \<open>Opening for append and writing a line; the file is created when absent.\<close>

definition append_file :: "string \<Rightarrow> string \<Rightarrow> fs \<Rightarrow> (io_err + unit) \<times> fs" where
  "append_file p t f =
     (case write_err f p of
        Some e \<Rightarrow> (Inl (OtherErr e), f)
      | None \<Rightarrow>
          (Inr (), f\<lparr>files := (files f)(p := Some (case files f p of
              None \<Rightarrow> Inr t
            | Some (Inr old) \<Rightarrow> Inr (old @ t)
            | Some (Inl e) \<Rightarrow> Inl e))\<rparr>))"

section \<open>Profile configuration\<close>

datatype ping_mode = Vsock | Ssh

record vm_profile_config =
  disk :: "string option"
  kernel :: "string option"
  initrd :: "string option"
  memory :: "u64 option"
  cpus :: "u64 option"
  ping_mode :: ping_mode
  cmdline :: "string option"
  vm_ip :: "ipv4 option"

definition config_default :: vm_profile_config where
  "config_default = \<lparr>disk = None, kernel = None, initrd = None, memory = None, cpus = None,
     ping_mode = Vsock, cmdline = None, vm_ip = None\<rparr>"

definition config_key :: "string \<Rightarrow> string \<Rightarrow> vm_profile_config \<Rightarrow> vm_profile_config" where
  "config_key key val cfg =
     (if key = ''disk'' then cfg\<lparr>disk := Some val\<rparr>
      else if key = ''kernel'' then cfg\<lparr>kernel := Some val\<rparr>
      else if key = ''initrd'' then cfg\<lparr>initrd := Some val\<rparr>
      else if key = ''memory'' then cfg\<lparr>memory := parse_word val\<rparr>
      else if key = ''cpus'' then cfg\<lparr>cpus := parse_word val\<rparr>
      else if key = ''ping_mode'' then cfg\<lparr>ping_mode := (if val = ''ssh'' then Ssh else Vsock)\<rparr>
      else if key = ''cmdline'' then cfg\<lparr>cmdline := Some val\<rparr>
      else if key = ''vm_ip'' then cfg\<lparr>vm_ip := parse_ipv4 val\<rparr>
      else cfg)"

definition config_line :: "string \<Rightarrow> vm_profile_config \<Rightarrow> vm_profile_config" where
  "config_line raw cfg =
     (let line = trim raw in
      if line = [] \<or> starts_with line ''#'' then cfg
      else (case split_once CHR ''='' line of
              None \<Rightarrow> cfg
            | Some (key, val) \<Rightarrow> config_key (trim key) (trim val) cfg))"

definition parse_conf :: "string \<Rightarrow> vm_profile_config" where
  "parse_conf text = fold config_line (str_lines text) config_default"

definition load_path :: "fs \<Rightarrow> string \<Rightarrow> io_err + vm_profile_config" where
  "load_path f path =
     (case read_to_string f path of
        Inr t \<Rightarrow> Inr (parse_conf t)
      | Inl (NotFound _) \<Rightarrow> Inr config_default
      | Inl e \<Rightarrow> Inl e)"

section \<open>Directories\<close>

definition pelagos_base :: "env \<Rightarrow> io_err + string" where
  "pelagos_base e =
     (case xdg_data_home e of
        Some xdg \<Rightarrow> Inr (path_join xdg ''pelagos'')
      | None \<Rightarrow>
          (case home_dir e of
             None \<Rightarrow> Inl (NotFound ''$HOME not set'')
           | Some h \<Rightarrow> Inr (path_join h ''.local/share/pelagos'')))"

definition profile_dir :: "env \<Rightarrow> string \<Rightarrow> io_err + string" where
  "profile_dir e name =
     (case pelagos_base e of
        Inl x \<Rightarrow> Inl x
      | Inr base \<Rightarrow>
          if name = ''default'' then Inr base else Inr (path_join (path_join base ''profiles'') name))"

definition global_ssh_key_file :: "env \<Rightarrow> io_err + string" where
  "global_ssh_key_file e =
     (case pelagos_base e of Inl x \<Rightarrow> Inl x | Inr base \<Rightarrow> Inr (path_join base ''vm_key''))"

definition load_conf :: "env \<Rightarrow> fs \<Rightarrow> string \<Rightarrow> io_err + vm_profile_config" where
  "load_conf e f profile =
     (case profile_dir e profile of Inl x \<Rightarrow> Inl x | Inr d \<Rightarrow> load_path f (path_join d ''vm.conf''))"

text \<open>\<open>create_dir_all\<close> of a profile directory: a new named profile appears in the listing.\<close>

definition create_profile_dir :: "string \<Rightarrow> string \<Rightarrow> fs \<Rightarrow> (io_err + unit) \<times> fs" where
  "create_profile_dir dir name f =
     (case write_err f dir of
        Some e \<Rightarrow> (Inl (OtherErr e), f)
      | None \<Rightarrow>
          (Inr (), if name = ''default'' then f
                   else (let old = (case listing f of None \<Rightarrow> [] | Some l \<Rightarrow> l)
                         in if name \<in> set old then f else f\<lparr>listing := Some (old @ [name])\<rparr>)))"

section \<open>The state files of a profile\<close>

record state_dir =
  pid_file :: string
  sock_file :: string
  console_sock_file :: string
  mounts_file :: string
  ports_file :: string
  extra_disks_file :: string

definition open_profile :: "env \<Rightarrow> string \<Rightarrow> fs \<Rightarrow> (io_err + state_dir) \<times> fs" where
  "open_profile e name f =
     (case profile_dir e name of
        Inl x \<Rightarrow> (Inl x, f)
      | Inr base \<Rightarrow>
          (case create_profile_dir base name f of
             (Inl x, f') \<Rightarrow> (Inl x, f')
           | (Inr _, f') \<Rightarrow>
               (Inr \<lparr>pid_file = path_join base ''vm.pid'', sock_file = path_join base ''vm.sock'',
                     console_sock_file = path_join base ''console.sock'',
                     mounts_file = path_join base ''vm.mounts'',
                     ports_file = path_join base ''vm.ports'',
                     extra_disks_file = path_join base ''vm.extra_disks''\<rparr>, f')))"

text \<open>\<open>kill pid 0\<close> is the system's answer for the signed process id.\<close>

definition running_pid :: "(int \<Rightarrow> bool) \<Rightarrow> fs \<Rightarrow> state_dir \<Rightarrow> u32 option" where
  "running_pid kill0 f sd =
     (case read_to_string f (pid_file sd) of
        Inl _ \<Rightarrow> None
      | Inr s \<Rightarrow>
          (case parse_word (trim s) of
             None \<Rightarrow> None
           | Some (pid :: u32) \<Rightarrow> if kill0 (sint pid) then Some pid else None))"

definition is_daemon_alive :: "(int \<Rightarrow> bool) \<Rightarrow> fs \<Rightarrow> state_dir \<Rightarrow> bool" where
  "is_daemon_alive kill0 f sd = (running_pid kill0 f sd \<noteq> None)"

text \<open>Writing next to the file and renaming.\<close>

definition write_via_tmp :: "string \<Rightarrow> string \<Rightarrow> string \<Rightarrow> fs \<Rightarrow> (io_err + unit) \<times> fs" where
  "write_via_tmp path ext text f =
     (let tmp = with_extension path ext in
      case write_file tmp text f of
        (Inl x, f') \<Rightarrow> (Inl x, f')
      | (Inr _, f') \<Rightarrow> rename_file tmp path f')"

definition write_pid :: "state_dir \<Rightarrow> u32 \<Rightarrow> fs \<Rightarrow> (io_err + unit) \<times> fs" where
  "write_pid sd pid f = write_via_tmp (pid_file sd) ''pid.tmp'' (show_word pid) f"

text \<open>The JSON library is a parameter: a printer and a parser that can fail.\<close>

definition write_mounts ::
  "('m \<Rightarrow> string + string) \<Rightarrow> state_dir \<Rightarrow> 'm \<Rightarrow> fs \<Rightarrow> (io_err + unit) \<times> fs" where
  "write_mounts to_json sd mounts f =
     (case to_json mounts of
        Inl e \<Rightarrow> (Inl (InvalidData e), f)
      | Inr json \<Rightarrow> write_via_tmp (mounts_file sd) ''mounts.tmp'' json f)"

definition read_mounts :: "(string \<Rightarrow> string + 'm list) \<Rightarrow> fs \<Rightarrow> state_dir \<Rightarrow> io_err + 'm list" where
  "read_mounts from_json f sd =
     (case read_to_string f (mounts_file sd) of
        Inr s \<Rightarrow> (case from_json s of Inl e \<Rightarrow> Inl (InvalidData e) | Inr m \<Rightarrow> Inr m)
      | Inl (NotFound _) \<Rightarrow> Inr []
      | Inl e \<Rightarrow> Inl e)"

definition write_extra_disks ::
  "(string list \<Rightarrow> string + string) \<Rightarrow> state_dir \<Rightarrow> string list \<Rightarrow> fs \<Rightarrow> (io_err + unit) \<times> fs" where
  "write_extra_disks to_json sd paths f =
     (case to_json paths of
        Inl e \<Rightarrow> (Inl (InvalidData e), f)
      | Inr json \<Rightarrow> write_via_tmp (extra_disks_file sd) ''extra_disks.tmp'' json f)"

definition read_extra_disks ::
  "(string \<Rightarrow> string + string list) \<Rightarrow> fs \<Rightarrow> state_dir \<Rightarrow> io_err + string list" where
  "read_extra_disks from_json f sd =
     (case read_to_string f (extra_disks_file sd) of
        Inr s \<Rightarrow> (case from_json s of Inl e \<Rightarrow> Inl (InvalidData e) | Inr m \<Rightarrow> Inr m)
      | Inl (NotFound _) \<Rightarrow> Inr []
      | Inl e \<Rightarrow> Inl e)"

definition clear_state :: "state_dir \<Rightarrow> fs \<Rightarrow> fs" where
  "clear_state sd f =
     remove_file (extra_disks_file sd) (remove_file (ports_file sd) (remove_file (mounts_file sd)
       (remove_file (console_sock_file sd) (remove_file (sock_file sd) (remove_file (pid_file sd) f)))))"

section \<open>Subnet allocation\<close>

definition DEFAULT_GUEST_IP :: ipv4 where "DEFAULT_GUEST_IP = (192, 168, 105, 2)"

definition conf_line_of_ip :: "ipv4 \<Rightarrow> string" where
  "conf_line_of_ip ip = ''vm_ip = '' @ show_ipv4 ip @ [nl]"

definition append_vm_ip_to_conf :: "env \<Rightarrow> string \<Rightarrow> ipv4 \<Rightarrow> fs \<Rightarrow> (io_err + unit) \<times> fs" where
  "append_vm_ip_to_conf e profile ip f =
     (case profile_dir e profile of
        Inl x \<Rightarrow> (Inl x, f)
      | Inr dir \<Rightarrow>
          (case create_profile_dir dir profile f of
             (Inl x, f') \<Rightarrow> (Inl x, f')
           | (Inr _, f') \<Rightarrow> append_file (path_join dir ''vm.conf'') (conf_line_of_ip ip) f'))"

fun third_octet :: "ipv4 \<Rightarrow> u8" where
  "third_octet (a, b, c, d) = c"

definition taken_default :: "env \<Rightarrow> fs \<Rightarrow> u8" where
  "taken_default e f =
     (case load_conf e f ''default'' of
        Inr c \<Rightarrow> (case vm_ip c of Some ip \<Rightarrow> third_octet ip | None \<Rightarrow> 105)
      | Inl _ \<Rightarrow> 105)"

definition taken_of :: "env \<Rightarrow> fs \<Rightarrow> string \<Rightarrow> u8 option" where
  "taken_of e f pname =
     (case load_conf e f pname of
        Inr c \<Rightarrow> map_option third_octet (vm_ip c)
      | Inl _ \<Rightarrow> None)"

definition taken :: "env \<Rightarrow> fs \<Rightarrow> string \<Rightarrow> u8 list" where
  "taken e f profile =
     taken_default e f #
     (case listing f of
        None \<Rightarrow> []
      | Some names \<Rightarrow> List.map_filter (taken_of e f) (filter (\<lambda>n. n \<noteq> profile) names))"

definition candidates :: "u8 list" where
  "candidates = map of_nat [106..<255]"

definition ensure_vm_ip :: "env \<Rightarrow> string \<Rightarrow> fs \<Rightarrow> (io_err + ipv4) \<times> fs" where
  "ensure_vm_ip e profile f =
     (case load_conf e f profile of
        Inl x \<Rightarrow> (Inl x, f)
      | Inr conf \<Rightarrow>
          (case vm_ip conf of
             Some ip \<Rightarrow> (Inr ip, f)
           | None \<Rightarrow>
               if profile = ''default'' then
                 (case append_vm_ip_to_conf e profile DEFAULT_GUEST_IP f of
                    (Inl x, f') \<Rightarrow> (Inl x, f')
                  | (Inr _, f') \<Rightarrow> (Inr DEFAULT_GUEST_IP, f'))
               else
                 (case pelagos_base e of
                    Inl x \<Rightarrow> (Inl x, f)
                  | Inr _ \<Rightarrow>
                      (case find (\<lambda>n. n \<notin> set (taken e f profile)) candidates of
                         None \<Rightarrow> (Inl (OtherErr ''no available VM subnet (all 192.168.106-254 in use)''), f)
                       | Some n \<Rightarrow>
                           (case append_vm_ip_to_conf e profile (192, 168, n, 2) f of
                              (Inl x, f') \<Rightarrow> (Inl x, f')
                            | (Inr _, f') \<Rightarrow> (Inr (192, 168, n, 2), f'))))))"

section \<open>The configuration parser\<close>

text \<open>A configuration text to which a line can be appended: empty, or ending with a newline.\<close>

definition line_ended :: "string \<Rightarrow> bool" where
  "line_ended t = (t = [] \<or> last t = nl)"

lemma str_lines_line_ended: "line_ended t \<Longrightarrow> str_lines (t @ u) = str_lines t @ str_lines u"
proof (cases "t = []")
  case False
  assume "line_ended t"
  with False obtain s where "t = s @ [nl]" unfolding line_ended_def by (metis append_butlast_last_id)
  then show ?thesis using str_lines_app[of s u] by simp
qed (simp add: str_lines_def)

lemma config_line_vm_ip:
  "config_line (''vm_ip = '' @ show_ipv4 ip) cfg = cfg\<lparr>vm_ip := Some ip\<rparr>"
proof -
  have ne: "show_ipv4 ip \<noteq> []" and ws: "\<not> is_ws (last (show_ipv4 ip))" "\<not> is_ws (hd (show_ipv4 ip))"
    using ipv4_text.enc_not_Nil ipv4_text.enc_no_ws[OF last_in_set[OF ipv4_text.enc_not_Nil]]
      ipv4_text.enc_no_ws[OF hd_in_set[OF ipv4_text.enc_not_Nil]] by auto
  have "trim (''vm_ip = '' @ show_ipv4 ip) = ''vm_ip = '' @ show_ipv4 ip"
    using ne ws by (intro trim_clean) (auto simp: is_ws_def)
  moreover have "split_once CHR ''='' (''vm_ip = '' @ show_ipv4 ip) = Some (''vm_ip '', '' '' @ show_ipv4 ip)"
    by simp
  moreover have "trim ''vm_ip '' = ''vm_ip''"
    by (simp add: trim_def trim_start_def trim_end_def is_ws_def)
  moreover have "trim ('' '' @ show_ipv4 ip) = show_ipv4 ip"
    using ipv4_text.trim_enc trim_padded[of "'' ''" "show_ipv4 ip"] by (simp add: is_ws_def)
  ultimately show ?thesis
    by (simp add: config_line_def starts_with_def config_key_def parse_show_ipv4)
qed

lemma parse_conf_append:
  assumes "line_ended t"
  shows "parse_conf (t @ conf_line_of_ip ip) = (parse_conf t)\<lparr>vm_ip := Some ip\<rparr>"
proof -
  define l where "l = ''vm_ip = '' @ show_ipv4 ip"
  have "nl \<notin> set l" using ipv4_text.enc_no_nl[of ip] by (simp add: l_def)
  moreover have "last l \<noteq> cr"
    using ipv4_text.enc_no_cr[of ip] ipv4_text.enc_not_Nil[of ip]
    by (metis l_def last_append last_in_set)
  ultimately have "str_lines (l @ [nl]) = [l]" by (intro str_lines_one) auto
  moreover have "conf_line_of_ip ip = l @ [nl]" by (simp add: conf_line_of_ip_def l_def)
  moreover have "config_line l cfg = cfg\<lparr>vm_ip := Some ip\<rparr>" for cfg
    unfolding l_def by (rule config_line_vm_ip)
  ultimately show ?thesis by (simp add: parse_conf_def str_lines_line_ended[OF assms])
qed

section \<open>Where the configuration files are\<close>

text \<open>Profile names that are a single path component.\<close>

definition valid_profile :: "string \<Rightarrow> bool" where
  "valid_profile p = (p \<noteq> [] \<and> CHR ''/'' \<notin> set p \<and> p \<noteq> ''.'' \<and> p \<noteq> ''..'')"

definition conf_path :: "string \<Rightarrow> string \<Rightarrow> string" where
  "conf_path base p =
     (if p = ''default'' then base @ ''/vm.conf'' else base @ ''/profiles/'' @ p @ ''/vm.conf'')"

lemma conf_path_inject:
  assumes "conf_path b p = conf_path b q"
  shows "p = q"
proof -
  have "b @ ''/profiles/'' @ x @ ''/vm.conf'' \<noteq> b @ ''/vm.conf''" for x
    by (simp add: append_eq_append_conv2)
  then show ?thesis using assms by (auto simp: conf_path_def split: if_splits)
qed

lemma base_shape:
  assumes "pelagos_base e = Inr b"
  shows "b \<noteq> []" "last b \<noteq> CHR ''/''"
  using assms by (auto simp: pelagos_base_def path_join_def starts_with_def split: option.splits if_splits)

lemma path_join_rel:
  "a \<noteq> [] \<Longrightarrow> last a \<noteq> CHR ''/'' \<Longrightarrow> \<not> starts_with b ''/'' \<Longrightarrow> path_join a b = a @ ''/'' @ b"
  by (simp add: path_join_def)

lemma valid_relative: "valid_profile p \<Longrightarrow> \<not> starts_with p ''/'' \<and> p \<noteq> [] \<and> last p \<noteq> CHR ''/''"
  using last_in_set[of p] by (cases p) (auto simp: valid_profile_def starts_with_def)

lemma profile_dir_conf:
  assumes "pelagos_base e = Inr b" "valid_profile p"
  shows "\<exists>d. profile_dir e p = Inr d \<and> path_join d ''vm.conf'' = conf_path b p"
proof -
  have rel: "\<not> starts_with ''profiles'' ''/''" "\<not> starts_with ''vm.conf'' ''/''"
    by (simp_all add: starts_with_def)
  show ?thesis
    using base_shape[OF assms(1)] valid_relative[OF assms(2)] assms(1) rel
    by (simp add: profile_dir_def conf_path_def path_join_rel)
qed

lemma load_conf_path:
  assumes "pelagos_base e = Inr b" "valid_profile p"
  shows "load_conf e f p = load_path f (conf_path b p)"
  using profile_dir_conf[OF assms] by (auto simp: load_conf_def)

section \<open>Allocation\<close>

text \<open>The address a profile is configured with.\<close>

definition ip_of :: "env \<Rightarrow> fs \<Rightarrow> string \<Rightarrow> ipv4 option" where
  "ip_of e f p = (case load_conf e f p of Inr c \<Rightarrow> vm_ip c | Inl _ \<Rightarrow> None)"

text \<open>
  The invariant of the state directory: the configuration files are readable and end with a
  newline, a named profile with a configuration is listed, two profiles never have addresses
  in the same subnet, and the default subnet is left to the default profile.
\<close>

definition alloc_inv :: "env \<Rightarrow> fs \<Rightarrow> bool" where
  "alloc_inv e f =
     (\<exists>b. pelagos_base e = Inr b \<and>
      (\<forall>p x. valid_profile p \<longrightarrow> files f (conf_path b p) = Some x \<longrightarrow> (\<exists>t. x = Inr t \<and> line_ended t)) \<and>
      (\<forall>p. valid_profile p \<longrightarrow> p \<noteq> ''default'' \<longrightarrow> files f (conf_path b p) \<noteq> None \<longrightarrow>
         (\<exists>l. listing f = Some l \<and> p \<in> set l)) \<and>
      (\<forall>p q i k. valid_profile p \<longrightarrow> valid_profile q \<longrightarrow> p \<noteq> q \<longrightarrow> ip_of e f p = Some i \<longrightarrow>
         ip_of e f q = Some k \<longrightarrow> third_octet i \<noteq> third_octet k) \<and>
      (\<forall>p i. valid_profile p \<longrightarrow> p \<noteq> ''default'' \<longrightarrow> ip_of e f p = Some i \<longrightarrow> third_octet i \<noteq> 105))"

lemma ip_of_no_conf:
  "pelagos_base e = Inr b \<Longrightarrow> valid_profile p \<Longrightarrow> files f (conf_path b p) = None \<Longrightarrow> ip_of e f p = None"
  by (simp add: ip_of_def load_conf_path load_path_def read_to_string_def config_default_def)

text \<open>A file system without configurations satisfies it.\<close>

lemma alloc_inv_fresh:
  "pelagos_base e = Inr b \<Longrightarrow> (\<forall>p. files f (conf_path b p) = None) \<Longrightarrow> alloc_inv e f"
  by (simp add: alloc_inv_def ip_of_no_conf)

lemma load_conf_ok:
  assumes "alloc_inv e f" "valid_profile p"
  shows "\<exists>c. load_conf e f p = Inr c \<and> vm_ip c = ip_of e f p"
proof -
  obtain b where "pelagos_base e = Inr b" using assms(1) by (auto simp: alloc_inv_def)
  then show ?thesis
    using assms by (fastforce simp: ip_of_def load_conf_path load_path_def read_to_string_def alloc_inv_def
        split: option.splits sum.splits)
qed

text \<open>What appending an address does: on failure no configuration changes; on success the
  profile has the address and every other profile its own.\<close>

lemma append_vm_ip_cases:
  assumes "alloc_inv e f" "valid_profile p" "pelagos_base e = Inr b"
    "append_vm_ip_to_conf e p ip f = (r, f')"
  shows "(r = Inr () \<and>
      files f' = (files f)(conf_path b p := Some (Inr (
        (case files f (conf_path b p) of Some (Inr t) \<Rightarrow> t | _ \<Rightarrow> []) @ conf_line_of_ip ip))) \<and>
      (p \<noteq> ''default'' \<longrightarrow> (\<exists>l. listing f' = Some l \<and> p \<in> set l)) \<or>
      (\<exists>x. r = Inl x) \<and> files f' = files f) \<and>
    (\<forall>q l. listing f = Some l \<longrightarrow> q \<in> set l \<longrightarrow> (\<exists>l'. listing f' = Some l' \<and> q \<in> set l'))"
proof -
  obtain d where d: "profile_dir e p = Inr d" "path_join d ''vm.conf'' = conf_path b p"
    using profile_dir_conf[OF assms(3,2)] by blast
  have "files f (conf_path b p) = None \<or> (\<exists>t. files f (conf_path b p) = Some (Inr t))"
    using assms(1-3) by (cases "files f (conf_path b p)") (auto simp: alloc_inv_def)
  then show ?thesis
    using assms(4) d
    by (auto simp: append_vm_ip_to_conf_def create_profile_dir_def append_file_def Let_def
        split: option.splits if_splits)
qed

lemma ip_of_same_files: "files g = files f \<Longrightarrow> ip_of e g q = ip_of e f q"
proof -
  assume "files g = files f"
  then have "load_path g = load_path f" by (simp add: load_path_def read_to_string_def fun_eq_iff)
  then show ?thesis unfolding ip_of_def load_conf_def by (rule ssubst) (rule refl)
qed

lemma ip_of_files:
  assumes "pelagos_base e = Inr b" "valid_profile q" "files f' (conf_path b q) = files f (conf_path b q)"
  shows "ip_of e f' q = ip_of e f q"
  using assms by (simp add: ip_of_def load_conf_path load_path_def read_to_string_def)

lemma line_ended_append: "line_ended (t @ conf_line_of_ip ip)"
  by (simp add: line_ended_def conf_line_of_ip_def)

lemma ip_of_appended:
  assumes "alloc_inv e f" "pelagos_base e = Inr b" "valid_profile p"
    and f': "files f' = (files f)(conf_path b p := Some (Inr (
        (case files f (conf_path b p) of Some (Inr t) \<Rightarrow> t | _ \<Rightarrow> []) @ conf_line_of_ip ip)))"
  shows "ip_of e f' p = Some ip" and "valid_profile q \<Longrightarrow> q \<noteq> p \<Longrightarrow> ip_of e f' q = ip_of e f q"
proof -
  define old where "old = (case files f (conf_path b p) of Some (Inr t) \<Rightarrow> t | _ \<Rightarrow> [])"
  have "line_ended old"
    using assms(1-3) by (auto simp: old_def alloc_inv_def line_ended_def split: option.splits sum.splits)
  then show "ip_of e f' p = Some ip"
    using assms(2,3) by (simp add: ip_of_def load_conf_path load_path_def read_to_string_def f'
        old_def[symmetric] parse_conf_append)
  show "valid_profile q \<Longrightarrow> q \<noteq> p \<Longrightarrow> ip_of e f' q = ip_of e f q"
    using conf_path_inject by (intro ip_of_files[OF assms(2)]) (auto simp: f')
qed

lemma alloc_inv_step:
  assumes inv: "alloc_inv e f" and b: "pelagos_base e = Inr b" and p: "valid_profile p"
    and f': "files f' = (files f)(conf_path b p := Some (Inr (
        (case files f (conf_path b p) of Some (Inr t) \<Rightarrow> t | _ \<Rightarrow> []) @ conf_line_of_ip ip)))"
    and listed: "p \<noteq> ''default'' \<longrightarrow> (\<exists>l. listing f' = Some l \<and> p \<in> set l)"
    and grows: "\<forall>q l. listing f = Some l \<longrightarrow> q \<in> set l \<longrightarrow> (\<exists>l'. listing f' = Some l' \<and> q \<in> set l')"
    and fresh: "\<forall>q k. valid_profile q \<longrightarrow> q \<noteq> p \<longrightarrow> ip_of e f q = Some k \<longrightarrow> third_octet ip \<noteq> third_octet k"
    and not105: "p \<noteq> ''default'' \<longrightarrow> third_octet ip \<noteq> 105"
  shows "alloc_inv e f'"
proof -
  note ips = ip_of_appended[OF inv b p f']
  have readable: "\<exists>t. x = Inr t \<and> line_ended t" if "valid_profile q" "files f' (conf_path b q) = Some x" for q x
    using that inv b by (cases "conf_path b q = conf_path b p") (auto simp: f' line_ended_append alloc_inv_def)
  have entries: "\<exists>l. listing f' = Some l \<and> q \<in> set l"
    if q: "valid_profile q" "q \<noteq> ''default''" "files f' (conf_path b q) \<noteq> None" for q
  proof (cases "q = p")
    case False
    with q have "files f (conf_path b q) \<noteq> None" using conf_path_inject by (auto simp: f' split: if_splits)
    then obtain l where "listing f = Some l" "q \<in> set l" using q inv b by (auto simp: alloc_inv_def)
    then show ?thesis using grows by blast
  qed (use listed q in blast)
  have apart: "third_octet i \<noteq> third_octet k"
    if "valid_profile q" "valid_profile r" "q \<noteq> r" "ip_of e f' q = Some i" "ip_of e f' r = Some k" for q r i k
  proof -
    consider "q = p" | "r = p" | "q \<noteq> p" "r \<noteq> p" by blast
    then show ?thesis
    proof cases
      case 1
      with that ips fresh show ?thesis by (metis option.inject)
    next
      case 2
      with that ips fresh show ?thesis by (metis option.inject)
    next
      case 3
      with that ips have "ip_of e f q = Some i" "ip_of e f r = Some k" by auto
      with that inv show ?thesis unfolding alloc_inv_def by blast
    qed
  qed
  have "third_octet i \<noteq> 105" if "valid_profile q" "q \<noteq> ''default''" "ip_of e f' q = Some i" for q i
    using that ips not105 inv unfolding alloc_inv_def by (metis option.inject)
  with readable entries apart b show ?thesis unfolding alloc_inv_def by blast
qed

lemma alloc_inv_unchanged:
  assumes "alloc_inv e f" "files f' = files f"
    and "\<forall>q l. listing f = Some l \<longrightarrow> q \<in> set l \<longrightarrow> (\<exists>l'. listing f' = Some l' \<and> q \<in> set l')"
  shows "alloc_inv e f'"
proof -
  have "ip_of e f' q = ip_of e f q" for q
    by (rule ip_of_same_files[OF assms(2)])
  with assms show ?thesis by (fastforce simp: alloc_inv_def)
qed

text \<open>A free subnet differs from those of all other profiles.\<close>

lemma not_taken_fresh:
  assumes inv: "alloc_inv e f" and n: "n \<notin> set (taken e f p)"
    and q: "valid_profile q" "q \<noteq> p" "ip_of e f q = Some k"
  shows "n \<noteq> third_octet k"
proof -
  obtain b where b: "pelagos_base e = Inr b" using inv by (auto simp: alloc_inv_def)
  obtain c where c: "load_conf e f q = Inr c" "vm_ip c = Some k" using load_conf_ok[OF inv q(1)] q(3) by auto
  show ?thesis
  proof (cases "q = ''default''")
    case True
    with c n show ?thesis by (auto simp: taken_def taken_default_def)
  next
    case False
    have "files f (conf_path b q) \<noteq> None" using ip_of_no_conf[OF b q(1)] q(3) by force
    then obtain l where "listing f = Some l" "q \<in> set l" using False q(1) inv b by (auto simp: alloc_inv_def)
    then have "third_octet k \<in> set (taken e f p)"
      using c q(2) by (force simp: taken_def taken_of_def map_filter_def)
    with n show ?thesis by blast
  qed
qed

lemma candidates_range: "n \<in> set candidates \<longleftrightarrow> 106 \<le> unat n \<and> unat n \<le> 254"
proof
  assume "n \<in> set candidates"
  then obtain m where "m \<in> {106..<255}" "n = of_nat m" unfolding candidates_def by (metis imageE set_map set_upt)
  then show "106 \<le> unat n \<and> unat n \<le> 254" by (simp add: unat_of_nat)
next
  assume "106 \<le> unat n \<and> unat n \<le> 254"
  then have "n = of_nat (unat n)" "unat n \<in> {106..<255}" by simp_all
  then show "n \<in> set candidates" unfolding candidates_def by (metis image_eqI set_map set_upt)
qed

lemma candidates_nth: "j < 149 \<Longrightarrow> unat (candidates ! j) = 106 + j"
proof -
  assume j: "j < 149"
  have "map of_nat [a..<b] ! j = (of_nat (a + j) :: u8)" if "a + j < b" for a b using that by simp
  from this[of 106 255] j have "candidates ! j = of_nat (106 + j)" unfolding candidates_def by linarith
  then show ?thesis using j by (simp only:) (subst unat_of_nat, simp)
qed

lemma length_candidates: "length candidates = 149"
  by (simp add: candidates_def)

lemma candidates_Cons: "\<exists>xs. candidates = 106 # xs"
  by (simp add: candidates_def)

text \<open>One call: the invariant holds afterwards, the address it returns is the configured one,
  and no other profile's address changes.\<close>

lemma ensure_vm_ip_step:
  assumes inv: "alloc_inv e f" and p: "valid_profile p" and run: "ensure_vm_ip e p f = (r, f')"
  shows "alloc_inv e f' \<and> (\<forall>ip. r = Inr ip \<longrightarrow> ip_of e f' p = Some ip) \<and>
    (\<forall>q. valid_profile q \<longrightarrow> q \<noteq> p \<longrightarrow> ip_of e f' q = ip_of e f q) \<and>
    (ip_of e f p \<noteq> None \<longrightarrow> f' = f)"
proof -
  obtain b where b: "pelagos_base e = Inr b" using inv by (auto simp: alloc_inv_def)
  obtain c where c: "load_conf e f p = Inr c" "vm_ip c = ip_of e f p" using load_conf_ok[OF inv p] by auto
  show ?thesis
  proof (cases "ip_of e f p")
    case (Some ip)
    with run c inv show ?thesis by (auto simp: ensure_vm_ip_def)
  next
    case None
    have step: ?thesis
      if app: "append_vm_ip_to_conf e p ip f = (a, f')" and r: "r = (case a of Inl x \<Rightarrow> Inl x | Inr _ \<Rightarrow> Inr ip)"
        and fresh: "\<forall>q k. valid_profile q \<longrightarrow> q \<noteq> p \<longrightarrow> ip_of e f q = Some k \<longrightarrow> third_octet ip \<noteq> third_octet k"
        and not105: "p \<noteq> ''default'' \<longrightarrow> third_octet ip \<noteq> 105" for a ip
      using append_vm_ip_cases[OF inv p b app]
    proof (elim conjE disjE exE)
      assume grows: "\<forall>q l. listing f = Some l \<longrightarrow> q \<in> set l \<longrightarrow> (\<exists>l'. listing f' = Some l' \<and> q \<in> set l')"
      assume "a = Inr ()" and listed: "p \<noteq> ''default'' \<longrightarrow> (\<exists>l. listing f' = Some l \<and> p \<in> set l)"
        and f': "files f' = (files f)(conf_path b p := Some (Inr (
          (case files f (conf_path b p) of Some (Inr t) \<Rightarrow> t | _ \<Rightarrow> []) @ conf_line_of_ip ip)))"
      then show ?thesis
        using alloc_inv_step[OF inv b p f' listed grows fresh not105] ip_of_appended[OF inv b p f'] None r
        by simp
    next
      fix x
      assume "\<forall>q l. listing f = Some l \<longrightarrow> q \<in> set l \<longrightarrow> (\<exists>l'. listing f' = Some l' \<and> q \<in> set l')"
        and "a = Inl x" "files f' = files f"
      then show ?thesis
        using alloc_inv_unchanged[OF inv] ip_of_same_files[of f' f] None r by simp
    qed
    show ?thesis
    proof (cases "p = ''default''")
      case True
      have "\<forall>q k. valid_profile q \<longrightarrow> q \<noteq> p \<longrightarrow> ip_of e f q = Some k \<longrightarrow> 105 \<noteq> third_octet k"
        using inv True unfolding alloc_inv_def by metis
      then have fresh: "\<forall>q k. valid_profile q \<longrightarrow> q \<noteq> p \<longrightarrow> ip_of e f q = Some k \<longrightarrow>
          third_octet DEFAULT_GUEST_IP \<noteq> third_octet k"
        by (simp only: DEFAULT_GUEST_IP_def third_octet.simps)
      obtain a g where app: "append_vm_ip_to_conf e p DEFAULT_GUEST_IP f = (a, g)" by (rule prod.exhaust)
      then have "f' = g" "r = (case a of Inl x \<Rightarrow> Inl x | Inr _ \<Rightarrow> Inr DEFAULT_GUEST_IP)"
        using run c None True by (cases a; simp add: ensure_vm_ip_def)+
      then show ?thesis using step[of DEFAULT_GUEST_IP a] app fresh True by simp
    next
      case False
      show ?thesis
      proof (cases "find (\<lambda>n. n \<notin> set (taken e f p)) candidates")
        case None': None
        with run c None False b inv show ?thesis by (auto simp: ensure_vm_ip_def)
      next
        case (Some n)
        then have n: "n \<notin> set (taken e f p)" "n \<in> set candidates" by (auto simp: find_Some_iff)
        then have "n \<noteq> 105" using candidates_range[of n] by auto
        have fresh: "\<forall>q k. valid_profile q \<longrightarrow> q \<noteq> p \<longrightarrow> ip_of e f q = Some k \<longrightarrow>
            third_octet (192, 168, n, 2) \<noteq> third_octet k"
          using not_taken_fresh[OF inv n(1)] by (metis third_octet.simps)
        obtain a g where app: "append_vm_ip_to_conf e p (192, 168, n, 2) f = (a, g)" by (rule prod.exhaust)
        then have "f' = g" "r = (case a of Inl x \<Rightarrow> Inl x | Inr _ \<Rightarrow> Inr (192, 168, n, 2))"
          using run c None False b Some by (cases a; simp add: ensure_vm_ip_def)+
        then show ?thesis using step[of "(192, 168, n, 2)" a] app fresh \<open>n \<noteq> 105\<close> by simp
      qed
    qed
  qed
qed

interpretation subnets: invariant_machine "\<lambda>p f. snd (ensure_vm_ip e p f)" valid_profile "alloc_inv e" for e
  by unfold_locales (metis ensure_vm_ip_step prod.collapse)

section \<open>Properties\<close>

abbreviation ensure_all :: "env \<Rightarrow> string list \<Rightarrow> fs \<Rightarrow> fs" where
  "ensure_all e ps f \<equiv> fold (\<lambda>p f. snd (ensure_vm_ip e p f)) ps f"

lemma ensure_all_stable:
  assumes "alloc_inv e f" "list_all valid_profile ps" "valid_profile p" "ip_of e f p = Some i"
  shows "ip_of e (ensure_all e ps f) p = Some i"
  using assms
proof (induction ps arbitrary: f)
  case (Cons q ps)
  obtain r g where run: "ensure_vm_ip e q f = (r, g)" by (rule prod.exhaust)
  have "alloc_inv e g" "ip_of e g p = Some i"
    using ensure_vm_ip_step[OF Cons.prems(1) _ run] Cons.prems by (cases "q = p"; force)+
  then show ?case using Cons run by simp
qed simp

lemma ensure_configured:
  assumes "alloc_inv e f" "valid_profile p" "ip_of e f p = Some i"
  shows "ensure_vm_ip e p f = (Inr i, f)"
  using load_conf_ok[OF assms(1,2)] assms(3) by (auto simp: ensure_vm_ip_def)

text \<open>C36: Starting from a file system without profile configurations, in every sequence of
  address requests (some of which may fail) a profile that obtained an address gets the same
  address whenever it asks again, without a further change to the files, and no other profile
  ever obtains an address in the same subnet. So machines of different profiles can run at
  the same time.\<close>

theorem sd_subnets_disjoint:
  assumes "pelagos_base e = Inr b" and "\<forall>p. files f (conf_path b p) = None"
    and "list_all valid_profile ps" and "list_all valid_profile qs"
    and "valid_profile p" and "valid_profile q" and "q \<noteq> p"
    and "ensure_vm_ip e p (ensure_all e ps f) = (Inr i, f2)"
  shows "ensure_vm_ip e p (ensure_all e qs f2) = (Inr i, ensure_all e qs f2) \<and>
    (\<forall>k f4. ensure_vm_ip e q (ensure_all e qs f2) = (Inr k, f4) \<longrightarrow> third_octet k \<noteq> third_octet i)"
proof -
  have "alloc_inv e (ensure_all e ps f)"
    using alloc_inv_fresh[OF assms(1,2)] assms(3) by (rule subnets.run_inv)
  then have f2: "alloc_inv e f2" "ip_of e f2 p = Some i"
    using ensure_vm_ip_step assms(5,8) by blast+
  define f3 where "f3 = ensure_all e qs f2"
  have f3: "alloc_inv e f3" "ip_of e f3 p = Some i"
    unfolding f3_def using f2 assms by (auto intro: subnets.run_inv ensure_all_stable)
  have "third_octet k \<noteq> third_octet i" if "ensure_vm_ip e q f3 = (Inr k, f4)" for k f4
  proof -
    have "alloc_inv e f4" "ip_of e f4 q = Some k" "ip_of e f4 p = Some i"
      using ensure_vm_ip_step[OF f3(1) assms(6) that] f3 assms by auto
    then show ?thesis using assms(5-7) unfolding alloc_inv_def by metis
  qed
  then show ?thesis using ensure_configured[OF f3(1) assms(5) f3(2)] by (auto simp: f3_def)
qed

definition demo_env :: env where "demo_env = \<lparr>xdg_data_home = Some ''/x'', home_dir = None\<rparr>"

definition demo_fs :: fs where
  "demo_fs = \<lparr>files = \<lambda>_. None, listing = None, write_err = \<lambda>_. None\<rparr>"

lemma demo_base: "pelagos_base demo_env = Inr ''/x/pelagos''"
  by (simp add: pelagos_base_def demo_env_def path_join_def starts_with_def)

lemma demo_ensure:
  "fst (ensure_vm_ip demo_env ''build'' demo_fs) = Inr (192, 168, 106, 2)"
proof -
  obtain xs where cs: "candidates = 106 # xs" using candidates_Cons by blast
  have v: "valid_profile ''build''" "valid_profile ''default''" by (simp_all add: valid_profile_def)
  have l: "load_conf demo_env demo_fs p = Inr config_default" if "valid_profile p" for p
    using load_conf_path[OF demo_base that] by (simp add: load_path_def read_to_string_def demo_fs_def)
  have "find (\<lambda>n. n \<notin> set (taken demo_env demo_fs ''build'')) candidates = Some 106"
    using l[OF v(2)] unfolding cs
    by (simp add: taken_def taken_default_def config_default_def) (simp add: demo_fs_def)
  moreover obtain d where "profile_dir demo_env ''build'' = Inr d" using profile_dir_conf[OF demo_base v(1)] by blast
  ultimately show ?thesis
    using l[OF v(1)] demo_base
    by (simp add: ensure_vm_ip_def config_default_def append_vm_ip_to_conf_def create_profile_dir_def
        append_file_def demo_fs_def Let_def)
qed

theorem sd_subnets_disjoint_witness:
  "ensure_vm_ip demo_env ''build'' (snd (ensure_vm_ip demo_env ''test'' (snd (ensure_vm_ip demo_env ''build'' demo_fs))))
   = (Inr (192, 168, 106, 2), snd (ensure_vm_ip demo_env ''test'' (snd (ensure_vm_ip demo_env ''build'' demo_fs))))"
proof -
  have v: "valid_profile ''build''" "valid_profile ''test''" by (simp_all add: valid_profile_def)
  have "ensure_vm_ip demo_env ''build'' (ensure_all demo_env [] demo_fs) =
      (Inr (192, 168, 106, 2), snd (ensure_vm_ip demo_env ''build'' demo_fs))"
    using demo_ensure by (simp add: prod_eq_iff)
  from sd_subnets_disjoint[OF demo_base _ _ _ v _ this, of "[''test'']"] v show ?thesis
    by (simp add: demo_fs_def)
qed

text \<open>A profile other than the default one that has no address gets the lowest subnet
  between 192.168.106 and 192.168.254 that no other profile uses, or the error that all are in
  use when there is none; the files are then unchanged.\<close>

theorem sd_lowest_free_subnet:
  assumes "alloc_inv e f" and "valid_profile p" and "p \<noteq> ''default''" and "ip_of e f p = None"
    and "\<forall>path. write_err f path = None"
  shows "(\<exists>n f'. ensure_vm_ip e p f = (Inr (192, 168, n, 2), f') \<and> 106 \<le> unat n \<and> unat n \<le> 254 \<and>
        n \<notin> set (taken e f p) \<and> (\<forall>m. 106 \<le> unat m \<and> unat m < unat n \<longrightarrow> m \<in> set (taken e f p))) \<or>
    (\<exists>msg. ensure_vm_ip e p f = (Inl (OtherErr msg), f) \<and>
        (\<forall>m. 106 \<le> unat m \<and> unat m \<le> 254 \<longrightarrow> m \<in> set (taken e f p)))"
proof -
  obtain b where b: "pelagos_base e = Inr b" using assms(1) by (auto simp: alloc_inv_def)
  obtain c where c: "load_conf e f p = Inr c" "vm_ip c = None" using load_conf_ok[OF assms(1,2)] assms(4) by auto
  obtain d where d: "profile_dir e p = Inr d" using profile_dir_conf[OF b assms(2)] by blast
  show ?thesis
  proof (cases "find (\<lambda>n. n \<notin> set (taken e f p)) candidates")
    case None
    then have "\<forall>m. 106 \<le> unat m \<and> unat m \<le> 254 \<longrightarrow> m \<in> set (taken e f p)"
      using candidates_range by (auto simp: find_None_iff)
    with None c b assms(3) show ?thesis by (simp add: ensure_vm_ip_def)
  next
    case (Some n)
    then obtain k where k: "k < length candidates" "n = candidates ! k" "n \<notin> set (taken e f p)"
      "\<forall>j<k. candidates ! j \<in> set (taken e f p)" by (auto simp: find_Some_iff)
    have n: "unat n = 106 + k" using candidates_nth k length_candidates by simp
    have "m \<in> set (taken e f p)" if "106 \<le> unat m" "unat m < unat n" for m
    proof -
      have "m = candidates ! (unat m - 106)" using that n candidates_nth[of "unat m - 106"] k(1) length_candidates
        by (intro unsigned_word_eqI[where 'a = nat]) simp
      then show ?thesis using k(4) that n by (metis add.commute less_diff_conv2)
    qed
    moreover have "fst (append_vm_ip_to_conf e p (192, 168, n, 2) f) = Inr ()"
      using d assms(3,5) by (simp add: append_vm_ip_to_conf_def create_profile_dir_def append_file_def Let_def)
    ultimately show ?thesis
      using Some c b assms(3) k n length_candidates by (cases "append_vm_ip_to_conf e p (192, 168, n, 2) f")
        (auto simp: ensure_vm_ip_def)
  qed
qed

theorem sd_lowest_free_subnet_witness:
  "\<exists>n f'. ensure_vm_ip demo_env ''build'' demo_fs = (Inr (192, 168, n, 2), f') \<and> 106 \<le> unat n"
proof -
  have v: "valid_profile ''build''" "''build'' \<noteq> ''default''" by (simp_all add: valid_profile_def)
  have none: "\<forall>p. files demo_fs (conf_path ''/x/pelagos'' p) = None" "\<forall>path. write_err demo_fs path = None"
    by (simp_all add: demo_fs_def)
  show ?thesis
    using demo_ensure sd_lowest_free_subnet[OF alloc_inv_fresh[OF demo_base none(1)] v
        ip_of_no_conf[OF demo_base v(1)] none(2)] none(1) by auto
qed

text \<open>After the pid file is written, reading it back gives the same pid exactly when the
  process is alive (for every 32-bit pid), the temporary file is gone and no other file has
  changed; after clearing the state no pid is found.\<close>

theorem sd_pid_roundtrip:
  assumes "write_pid sd pid f = (Inr (), f')"
  shows "running_pid kill0 f' sd = (if kill0 (sint pid) then Some pid else None) \<and>
    (\<forall>p. p \<noteq> pid_file sd \<longrightarrow> p \<noteq> with_extension (pid_file sd) ''pid.tmp'' \<longrightarrow> files f' p = files f p) \<and>
    running_pid kill0 (clear_state sd f') sd = None"
proof -
  define tmp where "tmp = with_extension (pid_file sd) ''pid.tmp''"
  have "files f' = (files f)(tmp := None, pid_file sd := Some (Inr (show_word pid)))"
    using assms by (auto simp: write_pid_def write_via_tmp_def write_file_def rename_file_def tmp_def Let_def
        split: option.splits prod.splits)
  moreover have "files (clear_state sd g) (pid_file sd) = None" for g
    by (simp add: clear_state_def remove_file_def)
  ultimately show ?thesis
    by (auto simp: running_pid_def read_to_string_def u32_text.trim_enc u32_text.dec_enc tmp_def)
qed

definition demo_sd :: state_dir where
  "demo_sd = \<lparr>pid_file = ''/x/vm.pid'', sock_file = ''/x/vm.sock'', console_sock_file = ''/x/console.sock'',
     mounts_file = ''/x/vm.mounts'', ports_file = ''/x/vm.ports'', extra_disks_file = ''/x/vm.extra_disks''\<rparr>"

theorem sd_pid_roundtrip_witness:
  "running_pid (\<lambda>i. i = 42) (snd (write_pid demo_sd 42 demo_fs)) demo_sd = Some 42"
proof -
  have "write_pid demo_sd 42 demo_fs = (Inr (), snd (write_pid demo_sd 42 demo_fs))"
    by (simp add: write_pid_def write_via_tmp_def write_file_def rename_file_def demo_fs_def Let_def)
  from sd_pid_roundtrip[OF this, of "\<lambda>i. i = 42"] show ?thesis by simp
qed

text \<open>What is written for the mounts of the running machine is read back as it was, when
  the JSON library parses what it printed; without the file the list is empty.\<close>

theorem sd_mounts_roundtrip:
  assumes "\<forall>m s. to_json m = Inr s \<longrightarrow> from_json s = Inr m"
    and "write_mounts to_json sd mounts f = (Inr (), f')"
  shows "read_mounts from_json f' sd = Inr mounts \<and>
    (files g (mounts_file sd) = None \<longrightarrow> read_mounts from_json g sd = Inr [])"
proof -
  obtain s where s: "to_json mounts = Inr s" "files f' (mounts_file sd) = Some (Inr s)"
    using assms(2) by (auto simp: write_mounts_def write_via_tmp_def write_file_def rename_file_def Let_def
        split: option.splits prod.splits sum.splits)
  with assms(1) show ?thesis by (auto simp: read_mounts_def read_to_string_def)
qed

theorem sd_mounts_roundtrip_witness:
  "read_mounts (\<lambda>s. Inr (split_chr CHR '','' s))
     (snd (write_mounts (\<lambda>m. if m = [''a'', ''b''] then Inr ''a,b'' else Inl []) demo_sd [''a'', ''b''] demo_fs)) demo_sd
   = Inr [''a'', ''b'']"
proof -
  let ?to = "\<lambda>m. if m = [''a'', ''b''] then Inr ''a,b'' else Inl []"
  have "write_mounts ?to demo_sd [''a'', ''b''] demo_fs = (Inr (), snd (write_mounts ?to demo_sd [''a'', ''b''] demo_fs))"
    by (simp add: write_mounts_def write_via_tmp_def write_file_def rename_file_def demo_fs_def Let_def)
  from sd_mounts_roundtrip[OF _ this, of "\<lambda>s. Inr (split_chr CHR '','' s)"] show ?thesis by simp
qed

text \<open>
  The allocation needs configuration files that end with a newline: the address is appended
  to whatever the file ends with. A hand-written file whose last line is unterminated loses
  that setting and the address.
\<close>

lemma parse_word_not_digits: "c \<in> set s \<Longrightarrow> \<not> is_digit c \<Longrightarrow> c \<noteq> CHR ''+'' \<Longrightarrow> parse_word s = None"
  by (cases s) (auto simp: parse_word_def parse_uint_def list_all_iff Let_def)

lemma str_lines_unterminated: "line_ended t \<Longrightarrow> nl \<notin> set l \<Longrightarrow> last l \<noteq> cr \<Longrightarrow> str_lines (t @ l @ [nl]) = str_lines t @ [l]"
  by (simp add: str_lines_line_ended str_lines_one)

text \<open>When the last line of a profile's configuration is \<open>cpus = n\<close> without a newline,
  appending the allocated address loses both: the line no longer parses as a number, and the
  address is not read back.\<close>

lemma sd_append_unterminated:
  assumes "line_ended t"
  shows "parse_conf (t @ ''cpus = '' @ show_word (n :: u64) @ conf_line_of_ip ip) = (parse_conf t)\<lparr>cpus := None\<rparr>"
proof -
  define v where "v = show_word n @ ''vm_ip = '' @ show_ipv4 ip"
  define l where "l = ''cpus = '' @ v"
  have ip: "nl \<notin> set (show_ipv4 ip)" "last (show_ipv4 ip) \<noteq> cr" "\<not> is_ws (last (show_ipv4 ip))" "show_ipv4 ip \<noteq> []"
    using ipv4_text.enc_no_nl[of ip] ipv4_text.enc_no_ws[of _ ip] ipv4_text.enc_no_cr[of ip] ipv4_text.enc_not_Nil[of ip]
    by (metis last_in_set)+
  have n: "nl \<notin> set (show_word n)" "\<not> is_ws (hd (show_word n))" "show_word n \<noteq> []"
    using usize_text.enc_no_nl[of n] usize_text.enc_no_ws[of _ n] usize_text.enc_not_Nil[of n] by auto
  have lines: "str_lines (t @ l @ [nl]) = str_lines t @ [l]"
    using ip n by (intro str_lines_unterminated assms) (simp_all add: l_def v_def)
  have tv: "trim v = v"
    using ip n by (intro trim_clean) (simp add: v_def)
  have "trim l = l"
    using ip by (intro trim_clean) (simp add: l_def v_def is_ws_def)
  moreover have "split_once CHR ''='' l = Some (''cpus '', '' '' @ v)" by (simp add: l_def)
  moreover have "trim ''cpus '' = ''cpus''" by (simp add: trim_def trim_start_def trim_end_def is_ws_def)
  moreover have "trim ('' '' @ v) = v" using trim_padded[of "'' ''" v] tv by (simp add: is_ws_def)
  moreover have "parse_word v = (None :: u64 option)"
    by (rule parse_word_not_digits[of "CHR ''v''"]) (simp_all add: v_def is_digit_def)
  moreover have "l \<noteq> []" "\<not> starts_with l ''#''" by (simp_all add: l_def starts_with_def)
  ultimately have "config_line l cfg = cfg\<lparr>cpus := None\<rparr>" for cfg
    by (simp add: config_line_def config_key_def)
  moreover have "t @ ''cpus = '' @ show_word n @ conf_line_of_ip ip = t @ l @ [nl]"
    by (simp add: l_def v_def conf_line_of_ip_def)
  ultimately show ?thesis by (simp add: parse_conf_def lines)
qed

lemma sd_append_unterminated_witness:
  "vm_ip (parse_conf (''cpus = '' @ show_word (4 :: u64) @ conf_line_of_ip (192, 168, 106, 2))) = None"
  using sd_append_unterminated[of "[]" 4 "(192, 168, 106, 2)"]
  by (simp add: line_ended_def parse_conf_def str_lines_def config_default_def)

end
