(* ===== verification/Port_Daemon.thy ===== *)
theory Port_Daemon
  imports Text_Codec
begin

text \<open>
  The connection side of the daemon in \<open>pelagos-mac/src/daemon.rs\<close>: the port forwards it
  keeps, the commands that change them, the watcher that removes the forwards of a container
  that exits, and the handling of a client connection, which is either a daemon command or is
  relayed to the guest. Every command holds the lock of the port state for its whole effect,
  so that concurrent connections and the watcher are sequences of the steps below.
\<close>

section \<open>Port specifications\<close>

record port_forward =
  host_port :: u16
  container_port :: u16

definition parse_port_spec :: "string \<Rightarrow> port_forward option" where
  "parse_port_spec spec =
     (case splitn2 CHR '':'' spec of
        [h, c] \<Rightarrow>
          (case parse_word h of
             None \<Rightarrow> None
           | Some hp \<Rightarrow>
               (case parse_word c of
                  None \<Rightarrow> None
                | Some cp \<Rightarrow> Some \<lparr>host_port = hp, container_port = cp\<rparr>))
      | _ \<Rightarrow>
          (case parse_word spec of
             None \<Rightarrow> None
           | Some p \<Rightarrow> Some \<lparr>host_port = p, container_port = p\<rparr>))"

definition show_port_forward :: "port_forward \<Rightarrow> string" where
  "show_port_forward pf = show_word (host_port pf) @ '':'' @ show_word (container_port pf)"

section \<open>The port state\<close>

text \<open>\<open>proxies\<close> maps a host port to the target of the live listener behind its handle;
  removing or replacing a handle stops that listener.\<close>

record port_state =
  active :: "u16 \<Rightarrow> u16 option"
  compose_projects :: "string \<Rightarrow> u16 list option"
  proxies :: "u16 \<Rightarrow> u16 option"

definition port_state_new :: port_state where
  "port_state_new = \<lparr>active = \<lambda>_. None, compose_projects = \<lambda>_. None, proxies = \<lambda>_. None\<rparr>"

datatype daemon_cmd =
    RegisterPort u16 u16
  | UnregisterPort u16
  | TrackComposeProject string "u16 list"
  | UnregisterComposePorts string

datatype daemon_response = DOk | DErr string

text \<open>\<open>router.add\<close> followed by the insertions into both maps.\<close>

definition add_forward :: "u16 \<Rightarrow> u16 \<Rightarrow> port_state \<Rightarrow> port_state" where
  "add_forward hp cp ps = ps\<lparr>proxies := (proxies ps)(hp := Some cp), active := (active ps)(hp := Some cp)\<rparr>"

text \<open>\<open>active.remove\<close> and, when it was there, \<open>router.remove\<close>, which does nothing.\<close>

definition router_remove :: "u16 \<Rightarrow> port_state \<Rightarrow> port_state" where
  "router_remove hp ps = ps"

definition drop_active :: "u16 \<Rightarrow> port_state \<Rightarrow> port_state" where
  "drop_active hp ps =
     (if active ps hp \<noteq> None then router_remove hp (ps\<lparr>active := (active ps)(hp := None)\<rparr>) else ps)"

definition handle_daemon_cmd :: "daemon_cmd \<Rightarrow> port_state \<Rightarrow> daemon_response \<times> port_state" where
  "handle_daemon_cmd cmd ps =
     (case cmd of
        RegisterPort hp cp \<Rightarrow>
          (case active ps hp of
             None \<Rightarrow> (DOk, add_forward hp cp ps)
           | Some existing \<Rightarrow>
               if existing = cp then (DOk, ps)
               else (DErr (''port '' @ show_word hp @ '' is already registered to container port ''
                           @ show_word existing), ps))
      | UnregisterPort hp \<Rightarrow>
          (DOk, if active ps hp \<noteq> None
                then ps\<lparr>active := (active ps)(hp := None), proxies := (proxies ps)(hp := None)\<rparr> else ps)
      | TrackComposeProject project ports \<Rightarrow>
          (DOk, ps\<lparr>compose_projects := (compose_projects ps)(project := Some ports)\<rparr>)
      | UnregisterComposePorts project \<Rightarrow>
          (case compose_projects ps project of
             None \<Rightarrow> (DOk, ps)
           | Some ports \<Rightarrow>
               (DOk, fold drop_active ports
                       (ps\<lparr>compose_projects := (compose_projects ps)(project := None)\<rparr>))))"

text \<open>The forwards given at start-up.\<close>

definition preregister :: "port_forward list \<Rightarrow> port_state" where
  "preregister pfs = fold (\<lambda>pf. add_forward (host_port pf) (container_port pf)) pfs port_state_new"

section \<open>The subscription watcher\<close>

record watch_container =
  wc_name :: string
  wc_ports :: "string list"

datatype watch_event =
    Snapshot "watch_container list"
  | ContainerStarted watch_container
  | ContainerExited string
  | Unknown

type_synonym container_ports = "string \<Rightarrow> string list option"

definition track_container :: "watch_container \<Rightarrow> container_ports \<Rightarrow> container_ports" where
  "track_container c m = (if wc_ports c \<noteq> [] then m(wc_name c := Some (wc_ports c)) else m)"

definition drop_spec :: "string \<Rightarrow> port_state \<Rightarrow> port_state" where
  "drop_spec spec ps =
     (case parse_port_spec spec of None \<Rightarrow> ps | Some pf \<Rightarrow> drop_active (host_port pf) ps)"

definition watch_step :: "watch_event \<Rightarrow> container_ports \<times> port_state \<Rightarrow> container_ports \<times> port_state" where
  "watch_step ev w =
     (case w of (m, ps) \<Rightarrow>
        (case ev of
           Snapshot cs \<Rightarrow> (fold track_container cs (\<lambda>_. None), ps)
         | ContainerStarted c \<Rightarrow> (track_container c m, ps)
         | ContainerExited name \<Rightarrow>
             (case m name of
                None \<Rightarrow> (m, ps)
              | Some ports \<Rightarrow> (m(name := None), fold drop_spec ports ps))
         | Unknown \<Rightarrow> (m, ps)))"

text \<open>
  One line of the event stream; \<open>from_json\<close> is the JSON library. The map of containers is
  kept when the connection is lost and opened again.
\<close>

definition watch_line :: "(string \<Rightarrow> watch_event option) \<Rightarrow> string
    \<Rightarrow> container_ports \<times> port_state \<Rightarrow> container_ports \<times> port_state" where
  "watch_line from_json line w =
     (let trimmed = trim_end line in
      if trimmed = [] then w
      else (case from_json trimmed of Some ev \<Rightarrow> watch_step ev w | None \<Rightarrow> w))"

section \<open>The daemon as a machine\<close>

datatype daemon_event = Cmd daemon_cmd | Watch watch_event

definition daemon_step :: "daemon_event \<Rightarrow> container_ports \<times> port_state \<Rightarrow> container_ports \<times> port_state" where
  "daemon_step ev w =
     (case ev of
        Cmd c \<Rightarrow> (fst w, snd (handle_daemon_cmd c (snd w)))
      | Watch e \<Rightarrow> watch_step e w)"

section \<open>Client connections\<close>

text \<open>
  Reading the first line byte by byte: the line with its newline and the bytes not yet read,
  or \<open>None\<close> when the connection closes first or the line is too long.
\<close>

fun read_first_line :: "bytes \<Rightarrow> bytes \<Rightarrow> (bytes \<times> bytes) option" where
  "read_first_line acc [] = None"
| "read_first_line acc (b # bs) =
     (if b = 10 then Some (acc @ [b], bs)
      else if length (acc @ [b]) > 64 * 1024 then None
      else read_first_line (acc @ [b]) bs)"

text \<open>
  What becomes of a connection. \<open>parse_cmd\<close> is the JSON library on the line, decoded and
  trimmed; \<open>vsock\<close> the result of connecting to the guest and \<open>replay_ok\<close> of writing the
  first line to it. The bytes relayed to the guest are the line and then the rest of the
  client's bytes, copied by \<open>proxy\<close>.
\<close>

datatype connection_end =
    Dropped
  | Answered daemon_response
  | VsockError string
  | ReplayFailed
  | Proxied bytes

definition handle_connection ::
  "(bytes \<Rightarrow> daemon_cmd option) \<Rightarrow> string + unit \<Rightarrow> bool \<Rightarrow> bytes \<Rightarrow> port_state
    \<Rightarrow> connection_end \<times> port_state" where
  "handle_connection parse_cmd vsock replay_ok stream ps =
     (case read_first_line [] stream of
        None \<Rightarrow> (Dropped, ps)
      | Some (first_line, rest) \<Rightarrow>
          (case parse_cmd first_line of
             Some cmd \<Rightarrow> (case handle_daemon_cmd cmd ps of (r, ps') \<Rightarrow> (Answered r, ps'))
           | None \<Rightarrow>
               (case vsock of
                  Inl e \<Rightarrow> (VsockError e, ps)
                | Inr _ \<Rightarrow>
                    if replay_ok then (Proxied (first_line @ rest), ps) else (ReplayFailed, ps))))"

text \<open>\<open>Vm::connect_vsock\<close>: the results of the attempts, at most 60.\<close>

fun connect_attempts :: "nat \<Rightarrow> (string + 'fd) list \<Rightarrow> string \<Rightarrow> string + 'fd" where
  "connect_attempts 0 rs last_err = Inl last_err"
| "connect_attempts (Suc n) [] last_err = Inl last_err"
| "connect_attempts (Suc n) (r # rs) last_err =
     (case r of Inr fd \<Rightarrow> Inr fd | Inl e \<Rightarrow> connect_attempts n rs e)"

definition connect_vsock :: "(string + 'fd) list \<Rightarrow> string + 'fd" where
  "connect_vsock rs = connect_attempts 60 rs []"

section \<open>Port specifications round trip\<close>

lemma show_u16_no_colon: "CHR '':'' \<notin> set (show_word (w :: u16))"
  using u16_text.enc_no_colon .

lemma parse_show_port_forward: "parse_port_spec (show_port_forward pf) = Some pf"
proof -
  have "split_once CHR '':'' (show_word (host_port pf) @ CHR '':'' # show_word (container_port pf)) =
      Some (show_word (host_port pf), show_word (container_port pf))"
    by (rule u16_text.split_pair)
  then show ?thesis
    by (simp add: parse_port_spec_def show_port_forward_def splitn2_def u16_text.dec_enc)
qed

text \<open>The daemon passes its port forwards to its own subprocess as \<open>host:container\<close>;
  every such text is parsed back to the same pair of ports, and a bare port stands for both.\<close>

theorem pd_port_spec_roundtrip:
  "parse_port_spec (show_port_forward pf) = Some pf \<and>
   parse_port_spec (show_word p) = Some \<lparr>host_port = p, container_port = p\<rparr>"
proof -
  have "split_once CHR '':'' (show_word p) = None" by (rule split_once_None[OF show_u16_no_colon])
  then show ?thesis
    by (simp add: parse_show_port_forward) (simp add: parse_port_spec_def splitn2_def u16_text.dec_enc)
qed

section \<open>The invariant of the port state\<close>

text \<open>Every active forward has a listener with the same target.\<close>

definition ports_ok :: "container_ports \<times> port_state \<Rightarrow> bool" where
  "ports_ok w = (\<forall>hp cp. active (snd w) hp = Some cp \<longrightarrow> proxies (snd w) hp = Some cp)"

lemma drop_active_fields:
  "active (drop_active hp ps) = (active ps)(hp := None)"
  "proxies (drop_active hp ps) = proxies ps"
  "compose_projects (drop_active hp ps) = compose_projects ps"
  by (auto simp: drop_active_def router_remove_def fun_eq_iff)

lemma fold_drop_active:
  "active (fold drop_active hps ps) = (\<lambda>p. if p \<in> set hps then None else active ps p)"
  "proxies (fold drop_active hps ps) = proxies ps"
  by (induction hps arbitrary: ps) (auto simp: drop_active_fields fun_eq_iff)

text \<open>The host ports of the specifications that parse.\<close>

definition spec_ports :: "string list \<Rightarrow> u16 list" where
  "spec_ports specs = map host_port (List.map_filter parse_port_spec specs)"

lemma fold_drop_spec: "fold drop_spec specs ps = fold drop_active (spec_ports specs) ps"
  by (induction specs arbitrary: ps)
    (auto simp: drop_spec_def spec_ports_def map_filter_simps split: option.splits)

lemma cmd_ports_ok: "ports_ok (m, ps) \<Longrightarrow> ports_ok (m, snd (handle_daemon_cmd c ps))"
  by (cases c) (auto simp: ports_ok_def handle_daemon_cmd_def add_forward_def fold_drop_active
      split: option.splits if_splits)

lemma watch_ports_ok: "ports_ok w \<Longrightarrow> ports_ok (watch_step e w)"
  by (cases w; cases e) (auto simp: ports_ok_def watch_step_def fold_drop_spec fold_drop_active
      split: option.splits if_splits)

interpretation port_machine: invariant_machine daemon_step "\<lambda>_. True" ports_ok
  by unfold_locales
    (auto simp: daemon_step_def watch_ports_ok cmd_ports_ok split: daemon_event.splits)

lemma preregister_ok: "ports_ok (m, preregister pfs)"
proof -
  have "ports_ok (m, ps) \<Longrightarrow> ports_ok (m, fold (\<lambda>pf. add_forward (host_port pf) (container_port pf)) pfs ps)" for ps
    by (induction pfs arbitrary: ps) (auto simp: ports_ok_def add_forward_def)
  then show ?thesis by (simp add: preregister_def ports_ok_def port_state_new_def)
qed

text \<open>Starting from the forwards given at start-up, after every interleaving of daemon
  commands and container events each active forward has a live listener to the same container
  port.\<close>

lemma pd_active_has_listener:
  assumes "fold daemon_step evs (\<lambda>_. None, preregister pfs) = (m, ps)" and "active ps hp = Some cp"
  shows "proxies ps hp = Some cp"
proof -
  have "ports_ok (fold daemon_step evs (\<lambda>_. None, preregister pfs))"
    by (rule port_machine.run_inv) (simp_all add: preregister_ok list_all_iff)
  then show ?thesis using assms by (simp add: ports_ok_def)
qed

lemma pd_active_has_listener_witness:
  "proxies (snd (fold daemon_step [Cmd (RegisterPort 8080 80), Cmd (RegisterPort 8080 81)] (\<lambda>_. None, preregister []))) 8080
   = Some 80"
  by (rule pd_active_has_listener[of "[Cmd (RegisterPort 8080 80), Cmd (RegisterPort 8080 81)]" "[]", OF prod.collapse[symmetric]])
    (simp add: daemon_step_def handle_daemon_cmd_def preregister_def port_state_new_def add_forward_def)

text \<open>Registering is idempotent and never disturbs another forward: a free port becomes
  active with a listener, the same mapping again is accepted without a change, and a different
  mapping is refused with an error that names the existing one and leaves the state as it was.
  After unregistering, the port is free again.\<close>

theorem pd_register_port:
  "(active ps hp = None \<longrightarrow>
      fst (handle_daemon_cmd (RegisterPort hp cp) ps) = DOk \<and>
      active (snd (handle_daemon_cmd (RegisterPort hp cp) ps)) = (active ps)(hp := Some cp) \<and>
      proxies (snd (handle_daemon_cmd (RegisterPort hp cp) ps)) = (proxies ps)(hp := Some cp)) \<and>
   (active ps hp = Some cp \<longrightarrow> handle_daemon_cmd (RegisterPort hp cp) ps = (DOk, ps)) \<and>
   (\<forall>e. active ps hp = Some e \<longrightarrow> e \<noteq> cp \<longrightarrow>
      handle_daemon_cmd (RegisterPort hp cp) ps =
        (DErr (''port '' @ show_word hp @ '' is already registered to container port '' @ show_word e), ps)) \<and>
   active (snd (handle_daemon_cmd (UnregisterPort hp) ps)) = (active ps)(hp := None)"
  by (auto simp: handle_daemon_cmd_def add_forward_def fun_eq_iff)

theorem pd_register_port_witness:
  "handle_daemon_cmd (RegisterPort 8080 80) (port_state_new\<lparr>active := (\<lambda>_. None)(8080 := Some 80)\<rparr>)
   = (DOk, port_state_new\<lparr>active := (\<lambda>_. None)(8080 := Some 80)\<rparr>)"
  using pd_register_port[of "port_state_new\<lparr>active := (\<lambda>_. None)(8080 := Some 80)\<rparr>" 8080 80] by simp

text \<open>When a container exits, exactly the host ports of its port specifications cease to
  be active and every other forward stays; but their listeners are not stopped, since only
  \<open>UnregisterPort\<close> drops the listener's handle and it does so only for active ports. The same
  holds for a compose project: the listeners of its ports go on for the life of the daemon.\<close>

lemma pd_exit_leaves_listeners:
  assumes "m name = Some specs" and "compose_projects ps project = Some ports"
  shows "active (snd (watch_step (ContainerExited name) (m, ps))) =
       (\<lambda>p. if p \<in> set (spec_ports specs) then None else active ps p) \<and>
     proxies (snd (watch_step (ContainerExited name) (m, ps))) = proxies ps \<and>
     (\<forall>p. p \<in> set (spec_ports specs) \<longrightarrow>
        proxies (snd (handle_daemon_cmd (UnregisterPort p) (snd (watch_step (ContainerExited name) (m, ps))))) = proxies ps) \<and>
     active (snd (handle_daemon_cmd (UnregisterComposePorts project) ps)) =
       (\<lambda>p. if p \<in> set ports then None else active ps p) \<and>
     proxies (snd (handle_daemon_cmd (UnregisterComposePorts project) ps)) = proxies ps"
  using assms by (auto simp: watch_step_def handle_daemon_cmd_def fold_drop_spec fold_drop_active)

definition demo_ports :: port_state where
  "demo_ports = \<lparr>active = (\<lambda>_. None)(8080 := Some 80), compose_projects = (\<lambda>_. None)(''web'' := Some [8080]),
     proxies = (\<lambda>_. None)(8080 := Some 80)\<rparr>"

lemma pd_exit_leaves_listeners_witness:
  "active (snd (handle_daemon_cmd (UnregisterComposePorts ''web'') demo_ports)) 8080 = None \<and>
   proxies (snd (handle_daemon_cmd (UnregisterComposePorts ''web'') demo_ports)) 8080 = Some 80"
  using pd_exit_leaves_listeners[of "(\<lambda>_. None)(''c'' := Some [''8080:80''])" "''c''" "[''8080:80'']" demo_ports "''web''" "[8080]"]
  by (simp add: demo_ports_def)

section \<open>Connections\<close>

lemma read_first_line_found:
  assumes "10 \<notin> set l" "length acc + length l \<le> 64 * 1024"
  shows "read_first_line acc (l @ 10 # bs) = Some (acc @ l @ [10], bs)"
  using assms by (induction l arbitrary: acc) auto

lemma read_first_line_Some:
  "read_first_line acc s = Some (l, r) \<Longrightarrow> acc @ s = l @ r"
  by (induction acc s rule: read_first_line.induct) (auto split: if_splits)

text \<open>A connection whose first line is not a daemon command is relayed to the guest
  unchanged: when the guest is reachable, the guest receives exactly the bytes the client
  sent, including the line the daemon looked at, and the port state does not change. This
  covers every first line of at most 64 KiB; a longer line is dropped before anything is
  relayed.\<close>

lemma pd_connection_transparent:
  assumes "10 \<notin> set line" and "parse_cmd (line @ [10]) = None"
  shows "handle_connection parse_cmd (Inr ()) True (line @ 10 # rest) ps =
    (if length line \<le> 64 * 1024 then (Proxied (line @ 10 # rest), ps) else (Dropped, ps))"
proof (cases "length line \<le> 64 * 1024")
  case True
  then show ?thesis
    using read_first_line_found[of line "[]" rest] assms by (simp add: handle_connection_def)
next
  case False
  have long: "read_first_line acc (l @ bs) = None"
    if "10 \<notin> set l" "length acc + length l > 64 * 1024" "length acc \<le> 64 * 1024" for acc l bs
    using that
  proof (induction l arbitrary: acc)
    case (Cons b l)
    show ?case
    proof (cases "length acc + 1 > 64 * 1024")
      case False
      with Cons.prems show ?thesis using Cons.IH[of "acc @ [b]"] by simp
    qed (use Cons.prems in simp)
  qed simp
  show ?thesis using long[of line "[]"] assms False by (simp add: handle_connection_def)
qed

lemma pd_connection_transparent_witness:
  "handle_connection (\<lambda>_. None) (Inr ()) True ([123, 125] @ 10 # [1, 2]) port_state_new =
    (Proxied [123, 125, 10, 1, 2], port_state_new)"
  using pd_connection_transparent[of "[123, 125]" "\<lambda>_. None" "[1, 2]" port_state_new] by simp

text \<open>The host tries to reach the guest 60 times before it gives up: it succeeds exactly
  when one of the first 60 attempts does, with the first success, and otherwise returns the
  last of their errors.\<close>

theorem pd_connect_retries:
  "(\<exists>fd. connect_vsock rs = Inr fd) = list_ex (\<lambda>r. \<exists>fd. r = Inr fd) (take 60 rs) \<and>
   connect_vsock (map Inl es @ Inr fd # rs') = (if length es < 60 then Inr fd else Inl (es ! 59))"
proof -
  have ex: "(\<exists>fd. connect_attempts n rs e = Inr fd) = list_ex (\<lambda>r. \<exists>fd. r = Inr fd) (take n rs)" for n rs e
    by (induction n rs e rule: connect_attempts.induct) (auto split: sum.splits)
  have first: "connect_attempts n (map Inl es @ Inr fd # rs') e =
      (if length es < n then Inr fd else if n = 0 then Inl e else Inl (es ! (n - 1)))" for n es e
  proof (induction n arbitrary: es e)
    case (Suc n)
    then show ?case by (cases es; cases n) auto
  qed simp
  show ?thesis unfolding connect_vsock_def ex first by simp
qed

end
