(* ===== verification/Calendar.thy ===== *)
theory Calendar
  imports Main
begin

text \<open>
  The date arithmetic of the clock that is put on the kernel command line
  (\<open>daemon_args_from_cli\<close> in \<open>pelagos-mac/src/main.rs\<close>). The code turns a day number into
  year, month and day with a closed formula over eras of 400 years. It is shown to agree with
  the Gregorian calendar, stated as the rule that gives the day after a date. The formula is
  checked at the 800 bounds of the years of an era and at the 366 days of a year by
  evaluation; monotonicity and periodicity give the rest.
\<close>

section \<open>The code\<close>

definition civil_from_days :: "int \<Rightarrow> int \<times> int \<times> int" where
  "civil_from_days days =
     (let z = days + 719468;
          era = (if z \<ge> 0 then z else z - 146096) div 146097;
          doe = z - era * 146097;
          yoe = (doe - doe div 1460 + doe div 36524 - doe div 146096) div 365;
          y = yoe + era * 400;
          doy = doe - (365 * yoe + yoe div 4 - yoe div 100);
          mp = (5 * doy + 2) div 153;
          d = doy - (153 * mp + 2) div 5 + 1;
          m = (if mp < 10 then mp + 3 else mp - 9);
          y = (if m \<le> 2 then y + 1 else y)
      in (y, m, d))"

section \<open>The calendar\<close>

definition leap :: "int \<Rightarrow> bool" where
  "leap y = ((4 dvd y \<and> \<not> 100 dvd y) \<or> 400 dvd y)"

definition month_len :: "int \<Rightarrow> int \<Rightarrow> int" where
  "month_len y m = (if m = 2 then (if leap y then 29 else 28) else if m \<in> {4, 6, 9, 11} then 30 else 31)"

fun next_day :: "int \<times> int \<times> int \<Rightarrow> int \<times> int \<times> int" where
  "next_day (y, m, d) =
     (if d < month_len y m then (y, m, d + 1) else if m < 12 then (y, m + 1, 1) else (y + 1, 1, 1))"

section \<open>The years of an era\<close>

text \<open>Years begin on the first of March; \<open>start y\<close> is the first day of year \<open>y\<close> of an era.\<close>

definition start :: "int \<Rightarrow> int" where
  "start y = (if y = 400 then 146097 else 365 * y + y div 4 - y div 100)"

definition year_formula :: "int \<Rightarrow> int" where
  "year_formula doe = doe - doe div 1460 + doe div 36524 - doe div 146096"

lemma minus_div_mono:
  fixes a b k :: int
  assumes "a \<le> b" "0 < k"
  shows "a - a div k \<le> b - b div k"
proof -
  have "b - a \<le> (b - a) * k" using assms mult_left_mono[of 1 k "b - a"] by simp
  then have "b div k \<le> (a + (b - a) * k) div k" using assms by (intro zdiv_mono1) simp_all
  also have "\<dots> = a div k + (b - a)" using assms by simp
  finally show ?thesis by simp
qed

lemma year_formula_mono:
  assumes "a \<le> b"
  shows "year_formula a \<le> year_formula b"
proof -
  have split: "x div 146096 = x div 36524 div 4" for x :: int
    using zdiv_zmult2_eq[of 4 x 36524] by simp
  have "a div 36524 \<le> b div 36524" using assms by (intro zdiv_mono1) simp_all
  then have "a div 36524 - a div 36524 div 4 \<le> b div 36524 - b div 36524 div 4"
    by (rule minus_div_mono) simp
  then show ?thesis using minus_div_mono[OF assms, of 1460] by (simp add: year_formula_def split)
qed

text \<open>At the bounds of the 400 years the formula gives the year, by evaluation.\<close>

lemma year_bounds:
  "list_all (\<lambda>y. year_formula (start y) div 365 = y \<and> year_formula (start (y + 1) - 1) div 365 = y \<and>
     start (y + 1) - start y = (if leap (y + 1) then 366 else 365)) [0..399]"
  by code_simp

lemma year_boundsD:
  assumes "0 \<le> y" "y < 400"
  shows "year_formula (start y) div 365 = y" "year_formula (start (y + 1) - 1) div 365 = y"
    "start (y + 1) - start y = (if leap (y + 1) then 366 else 365)"
proof -
  have "y \<in> {0..399}" using assms by simp
  then show "year_formula (start y) div 365 = y" "year_formula (start (y + 1) - 1) div 365 = y"
    "start (y + 1) - start y = (if leap (y + 1) then 366 else 365)"
    using year_bounds unfolding list_all_iff set_upto by blast+
qed

lemma year_unique:
  assumes "0 \<le> y" "y < 400" "start y \<le> doe" "doe < start (y + 1)"
  shows "year_formula doe div 365 = y"
proof -
  have "year_formula (start y) div 365 \<le> year_formula doe div 365"
    using assms by (intro zdiv_mono1 year_formula_mono) simp_all
  moreover have "year_formula doe div 365 \<le> year_formula (start (y + 1) - 1) div 365"
    using assms by (intro zdiv_mono1 year_formula_mono) simp_all
  ultimately show ?thesis using year_boundsD[OF assms(1,2)] by simp
qed

lemma leap_period: "leap (y + 400 * e) = leap y"
proof -
  have "k dvd y + 400 * e \<longleftrightarrow> k dvd y" if "k dvd (400 :: int)" for k
    using that by (simp add: dvd_add_left_iff)
  then show ?thesis by (simp add: leap_def)
qed

lemma start_range:
  assumes "0 \<le> y" "y \<le> 400"
  shows "0 \<le> start y" "start y \<le> 146097"
proof -
  have "list_all (\<lambda>y. 0 \<le> start y \<and> start y \<le> 146097) [0..400]" by code_simp
  then show "0 \<le> start y" "start y \<le> 146097" using assms by (auto simp: list_all_iff)
qed

section \<open>The days of a year\<close>

definition month_of :: "int \<Rightarrow> int" where
  "month_of doy = (let mp = (5 * doy + 2) div 153 in if mp < 10 then mp + 3 else mp - 9)"

definition day_of :: "int \<Rightarrow> int" where
  "day_of doy = doy - (153 * ((5 * doy + 2) div 153) + 2) div 5 + 1"

definition common_len :: "int \<Rightarrow> int" where
  "common_len m = (if m = 2 then 28 else if m \<in> {4, 6, 9, 11} then 30 else 31)"

lemma month_len_common: "month_len y m = (if m = 2 \<and> leap y then 29 else common_len m)"
  by (simp add: month_len_def common_len_def)

definition day_step_ok :: "int \<Rightarrow> bool" where
  "day_step_ok doy =
     ((month_of doy \<noteq> 2 \<or> day_of doy < 28) \<and> month_of doy \<le> 12 \<and>
      (if day_of doy < common_len (month_of doy)
       then month_of (doy + 1) = month_of doy \<and> day_of (doy + 1) = day_of doy + 1
       else month_of (doy + 1) = (if month_of doy < 12 then month_of doy + 1 else 1) \<and>
            day_of (doy + 1) = 1 \<and> month_of doy \<noteq> 2))"

lemma days_of_year: "list_all day_step_ok [0..363]"
  by code_simp

lemma day_step: "0 \<le> doy \<Longrightarrow> doy < 364 \<Longrightarrow> day_step_ok doy"
  using days_of_year unfolding list_all_iff set_upto by simp

lemma end_of_year: "month_of 364 = 2" "day_of 364 = 28" "month_of 365 = 2" "day_of 365 = 29"
  "month_of 0 = 3" "day_of 0 = 1"
  by code_simp+

definition date_of :: "int \<Rightarrow> int \<Rightarrow> int \<Rightarrow> int \<times> int \<times> int" where
  "date_of era y doy =
     (y + 400 * era + (if month_of doy \<le> 2 then 1 else 0), month_of doy, day_of doy)"

lemma civil_date_of:
  assumes days: "days + 719468 = era * 146097 + start y + doy"
    and "0 \<le> y" "y < 400" "0 \<le> doy" "start y + doy < start (y + 1)" "0 \<le> era"
  shows "civil_from_days days = date_of era y doy"
proof -
  define doe where "doe = start y + doy"
  define z where "z = era * 146097 + doe"
  have r: "0 \<le> doe" "doe < 146097"
    unfolding doe_def using start_range[of y] start_range[of "y + 1"] assms by linarith+
  have days': "days + 719468 = z" using days by (simp add: z_def doe_def)
  have pos: "(0 \<le> z) = True" using r assms(6) by (simp add: z_def)
  have era: "z div 146097 = era" unfolding z_def using r by (simp add: div_add1_eq div_pos_pos_trivial)
  have off: "z - era * 146097 = doe" by (simp add: z_def)
  have yr: "(doe - doe div 1460 + doe div 36524 - doe div 146096) div 365 = y"
    using year_unique[of y doe] assms by (simp add: year_formula_def doe_def)
  have doy: "doe - (365 * y + y div 4 - y div 100) = doy"
    using assms by (simp add: doe_def start_def)
  show ?thesis
    unfolding civil_from_days_def Let_def days' pos if_True era off yr doy
    by (simp add: date_of_def month_of_def day_of_def Let_def)
qed

lemma next_same_year:
  assumes "0 \<le> doy" "doy < 364 \<or> doy = 364 \<and> leap (y + 1)"
  shows "next_day (date_of era y doy) = date_of era y (doy + 1)"
proof (cases "doy = 364")
  case True
  then show ?thesis
    using assms leap_period[of "y + 1" era]
    by (simp add: date_of_def end_of_year month_len_def algebra_simps)
next
  case False
  then have doy: "0 \<le> doy" "doy < 364" using assms by auto
  show ?thesis
    using day_step[OF doy]
    by (auto simp: day_step_ok_def date_of_def month_len_common common_len_def[of 2] split: if_splits)
qed

lemma next_new_year:
  assumes "doy = (if leap (y + 1) then 365 else 364)"
  shows "next_day (date_of era y doy) = (y + 1 + 400 * era, 3, 1)"
  using assms leap_period[of "y + 1" era]
  by (auto simp: date_of_def end_of_year month_len_def algebra_simps)

lemma every_day:
  "\<exists>era y doy. int n + 719468 = era * 146097 + start y + doy \<and> 0 \<le> era \<and> 0 \<le> y \<and> y < 400 \<and> 0 \<le> doy \<and>
     start y + doy < start (y + 1)"
proof (induction n)
  case 0
  have "(719468 :: int) = 4 * 146097 + start 369 + 306 \<and> start 369 + 306 < start (369 + 1)" by code_simp
  then show ?case by (intro exI[of _ 4] exI[of _ 369] exI[of _ 306]) simp
next
  case (Suc n)
  then obtain era y doy where ih: "int n + 719468 = era * 146097 + start y + doy" "0 \<le> era" "0 \<le> y" "y < 400"
    "0 \<le> doy" "start y + doy < start (y + 1)" by blast
  have pos: "start y < start (y + 1)" if "0 \<le> y" "y < 400" for y
    using year_boundsD(3)[OF that] by (simp split: if_splits)
  consider "start y + doy + 1 < start (y + 1)" | "start y + doy + 1 = start (y + 1)" "y < 399"
    | "start y + doy + 1 = start (y + 1)" "y = 399" using ih by linarith
  then show ?case
  proof cases
    case 1
    then show ?thesis using ih by (intro exI[of _ era] exI[of _ y] exI[of _ "doy + 1"]) simp
  next
    case 2
    then show ?thesis using ih pos[of "y + 1"] by (intro exI[of _ era] exI[of _ "y + 1"] exI[of _ 0]) simp
  next
    case 3
    have "start 0 = 0" "start 400 = 146097" by (simp_all add: start_def)
    with 3 show ?thesis using ih pos[of 0] by (intro exI[of _ "era + 1"] exI[of _ 0]) (simp add: algebra_simps)
  qed
qed

text \<open>C40: The date computed for the clock is the Gregorian date: day 0 is 1 January 1970, and
  the date of every following day is the calendar's next day, with leap years and the lengths
  of the months, for all days without a bound.\<close>

theorem cal_civil_correct:
  "civil_from_days 0 = (1970, 1, 1) \<and>
   civil_from_days (int (Suc n)) = next_day (civil_from_days (int n))"
proof
  show "civil_from_days 0 = (1970, 1, 1)" by code_simp
  obtain era y doy where d: "int n + 719468 = era * 146097 + start y + doy" "0 \<le> era" "0 \<le> y" "y < 400"
    "0 \<le> doy" "start y + doy < start (y + 1)" using every_day by blast
  have len: "start (y + 1) - start y = (if leap (y + 1) then 366 else 365)"
    using year_boundsD[OF d(3,4)] by simp
  have n: "civil_from_days (int n) = date_of era y doy"
    using d by (intro civil_date_of) simp_all
  show "civil_from_days (int (Suc n)) = next_day (civil_from_days (int n))"
  proof (cases "start y + doy + 1 < start (y + 1)")
    case True
    then have "civil_from_days (int (Suc n)) = date_of era y (doy + 1)"
      using d by (intro civil_date_of) simp_all
    moreover have "doy < 364 \<or> doy = 364 \<and> leap (y + 1)" using True len d by (auto split: if_splits)
    ultimately show ?thesis using next_same_year[of doy y era] d n by simp
  next
    case False
    then have last: "doy = (if leap (y + 1) then 365 else 364)" using len d by (auto split: if_splits)
    have pos: "start x < start (x + 1)" if "0 \<le> x" "x < 400" for x
      using year_boundsD(3)[OF that] by (simp split: if_splits)
    show ?thesis
    proof (cases "y = 399")
      case True
      have "start 0 = 0" "start 400 = 146097" by (simp_all add: start_def)
      then have "civil_from_days (int (Suc n)) = date_of (era + 1) 0 0"
        using d len last pos[of 0] True by (intro civil_date_of) (simp_all split: if_splits)
      then show ?thesis using next_new_year[OF last] n True by (simp add: date_of_def end_of_year)
    next
      case False
      then have "civil_from_days (int (Suc n)) = date_of era (y + 1) 0"
        using d len last pos[of "y + 1"] by (intro civil_date_of) (simp_all split: if_splits)
      then show ?thesis using next_new_year[OF last] n by (simp add: date_of_def end_of_year algebra_simps)
    qed
  qed
qed

end
