(* ===== verification/Daemon_Args.thy ===== *)
theory Daemon_Args
  imports State_Dir Port_Daemon Calendar
begin

text \<open>
  How a virtual machine's configuration is put together (\<open>pelagos-mac/src/main.rs\<close> and
  \<open>daemon.rs\<close>): the shared directories, the artifacts that are found on disk, the kernel
  command line with the clock, the arguments the daemon's subprocess is started with, the
  configuration of the machine, and the check that a running daemon fits the request. The
  subprocess computes its configuration again from its own arguments, and what it records is
  compared with later requests, so the two computations have to agree.
\<close>

section \<open>Shared directories\<close>

record virtiofs_share =
  share_host :: string
  share_tag :: string
  share_ro :: bool
  share_path :: string

text \<open>\<open>str::splitn(3, _)\<close>\<close>

definition splitn3 :: "char \<Rightarrow> string \<Rightarrow> string list" where
  "splitn3 d s =
     (case split_once d s of
        None \<Rightarrow> [s]
      | Some (a, r) \<Rightarrow> (case split_once d r of None \<Rightarrow> [a, r] | Some (b, c) \<Rightarrow> [a, b, c]))"

text \<open>\<open>parse_volumes\<close>; \<open>None\<close> is the exit of the process on a malformed specification or a
  host path that does not exist.\<close>

definition parse_volume :: "(string \<Rightarrow> bool) \<Rightarrow> nat \<Rightarrow> string \<Rightarrow> virtiofs_share option" where
  "parse_volume exists i spec =
     (case splitn3 CHR '':'' spec of
        host # container # rest \<Rightarrow>
          if \<not> exists host then None
          else Some \<lparr>share_host = host, share_tag = ''share'' @ show_nat i,
                     share_ro = (case rest of m # _ \<Rightarrow> m = ''ro'' | [] \<Rightarrow> False), share_path = container\<rparr>
      | _ \<Rightarrow> None)"

definition parse_volumes_from :: "(string \<Rightarrow> bool) \<Rightarrow> nat \<Rightarrow> string list \<Rightarrow> virtiofs_share list option" where
  "parse_volumes_from exists n vs = those (map (\<lambda>(i, s). parse_volume exists i s) (enumerate n vs))"

definition parse_volumes :: "(string \<Rightarrow> bool) \<Rightarrow> string list \<Rightarrow> virtiofs_share list option" where
  "parse_volumes exists vs = parse_volumes_from exists 0 vs"

definition under_home :: "string option \<Rightarrow> string \<Rightarrow> bool" where
  "under_home home v =
     (let host = hd (split_chr CHR '':'' v) in
      case home of None \<Rightarrow> False | Some h \<Rightarrow> host = h \<or> starts_with host (h @ ''/''))"

definition build_virtiofs_shares :: "string option \<Rightarrow> (string \<Rightarrow> bool) \<Rightarrow> string list \<Rightarrow> virtiofs_share list option" where
  "build_virtiofs_shares home exists volumes =
     (let home_spec = map_option (\<lambda>h. h @ '':'') home;
          home_already_present =
            (case home_spec of None \<Rightarrow> False | Some hs \<Rightarrow> (case volumes of [] \<Rightarrow> False | v # _ \<Rightarrow> v = hs));
          effective =
            (if home_already_present
             then hd volumes # filter (\<lambda>v. \<not> under_home home v) (tl volumes)
             else (case home_spec of None \<Rightarrow> [] | Some hs \<Rightarrow> [hs]) @ filter (\<lambda>v. \<not> under_home home v) volumes)
      in parse_volumes exists effective)"

definition pelagos_volumes_host_path :: "env \<Rightarrow> string \<Rightarrow> string" where
  "pelagos_volumes_host_path e profile =
     path_join (case profile_dir e profile of
                  Inr d \<Rightarrow> d
                | Inl _ \<Rightarrow> path_join (case home_dir e of Some h \<Rightarrow> h | None \<Rightarrow> ''/tmp'') ''.local/share/pelagos'')
       ''volumes''"

text \<open>The always-on share of the named volumes, and the shares of a machine.\<close>

definition volumes_share :: "string \<Rightarrow> virtiofs_share" where
  "volumes_share host = \<lparr>share_host = host, share_tag = ''pelagos-volumes'', share_ro = False,
     share_path = ''/var/lib/pelagos/volumes''\<rparr>"

definition daemon_shares :: "env \<Rightarrow> (string \<Rightarrow> bool) \<Rightarrow> string \<Rightarrow> string list \<Rightarrow> virtiofs_share list option" where
  "daemon_shares e exists profile volumes =
     map_option (\<lambda>ss. volumes_share (pelagos_volumes_host_path e profile) # ss)
       (build_virtiofs_shares (home_dir e) exists volumes)"

section \<open>The clock on the command line\<close>

definition pad_nat :: "nat \<Rightarrow> nat \<Rightarrow> string" where
  "pad_nat w n = replicate (w - length (show_nat n)) CHR ''0'' @ show_nat n"

definition clock_utc :: "nat \<Rightarrow> string" where
  "clock_utc now =
     (let secs = now mod 60; mins = (now div 60) mod 60; hours = (now div 3600) mod 24;
          days = now div 86400
      in case civil_from_days (int days) of (year, month, day) \<Rightarrow>
        pad_nat 4 (nat year) @ ''-'' @ pad_nat 2 (nat month) @ ''-'' @ pad_nat 2 (nat day) @ ''T''
        @ pad_nat 2 hours @ '':'' @ pad_nat 2 mins @ '':'' @ pad_nat 2 secs)"

definition clocked_cmdline :: "nat \<Rightarrow> string \<Rightarrow> string" where
  "clocked_cmdline now base =
     (if str_contains ''clock.utc='' base then base else base @ '' clock.utc='' @ clock_utc now)"

section \<open>Artifacts\<close>

record discovered =
  found_kernel :: string
  found_initrd :: "string option"
  found_disk :: string

definition kernel_dirs :: "string \<Rightarrow> string list" where
  "kernel_dirs bin_dir =
     [path_join bin_dir ''../share/pelagos-mac'', path_join bin_dir ''share/pelagos-mac'',
      path_join bin_dir ''../../../out'']"

fun find_map :: "('a \<Rightarrow> 'b option) \<Rightarrow> 'a list \<Rightarrow> 'b option" where
  "find_map f [] = None"
| "find_map f (x # xs) = (case f x of Some y \<Rightarrow> Some y | None \<Rightarrow> find_map f xs)"

definition kernel_in :: "(string \<Rightarrow> bool) \<Rightarrow> string \<Rightarrow> (string \<times> string option) option" where
  "kernel_in exists dir =
     (case find exists (map (path_join dir) [''vmlinuz'', ''ubuntu-vmlinuz'']) of
        None \<Rightarrow> None
      | Some k \<Rightarrow> Some (k, find exists (map (path_join dir) [''initramfs.gz'', ''initramfs-custom.gz''])))"

text \<open>\<open>bin_dir\<close> is the directory of the running binary, when it can be found.\<close>

definition discover_vm_artifacts :: "env \<Rightarrow> (string \<Rightarrow> bool) \<Rightarrow> string option \<Rightarrow> discovered option" where
  "discover_vm_artifacts e exists bin_dir =
     (case bin_dir of
        None \<Rightarrow> None
      | Some b \<Rightarrow>
          (case find_map (kernel_in exists) (kernel_dirs b) of
             None \<Rightarrow> None
           | Some (k, i) \<Rightarrow>
               (let disk_dirs = (case pelagos_base e of Inr base \<Rightarrow> [base] | Inl _ \<Rightarrow> []) @ kernel_dirs b in
                case find exists (map (\<lambda>d. path_join d ''root.img'') disk_dirs) of
                  None \<Rightarrow> None
                | Some d \<Rightarrow> Some \<lparr>found_kernel = k, found_initrd = i, found_disk = d\<rparr>)))"

section \<open>The arguments of the daemon\<close>

record cli =
  cli_profile :: string
  cli_kernel :: "string option"
  cli_initrd :: "string option"
  cli_disk :: "string option"
  cli_cmdline :: string
  cli_memory :: "u64 option"
  cli_cpus :: "u64 option"
  cli_volumes :: "string list"
  cli_ports :: "string list"
  cli_extra_disks :: "string list"

record daemon_args =
  da_kernel :: string
  da_initrd :: "string option"
  da_disk :: string
  da_cmdline :: string
  da_memory_mib :: u64
  da_cpus :: u64
  da_shares :: "virtiofs_share list"
  da_ports :: "port_forward list"
  da_profile :: string
  da_extra_disks :: "string list"

definition parse_ports :: "string list \<Rightarrow> port_forward list option" where
  "parse_ports ports = those (map parse_port_spec ports)"

definition or_else :: "'a option \<Rightarrow> 'a option \<Rightarrow> 'a option" where
  "or_else a b = (case a of Some x \<Rightarrow> Some x | None \<Rightarrow> b)"

definition get_or :: "'a option \<Rightarrow> 'a \<Rightarrow> 'a" where
  "get_or a d = (case a of Some x \<Rightarrow> x | None \<Rightarrow> d)"

text \<open>\<open>exists\<close> is whether a path exists, \<open>now\<close> the seconds since the epoch; \<open>None\<close> is an
  exit of the process.\<close>

definition daemon_args_from_cli ::
  "env \<Rightarrow> fs \<Rightarrow> (string \<Rightarrow> bool) \<Rightarrow> string option \<Rightarrow> nat \<Rightarrow> cli \<Rightarrow> daemon_args option" where
  "daemon_args_from_cli e f exists bin_dir now c =
     (let cfg = (case load_conf e f (cli_profile c) of Inr x \<Rightarrow> x | Inl _ \<Rightarrow> config_default);
          disc = (if (cli_kernel c = None \<and> kernel cfg = None) \<or> (cli_disk c = None \<and> disk cfg = None)
                  then discover_vm_artifacts e exists bin_dir else None)
      in case or_else (or_else (cli_kernel c) (kernel cfg)) (map_option found_kernel disc) of
           None \<Rightarrow> None
         | Some k \<Rightarrow>
      (case or_else (or_else (cli_disk c) (disk cfg)) (map_option found_disk disc) of
           None \<Rightarrow> None
         | Some d \<Rightarrow>
      (case daemon_shares e exists (cli_profile c) (cli_volumes c) of
           None \<Rightarrow> None
         | Some shares \<Rightarrow>
      (case parse_ports (cli_ports c) of
           None \<Rightarrow> None
         | Some pfs \<Rightarrow>
             Some \<lparr>da_kernel = k,
                   da_initrd = or_else (or_else (cli_initrd c) (initrd cfg)) (Option.bind disc found_initrd),
                   da_disk = d,
                   da_cmdline = clocked_cmdline now (get_or (cmdline cfg) (cli_cmdline c)),
                   da_memory_mib = get_or (or_else (cli_memory c) (memory cfg)) 4096,
                   da_cpus = get_or (or_else (cli_cpus c) (cpus cfg)) 2,
                   da_shares = shares, da_ports = pfs, da_profile = cli_profile c,
                   da_extra_disks = cli_extra_disks c\<rparr>))))"

section \<open>The subprocess\<close>

definition volume_spec :: "virtiofs_share \<Rightarrow> string" where
  "volume_spec s = share_host s @ '':'' @ share_path s @ (if share_ro s then '':ro'' else [])"

text \<open>The options as pairs, and the argument vector.\<close>

definition argv_of :: "(string \<times> string) list \<Rightarrow> string list" where
  "argv_of kvs = concat (map (\<lambda>(k, v). [k, v]) kvs)"

definition daemon_flags :: "daemon_args \<Rightarrow> (string \<times> string) list" where
  "daemon_flags a =
     (if da_profile a \<noteq> ''default'' then [(''--profile'', da_profile a)] else [])
     @ [(''--kernel'', da_kernel a), (''--disk'', da_disk a)]
     @ (case da_initrd a of Some i \<Rightarrow> [(''--initrd'', i)] | None \<Rightarrow> [])
     @ [(''--cmdline'', da_cmdline a), (''--memory'', show_word (da_memory_mib a)),
        (''--cpus'', show_word (da_cpus a))]
     @ map (\<lambda>s. (''--volume'', volume_spec s)) (da_shares a)
     @ map (\<lambda>p. (''--port'', show_port_forward p)) (da_ports a)
     @ map (\<lambda>d. (''--extra-disk'', d)) (da_extra_disks a)"

definition daemon_subprocess_args :: "daemon_args \<Rightarrow> string list" where
  "daemon_subprocess_args a = argv_of (daemon_flags a) @ [''vm-daemon-internal'']"

text \<open>
  The arguments are read by \<open>clap\<close>, a parameter here. What is relied on of it, for the options of \<open>Cli\<close>
  given as pairs before the subcommand, no single-valued option twice, numbers where numbers are
  asked for and no value beginning with a dash (which it would take for an option): a single-valued
  option holds its value or its default, a repeated option its values in order.
\<close>

definition flag_values :: "string \<Rightarrow> (string \<times> string) list \<Rightarrow> string list" where
  "flag_values k kvs = map snd (filter (\<lambda>kv. fst kv = k) kvs)"

definition flag_value :: "string \<Rightarrow> (string \<times> string) list \<Rightarrow> string option" where
  "flag_value k kvs = map_of kvs k"

definition cli_of_flags :: "(string \<times> string) list \<Rightarrow> cli" where
  "cli_of_flags kvs =
     \<lparr>cli_profile = get_or (flag_value ''--profile'' kvs) ''default'',
      cli_kernel = flag_value ''--kernel'' kvs, cli_initrd = flag_value ''--initrd'' kvs,
      cli_disk = flag_value ''--disk'' kvs,
      cli_cmdline = get_or (flag_value ''--cmdline'' kvs) ''console=hvc0 random.trust_cpu=on'',
      cli_memory = Option.bind (flag_value ''--memory'' kvs) parse_word,
      cli_cpus = Option.bind (flag_value ''--cpus'' kvs) parse_word,
      cli_volumes = flag_values ''--volume'' kvs, cli_ports = flag_values ''--port'' kvs,
      cli_extra_disks = flag_values ''--extra-disk'' kvs\<rparr>"

definition single_options :: "string list" where
  "single_options = [''--profile'', ''--kernel'', ''--initrd'', ''--disk'', ''--cmdline'', ''--memory'', ''--cpus'']"

definition repeated_options :: "string list" where
  "repeated_options = [''--volume'', ''--port'', ''--extra-disk'']"

definition no_dash :: "(string \<times> string) list \<Rightarrow> bool" where
  "no_dash kvs = list_all (\<lambda>(_, v). \<not> starts_with v ''-'') kvs"

definition plain_flags :: "(string \<times> string) list \<Rightarrow> bool" where
  "plain_flags kvs =
     (no_dash kvs \<and> list_all (\<lambda>(k, v). k \<in> set (single_options @ repeated_options)) kvs \<and>
      distinct (filter (\<lambda>k. k \<in> set single_options) (map fst kvs)) \<and>
      list_all (\<lambda>(k, v). k = ''--memory'' \<or> k = ''--cpus'' \<longrightarrow> (parse_word v :: u64 option) \<noteq> None) kvs)"

definition clap_reads :: "(string list \<Rightarrow> cli option) \<Rightarrow> bool" where
  "clap_reads clap = (\<forall>kvs sb. plain_flags kvs \<longrightarrow> clap (argv_of kvs @ [sb]) = Some (cli_of_flags kvs))"

section \<open>The machine's configuration\<close>

record vm_config =
  vc_kernel :: string
  vc_initrd :: "string option"
  vc_cmdline :: string
  vc_disk :: string
  vc_extra_disks :: "string list"
  vc_cpus :: u64
  vc_memory_mib :: u64
  vc_vsock_port :: u32
  vc_shares :: "(string \<times> string \<times> bool) list"
  vc_rosetta :: bool
  vc_guest_ip :: ipv4

record vm_config_builder =
  b_kernel :: "string option"
  b_initrd :: "string option"
  b_cmdline :: "string option"
  b_disk :: "string option"
  b_extra_disks :: "string list"
  b_cpus :: "u64 option"
  b_memory_mib :: "u64 option"
  b_vsock_port :: "u32 option"
  b_shares :: "(string \<times> string \<times> bool) list"
  b_rosetta :: bool
  b_guest_ip :: "ipv4 option"

definition builder_new :: vm_config_builder where
  "builder_new = \<lparr>b_kernel = None, b_initrd = None, b_cmdline = None, b_disk = None, b_extra_disks = [],
     b_cpus = None, b_memory_mib = None, b_vsock_port = None, b_shares = [], b_rosetta = False, b_guest_ip = None\<rparr>"

definition build_config :: "vm_config_builder \<Rightarrow> string + vm_config" where
  "build_config b =
     (case b_kernel b of
        None \<Rightarrow> Inl ''kernel required''
      | Some k \<Rightarrow>
          (case b_disk b of
             None \<Rightarrow> Inl ''disk required''
           | Some d \<Rightarrow>
               Inr \<lparr>vc_kernel = k, vc_initrd = b_initrd b,
                    vc_cmdline = get_or (b_cmdline b) ''console=hvc0 root=/dev/vda rw'', vc_disk = d,
                    vc_extra_disks = b_extra_disks b, vc_cpus = get_or (b_cpus b) 2,
                    vc_memory_mib = get_or (b_memory_mib b) 1024,
                    vc_vsock_port = get_or (b_vsock_port b) 1024, vc_shares = b_shares b,
                    vc_rosetta = b_rosetta b, vc_guest_ip = get_or (b_guest_ip b) (192, 168, 105, 2)\<rparr>))"

definition build_cmdline_from_parts :: "string \<Rightarrow> virtiofs_share list \<Rightarrow> string" where
  "build_cmdline_from_parts base shares =
     (if shares \<noteq> [] then base @ '' virtiofs.tags='' @ join '','' (map share_tag shares) else base)"

definition build_vm_config :: "env \<Rightarrow> fs \<Rightarrow> daemon_args \<Rightarrow> string + vm_config" where
  "build_vm_config e f a =
     (let cfg = (case load_conf e f (da_profile a) of Inr x \<Rightarrow> x | Inl _ \<Rightarrow> config_default);
          b = builder_new\<lparr>b_kernel := Some (da_kernel a), b_disk := Some (da_disk a),
                b_cmdline := Some (build_cmdline_from_parts (da_cmdline a) (da_shares a)),
                b_memory_mib := Some (da_memory_mib a), b_cpus := Some (da_cpus a),
                b_guest_ip := Some (get_or (vm_ip cfg) DEFAULT_GUEST_IP)\<rparr>;
          b = (case da_initrd a of Some i \<Rightarrow> b\<lparr>b_initrd := Some i\<rparr> | None \<Rightarrow> b);
          b = fold (\<lambda>s b. b\<lparr>b_shares := b_shares b @ [(share_host s, share_tag s, share_ro s)]\<rparr>) (da_shares a) b;
          b = fold (\<lambda>d b. b\<lparr>b_extra_disks := b_extra_disks b @ [d]\<rparr>) (da_extra_disks a) b
      in build_config b)"

section \<open>Reusing a running daemon\<close>

text \<open>
  \<open>ensure_running\<close> up to the point where a new daemon is spawned: an error, a running daemon
  that fits, or the start of a new one with these arguments. \<open>blessed\<close> is the result of
  installing the privileged helper.
\<close>

datatype running_outcome = RunErr io_err | AlreadyRunning | SpawnDaemon "string list"

definition ensure_running ::
  "(string \<Rightarrow> string + virtiofs_share list) \<Rightarrow> (string \<Rightarrow> string + string list) \<Rightarrow> (int \<Rightarrow> bool)
    \<Rightarrow> string + unit \<Rightarrow> env \<Rightarrow> daemon_args \<Rightarrow> fs \<Rightarrow> running_outcome \<times> fs" where
  "ensure_running mounts_json disks_json kill0 blessed e a f =
     (case open_profile e (da_profile a) f of
        (Inl x, f1) \<Rightarrow> (RunErr x, f1)
      | (Inr sd, f1) \<Rightarrow>
     (case blessed of
        Inl m \<Rightarrow> (RunErr (OtherErr (''pfctl helper: '' @ m)), f1)
      | Inr _ \<Rightarrow>
     (case ensure_vm_ip e (da_profile a) f1 of
        (Inl x, f2) \<Rightarrow> (RunErr (OtherErr ''subnet allocation''), f2)
      | (Inr _, f2) \<Rightarrow>
          if is_daemon_alive kill0 f2 sd then
            (case read_mounts mounts_json f2 sd of
               Inl x \<Rightarrow> (RunErr x, f2)
             | Inr running_mounts \<Rightarrow>
                 if running_mounts \<noteq> da_shares a then
                   (RunErr (OtherErr ''daemon is running with different mount configuration; run 'pelagos vm stop' first, then retry''), f2)
                 else
                   (case read_extra_disks disks_json f2 sd of
                      Inl x \<Rightarrow> (RunErr x, f2)
                    | Inr running_extra \<Rightarrow>
                        if running_extra \<noteq> da_extra_disks a then
                          (RunErr (OtherErr ''daemon is running with different extra-disk configuration; run 'pelagos vm stop' first, then retry''), f2)
                        else (AlreadyRunning, f2)))
          else (SpawnDaemon (daemon_subprocess_args a), clear_state sd f2))))"

section \<open>The subprocess computes the same configuration\<close>

lemma split_once_no: "split_once d s = Some (a, b) \<Longrightarrow> d \<notin> set a"
  by (simp add: split_once_Some)

lemma hd_split_chr: "hd (split_chr d s) = (case split_once d s of None \<Rightarrow> s | Some (a, _) \<Rightarrow> a)"
proof (cases "split_once d s")
  case None
  then have "d \<notin> set s"
    by (metis option.distinct(1) split_list_first split_once_append)
  then show ?thesis using None by (simp add: split_chr_single)
next
  case (Some ab)
  then obtain a b where ab: "ab = (a, b)" "s = a @ d # b" "d \<notin> set a"
    by (cases ab) (simp add: split_once_Some)
  then show ?thesis using Some by (simp add: split_chr_append)
qed

lemma parse_volume_Some:
  assumes "parse_volume exists i spec = Some s"
  shows "exists (share_host s)" "CHR '':'' \<notin> set (share_host s)" "CHR '':'' \<notin> set (share_path s)"
    "share_tag s = ''share'' @ show_nat i" "hd (split_chr CHR '':'' spec) = share_host s"
proof -
  obtain a r where ar: "split_once CHR '':'' spec = Some (a, r)"
    using assms by (cases "split_once CHR '':'' spec") (auto simp: parse_volume_def splitn3_def)
  have r: "CHR '':'' \<notin> set r" if "split_once CHR '':'' r = None"
    using that by (metis option.distinct(1) split_list_first split_once_append)
  have hd: "hd (split_chr CHR '':'' spec) = a" using ar by (simp add: hd_split_chr)
  have "exists (share_host s) \<and> share_host s = a \<and> CHR '':'' \<notin> set (share_path s) \<and>
      share_tag s = ''share'' @ show_nat i"
    using assms ar r split_once_no[of "CHR '':''" r]
    by (auto simp: parse_volume_def splitn3_def split: option.splits if_splits)
  then show "exists (share_host s)" "CHR '':'' \<notin> set (share_host s)" "CHR '':'' \<notin> set (share_path s)"
    "share_tag s = ''share'' @ show_nat i" "hd (split_chr CHR '':'' spec) = share_host s"
    using split_once_no[OF ar] hd by auto
qed

text \<open>A share printed as a specification and parsed again is the same share.\<close>

lemma parse_volume_spec:
  assumes "exists (share_host s)" "CHR '':'' \<notin> set (share_host s)" "CHR '':'' \<notin> set (share_path s)"
  shows "parse_volume exists i (volume_spec s) = Some (s\<lparr>share_tag := ''share'' @ show_nat i\<rparr>)"
  using assms by (cases s) (simp add: parse_volume_def splitn3_def volume_spec_def split_once_append split_once_None)

lemma hd_split_volume_spec:
  "CHR '':'' \<notin> set (share_host s) \<Longrightarrow> hd (split_chr CHR '':'' (volume_spec s)) = share_host s"
  by (simp add: volume_spec_def split_chr_append)

lemma under_home_spec:
  "parse_volume exists i spec = Some s \<Longrightarrow> under_home home (volume_spec s) = under_home home spec"
  by (simp add: under_home_def parse_volume_Some hd_split_volume_spec)

lemma parse_volumes_from_Cons:
  "parse_volumes_from exists n (v # vs) =
     (case parse_volume exists n v of None \<Rightarrow> None
      | Some s \<Rightarrow> map_option ((#) s) (parse_volumes_from exists (Suc n) vs))"
  by (simp add: parse_volumes_from_def split: option.splits)

lemma reparse_volumes:
  "parse_volumes_from exists n vs = Some ss \<Longrightarrow>
   parse_volumes_from exists n (map volume_spec ss) = Some ss \<and>
   (list_all (\<lambda>v. \<not> under_home home v) vs \<longrightarrow> list_all (\<lambda>v. \<not> under_home home v) (map volume_spec ss))"
proof (induction vs arbitrary: n ss)
  case (Cons v vs)
  then obtain s ts where st: "parse_volume exists n v = Some s" "parse_volumes_from exists (Suc n) vs = Some ts" "ss = s # ts"
    by (auto simp: parse_volumes_from_Cons split: option.splits)
  have "parse_volume exists n (volume_spec s) = Some s"
    using parse_volume_Some[OF st(1)] parse_volume_spec[of exists s n] by (cases s) simp
  then show ?case
    using Cons.IH[OF st(2)] st under_home_spec[OF st(1)] by (simp add: parse_volumes_from_Cons)
qed (simp add: parse_volumes_from_def)

text \<open>The specifications that are parsed: the home directory first, then those outside it.\<close>

lemma build_shares_shape:
  "build_virtiofs_shares (Some h) exists vols =
     parse_volumes exists ((h @ '':'') # filter (\<lambda>v. \<not> under_home (Some h) v)
       (if vols \<noteq> [] \<and> hd vols = h @ '':'' then tl vols else vols))"
  by (cases vols) (auto simp: build_virtiofs_shares_def)

lemma under_home_itself: "CHR '':'' \<notin> set h \<Longrightarrow> under_home (Some h) (h @ '':'')"
  by (simp add: under_home_def split_chr_append)

lemma reparse_shares:
  assumes h: "CHR '':'' \<notin> set h"
    and vh: "CHR '':'' \<notin> set vh" "starts_with vh (h @ ''/'')"
    and ss: "build_virtiofs_shares (Some h) exists vols = Some ss"
  shows "build_virtiofs_shares (Some h) exists (map volume_spec (volumes_share vh # ss)) = Some ss"
proof -
  define vs where "vs = filter (\<lambda>v. \<not> under_home (Some h) v)
    (if vols \<noteq> [] \<and> hd vols = h @ '':'' then tl vols else vols)"
  have out: "list_all (\<lambda>v. \<not> under_home (Some h) v) vs" by (simp add: vs_def list_all_iff)
  obtain s ts where st: "parse_volume exists 0 (h @ '':'') = Some s"
      "parse_volumes_from exists 1 vs = Some ts" "ss = s # ts"
    using ss by (auto simp: build_shares_shape vs_def[symmetric] parse_volumes_def parse_volumes_from_Cons
        split: option.splits)
  have s: "volume_spec s = h @ '':''"
  proof -
    have sp: "splitn3 CHR '':'' (h @ '':'') = [h, []]" using h by (simp add: splitn3_def split_once_append)
    show ?thesis using st(1) unfolding parse_volume_def sp by (auto simp: volume_spec_def split: if_splits)
  qed
  have first: "volume_spec (volumes_share vh) \<noteq> h @ '':''"
  proof
    assume "volume_spec (volumes_share vh) = h @ '':''"
    then have "split_once CHR '':'' (volume_spec (volumes_share vh)) = split_once CHR '':'' (h @ '':'')" by simp
    then show False
      using h vh(1) by (simp add: volume_spec_def volumes_share_def split_once_append)
  qed
  have "under_home (Some h) (volume_spec (volumes_share vh))"
    using vh by (simp add: under_home_def hd_split_volume_spec volumes_share_def)
  then have "filter (\<lambda>v. \<not> under_home (Some h) v) (map volume_spec (volumes_share vh # ss)) = map volume_spec ts"
    using s st(3) under_home_itself[OF h] reparse_volumes[OF st(2), of "Some h"] out
    by (simp add: filter_id_conv list_all_iff)
  then show ?thesis
    using first st reparse_volumes[OF st(2)]
    by (simp add: build_shares_shape parse_volumes_def parse_volumes_from_Cons)
qed

lemma map_of_tagged: "map_of (map (\<lambda>x. (k, f x)) xs) k' = (if k = k' \<and> xs \<noteq> [] then Some (f (hd xs)) else None)"
  by (cases xs) (auto simp: map_of_eq_None_iff)

lemma filter_tagged: "map snd (filter (\<lambda>kv. fst kv = k') (map (\<lambda>x. (k, f x)) xs)) = (if k = k' then map f xs else [])"
  by (induction xs) auto

lemma flags_of_args:
  "flag_value ''--profile'' (daemon_flags a) = (if da_profile a \<noteq> ''default'' then Some (da_profile a) else None)"
  "flag_value ''--kernel'' (daemon_flags a) = Some (da_kernel a)"
  "flag_value ''--disk'' (daemon_flags a) = Some (da_disk a)"
  "flag_value ''--initrd'' (daemon_flags a) = da_initrd a"
  "flag_value ''--cmdline'' (daemon_flags a) = Some (da_cmdline a)"
  "flag_value ''--memory'' (daemon_flags a) = Some (show_word (da_memory_mib a))"
  "flag_value ''--cpus'' (daemon_flags a) = Some (show_word (da_cpus a))"
  by (simp_all add: flag_value_def daemon_flags_def map_add_def map_of_tagged split: option.splits)

lemma flag_lists_of_args:
  "flag_values ''--volume'' (daemon_flags a) = map volume_spec (da_shares a)"
  "flag_values ''--port'' (daemon_flags a) = map show_port_forward (da_ports a)"
  "flag_values ''--extra-disk'' (daemon_flags a) = da_extra_disks a"
  by (simp_all add: flag_values_def daemon_flags_def filter_tagged comp_def split: option.splits)

lemma str_contains_append: "str_contains p (a @ p @ b)"
proof (induction a)
  case Nil
  then show ?case using strip_prefix_append[of p b] by (cases "p @ b") (auto simp: starts_with_def)
qed simp

lemma clocked_twice: "clocked_cmdline now' (clocked_cmdline now b) = clocked_cmdline now b"
  using str_contains_append[of "''clock.utc=''" "b @ '' ''" "clock_utc now"]
  by (simp add: clocked_cmdline_def)

lemma parse_shown_ports: "parse_ports (map show_port_forward pfs) = Some pfs"
  by (induction pfs) (simp_all add: parse_ports_def parse_show_port_forward)

lemma daemon_flags_plain: "no_dash (daemon_flags a) \<Longrightarrow> plain_flags (daemon_flags a)"
  by (auto simp: plain_flags_def daemon_flags_def single_options_def repeated_options_def list_all_iff comp_def usize_text.dec_enc
      split: option.splits)


section \<open>A state directory outside the home directory\<close>

lemma reparse_shifted:
  "parse_volumes_from exists n vs = Some ss \<Longrightarrow>
   \<exists>ss'. parse_volumes_from exists m (map volume_spec ss) = Some ss' \<and> length ss' = length ss"
proof (induction vs arbitrary: n m ss)
  case (Cons v vs)
  then obtain s ts where st: "parse_volume exists n v = Some s" "parse_volumes_from exists (Suc n) vs = Some ts" "ss = s # ts"
    by (auto simp: parse_volumes_from_Cons split: option.splits)
  have "parse_volume exists m (volume_spec s) = Some (s\<lparr>share_tag := ''share'' @ show_nat m\<rparr>)"
    using parse_volume_Some[OF st(1)] by (intro parse_volume_spec)
  then show ?case using Cons.IH[OF st(2), of "Suc m"] st(3) by (auto simp: parse_volumes_from_Cons)
qed (simp add: parse_volumes_from_def)

text \<open>When the state directory lies outside the home directory (an \<open>XDG_DATA_HOME\<close>
  elsewhere), the subprocess gets the always-on volumes directory a second time, as a share of
  its own: the shares it computes and records differ from the parent's, so that every later
  request finds a daemon with a different mount configuration.\<close>

lemma da_shares_outside_home:
  assumes "daemon_shares e exists profile vols = Some ss"
    and "home_dir e = Some h" and "CHR '':'' \<notin> set h"
    and "CHR '':'' \<notin> set (pelagos_volumes_host_path e profile)"
    and "\<not> starts_with (pelagos_volumes_host_path e profile) (h @ ''/'')"
    and "pelagos_volumes_host_path e profile \<noteq> h" and "exists (pelagos_volumes_host_path e profile)"
  shows "\<exists>ss'. daemon_shares e exists profile (map volume_spec ss) = Some ss' \<and> length ss' = length ss + 1"
proof -
  define vh where "vh = pelagos_volumes_host_path e profile"
  obtain us where us: "build_virtiofs_shares (Some h) exists vols = Some us" "ss = volumes_share vh # us"
    using assms(1,2) by (auto simp: daemon_shares_def vh_def)
  define vs where "vs = filter (\<lambda>v. \<not> under_home (Some h) v)
    (if vols \<noteq> [] \<and> hd vols = h @ '':'' then tl vols else vols)"
  have out: "list_all (\<lambda>v. \<not> under_home (Some h) v) vs" by (simp add: vs_def list_all_iff)
  obtain s ts where st: "parse_volume exists 0 (h @ '':'') = Some s"
      "parse_volumes_from exists 1 vs = Some ts" "us = s # ts"
    using us(1) by (auto simp: build_shares_shape vs_def[symmetric] parse_volumes_def parse_volumes_from_Cons
        split: option.splits)
  have sp: "splitn3 CHR '':'' (h @ '':'') = [h, []]" using assms(3) by (simp add: splitn3_def split_once_append)
  have s: "volume_spec s = h @ '':''"
    using st(1) unfolding parse_volume_def sp by (auto simp: volume_spec_def split: if_splits)
  have vh: "\<not> under_home (Some h) (volume_spec (volumes_share vh))"
    using assms(4-6) by (simp add: under_home_def hd_split_volume_spec volumes_share_def vh_def)
  then have "volume_spec (volumes_share vh) \<noteq> h @ '':''" using under_home_itself[OF assms(3)] by auto
  moreover have "filter (\<lambda>v. \<not> under_home (Some h) v) (map volume_spec ss) = volume_spec (volumes_share vh) # map volume_spec ts"
    using us(2) st(3) s vh under_home_itself[OF assms(3)] reparse_volumes[OF st(2), of "Some h"] out
    by (simp add: filter_id_conv list_all_iff)
  moreover have "\<exists>w. parse_volume exists 1 (volume_spec (volumes_share vh)) = Some w"
    using parse_volume_spec[of exists "volumes_share vh" 1] assms(4,7) by (simp add: volumes_share_def vh_def)
  moreover obtain ts' where "parse_volumes_from exists 2 (map volume_spec ts) = Some ts'" "length ts' = length ts"
    using reparse_shifted[OF st(2)] by blast
  ultimately show ?thesis
    using us(2) st assms(2)
    by (auto simp: daemon_shares_def build_shares_shape parse_volumes_def parse_volumes_from_Cons numeral_2_eq_2)
qed

definition home_env :: env where "home_env = \<lparr>xdg_data_home = None, home_dir = Some ''/h''\<rparr>"
definition xdg_env :: env where "xdg_env = \<lparr>xdg_data_home = Some ''/x'', home_dir = Some ''/h''\<rparr>"

lemma demo_volumes_paths:
  "pelagos_volumes_host_path home_env ''default'' = ''/h/.local/share/pelagos/volumes''"
  "pelagos_volumes_host_path xdg_env ''default'' = ''/x/pelagos/volumes''"
  by (simp_all add: pelagos_volumes_host_path_def profile_dir_def pelagos_base_def home_env_def xdg_env_def
      path_join_def starts_with_def)

lemma demo_homes: "home_dir home_env = Some ''/h''" "home_dir xdg_env = Some ''/h''"
  by (simp_all add: home_env_def xdg_env_def)

lemma demo_shares:
  "daemon_shares xdg_env (\<lambda>_. True) ''default'' [] =
     Some [volumes_share ''/x/pelagos/volumes'',
       \<lparr>share_host = ''/h'', share_tag = ''share0'', share_ro = False, share_path = []\<rparr>]"
proof -
  have "splitn3 CHR '':'' ''/h:'' = [''/h'', []]" by (simp add: splitn3_def)
  moreover have "show_nat 0 = ''0''" by code_simp
  ultimately show ?thesis
    by (simp add: daemon_shares_def demo_volumes_paths build_virtiofs_shares_def demo_homes parse_volumes_def
        parse_volumes_from_def parse_volume_def)
qed

lemma da_shares_outside_home_witness:
  "\<exists>ss'. daemon_shares xdg_env (\<lambda>_. True) ''default''
      (map volume_spec [volumes_share ''/x/pelagos/volumes'',
         \<lparr>share_host = ''/h'', share_tag = ''share0'', share_ro = False, share_path = []\<rparr>]) = Some ss' \<and>
     length ss' = 3"
  using da_shares_outside_home[OF demo_shares, of "''/h''"]
  by (simp add: demo_volumes_paths demo_homes starts_with_def numeral_3_eq_3)

definition demo_cli :: cli where
  "demo_cli = \<lparr>cli_profile = ''default'', cli_kernel = Some ''/k'', cli_initrd = None, cli_disk = Some ''/d'',
     cli_cmdline = ''console=hvc0'', cli_memory = None, cli_cpus = Some 4, cli_volumes = [],
     cli_ports = [], cli_extra_disks = [''/e.img'']\<rparr>"

text \<open>A parser of pairs behaves as assumed.\<close>

fun pairs_of :: "string list \<Rightarrow> (string \<times> string) list" where
  "pairs_of (k # v # as) = (k, v) # pairs_of as"
| "pairs_of _ = []"

definition pair_clap :: "string list \<Rightarrow> cli option" where
  "pair_clap as = Some (cli_of_flags (pairs_of as))"

lemma pair_clap_reads: "clap_reads pair_clap"
proof -
  have "pairs_of (argv_of kvs @ [sb]) = kvs" for kvs sb by (induction kvs) (auto simp: argv_of_def)
  then show ?thesis by (simp add: clap_reads_def pair_clap_def)
qed


section \<open>The machine that is started\<close>

text \<open>The machine is configured with exactly what the daemon was given: kernel, disks in
  order, sizes, every shared directory with its tag in the order of the tags on the kernel
  command line, and as its address the one allocated to the profile.\<close>

lemma da_machine_config:
  assumes "ensure_vm_ip e (da_profile a) f = (Inr ip, f')"
    and "alloc_inv e f" and "valid_profile (da_profile a)"
  shows "build_vm_config e f' a = Inr
    \<lparr>vc_kernel = da_kernel a, vc_initrd = da_initrd a,
     vc_cmdline = da_cmdline a @ (if da_shares a = [] then []
                    else '' virtiofs.tags='' @ join '','' (map share_tag (da_shares a))),
     vc_disk = da_disk a, vc_extra_disks = da_extra_disks a, vc_cpus = da_cpus a,
     vc_memory_mib = da_memory_mib a, vc_vsock_port = 1024,
     vc_shares = map (\<lambda>s. (share_host s, share_tag s, share_ro s)) (da_shares a),
     vc_rosetta = False, vc_guest_ip = ip\<rparr>"
proof -
  have "alloc_inv e f'" "ip_of e f' (da_profile a) = Some ip"
    using ensure_vm_ip_step[OF assms(2,3,1)] by simp_all
  then obtain c where c: "load_conf e f' (da_profile a) = Inr c" "vm_ip c = Some ip"
    using load_conf_ok[OF _ assms(3)] by fastforce
  have shares: "fold (\<lambda>s b. b\<lparr>b_shares := b_shares b @ [(share_host s, share_tag s, share_ro s)]\<rparr>) ss b =
      b\<lparr>b_shares := b_shares b @ map (\<lambda>s. (share_host s, share_tag s, share_ro s)) ss\<rparr>" for ss b
    by (induction ss arbitrary: b) simp_all
  have disks: "fold (\<lambda>d b. b\<lparr>b_extra_disks := b_extra_disks b @ [d]\<rparr>) ds b =
      b\<lparr>b_extra_disks := b_extra_disks b @ ds\<rparr>" for ds b
    by (induction ds arbitrary: b) simp_all
  show ?thesis
    unfolding build_vm_config_def Let_def c(1) shares disks
    by (cases "da_initrd a")
      (simp_all add: c builder_new_def build_config_def get_or_def build_cmdline_from_parts_def)
qed

definition demo_args :: daemon_args where
  "demo_args = \<lparr>da_kernel = ''/k'', da_initrd = None, da_disk = ''/d'', da_cmdline = ''console=hvc0'',
     da_memory_mib = 4096, da_cpus = 2, da_shares = [], da_ports = [], da_profile = ''build'', da_extra_disks = []\<rparr>"

lemma da_machine_config_witness:
  "\<exists>vc. build_vm_config demo_env (snd (ensure_vm_ip demo_env ''build'' demo_fs)) demo_args = Inr vc \<and>
     vc_guest_ip vc = (192, 168, 106, 2)"
proof -
  have "ensure_vm_ip demo_env (da_profile demo_args) demo_fs =
      (Inr (192, 168, 106, 2), snd (ensure_vm_ip demo_env ''build'' demo_fs))"
    using demo_ensure by (simp add: demo_args_def prod_eq_iff)
  moreover have "alloc_inv demo_env demo_fs"
    by (rule alloc_inv_fresh[OF demo_base]) (simp add: demo_fs_def)
  moreover have "valid_profile (da_profile demo_args)" by (simp add: demo_args_def valid_profile_def)
  ultimately show ?thesis using da_machine_config[of demo_env demo_args demo_fs] by fastforce
qed

section \<open>Initialising a profile\<close>

text \<open>The configuration file \<open>vm init\<close> writes (the dash of the first line in its UTF-8 bytes).\<close>

definition init_conf :: "string \<Rightarrow> string option \<Rightarrow> string option \<Rightarrow> string" where
  "init_conf dst_disk k i =
     ((''# vm.conf '' @ [CHR 0xE2, CHR 0x80, CHR 0x94] @ '' written by pelagos vm init'') @ [nl]
     @ ''# kernel and initrd are discovered automatically from the Homebrew'' @ [nl]
     @ ''# pkgshare unless overridden here (e.g. via --vm-data for dev builds).'' @ [nl])
     @ (''disk   = '' @ dst_disk) @ [nl]
     @ (case k of Some p \<Rightarrow> (''kernel = '' @ p) @ [nl] | None \<Rightarrow> [])
     @ (case i of Some p \<Rightarrow> (''initrd = '' @ p) @ [nl] | None \<Rightarrow> [])"

text \<open>Whether a path exists in the file system.\<close>

definition fs_exists :: "fs \<Rightarrow> string \<Rightarrow> bool" where
  "fs_exists f p = (files f p \<noteq> None)"

definition copy_file :: "string \<Rightarrow> string \<Rightarrow> fs \<Rightarrow> (io_err + unit) \<times> fs" where
  "copy_file a b f =
     (case files f a of
        None \<Rightarrow> (Inl (NotFound a), f)
      | Some t \<Rightarrow>
          (case write_err f b of
             Some e \<Rightarrow> (Inl (OtherErr e), f)
           | None \<Rightarrow> (Inr (), f\<lparr>files := (files f)(b := Some t)\<rparr>)))"

text \<open>The sources: with \<open>--vm-data\<close> the kernel, the initrd and the disk of that directory,
  otherwise only the disk of the installation.\<close>

definition init_sources ::
  "(string \<Rightarrow> bool) \<Rightarrow> string option \<Rightarrow> string option \<Rightarrow> io_err + (string option \<times> string option \<times> string)" where
  "init_sources exists bin_dir src_dir =
     (case src_dir of
        Some dir \<Rightarrow>
          (case find exists (map (path_join dir) [''vmlinuz'', ''ubuntu-vmlinuz'']) of
             None \<Rightarrow> Inl (NotFound (''vmlinuz not found in '' @ dir))
           | Some k \<Rightarrow>
               (let i = find exists (map (path_join dir) [''initramfs.gz'', ''initramfs-custom.gz'']);
                    d = path_join dir ''root.img''
                in if \<not> exists d then Inl (NotFound (''root.img not found in '' @ dir)) else Inr (Some k, i, d)))
      | None \<Rightarrow>
          (case bin_dir of
             None \<Rightarrow> Inl (NotFound ''cannot locate binary'')
           | Some b \<Rightarrow>
               (case find exists (map (\<lambda>d. path_join d ''root.img'') (kernel_dirs b)) of
                  None \<Rightarrow> Inl (NotFound ''root.img not found'')
                | Some d \<Rightarrow> Inr (None, None, d))))"

text \<open>
  \<open>vm_init\<close>. \<open>canon\<close> resolves the \<open>--vm-data\<close> directory; \<open>stopped\<close> is what stopping a
  running machine does to the files.
\<close>

definition vm_init ::
  "env \<Rightarrow> (int \<Rightarrow> bool) \<Rightarrow> (string \<Rightarrow> string + string) \<Rightarrow> string option \<Rightarrow> (fs \<Rightarrow> fs)
    \<Rightarrow> string \<Rightarrow> string option \<Rightarrow> bool \<Rightarrow> fs \<Rightarrow> (io_err + unit) \<times> fs" where
  "vm_init e kill0 canon bin_dir stopped profile vm_data force f =
     (let (guard, f0) =
        (if \<not> force then
           (case open_profile e profile f of
              (Inr sd, g) \<Rightarrow> (running_pid kill0 g sd, g)
            | (Inl _, g) \<Rightarrow> (None, g))
         else (None, f))
      in case guard of
        Some pid \<Rightarrow> (Inl (OtherErr (''VM is running (pid '' @ show_word pid @ '')'')), f0)
      | None \<Rightarrow>
     (case (case vm_data of None \<Rightarrow> Inr None | Some p \<Rightarrow> map_sum id Some (canon p)) of
        Inl m \<Rightarrow> (Inl (NotFound m), f0)
      | Inr src_dir \<Rightarrow>
     (case init_sources (fs_exists f0) bin_dir src_dir of
        Inl x \<Rightarrow> (Inl x, f0)
      | Inr (k, i, src_disk) \<Rightarrow>
     (case profile_dir e profile of
        Inl x \<Rightarrow> (Inl x, f0)
      | Inr dir \<Rightarrow>
     (case create_profile_dir dir profile f0 of
        (Inl x, f1) \<Rightarrow> (Inl x, f1)
      | (Inr _, f1) \<Rightarrow>
     (let dst_disk = path_join dir ''root.img''; vm_conf = path_join dir ''vm.conf'' in
      if fs_exists f1 vm_conf \<and> \<not> force then (Inl (OtherErr ''vm.conf already exists''), f1)
      else
       (let f2 = (if force then
                    (case open_profile e profile f1 of
                       (Inr sd, g) \<Rightarrow> if running_pid kill0 g sd \<noteq> None then stopped g else g
                     | (Inl _, g) \<Rightarrow> g)
                  else f1)
        in case (if \<not> fs_exists f2 dst_disk \<or> force then copy_file src_disk dst_disk f2 else (Inr (), f2)) of
             (Inl x, f3) \<Rightarrow> (Inl x, f3)
           | (Inr _, f3) \<Rightarrow> write_file vm_conf (init_conf dst_disk k i) f3)))))))"

text \<open>A path that survives as a value of the configuration file.\<close>

definition conf_value :: "string \<Rightarrow> bool" where
  "conf_value s = (s \<noteq> [] \<and> nl \<notin> set s \<and> \<not> is_ws (hd s) \<and> \<not> is_ws (last s))"

lemma config_line_value:
  assumes "conf_value v" "key \<noteq> []" "trim (key @ pad) = key" "CHR ''='' \<notin> set (key @ pad)"
    "\<not> is_ws (hd key)" "hd key \<noteq> CHR ''#''"
  shows "config_line (key @ pad @ ''= '' @ v) cfg = config_key key v cfg"
proof -
  have v: "v \<noteq> []" "\<not> is_ws (hd v)" "\<not> is_ws (last v)" using assms(1) by (auto simp: conf_value_def)
  have "trim (key @ pad @ ''= '' @ v) = key @ pad @ ''= '' @ v"
    using assms(2,5) v by (intro trim_clean) simp
  moreover have "\<not> starts_with (key @ pad @ ''= '' @ v) ''#''"
    using assms(2,6) by (cases key) (auto simp: starts_with_def)
  moreover have "split_once CHR ''='' (key @ pad @ ''= '' @ v) = Some (key @ pad, '' '' @ v)"
    using assms(4) by (simp add: split_once_Some)
  moreover have "trim ('' '' @ v) = v"
    using trim_padded[of "'' ''" v] trim_clean[of v] v by (simp add: is_ws_def)
  ultimately show ?thesis using assms(2,3) by (simp add: config_line_def)
qed

lemma parse_conf_line:
  assumes "line_ended t" "nl \<notin> set l" "l \<noteq> []" "last l \<noteq> cr"
  shows "line_ended (t @ l @ [nl])" "parse_conf (t @ l @ [nl]) = config_line l (parse_conf t)"
  using assms by (simp_all add: line_ended_def parse_conf_def str_lines_line_ended str_lines_one)

lemma parse_conf_value:
  assumes "line_ended t" "conf_value v" "key \<noteq> []" "trim (key @ pad) = key" "CHR ''='' \<notin> set (key @ pad)"
    "nl \<notin> set (key @ pad)" "\<not> is_ws (hd key)" "hd key \<noteq> CHR ''#''"
  shows "line_ended (t @ (key @ pad @ ''= '' @ v) @ [nl])"
    "parse_conf (t @ (key @ pad @ ''= '' @ v) @ [nl]) = config_key key v (parse_conf t)"
proof -
  have v: "v \<noteq> []" "nl \<notin> set v" "last v \<noteq> cr" using assms(2) by (auto simp: conf_value_def is_ws_def)
  have l: "nl \<notin> set (key @ pad @ ''= '' @ v)" "key @ pad @ ''= '' @ v \<noteq> []" "last (key @ pad @ ''= '' @ v) \<noteq> cr"
    using assms(6) v by simp_all
  show "line_ended (t @ (key @ pad @ ''= '' @ v) @ [nl])" using parse_conf_line(1)[OF assms(1) l] .
  show "parse_conf (t @ (key @ pad @ ''= '' @ v) @ [nl]) = config_key key v (parse_conf t)"
    using parse_conf_line(2)[OF assms(1) l] config_line_value[OF assms(2-5,7,8)] by simp
qed

lemma init_comments:
  defines "t \<equiv> (''# vm.conf '' @ [CHR 0xE2, CHR 0x80, CHR 0x94] @ '' written by pelagos vm init'') @ [nl]
     @ ''# kernel and initrd are discovered automatically from the Homebrew'' @ [nl]
     @ ''# pkgshare unless overridden here (e.g. via --vm-data for dev builds).'' @ [nl]"
  shows "line_ended t" "parse_conf t = config_default"
proof -
  have skip: "config_line (CHR ''#'' # l) cfg = cfg" if "\<not> is_ws (last (CHR ''#'' # l))" for l cfg
    using trim_clean[of "CHR ''#'' # l"] that by (simp add: config_line_def starts_with_def is_ws_def)
  have lines: "str_lines t = [(''# vm.conf '' @ [CHR 0xE2, CHR 0x80, CHR 0x94] @ '' written by pelagos vm init''),
      ''# kernel and initrd are discovered automatically from the Homebrew'',
      ''# pkgshare unless overridden here (e.g. via --vm-data for dev builds).'']"
    by (simp add: t_def str_lines_def strip_cr_def)
  show "line_ended t" by (simp add: t_def line_ended_def)
  show "parse_conf t = config_default"
    unfolding parse_conf_def lines by (simp add: skip is_ws_def)
qed

lemma init_conf_keys:
  "trim (''disk'' @ ''   '') = ''disk''" "trim (''kernel'' @ '' '') = ''kernel''" "trim (''initrd'' @ '' '') = ''initrd''"
  by (simp_all add: trim_def trim_start_def trim_end_def is_ws_def)

lemma parse_init_conf:
  assumes "conf_value d" "\<forall>p. k = Some p \<longrightarrow> conf_value p" "\<forall>p. i = Some p \<longrightarrow> conf_value p"
  shows "line_ended (init_conf d k i) \<and>
    parse_conf (init_conf d k i) = config_default\<lparr>disk := Some d, kernel := k, initrd := i\<rparr>"
proof -
  define t0 where "t0 = (''# vm.conf '' @ [CHR 0xE2, CHR 0x80, CHR 0x94] @ '' written by pelagos vm init'') @ [nl]
     @ ''# kernel and initrd are discovered automatically from the Homebrew'' @ [nl]
     @ ''# pkgshare unless overridden here (e.g. via --vm-data for dev builds).'' @ [nl]"
  define t1 where "t1 = t0 @ (''disk'' @ ''   '' @ ''= '' @ d) @ [nl]"
  define t2 where "t2 = t1 @ (case k of Some p \<Rightarrow> (''kernel'' @ '' '' @ ''= '' @ p) @ [nl] | None \<Rightarrow> [])"
  have 0: "line_ended t0" "parse_conf t0 = config_default" using init_comments by (simp_all add: t0_def)
  have 1: "line_ended t1" "parse_conf t1 = config_default\<lparr>disk := Some d\<rparr>"
    unfolding t1_def using parse_conf_value[OF 0(1) assms(1) _ init_conf_keys(1)] 0(2)
    by (simp_all add: is_ws_def config_key_def)
  have 2: "line_ended t2 \<and> parse_conf t2 = config_default\<lparr>disk := Some d, kernel := k\<rparr>"
  proof (cases k)
    case (Some p)
    then show ?thesis
      unfolding t2_def using parse_conf_value[OF 1(1) _ _ init_conf_keys(2), of p] 1(2) assms(2)
      by (simp add: is_ws_def config_key_def)
  qed (use 1 in \<open>simp add: t2_def config_default_def\<close>)
  have "init_conf d k i = t2 @ (case i of Some p \<Rightarrow> (''initrd'' @ '' '' @ ''= '' @ p) @ [nl] | None \<Rightarrow> [])"
    by (simp add: init_conf_def t2_def t1_def t0_def split: option.splits)
  then show ?thesis
  proof (cases i)
    case (Some p)
    then show ?thesis
      using parse_conf_value[OF conjunct1[OF 2] _ _ init_conf_keys(3), of p] 2 assms(3)
        \<open>init_conf d k i = _\<close>
      by (simp add: is_ws_def config_key_def)
  qed (use 2 in \<open>simp add: config_default_def\<close>)
qed

lemma files_create_profile_dir: "create_profile_dir d p f = (r, g) \<Longrightarrow> files g = files f"
  by (auto simp: create_profile_dir_def Let_def split: option.splits if_splits)

lemma files_open_profile: "open_profile e p f = (r, g) \<Longrightarrow> files g = files f"
  by (auto simp: open_profile_def dest: files_create_profile_dir split: sum.splits prod.splits)

text \<open>The last step of a successful \<open>vm init\<close>, and what it checked before.\<close>

lemma vm_init_success:
  assumes "vm_init e kill0 canon bin_dir stopped profile vm_data force f = (Inr (), f')"
    and d: "profile_dir e profile = Inr dir"
  obtains k i f3 where "write_file (path_join dir ''vm.conf'') (init_conf (path_join dir ''root.img'') k i) f3 = (Inr (), f')"
    and "\<not> force \<Longrightarrow> files f (path_join dir ''vm.conf'') = None"
    and "\<And>sd g. \<not> force \<Longrightarrow> open_profile e profile f = (Inr sd, g) \<Longrightarrow> running_pid kill0 g sd = None"
proof -
  obtain guard f0 where g0: "(if \<not> force then
           (case open_profile e profile f of
              (Inr sd, g) \<Rightarrow> (running_pid kill0 g sd, g)
            | (Inl _, g) \<Rightarrow> (None, g))
         else (None, f)) = (guard, f0)" by (cases "(if \<not> force then
           (case open_profile e profile f of
              (Inr sd, g) \<Rightarrow> (running_pid kill0 g sd, g)
            | (Inl _, g) \<Rightarrow> (None, g))
         else (None, f))")
  note run = assms(1)[unfolded vm_init_def g0 Let_def, simplified]
  have guard: "guard = None" using run by (cases guard) auto
  have f0: "files f0 = files f"
    using g0 files_open_profile[of e profile f] by (auto split: if_splits prod.splits sum.splits)
  obtain k i src f1 where k: "init_sources (fs_exists f0) bin_dir (case vm_data of None \<Rightarrow> None | Some p \<Rightarrow> projr (map_sum id Some (canon p))) = Inr (k, i, src)"
    and c: "create_profile_dir dir profile f0 = (Inr (), f1)"
    using run guard d by (auto split: option.splits sum.splits prod.splits)
  obtain f3 where "write_file (path_join dir ''vm.conf'') (init_conf (path_join dir ''root.img'') k i) f3 = (Inr (), f')"
    using run guard d c k by (auto split: option.splits sum.splits prod.splits if_splits)
  then show thesis
  proof (rule that)
    show "\<not> force \<Longrightarrow> open_profile e profile f = (Inr sd, g) \<Longrightarrow> running_pid kill0 g sd = None" for sd g
      using g0 guard by auto
    show "\<not> force \<Longrightarrow> files f (path_join dir ''vm.conf'') = None"
      using run guard d c k f0 files_create_profile_dir[OF c]
      by (auto simp: fs_exists_def split: option.splits sum.splits if_splits)
  qed
qed

text \<open>When \<open>vm init\<close> succeeds, the profile's configuration is read back as exactly the
  copied disk and, with \<open>--vm-data\<close>, the kernel and initrd found there, and it ends with a
  newline, so that the address can be appended later. Without \<open>--force\<close> it succeeds only when
  no machine of the profile runs and no configuration existed.\<close>

lemma da_vm_init:
  assumes "vm_init e kill0 canon bin_dir stopped profile vm_data force f = (Inr (), f')"
    and "pelagos_base e = Inr b" and "valid_profile profile" and "profile_dir e profile = Inr dir"
  shows "(\<exists>k i. files f' (conf_path b profile) = Some (Inr (init_conf (path_join dir ''root.img'') k i)) \<and>
      (conf_value (path_join dir ''root.img'') \<and> (\<forall>p. k = Some p \<longrightarrow> conf_value p) \<and>
       (\<forall>p. i = Some p \<longrightarrow> conf_value p) \<longrightarrow>
         line_ended (init_conf (path_join dir ''root.img'') k i) \<and>
         load_conf e f' profile =
           Inr (config_default\<lparr>disk := Some (path_join dir ''root.img''), kernel := k, initrd := i\<rparr>))) \<and>
    (\<not> force \<longrightarrow> files f (conf_path b profile) = None \<and>
       (\<forall>sd g. open_profile e profile f = (Inr sd, g) \<longrightarrow> running_pid kill0 g sd = None))"
proof -
  have cp: "path_join dir ''vm.conf'' = conf_path b profile"
    using profile_dir_conf[OF assms(2,3)] assms(4) by auto
  obtain k i f3 where w: "write_file (path_join dir ''vm.conf'') (init_conf (path_join dir ''root.img'') k i) f3 = (Inr (), f')"
    and unforced: "\<not> force \<Longrightarrow> files f (path_join dir ''vm.conf'') = None"
      "\<And>sd g. \<not> force \<Longrightarrow> open_profile e profile f = (Inr sd, g) \<Longrightarrow> running_pid kill0 g sd = None"
    using vm_init_success[OF assms(1,4)] by metis
  have f': "files f' (conf_path b profile) = Some (Inr (init_conf (path_join dir ''root.img'') k i))"
    using w by (auto simp: write_file_def cp split: option.splits)
  have "load_conf e f' profile = Inr (parse_conf (init_conf (path_join dir ''root.img'') k i))"
    using f' by (simp add: load_conf_path[OF assms(2,3)] load_path_def read_to_string_def)
  then show ?thesis
    using f' unforced parse_init_conf[of "path_join dir ''root.img''" k i] unfolding cp by auto
qed

definition init_fs :: fs where
  "init_fs = \<lparr>files = (\<lambda>p. if p = ''/b/../share/pelagos-mac/root.img'' then Some (Inr ''disk'') else None),
     listing = None, write_err = \<lambda>_. None\<rparr>"

lemma da_vm_init_witness:
  "\<exists>f'. vm_init demo_env (\<lambda>_. False) Inr (Some ''/b'') id ''build'' None False init_fs = (Inr (), f') \<and>
    (\<exists>k i. files f' (conf_path ''/x/pelagos'' ''build'') =
       Some (Inr (init_conf ''/x/pelagos/profiles/build/root.img'' k i)))"
proof -
  have v: "valid_profile ''build''" by (simp add: valid_profile_def)
  have d: "profile_dir demo_env ''build'' = Inr ''/x/pelagos/profiles/build''"
    by (simp add: profile_dir_def demo_base path_join_def starts_with_def)
  have src: "init_sources (fs_exists f) (Some ''/b'') None = Inr (None, None, ''/b/../share/pelagos-mac/root.img'')"
    if "files f = files init_fs" for f
    by (simp add: init_sources_def kernel_dirs_def path_join_def starts_with_def fs_exists_def that init_fs_def)
  obtain sd g where o: "open_profile demo_env ''build'' init_fs = (Inr sd, g)" "files g = files init_fs"
      "\<forall>p. write_err g p = None" "pid_file sd = ''/x/pelagos/profiles/build/vm.pid''"
    by (simp add: open_profile_def d create_profile_dir_def init_fs_def Let_def path_join_def starts_with_def)
  have "running_pid (\<lambda>_. False) g sd = None"
    using o by (simp add: running_pid_def read_to_string_def init_fs_def)
  moreover obtain f1 where "create_profile_dir ''/x/pelagos/profiles/build'' ''build'' g = (Inr (), f1)"
      "files f1 = files init_fs" "\<forall>p. write_err f1 p = None"
    using o by (simp add: create_profile_dir_def Let_def)
  ultimately have "\<exists>f'. vm_init demo_env (\<lambda>_. False) Inr (Some ''/b'') id ''build'' None False init_fs = (Inr (), f')"
    using o src d by (simp add: vm_init_def copy_file_def write_file_def fs_exists_def Let_def)
      (simp add: init_fs_def path_join_def starts_with_def write_file_def)
  then obtain f' where f': "vm_init demo_env (\<lambda>_. False) Inr (Some ''/b'') id ''build'' None False init_fs = (Inr (), f')"
    by blast
  have "path_join ''/x/pelagos/profiles/build'' ''root.img'' = ''/x/pelagos/profiles/build/root.img''"
    by (simp add: path_join_def starts_with_def)
  then show ?thesis using da_vm_init[OF f' demo_base v d] f' by auto
qed
end
