(* ===== verification/Guest_Protocol.thy ===== *)
theory Guest_Protocol
  imports Port_Daemon "HOL-Library.Monad_Syntax"
begin

text \<open>
  The messages between the host (\<open>pelagos-mac/src/main.rs\<close>, \<open>daemon.rs\<close>) and the guest
  (\<open>pelagos-guest/src/main.rs\<close>). Both sides declare the message types on their own, with
  \<open>serde\<close> attributes that rename, tag, default and omit fields. The serialisers and
  deserialisers below are what these attributes derive, over the JSON value tree; the text of
  a JSON value is the business of the JSON library and a parameter where lines are read.
  The lemmas show that every command, response and event the one side writes is read by the
  other side as the same message.
\<close>

section \<open>JSON values and derived field decoders\<close>

datatype json = JNull | JBool bool | JNum int | JStr string | JArr "json list" | JObj "(string \<times> json) list"

text \<open>\<open>skip_serializing_if\<close>: false flags, absent options and empty lists are not written.\<close>

definition flag_field :: "string \<Rightarrow> bool \<Rightarrow> (string \<times> json) list" where
  "flag_field k b = (if b then [(k, JBool True)] else [])"

definition opt_field :: "string \<Rightarrow> string option \<Rightarrow> (string \<times> json) list" where
  "opt_field k v = (case v of None \<Rightarrow> [] | Some s \<Rightarrow> [(k, JStr s)])"

definition strs :: "string list \<Rightarrow> json" where
  "strs xs = JArr (map JStr xs)"

definition list_field :: "string \<Rightarrow> json list \<Rightarrow> (string \<times> json) list" where
  "list_field k xs = (if xs = [] then [] else [(k, JArr xs)])"

text \<open>A hash map in its iteration order.\<close>

definition env_json :: "(string \<times> string) list \<Rightarrow> json" where
  "env_json m = JObj (map (\<lambda>(k, v). (k, JStr v)) m)"

definition env_field :: "string \<Rightarrow> (string \<times> string) list \<Rightarrow> (string \<times> json) list" where
  "env_field k m = (if m = [] then [] else [(k, env_json m)])"

text \<open>Decoders: a field that occurs twice is an error, an unknown field is ignored; without
  \<open>serde(default)\<close> an absent field is an error.\<close>

definition with_default :: "string \<Rightarrow> (json \<Rightarrow> 'a option) \<Rightarrow> 'a option \<Rightarrow> (string \<times> json) list \<Rightarrow> 'a option" where
  "with_default k dec d obj =
     (case filter (\<lambda>kv. fst kv = k) obj of [] \<Rightarrow> d | [kv] \<Rightarrow> dec (snd kv) | _ \<Rightarrow> None)"

abbreviation required :: "string \<Rightarrow> (json \<Rightarrow> 'a option) \<Rightarrow> (string \<times> json) list \<Rightarrow> 'a option" where
  "required k dec obj \<equiv> with_default k dec None obj"

abbreviation defaulted :: "string \<Rightarrow> (json \<Rightarrow> 'a option) \<Rightarrow> 'a \<Rightarrow> (string \<times> json) list \<Rightarrow> 'a option" where
  "defaulted k dec d obj \<equiv> with_default k dec (Some d) obj"

fun de_str :: "json \<Rightarrow> string option" where
  "de_str (JStr s) = Some s"
| "de_str _ = None"

fun de_bool :: "json \<Rightarrow> bool option" where
  "de_bool (JBool b) = Some b"
| "de_bool _ = None"

fun de_u64 :: "json \<Rightarrow> u64 option" where
  "de_u64 (JNum n) = (if 0 \<le> n \<and> n < 2 ^ 64 then Some (word_of_int n) else None)"
| "de_u64 _ = None"

fun de_i32 :: "json \<Rightarrow> u32 option" where
  "de_i32 (JNum n) = (if - (2 ^ 31) \<le> n \<and> n < 2 ^ 31 then Some (word_of_int n) else None)"
| "de_i32 _ = None"

definition de_opt :: "(json \<Rightarrow> 'a option) \<Rightarrow> json \<Rightarrow> 'a option option" where
  "de_opt dec j = (if j = JNull then Some None else map_option Some (dec j))"

fun all_some :: "'a option list \<Rightarrow> 'a list option" where
  "all_some [] = Some []"
| "all_some (None # xs) = None"
| "all_some (Some x # xs) = map_option (Cons x) (all_some xs)"

fun de_list :: "(json \<Rightarrow> 'a option) \<Rightarrow> json \<Rightarrow> 'a list option" where
  "de_list dec (JArr xs) = all_some (map dec xs)"
| "de_list dec _ = None"

fun de_env :: "json \<Rightarrow> (string \<Rightarrow> string option) option" where
  "de_env (JObj kvs) =
     map_option (\<lambda>vs. map_of (rev vs)) (all_some (map (\<lambda>(k, v). map_option (Pair k) (de_str v)) kvs))"
| "de_env _ = None"

section \<open>Commands\<close>

record guest_mount =
  mount_tag :: string
  mount_subpath :: string
  mount_container_path :: string

type_synonym host_env = "(string \<times> string) list"
type_synonym guest_env = "string \<Rightarrow> string option"

text \<open>The command as the host declares it.\<close>

datatype host_command =
    HRun (hr_image: string) "string list" (hr_mounts: "guest_mount list") "string option" bool host_env
         "string list" "string list" "string option" "string list"
  | HExec string "string list" host_env bool "string option" "guest_mount list" "string list"
          "string list" "string option" "string list"
  | HExecInto string "string list" host_env bool "string option"
  | HShell bool
  | HPs bool bool
  | HLogs string bool
  | HContainerInspect string
  | HContainerPrune
  | HStart string bool "string list"
  | HStop string
  | HRestart string u64
  | HRm string bool
  | HPing
  | HVersion
  | HSubscribe
  | HKubernetesStatus
  | HKubernetesStart
  | HKubernetesStop
  | HBuild string string "string list" bool u64
  | HVolume string "string option"
  | HNetwork string "string list"
  | HCpFrom string string
  | HCpTo string string u64
  | HImageLs bool
  | HImagePull string
  | HImageRm string
  | HImageTag string string
  | HImageInspect string
  | HImageLogin string string string
  | HImageLogout string
  | HCompose string string string "string option" "string list" host_env

text \<open>The command as the guest declares it.\<close>

datatype guest_command =
    GRun string "string list" guest_env "guest_mount list" "string option" bool
         "string list" "string list" "string option" "string list"
  | GExec string "string list" guest_env bool "string option" "guest_mount list" "string list"
          "string list" "string option" "string list"
  | GExecInto string "string list" guest_env bool "string option"
  | GPs bool bool
  | GLogs string bool
  | GContainerInspect string
  | GContainerPrune
  | GStart string bool "string list"
  | GStop string
  | GRestart string u64
  | GRm string bool
  | GShell bool
  | GPing
  | GVersion
  | GBuild string string "string list" bool u64
  | GVolume string "string option"
  | GNetwork string "string list"
  | GCpFrom string string
  | GCpTo string string u64
  | GSubscribe
  | GImageLs bool
  | GImagePull string
  | GImageRm string
  | GImageTag string string
  | GImageInspect string
  | GImageLogin string string string
  | GImageLogout string
  | GCompose string string string "string option" "string list" guest_env
  | GKubernetesStatus
  | GKubernetesStart
  | GKubernetesStop

text \<open>The host's derived serialiser: the tag \<open>cmd\<close> first, then the fields in their order.\<close>

definition ser_mount :: "guest_mount \<Rightarrow> json" where
  "ser_mount m = JObj ([(''tag'', JStr (mount_tag m))]
     @ (if mount_subpath m = [] then [] else [(''subpath'', JStr (mount_subpath m))])
     @ [(''container_path'', JStr (mount_container_path m))])"

definition num64 :: "u64 \<Rightarrow> json" where
  "num64 w = JNum (uint w)"

definition tagged :: "string \<Rightarrow> (string \<times> json) list \<Rightarrow> json" where
  "tagged t kvs = JObj ((''cmd'', JStr t) # kvs)"

fun ser_command :: "host_command \<Rightarrow> json" where
  "ser_command (HRun img args mounts name detach env labels publish network dns) =
     tagged ''run'' ([(''image'', JStr img), (''args'', strs args)] @ list_field ''mounts'' (map ser_mount mounts)
       @ opt_field ''name'' name @ flag_field ''detach'' detach @ env_field ''env'' env
       @ list_field ''labels'' (map JStr labels) @ list_field ''publish'' (map JStr publish)
       @ opt_field ''network'' network @ list_field ''dns'' (map JStr dns))"
| "ser_command (HExec img args env tty name mounts labels publish network dns) =
     tagged ''exec'' ([(''image'', JStr img), (''args'', strs args), (''env'', env_json env), (''tty'', JBool tty)]
       @ opt_field ''name'' name @ list_field ''mounts'' (map ser_mount mounts)
       @ list_field ''labels'' (map JStr labels) @ list_field ''publish'' (map JStr publish)
       @ opt_field ''network'' network @ list_field ''dns'' (map JStr dns))"
| "ser_command (HExecInto container args env tty workdir) =
     tagged ''exec_into'' [(''container'', JStr container), (''args'', strs args), (''env'', env_json env),
       (''tty'', JBool tty), (''workdir'', case workdir of None \<Rightarrow> JNull | Some w \<Rightarrow> JStr w)]"
| "ser_command (HShell tty) = tagged ''shell'' (flag_field ''tty'' tty)"
| "ser_command (HPs a j) = tagged ''ps'' (flag_field ''all'' a @ flag_field ''json'' j)"
| "ser_command (HLogs name follow) = tagged ''logs'' ([(''name'', JStr name)] @ flag_field ''follow'' follow)"
| "ser_command (HContainerInspect name) = tagged ''container_inspect'' [(''name'', JStr name)]"
| "ser_command HContainerPrune = tagged ''container_prune'' []"
| "ser_command (HStart name interactive cmd) =
     tagged ''start'' ([(''name'', JStr name)] @ flag_field ''interactive'' interactive
       @ list_field ''cmd_override'' (map JStr cmd))"
| "ser_command (HStop name) = tagged ''stop'' [(''name'', JStr name)]"
| "ser_command (HRestart name time) = tagged ''restart'' [(''name'', JStr name), (''time'', num64 time)]"
| "ser_command (HRm name force) = tagged ''rm'' ([(''name'', JStr name)] @ flag_field ''force'' force)"
| "ser_command HPing = tagged ''ping'' []"
| "ser_command HVersion = tagged ''version'' []"
| "ser_command HSubscribe = tagged ''subscribe'' []"
| "ser_command HKubernetesStatus = tagged ''kubernetes_status'' []"
| "ser_command HKubernetesStart = tagged ''kubernetes_start'' []"
| "ser_command HKubernetesStop = tagged ''kubernetes_stop'' []"
| "ser_command (HBuild t dockerfile build_args no_cache context_size) =
     tagged ''build'' ([(''tag'', JStr t), (''dockerfile'', JStr dockerfile)]
       @ list_field ''build_args'' (map JStr build_args) @ flag_field ''no_cache'' no_cache
       @ [(''context_size'', num64 context_size)])"
| "ser_command (HVolume sb name) = tagged ''volume'' ([(''sub'', JStr sb)] @ opt_field ''name'' name)"
| "ser_command (HNetwork sb args) = tagged ''network'' ([(''sub'', JStr sb)] @ list_field ''args'' (map JStr args))"
| "ser_command (HCpFrom container src) = tagged ''cp_from'' [(''container'', JStr container), (''src'', JStr src)]"
| "ser_command (HCpTo container dst data_size) =
     tagged ''cp_to'' [(''container'', JStr container), (''dst'', JStr dst), (''data_size'', num64 data_size)]"
| "ser_command (HImageLs j) = tagged ''image_ls'' (flag_field ''json'' j)"
| "ser_command (HImagePull r) = tagged ''image_pull'' [(''reference'', JStr r)]"
| "ser_command (HImageRm r) = tagged ''image_rm'' [(''reference'', JStr r)]"
| "ser_command (HImageTag s t) = tagged ''image_tag'' [(''source'', JStr s), (''target'', JStr t)]"
| "ser_command (HImageInspect r) = tagged ''image_inspect'' [(''reference'', JStr r)]"
| "ser_command (HImageLogin r u p) =
     tagged ''image_login'' [(''registry'', JStr r), (''username'', JStr u), (''password'', JStr p)]"
| "ser_command (HImageLogout r) = tagged ''image_logout'' [(''registry'', JStr r)]"
| "ser_command (HCompose sb file working_dir project args env) =
     tagged ''compose'' ([(''subcommand'', JStr sb), (''file'', JStr file), (''working_dir'', JStr working_dir)]
       @ opt_field ''project'' project @ list_field ''args'' (map JStr args) @ env_field ''env'' env)"

text \<open>The guest's derived deserialiser: the tag selects the variant, the other fields are read
  by name.\<close>

fun de_mount :: "json \<Rightarrow> guest_mount option" where
  "de_mount (JObj obj) = do {
     t \<leftarrow> required ''tag'' de_str obj;
     s \<leftarrow> defaulted ''subpath'' de_str [] obj;
     c \<leftarrow> required ''container_path'' de_str obj;
     Some \<lparr>mount_tag = t, mount_subpath = s, mount_container_path = c\<rparr> }"
| "de_mount _ = None"

definition de_run :: "(string \<times> json) list \<Rightarrow> guest_command option" where
  "de_run obj = do {
     img \<leftarrow> required ''image'' de_str obj;
     args \<leftarrow> required ''args'' (de_list de_str) obj;
     env \<leftarrow> defaulted ''env'' de_env (\<lambda>_. None) obj;
     mounts \<leftarrow> defaulted ''mounts'' (de_list de_mount) [] obj;
     name \<leftarrow> defaulted ''name'' (de_opt de_str) None obj;
     detach \<leftarrow> defaulted ''detach'' de_bool False obj;
     labels \<leftarrow> defaulted ''labels'' (de_list de_str) [] obj;
     publish \<leftarrow> defaulted ''publish'' (de_list de_str) [] obj;
     network \<leftarrow> defaulted ''network'' (de_opt de_str) None obj;
     dns \<leftarrow> defaulted ''dns'' (de_list de_str) [] obj;
     Some (GRun img args env mounts name detach labels publish network dns) }"

definition de_exec :: "(string \<times> json) list \<Rightarrow> guest_command option" where
  "de_exec obj = do {
     img \<leftarrow> required ''image'' de_str obj;
     args \<leftarrow> required ''args'' (de_list de_str) obj;
     env \<leftarrow> defaulted ''env'' de_env (\<lambda>_. None) obj;
     tty \<leftarrow> defaulted ''tty'' de_bool False obj;
     name \<leftarrow> defaulted ''name'' (de_opt de_str) None obj;
     mounts \<leftarrow> defaulted ''mounts'' (de_list de_mount) [] obj;
     labels \<leftarrow> defaulted ''labels'' (de_list de_str) [] obj;
     publish \<leftarrow> defaulted ''publish'' (de_list de_str) [] obj;
     network \<leftarrow> defaulted ''network'' (de_opt de_str) None obj;
     dns \<leftarrow> defaulted ''dns'' (de_list de_str) [] obj;
     Some (GExec img args env tty name mounts labels publish network dns) }"

definition de_exec_into :: "(string \<times> json) list \<Rightarrow> guest_command option" where
  "de_exec_into obj = do {
     container \<leftarrow> required ''container'' de_str obj;
     args \<leftarrow> required ''args'' (de_list de_str) obj;
     env \<leftarrow> defaulted ''env'' de_env (\<lambda>_. None) obj;
     tty \<leftarrow> defaulted ''tty'' de_bool False obj;
     workdir \<leftarrow> defaulted ''workdir'' (de_opt de_str) None obj;
     Some (GExecInto container args env tty workdir) }"

definition de_build :: "(string \<times> json) list \<Rightarrow> guest_command option" where
  "de_build obj = do {
     t \<leftarrow> required ''tag'' de_str obj;
     dockerfile \<leftarrow> defaulted ''dockerfile'' de_str ''Dockerfile'' obj;
     build_args \<leftarrow> defaulted ''build_args'' (de_list de_str) [] obj;
     no_cache \<leftarrow> defaulted ''no_cache'' de_bool False obj;
     context_size \<leftarrow> required ''context_size'' de_u64 obj;
     Some (GBuild t dockerfile build_args no_cache context_size) }"

definition de_compose :: "(string \<times> json) list \<Rightarrow> guest_command option" where
  "de_compose obj = do {
     sb \<leftarrow> required ''subcommand'' de_str obj;
     file \<leftarrow> required ''file'' de_str obj;
     working_dir \<leftarrow> required ''working_dir'' de_str obj;
     project \<leftarrow> defaulted ''project'' (de_opt de_str) None obj;
     args \<leftarrow> defaulted ''args'' (de_list de_str) [] obj;
     env \<leftarrow> defaulted ''env'' de_env (\<lambda>_. None) obj;
     Some (GCompose sb file working_dir project args env) }"

definition de_container_command :: "string \<Rightarrow> (string \<times> json) list \<Rightarrow> guest_command option" where
  "de_container_command t obj =
     (if t = ''ps'' then do {
        a \<leftarrow> defaulted ''all'' de_bool False obj; j \<leftarrow> defaulted ''json'' de_bool False obj; Some (GPs a j) }
      else if t = ''logs'' then do {
        name \<leftarrow> required ''name'' de_str obj; follow \<leftarrow> defaulted ''follow'' de_bool False obj; Some (GLogs name follow) }
      else if t = ''container_inspect'' then do { name \<leftarrow> required ''name'' de_str obj; Some (GContainerInspect name) }
      else if t = ''container_prune'' then Some GContainerPrune
      else if t = ''start'' then do {
        name \<leftarrow> required ''name'' de_str obj; i \<leftarrow> defaulted ''interactive'' de_bool False obj;
        c \<leftarrow> defaulted ''cmd_override'' (de_list de_str) [] obj; Some (GStart name i c) }
      else if t = ''stop'' then do { name \<leftarrow> required ''name'' de_str obj; Some (GStop name) }
      else if t = ''restart'' then do {
        name \<leftarrow> required ''name'' de_str obj; time \<leftarrow> defaulted ''time'' de_u64 10 obj; Some (GRestart name time) }
      else if t = ''rm'' then do {
        name \<leftarrow> required ''name'' de_str obj; force \<leftarrow> defaulted ''force'' de_bool False obj; Some (GRm name force) }
      else if t = ''shell'' then do { tty \<leftarrow> defaulted ''tty'' de_bool False obj; Some (GShell tty) }
      else if t = ''ping'' then Some GPing
      else if t = ''version'' then Some GVersion
      else None)"

definition de_resource_command :: "string \<Rightarrow> (string \<times> json) list \<Rightarrow> guest_command option" where
  "de_resource_command t obj =
     (if t = ''volume'' then do {
        sb \<leftarrow> required ''sub'' de_str obj; name \<leftarrow> defaulted ''name'' (de_opt de_str) None obj; Some (GVolume sb name) }
      else if t = ''network'' then do {
        sb \<leftarrow> required ''sub'' de_str obj; args \<leftarrow> defaulted ''args'' (de_list de_str) [] obj; Some (GNetwork sb args) }
      else if t = ''cp_from'' then do {
        c \<leftarrow> required ''container'' de_str obj; src \<leftarrow> required ''src'' de_str obj; Some (GCpFrom c src) }
      else if t = ''cp_to'' then do {
        c \<leftarrow> required ''container'' de_str obj; dst \<leftarrow> required ''dst'' de_str obj;
        n \<leftarrow> required ''data_size'' de_u64 obj; Some (GCpTo c dst n) }
      else if t = ''subscribe'' then Some GSubscribe
      else if t = ''image_ls'' then do { j \<leftarrow> defaulted ''json'' de_bool False obj; Some (GImageLs j) }
      else if t = ''image_pull'' then do { r \<leftarrow> defaulted ''reference'' de_str [] obj; Some (GImagePull r) }
      else if t = ''image_rm'' then do { r \<leftarrow> defaulted ''reference'' de_str [] obj; Some (GImageRm r) }
      else if t = ''image_tag'' then do {
        s \<leftarrow> defaulted ''source'' de_str [] obj; d \<leftarrow> defaulted ''target'' de_str [] obj; Some (GImageTag s d) }
      else if t = ''image_inspect'' then do { r \<leftarrow> defaulted ''reference'' de_str [] obj; Some (GImageInspect r) }
      else if t = ''image_login'' then do {
        r \<leftarrow> required ''registry'' de_str obj; u \<leftarrow> required ''username'' de_str obj;
        p \<leftarrow> required ''password'' de_str obj; Some (GImageLogin r u p) }
      else if t = ''image_logout'' then do { r \<leftarrow> required ''registry'' de_str obj; Some (GImageLogout r) }
      else if t = ''kubernetes_status'' then Some GKubernetesStatus
      else if t = ''kubernetes_start'' then Some GKubernetesStart
      else if t = ''kubernetes_stop'' then Some GKubernetesStop
      else None)"

fun de_command :: "json \<Rightarrow> guest_command option" where
  "de_command (JObj obj) = do {
     t \<leftarrow> required ''cmd'' de_str obj;
     if t = ''run'' then de_run obj
     else if t = ''exec'' then de_exec obj
     else if t = ''exec_into'' then de_exec_into obj
     else if t = ''build'' then de_build obj
     else if t = ''compose'' then de_compose obj
     else (case de_container_command t obj of Some c \<Rightarrow> Some c | None \<Rightarrow> de_resource_command t obj) }"
| "de_command _ = None"

text \<open>The guest's view of a host command, and the hash maps of the host.\<close>

fun as_guest :: "host_command \<Rightarrow> guest_command" where
  "as_guest (HRun img args mounts name detach env labels publish network dns) =
     GRun img args (map_of env) mounts name detach labels publish network dns"
| "as_guest (HExec img args env tty name mounts labels publish network dns) =
     GExec img args (map_of env) tty name mounts labels publish network dns"
| "as_guest (HExecInto container args env tty workdir) = GExecInto container args (map_of env) tty workdir"
| "as_guest (HShell tty) = GShell tty"
| "as_guest (HPs a j) = GPs a j"
| "as_guest (HLogs name follow) = GLogs name follow"
| "as_guest (HContainerInspect name) = GContainerInspect name"
| "as_guest HContainerPrune = GContainerPrune"
| "as_guest (HStart name i c) = GStart name i c"
| "as_guest (HStop name) = GStop name"
| "as_guest (HRestart name time) = GRestart name time"
| "as_guest (HRm name force) = GRm name force"
| "as_guest HPing = GPing"
| "as_guest HVersion = GVersion"
| "as_guest HSubscribe = GSubscribe"
| "as_guest HKubernetesStatus = GKubernetesStatus"
| "as_guest HKubernetesStart = GKubernetesStart"
| "as_guest HKubernetesStop = GKubernetesStop"
| "as_guest (HBuild t d b n c) = GBuild t d b n c"
| "as_guest (HVolume sb name) = GVolume sb name"
| "as_guest (HNetwork sb args) = GNetwork sb args"
| "as_guest (HCpFrom c s) = GCpFrom c s"
| "as_guest (HCpTo c d n) = GCpTo c d n"
| "as_guest (HImageLs j) = GImageLs j"
| "as_guest (HImagePull r) = GImagePull r"
| "as_guest (HImageRm r) = GImageRm r"
| "as_guest (HImageTag s t) = GImageTag s t"
| "as_guest (HImageInspect r) = GImageInspect r"
| "as_guest (HImageLogin r u p) = GImageLogin r u p"
| "as_guest (HImageLogout r) = GImageLogout r"
| "as_guest (HCompose sb file wd project args env) = GCompose sb file wd project args (map_of env)"

fun env_of :: "host_command \<Rightarrow> host_env" where
  "env_of (HRun _ _ _ _ _ env _ _ _ _) = env"
| "env_of (HExec _ _ env _ _ _ _ _ _ _) = env"
| "env_of (HExecInto _ _ env _ _) = env"
| "env_of (HCompose _ _ _ _ _ env) = env"
| "env_of _ = []"

section \<open>What is written is what is read\<close>

definition has_key :: "string \<Rightarrow> (string \<times> json) list \<Rightarrow> bool" where
  "has_key k obj = (k \<in> fst ` set obj)"

named_theorems wire_simps "reading the fields a serialiser writes"

lemma has_key_simps [wire_simps]:
  "\<not> has_key k []" "has_key k ((k', v) # obj) \<longleftrightarrow> k = k' \<or> has_key k obj"
  "has_key k (xs @ ys) \<longleftrightarrow> has_key k xs \<or> has_key k ys"
  by (auto simp: has_key_def)

lemma has_key_fields [wire_simps]:
  "k \<noteq> k' \<Longrightarrow> \<not> has_key k (flag_field k' b)" "k \<noteq> k' \<Longrightarrow> \<not> has_key k (opt_field k' v)"
  "k \<noteq> k' \<Longrightarrow> \<not> has_key k (list_field k' xs)" "k \<noteq> k' \<Longrightarrow> \<not> has_key k (env_field k' m)"
  by (auto simp: has_key_def flag_field_def opt_field_def list_field_def env_field_def split: option.splits)

lemma no_key_filter: "\<not> has_key k obj \<Longrightarrow> filter (\<lambda>kv. fst kv = k) obj = []"
  by (auto simp: has_key_def filter_empty_conv)

lemma with_default_absent [wire_simps]: "with_default k dec d [] = d"
  by (simp add: with_default_def)

lemma with_default_Cons [wire_simps]:
  "k \<noteq> k' \<Longrightarrow> with_default k dec d ((k', v) # obj) = with_default k dec d obj"
  "\<not> has_key k obj \<Longrightarrow> with_default k dec d ((k, v) # obj) = dec v"
  by (simp_all add: with_default_def no_key_filter)

lemma with_default_append [wire_simps]:
  "\<not> has_key k xs \<Longrightarrow> with_default k dec d (xs @ ys) = with_default k dec d ys"
  "\<not> has_key k ys \<Longrightarrow> with_default k dec d (xs @ ys) = with_default k dec d xs"
  by (simp_all add: with_default_def no_key_filter)

lemma with_default_no_key [wire_simps]: "\<not> has_key k xs \<Longrightarrow> with_default k dec d xs = d"
  by (simp add: with_default_def no_key_filter)

lemma all_some_map: "(\<And>x. x \<in> set xs \<Longrightarrow> f x = Some (g x)) \<Longrightarrow> all_some (map f xs) = Some (map g xs)"
  by (induction xs) auto

lemma de_strs [wire_simps]: "de_list de_str (strs xs) = Some xs" "all_some (map (de_str \<circ> JStr) xs) = Some xs"
  by (simp_all add: strs_def all_some_map[where g = id] comp_def)

lemma de_env_json [wire_simps]: "distinct (map fst m) \<Longrightarrow> de_env (env_json m) = Some (map_of m)"
proof -
  assume d: "distinct (map fst m)"
  have "all_some (map ((\<lambda>(k, v). map_option (Pair k) (de_str v)) \<circ> (\<lambda>(k, v). (k, JStr v))) m) = Some m"
    by (simp add: all_some_map[where g = id] split_beta comp_def)
  moreover have "map_of (rev m) = map_of m"
    using d by (subst map_of_inject_set) (simp_all add: rev_map[symmetric])
  ultimately show ?thesis by (simp add: env_json_def)
qed

lemma de_ser_mount [wire_simps]: "de_mount (ser_mount m) = Some m"
  by (cases m) (simp add: ser_mount_def wire_simps)

lemma read_fields [wire_simps]:
  "with_default k de_bool (Some False) (flag_field k b) = Some b"
  "with_default k (de_opt de_str) (Some None) (opt_field k v) = Some v"
  "with_default k (de_list de_str) (Some []) (list_field k (map JStr xs)) = Some xs"
  "with_default k (de_list de_mount) (Some []) (list_field k (map ser_mount ms)) = Some ms"
  "distinct (map fst m) \<Longrightarrow> with_default k de_env (Some (\<lambda>_. None)) (env_field k m) = Some (map_of m)"
  by (auto simp: flag_field_def opt_field_def list_field_def env_field_def de_opt_def wire_simps comp_def
      all_some_map[where g = id] split: option.splits)

lemma de_num64 [wire_simps]: "de_u64 (num64 w) = Some w"
  using unsigned_less[of w, where 'a = int] by (simp add: num64_def)

lemma de_opt_str [wire_simps]: "de_opt de_str (case w of None \<Rightarrow> JNull | Some s \<Rightarrow> JStr s) = Some w"
  by (simp add: de_opt_def split: option.splits)

lemmas command_decoders = de_run_def de_exec_def de_exec_into_def de_build_def de_compose_def
  de_container_command_def de_resource_command_def tagged_def

lemma de_ser_command: "distinct (map fst (env_of c)) \<Longrightarrow> de_command (ser_command c) = Some (as_guest c)"
  by (cases c) (simp_all add: command_decoders wire_simps)

text \<open>C18: Every command the host can send is read by the guest as the same command, with the
  same values in all fields: the tags, the omitted fields and the defaults of the two
  declarations agree for all 31 commands.\<close>

theorem wire_command_roundtrip:
  assumes "distinct (map fst (env_of c))"
  shows "de_command (ser_command c) = Some (as_guest c)"
  using assms by (rule de_ser_command)

section \<open>Responses\<close>

datatype stream_kind = Stdout | Stderr

text \<open>The response as the guest declares it; the codes are \<open>i32\<close> values.\<close>

datatype guest_response =
    GStream stream_kind string
  | GExit u32
  | GPong bool
  | GError string
  | GReady bool
  | GRawBytes u64
  | GVersionInfo string "string option" "string option"
  | GKubernetesStatusR bool

text \<open>The response as the host declares it: the stream is a plain string.\<close>

datatype host_response =
    HStream string string
  | HExit u32
  | HPong bool
  | HError string
  | HReady bool
  | HKubernetesStatusR bool
  | HRawBytes u64
  | HVersionInfo string "string option" "string option"

definition ser_stream_kind :: "stream_kind \<Rightarrow> string" where
  "ser_stream_kind k = (case k of Stdout \<Rightarrow> ''stdout'' | Stderr \<Rightarrow> ''stderr'')"

definition num32 :: "u32 \<Rightarrow> json" where
  "num32 w = JNum (sint w)"

text \<open>Without a \<open>serde(tag)\<close> attribute the variant's name is the only key of an outer object.\<close>

definition outer :: "string \<Rightarrow> (string \<times> json) list \<Rightarrow> json" where
  "outer variant kvs = JObj [(variant, JObj kvs)]"

fun ser_response :: "guest_response \<Rightarrow> json" where
  "ser_response (GStream k d) = outer ''stream'' [(''stream'', JStr (ser_stream_kind k)), (''data'', JStr d)]"
| "ser_response (GExit c) = outer ''exit'' [(''exit'', num32 c)]"
| "ser_response (GPong b) = outer ''pong'' [(''pong'', JBool b)]"
| "ser_response (GError e) = outer ''error'' [(''error'', JStr e)]"
| "ser_response (GReady b) = outer ''ready'' [(''ready'', JBool b)]"
| "ser_response (GRawBytes n) = outer ''raw_bytes'' [(''size'', num64 n)]"
| "ser_response (GVersionInfo g r k) =
     outer ''version_info'' ([(''guest'', JStr g)] @ opt_field ''runtime'' r @ opt_field ''kernel'' k)"
| "ser_response (GKubernetesStatusR b) = outer ''kubernetes_status'' [(''running'', JBool b)]"

definition de_response_fields :: "string \<Rightarrow> (string \<times> json) list \<Rightarrow> host_response option" where
  "de_response_fields v obj =
     (if v = ''stream'' then do {
        s \<leftarrow> required ''stream'' de_str obj; d \<leftarrow> required ''data'' de_str obj; Some (HStream s d) }
      else if v = ''exit'' then do { c \<leftarrow> required ''exit'' de_i32 obj; Some (HExit c) }
      else if v = ''pong'' then do { b \<leftarrow> required ''pong'' de_bool obj; Some (HPong b) }
      else if v = ''error'' then do { e \<leftarrow> required ''error'' de_str obj; Some (HError e) }
      else if v = ''ready'' then do { b \<leftarrow> required ''ready'' de_bool obj; Some (HReady b) }
      else if v = ''kubernetes_status'' then do { b \<leftarrow> required ''running'' de_bool obj; Some (HKubernetesStatusR b) }
      else if v = ''raw_bytes'' then do { n \<leftarrow> required ''size'' de_u64 obj; Some (HRawBytes n) }
      else if v = ''version_info'' then do {
        g \<leftarrow> defaulted ''guest'' de_str [] obj; r \<leftarrow> defaulted ''runtime'' (de_opt de_str) None obj;
        k \<leftarrow> defaulted ''kernel'' (de_opt de_str) None obj; Some (HVersionInfo g r k) }
      else None)"

fun de_response :: "json \<Rightarrow> host_response option" where
  "de_response (JObj [(v, JObj obj)]) = de_response_fields v obj"
| "de_response _ = None"

fun as_host :: "guest_response \<Rightarrow> host_response" where
  "as_host (GStream k d) = HStream (ser_stream_kind k) d"
| "as_host (GExit c) = HExit c"
| "as_host (GPong b) = HPong b"
| "as_host (GError e) = HError e"
| "as_host (GReady b) = HReady b"
| "as_host (GRawBytes n) = HRawBytes n"
| "as_host (GVersionInfo g r k) = HVersionInfo g r k"
| "as_host (GKubernetesStatusR b) = HKubernetesStatusR b"

lemma de_num32 [wire_simps]: "de_i32 (num32 w) = Some w"
  using sint_range_size[of w] by (simp add: num32_def word_size)

lemma de_ser_response: "de_response (ser_response r) = Some (as_host r)"
  by (cases r) (simp_all add: outer_def de_response_fields_def wire_simps)

text \<open>Every response of the guest is read by the host as the same response.\<close>

theorem wire_response_roundtrip: "de_response (ser_response r) = Some (as_host r)"
  by (rule de_ser_response)

section \<open>Container events\<close>

record container_snapshot =
  cs_name :: string
  cs_status :: string
  cs_pid :: u32
  cs_rootfs :: string
  cs_started_at :: string
  cs_exit_code :: "u32 option"
  cs_ports :: "string list"

datatype guest_event =
    GSnapshot "container_snapshot list" bool
  | GStarted container_snapshot
  | GExited string "u32 option"
  | GHeartbeat u64

definition num32_opt :: "u32 option \<Rightarrow> json" where
  "num32_opt c = (case c of None \<Rightarrow> JNull | Some w \<Rightarrow> num32 w)"

definition ser_snapshot :: "container_snapshot \<Rightarrow> json" where
  "ser_snapshot c = JObj [(''name'', JStr (cs_name c)), (''status'', JStr (cs_status c)), (''pid'', num32 (cs_pid c)),
     (''rootfs'', JStr (cs_rootfs c)), (''started_at'', JStr (cs_started_at c)),
     (''exit_code'', num32_opt (cs_exit_code c)), (''ports'', strs (cs_ports c))]"

fun ser_event :: "guest_event \<Rightarrow> json" where
  "ser_event (GSnapshot cs vm) =
     JObj [(''type'', JStr ''snapshot''), (''containers'', JArr (map ser_snapshot cs)), (''vm_running'', JBool vm)]"
| "ser_event (GStarted c) = JObj [(''type'', JStr ''container_started''), (''container'', ser_snapshot c)]"
| "ser_event (GExited name code) =
     JObj [(''type'', JStr ''container_exited''), (''name'', JStr name), (''exit_code'', num32_opt code)]"
| "ser_event (GHeartbeat ts) = JObj [(''type'', JStr ''heartbeat''), (''ts'', num64 ts)]"

text \<open>The daemon reads only the names and ports.\<close>

fun de_watch_container :: "json \<Rightarrow> watch_container option" where
  "de_watch_container (JObj obj) = do {
     n \<leftarrow> required ''name'' de_str obj;
     p \<leftarrow> defaulted ''ports'' (de_list de_str) [] obj;
     Some \<lparr>wc_name = n, wc_ports = p\<rparr> }"
| "de_watch_container _ = None"

fun de_watch_event :: "json \<Rightarrow> watch_event option" where
  "de_watch_event (JObj obj) = do {
     t \<leftarrow> required ''type'' de_str obj;
     if t = ''snapshot'' then do { cs \<leftarrow> required ''containers'' (de_list de_watch_container) obj; Some (Snapshot cs) }
     else if t = ''container_started'' then do {
       c \<leftarrow> required ''container'' de_watch_container obj; Some (ContainerStarted c) }
     else if t = ''container_exited'' then do { n \<leftarrow> required ''name'' de_str obj; Some (ContainerExited n) }
     else Some Unknown }"
| "de_watch_event _ = None"

definition as_watch_container :: "container_snapshot \<Rightarrow> watch_container" where
  "as_watch_container c = \<lparr>wc_name = cs_name c, wc_ports = cs_ports c\<rparr>"

fun as_watch :: "guest_event \<Rightarrow> watch_event" where
  "as_watch (GSnapshot cs _) = Snapshot (map as_watch_container cs)"
| "as_watch (GStarted c) = ContainerStarted (as_watch_container c)"
| "as_watch (GExited name _) = ContainerExited name"
| "as_watch (GHeartbeat _) = Unknown"

lemma de_watch_snapshot [wire_simps]: "de_watch_container (ser_snapshot c) = Some (as_watch_container c)"
  by (simp add: ser_snapshot_def as_watch_container_def wire_simps)

lemma wire_event_roundtrip: "de_watch_event (ser_event e) = Some (as_watch e)"
  by (cases e) (simp_all add: wire_simps comp_def all_some_map[where g = as_watch_container])

text \<open>A command with every kind of field.\<close>

definition demo_run :: host_command where
  "demo_run = HRun ''alpine'' [''sh''] [\<lparr>mount_tag = ''share0'', mount_subpath = ''src'', mount_container_path = ''/w''\<rparr>]
     (Some ''web'') True [(''A'', ''1''), (''B'', ''2'')] [] [''8080:80''] (Some ''pasta'') []"

theorem wire_command_roundtrip_witness:
  "de_command (ser_command demo_run) =
     Some (GRun ''alpine'' [''sh''] [''A'' \<mapsto> ''1'', ''B'' \<mapsto> ''2'']
       [\<lparr>mount_tag = ''share0'', mount_subpath = ''src'', mount_container_path = ''/w''\<rparr>]
       (Some ''web'') True [] [''8080:80''] (Some ''pasta'') [])"
  using wire_command_roundtrip[of demo_run] by (simp add: demo_run_def fun_upd_twist)

end
