(* ===== verification/Guest_Runtime.thy ===== *)
theory Guest_Runtime
  imports Guest_Protocol
begin

text \<open>
  The handlers of \<open>pelagos-guest/src/main.rs\<close> that run the container runtime and stream its
  output back, and the host command that prints it (\<open>passthrough_command\<close> in
  \<open>pelagos-mac/src/main.rs\<close>): pulling an image with retries, the argument lists of the
  runtime, the interleaving of the two output threads, and the substitution of build
  arguments. The processes and the file system are parameters of the handlers.
\<close>

section \<open>Images\<close>

definition image_dirname :: "string \<Rightarrow> string" where
  "image_dirname img =
     (let normalized = (if CHR '':'' \<notin> set img \<and> CHR ''@'' \<notin> set img then img @ '':latest'' else img)
      in map (\<lambda>c. if c = CHR '':'' \<or> c = CHR ''/'' \<or> c = CHR ''@'' then CHR ''_'' else c) normalized)"

definition image_cached_locally :: "(string \<Rightarrow> bool) \<Rightarrow> string \<Rightarrow> bool" where
  "image_cached_locally exists img =
     exists (''/var/lib/pelagos/images/'' @ image_dirname img @ ''/manifest.json'')"

text \<open>
  One attempt of \<open>pelagos image pull\<close>: it cannot be started, or it prints lines and ends with
  a code. \<open>pull_attempts n left\<close> is the loop at attempt \<open>n\<close> with \<open>left\<close> attempts to go.
\<close>

type_synonym pull_result = "string + (string list \<times> u32 option)"

definition PULL_ATTEMPTS :: nat where "PULL_ATTEMPTS = 10"

definition code_of :: "u32 option \<Rightarrow> u32" where
  "code_of c = (case c of Some x \<Rightarrow> x | None \<Rightarrow> - 1)"

text \<open>Decimal text of an \<open>i32\<close>.\<close>

definition show_i32 :: "u32 \<Rightarrow> string" where
  "show_i32 w = (if sint w < 0 then ''-'' @ show_nat (nat (- sint w)) else show_nat (nat (sint w)))"

fun pull_attempts :: "(nat \<Rightarrow> pull_result) \<Rightarrow> nat \<Rightarrow> nat \<Rightarrow> string \<Rightarrow> bool \<times> guest_response list" where
  "pull_attempts pull n 0 err = (False, [GError err])"
| "pull_attempts pull n (Suc left) err =
     (case pull n of
        Inl e \<Rightarrow> (False, [GError (''image pull spawn failed: '' @ e)])
      | Inr (ls, code) \<Rightarrow>
          (let out = map (\<lambda>l. GStream Stderr (l @ [nl])) ls in
           if code = Some 0 then (True, out)
           else (case pull_attempts pull (Suc n) left (''image pull failed (exit '' @ show_i32 (code_of code) @ '')'') of
                   (ok, rs) \<Rightarrow> (ok, out @ rs))))"

definition pull_image :: "(string \<Rightarrow> bool) \<Rightarrow> (string \<Rightarrow> nat \<Rightarrow> pull_result) \<Rightarrow> string \<Rightarrow> bool \<times> guest_response list" where
  "pull_image exists pull img =
     (if image_cached_locally exists img then (True, [])
      else pull_attempts (pull img) 1 PULL_ATTEMPTS [])"

section \<open>Streaming the output of a command\<close>

text \<open>What the main thread receives from the two reader threads, in order.\<close>

datatype line_chunk = OutLine string | ErrLine string

fun chunk_response :: "line_chunk \<Rightarrow> guest_response" where
  "chunk_response (OutLine l) = GStream Stdout (l @ [nl])"
| "chunk_response (ErrLine l) = GStream Stderr (l @ [nl])"

definition spawn_and_stream :: "string + (line_chunk list \<times> u32 option) \<Rightarrow> guest_response list" where
  "spawn_and_stream spawned =
     (case spawned of
        Inl e \<Rightarrow> [GError e]
      | Inr (chunks, code) \<Rightarrow> map chunk_response chunks @ [GExit (code_of code)])"

text \<open>\<open>spawn_and_stream_with_stdin\<close>: when the child does not take its input the connection ends without a
  reply.\<close>

definition spawn_and_stream_with_stdin :: "string + (line_chunk list \<times> u32 option) \<Rightarrow> bool \<Rightarrow> guest_response list" where
  "spawn_and_stream_with_stdin spawned accepted =
     (case spawned of
        Inl e \<Rightarrow> [GError e]
      | Inr (chunks, code) \<Rightarrow> if accepted then map chunk_response chunks @ [GExit (code_of code)] else [])"

text \<open>\<open>run_detached\<close> reads one line of the output.\<close>

definition run_detached :: "string + (string \<times> u32 option) \<Rightarrow> guest_response list" where
  "run_detached spawned =
     (case spawned of
        Inl e \<Rightarrow> [GError e]
      | Inr (out, code) \<Rightarrow>
          (let name_line = rev (dropWhile (\<lambda>c. c = cr) (rev (takeWhile (\<lambda>c. c \<noteq> nl) out))) in
           (if name_line = [] then [] else [GStream Stdout (name_line @ [nl])]) @ [GExit (code_of code)]))"

section \<open>The argument lists of the runtime\<close>

definition mount_source :: "guest_mount \<Rightarrow> string" where
  "mount_source m =
     (if mount_subpath m = [] then ''/mnt/'' @ mount_tag m
      else ''/mnt/'' @ mount_tag m @ ''/'' @ dropWhile (\<lambda>c. c = CHR ''/'') (mount_subpath m))"

definition opt_arg :: "string \<Rightarrow> string option \<Rightarrow> string list" where
  "opt_arg k v = (case v of None \<Rightarrow> [] | Some s \<Rightarrow> [k, s])"

definition each_arg :: "string \<Rightarrow> string list \<Rightarrow> string list" where
  "each_arg k vs = concat (map (\<lambda>v. [k, v]) vs)"

definition run_args :: "string \<Rightarrow> string list \<Rightarrow> guest_mount list \<Rightarrow> string option \<Rightarrow> bool
    \<Rightarrow> string list \<Rightarrow> string list \<Rightarrow> string option \<Rightarrow> string list \<Rightarrow> string list" where
  "run_args img args mounts name detach labels publish network dns =
     [''run''] @ opt_arg ''--name'' name @ (if detach then [''--detach''] else [])
     @ each_arg ''-v'' (map (\<lambda>m. mount_source m @ '':'' @ mount_container_path m) mounts)
     @ each_arg ''--label'' labels @ each_arg ''--publish'' publish @ opt_arg ''--network'' network
     @ each_arg ''--dns'' dns @ [img] @ args"

text \<open>A run of the runtime: arguments, additions to the environment, working directory, and
  what is written to its standard input.\<close>

record runtime_cmd =
  rc_args :: "string list"
  rc_env :: guest_env
  rc_dir :: "string option"
  rc_stdin :: "string option"

definition plain_cmd :: "string list \<Rightarrow> runtime_cmd" where
  "plain_cmd args = \<lparr>rc_args = args, rc_env = \<lambda>_. None, rc_dir = None, rc_stdin = None\<rparr>"

text \<open>The system as the handlers see it: files, pulls, children, whether a child takes what is written to
  its input, and the state directory of the containers with the status of each (\<open>None\<close>: unreadable).\<close>

record guest_os =
  os_exists :: "string \<Rightarrow> bool"
  os_pull :: "string \<Rightarrow> nat \<Rightarrow> pull_result"
  os_stream :: "runtime_cmd \<Rightarrow> string + (line_chunk list \<times> u32 option)"
  os_takes_stdin :: "runtime_cmd \<Rightarrow> bool"
  os_detach :: "runtime_cmd \<Rightarrow> string + (string \<times> u32 option)"
  os_containers :: "(string \<times> string option) list option"
  os_remove :: "string \<Rightarrow> string + (bool \<times> string)"

definition run_container :: "guest_os \<Rightarrow> string \<Rightarrow> string list \<Rightarrow> guest_env \<Rightarrow> guest_mount list \<Rightarrow> string option
    \<Rightarrow> bool \<Rightarrow> string list \<Rightarrow> string list \<Rightarrow> string option \<Rightarrow> string list \<Rightarrow> guest_response list" where
  "run_container os img args env mounts name detach labels publish network dns =
     (case pull_image (os_exists os) (os_pull os) img of
        (False, rs) \<Rightarrow> rs
      | (True, rs) \<Rightarrow>
          (let cmd = (plain_cmd (run_args img args mounts name detach labels publish network dns))\<lparr>rc_env := env\<rparr> in
           rs @ (if detach then run_detached (os_detach os cmd) else spawn_and_stream (os_stream os cmd))))"

text \<open>The handlers that are one run of the runtime: the run each starts.\<close>

definition handle_volume :: "string \<Rightarrow> string option \<Rightarrow> runtime_cmd" where [simp]:
  "handle_volume sb name = plain_cmd ([''volume'', sb] @ (case name of None \<Rightarrow> [] | Some n \<Rightarrow> [n]))"

definition handle_network :: "string \<Rightarrow> string list \<Rightarrow> runtime_cmd" where [simp]:
  "handle_network sb args = plain_cmd ([''network'', sb] @ args)"

definition handle_image_ls :: "bool \<Rightarrow> runtime_cmd" where [simp]:
  "handle_image_ls j = plain_cmd ([''image'', ''ls''] @ (if j then [''--format'', ''json''] else []))"

definition handle_image_pull :: "string \<Rightarrow> runtime_cmd" where [simp]:
  "handle_image_pull r = plain_cmd [''image'', ''pull'', r]"

definition handle_image_rm :: "string \<Rightarrow> runtime_cmd" where [simp]:
  "handle_image_rm r = plain_cmd [''image'', ''rm'', r]"

definition handle_image_tag :: "string \<Rightarrow> string \<Rightarrow> runtime_cmd" where [simp]:
  "handle_image_tag s t = plain_cmd [''image'', ''tag'', s, t]"

definition handle_image_inspect :: "string \<Rightarrow> runtime_cmd" where [simp]:
  "handle_image_inspect r = plain_cmd [''image'', ''ls'', ''--format'', ''json'']"

definition handle_image_login :: "string \<Rightarrow> string \<Rightarrow> string \<Rightarrow> runtime_cmd" where [simp]:
  "handle_image_login r u p =
     (plain_cmd [''image'', ''login'', ''--username'', u, ''--password-stdin'', r])\<lparr>rc_stdin := Some p\<rparr>"

definition handle_image_logout :: "string \<Rightarrow> runtime_cmd" where [simp]:
  "handle_image_logout r = plain_cmd [''image'', ''logout'', r]"

definition handle_compose :: "string \<Rightarrow> string \<Rightarrow> string \<Rightarrow> string option \<Rightarrow> string list \<Rightarrow> guest_env \<Rightarrow> runtime_cmd" where [simp]:
  "handle_compose sb file wd project args env =
     (plain_cmd ([''compose'', sb, ''-f'', file] @ opt_arg ''-p'' project @ args))\<lparr>rc_env := env, rc_dir := Some wd\<rparr>"

text \<open>The commands that are one run of the runtime.\<close>

fun stream_cmd :: "guest_command \<Rightarrow> runtime_cmd option" where
  "stream_cmd (GPs a j) =
     Some (plain_cmd ([''ps''] @ (if a then [''--all''] else []) @ (if j then [''--format'', ''json''] else [])))"
| "stream_cmd (GLogs name follow) = Some (plain_cmd ([''logs'', name] @ (if follow then [''--follow''] else [])))"
| "stream_cmd (GContainerInspect name) = Some (plain_cmd [''container'', ''inspect'', name])"
| "stream_cmd (GStart name interactive cmd_override) =
     (if interactive then None
      else Some (plain_cmd ([''start'', name] @ (if cmd_override = [] then [] else ''--'' # cmd_override))))"
| "stream_cmd (GStop name) = Some (plain_cmd [''stop'', name])"
| "stream_cmd (GRestart name time) = Some (plain_cmd [''restart'', ''--time'', show_word time, name])"
| "stream_cmd (GRm name force) = Some (plain_cmd ([''rm'', name] @ (if force then [''--force''] else [])))"
| "stream_cmd (GVolume sb name) = Some (handle_volume sb name)"
| "stream_cmd (GNetwork sb args) = Some (handle_network sb args)"
| "stream_cmd (GImageLs j) = Some (handle_image_ls j)"
| "stream_cmd (GImagePull r) = Some (handle_image_pull r)"
| "stream_cmd (GImageRm r) = Some (handle_image_rm r)"
| "stream_cmd (GImageTag s t) = Some (handle_image_tag s t)"
| "stream_cmd (GImageInspect r) = Some (handle_image_inspect r)"
| "stream_cmd (GImageLogout r) = Some (handle_image_logout r)"
| "stream_cmd (GCompose sb file wd project args env) = Some (handle_compose sb file wd project args env)"
| "stream_cmd _ = None"

text \<open>Removing the exited containers one by one.\<close>

fun prune_entries :: "guest_os \<Rightarrow> (string \<times> string option) list \<Rightarrow> nat \<times> guest_response list" where
  "prune_entries os [] = (0, [])"
| "prune_entries os ((name, status) # es) =
     (case prune_entries os es of (n, rs) \<Rightarrow>
        if status \<noteq> Some ''exited'' then (n, rs)
        else (case os_remove os name of
                Inr (True, _) \<Rightarrow> (Suc n, GStream Stdout (name @ [nl]) # rs)
              | Inr (False, msg) \<Rightarrow> (n, GStream Stderr (''error removing '' @ name @ '': '' @ trim msg @ [nl]) # rs)
              | Inl e \<Rightarrow> (n, GStream Stderr (''error removing '' @ name @ '': '' @ e @ [nl]) # rs)))"

definition container_prune :: "guest_os \<Rightarrow> guest_response list" where
  "container_prune os =
     (case (case os_containers os of None \<Rightarrow> (0, []) | Some es \<Rightarrow> prune_entries os es) of (n, rs) \<Rightarrow>
        rs @ [GStream Stdout (show_nat n @ '' container(s) removed'' @ [nl]), GExit 0])"

section \<open>A connection\<close>

text \<open>The commands after whose handler the connection is not read further.\<close>

fun ends_connection :: "guest_command \<Rightarrow> bool" where
  "ends_connection (GStart _ interactive _) = interactive"
| "ends_connection (GExec _ _ _ _ _ _ _ _ _ _) = True"
| "ends_connection (GExecInto _ _ _ _ _) = True"
| "ends_connection (GShell _) = True"
| "ends_connection GPing = True"
| "ends_connection GVersion = True"
| "ends_connection (GBuild _ _ _ _ _) = True"
| "ends_connection (GCpFrom _ _) = True"
| "ends_connection (GCpTo _ _ _) = True"
| "ends_connection GSubscribe = True"
| "ends_connection _ = False"

text \<open>The other handlers; \<open>k8s\<close> answers the Kubernetes commands.\<close>

definition handle_command :: "guest_os \<Rightarrow> (guest_command \<Rightarrow> guest_response list) \<Rightarrow> guest_command \<Rightarrow> guest_response list" where
  "handle_command os k8s c =
     (case c of
        GRun img args env mounts name detach labels publish network dns \<Rightarrow>
          run_container os img args env mounts name detach labels publish network dns
      | GContainerPrune \<Rightarrow> container_prune os
      | GImageLogin r u p \<Rightarrow>
          (let rc = handle_image_login r u p in spawn_and_stream_with_stdin (os_stream os rc) (os_takes_stdin os rc))
      | _ \<Rightarrow> (case stream_cmd c of Some rc \<Rightarrow> spawn_and_stream (os_stream os rc) | None \<Rightarrow> k8s c))"

text \<open>The one handler that can fail on the guest's side with the connection still there: the child does not
  take its input. The error ends the connection.\<close>

fun breaks_off :: "guest_os \<Rightarrow> guest_command \<Rightarrow> bool" where
  "breaks_off os (GImageLogin r u p) =
     (let rc = handle_image_login r u p in \<not> isl (os_stream os rc) \<and> \<not> os_takes_stdin os rc)"
| "breaks_off os _ = False"

text \<open>
  The lines of a connection. The result is what is answered before the first command that ends
  the line protocol, and that command. \<open>from_json\<close> is the JSON library's parser, \<open>json_error\<close>
  the text of its error.
\<close>

fun serve_lines :: "guest_os \<Rightarrow> (guest_command \<Rightarrow> guest_response list) \<Rightarrow> (string \<Rightarrow> json option) \<Rightarrow> (string \<Rightarrow> string)
    \<Rightarrow> string list \<Rightarrow> guest_response list \<times> guest_command option" where
  "serve_lines os k8s from_json json_error [] = ([], None)"
| "serve_lines os k8s from_json json_error (l # ls) =
     (let line = rev (dropWhile (\<lambda>c. c = cr) (rev l)) in
      if line = [] then serve_lines os k8s from_json json_error ls
      else (case Option.bind (from_json line) de_command of
              None \<Rightarrow> apfst (Cons (GError (''parse error: '' @ json_error line))) (serve_lines os k8s from_json json_error ls)
            | Some c \<Rightarrow>
                if ends_connection c then ([], Some c)
                else if breaks_off os c then (handle_command os k8s c, None)
                else apfst (append (handle_command os k8s c)) (serve_lines os k8s from_json json_error ls)))"

section \<open>The host side\<close>

text \<open>\<open>passthrough_command\<close>: what is printed on both streams, and the exit code, for the lines
  received until the connection ends.\<close>

fun passthrough_command :: "(string \<Rightarrow> json option) \<Rightarrow> string list \<Rightarrow> string \<times> string \<times> u32" where
  "passthrough_command from_json [] = ([], [], 1)"
| "passthrough_command from_json (l # ls) =
     (let trimmed = trim_end l in
      if trimmed = [] then passthrough_command from_json ls
      else (case Option.bind (from_json trimmed) de_response of
              None \<Rightarrow> ([], [], 1)
            | Some (HStream s d) \<Rightarrow>
                (case passthrough_command from_json ls of (out, err, code) \<Rightarrow>
                   if s = ''stderr'' then (out, d @ err, code) else (d @ out, err, code))
            | Some (HExit c) \<Rightarrow> ([], [], c)
            | Some (HError _) \<Rightarrow> ([], [], 1)
            | Some _ \<Rightarrow> passthrough_command from_json ls))"

section \<open>What the host prints\<close>

text \<open>What the code relies on of the JSON library for one value: its text is parsed back, is not
  empty and does not end in white space.\<close>

definition json_line :: "(json \<Rightarrow> string) \<Rightarrow> (string \<Rightarrow> json option) \<Rightarrow> json \<Rightarrow> bool" where
  "json_line to_json from_json j =
     (from_json (to_json j) = Some j \<and> to_json j \<noteq> [] \<and> \<not> is_ws (last (to_json j)))"

lemma trim_end_clean: "s \<noteq> [] \<Longrightarrow> \<not> is_ws (last s) \<Longrightarrow> trim_end s = s"
  by (cases s rule: rev_cases) (simp_all add: trim_end_def)

lemma drop_cr_clean: "s \<noteq> [] \<Longrightarrow> \<not> is_ws (last s) \<Longrightarrow> rev (dropWhile (\<lambda>c. c = cr) (rev s)) = s"
  by (cases s rule: rev_cases) (auto simp: is_ws_def)

lemma json_line_read:
  assumes "json_line tj fj j"
  shows "fj (tj j) = Some j" "tj j \<noteq> []" "trim_end (tj j) = tj j" "rev (dropWhile (\<lambda>c. c = cr) (rev (tj j))) = tj j"
  using assms trim_end_clean drop_cr_clean by (auto simp: json_line_def)

definition unlines :: "string list \<Rightarrow> string" where
  "unlines ls = concat (map (\<lambda>l. l @ [nl]) ls)"

fun out_lines :: "line_chunk list \<Rightarrow> string list" where
  "out_lines [] = []"
| "out_lines (OutLine l # cs) = l # out_lines cs"
| "out_lines (ErrLine l # cs) = out_lines cs"

fun err_lines :: "line_chunk list \<Rightarrow> string list" where
  "err_lines [] = []"
| "err_lines (OutLine l # cs) = err_lines cs"
| "err_lines (ErrLine l # cs) = l # err_lines cs"

lemma passthrough_response:
  assumes "json_line tj fj (ser_response r)"
  shows "passthrough_command fj (tj (ser_response r) # ls) =
    (case as_host r of
       HStream s d \<Rightarrow> (case passthrough_command fj ls of (out, err, code) \<Rightarrow>
                         if s = ''stderr'' then (out, d @ err, code) else (d @ out, err, code))
     | HExit c \<Rightarrow> ([], [], c)
     | HError _ \<Rightarrow> ([], [], 1)
     | _ \<Rightarrow> passthrough_command fj ls)"
  using json_line_read[OF assms] by (simp add: de_ser_response split: host_response.splits)

lemma passthrough_chunks:
  assumes "list_all (\<lambda>r. json_line tj fj (ser_response r)) (map chunk_response cs @ [GExit c])"
  shows "passthrough_command fj (map (\<lambda>r. tj (ser_response r)) (map chunk_response cs @ [GExit c])) =
    (unlines (out_lines cs), unlines (err_lines cs), c)"
  using assms
proof (induction cs)
  case (Cons x cs)
  then show ?case
    by (cases x) (simp_all add: passthrough_response unlines_def ser_stream_kind_def del: passthrough_command.simps ser_response.simps)
qed (simp add: passthrough_response unlines_def del: passthrough_command.simps ser_response.simps)

lemma interleaved_lines:
  assumes "cs \<in> shuffles (map OutLine os) (map ErrLine es)"
  shows "out_lines cs = os \<and> err_lines cs = es"
  using assms
proof (induction cs arbitrary: os es)
  case (Cons x cs)
  then consider o' os' where "os = o' # os'" "x = OutLine o'" "cs \<in> shuffles (map OutLine os') (map ErrLine es)"
    | e' es' where "es = e' # es'" "x = ErrLine e'" "cs \<in> shuffles (map OutLine os) (map ErrLine es')"
    by (auto simp: Cons_in_shuffles_iff neq_Nil_conv)
  then show ?case using Cons.IH by cases auto
qed simp

lemma unlines_str_lines:
  assumes "s = [] \<or> last s = nl" and "cr \<notin> set s"
  shows "unlines (str_lines s) = s"
proof -
  have "unlines (lines_acc acc s) = rev acc @ s" if "acc = [] \<or> s \<noteq> []" "cr \<notin> set acc" for acc
    using assms that
  proof (induction s arbitrary: acc)
    case (Cons c s)
    show ?case
    proof (cases "c = nl")
      case True
      have "strip_cr (rev acc) = rev acc"
        using Cons.prems(4) by (cases acc) (auto simp: strip_cr_def)
      then show ?thesis using True Cons.prems Cons.IH[of "[]"] by (auto simp: unlines_def split: if_splits)
    next
      case False
      then show ?thesis using Cons.prems Cons.IH[of "c # acc"] by (auto split: if_splits)
    qed
  qed (auto simp: unlines_def)
  from this[of "[]"] show ?thesis by (simp add: str_lines_def)
qed

text \<open>The output of a command run in the guest reaches the host's terminal. However the two
  reader threads interleave, the host prints on each of its streams exactly the lines of that
  stream in their order, each ended by a newline, and returns the command's exit code (-1 when
  it was killed). A text whose last line is ended and that has no carriage returns is therefore
  printed unchanged.\<close>

theorem gr_output_delivered:
  assumes "chunks \<in> shuffles (map OutLine (str_lines out)) (map ErrLine (str_lines err))"
    and "list_all (\<lambda>r. json_line to_json from_json (ser_response r)) (spawn_and_stream (Inr (chunks, code)))"
  shows "passthrough_command from_json (map (\<lambda>r. to_json (ser_response r)) (spawn_and_stream (Inr (chunks, code)))) =
      (unlines (str_lines out), unlines (str_lines err), code_of code) \<and>
    ((out = [] \<or> last out = nl) \<and> cr \<notin> set out \<longrightarrow> unlines (str_lines out) = out)"
  using passthrough_chunks[of to_json from_json chunks "code_of code"] assms interleaved_lines[OF assms(1)]
    unlines_str_lines[of out]
  by (simp add: spawn_and_stream_def)

text \<open>A JSON text for the three messages of a small run.\<close>

definition demo_chunks :: "line_chunk list" where "demo_chunks = [ErrLine ''warn'', OutLine ''hi'']"

definition demo_to :: "json \<Rightarrow> string" where
  "demo_to j = (if j = ser_response (GStream Stdout (''hi'' @ [nl])) then ''o''
     else if j = ser_response (GStream Stderr (''warn'' @ [nl])) then ''e'' else ''x'')"

definition demo_from :: "string \<Rightarrow> json option" where
  "demo_from s = (if s = ''o'' then Some (ser_response (GStream Stdout (''hi'' @ [nl])))
     else if s = ''e'' then Some (ser_response (GStream Stderr (''warn'' @ [nl])))
     else if s = ''x'' then Some (ser_response (GExit 7)) else None)"

theorem gr_output_delivered_witness:
  "passthrough_command demo_from (map (\<lambda>r. demo_to (ser_response r)) (spawn_and_stream (Inr (demo_chunks, Some 7)))) =
     (''hi'' @ [nl], ''warn'' @ [nl], 7)"
proof -
  have l: "str_lines (''hi'' @ [nl]) = [''hi'']" "str_lines (''warn'' @ [nl]) = [''warn'']"
    by (simp_all add: str_lines_def strip_cr_def)
  have "demo_chunks \<in> shuffles (map OutLine (str_lines (''hi'' @ [nl]))) (map ErrLine (str_lines (''warn'' @ [nl])))"
    unfolding l by (simp add: demo_chunks_def)
  moreover have "list_all (\<lambda>r. json_line demo_to demo_from (ser_response r)) (spawn_and_stream (Inr (demo_chunks, Some 7)))"
    by (simp add: spawn_and_stream_def demo_chunks_def json_line_def demo_to_def demo_from_def ser_stream_kind_def
        outer_def is_ws_def code_of_def num32_def)
  ultimately show ?thesis
    using gr_output_delivered[of demo_chunks "''hi'' @ [nl]" "''warn'' @ [nl]" demo_to demo_from "Some 7"]
    unfolding l by (simp add: unlines_def code_of_def)
qed

section \<open>Pulling\<close>

definition pull_ok :: "pull_result \<Rightarrow> bool" where
  "pull_ok r = (case r of Inl _ \<Rightarrow> False | Inr (_, c) \<Rightarrow> c = Some 0)"

lemma pull_attempts_spec:
  "fst (pull_attempts p n k e) \<longleftrightarrow> (\<exists>i<k. pull_ok (p (n + i)) \<and> (\<forall>j<i. isl (p (n + j)) = False))"
  "\<exists>ls err. snd (pull_attempts p n k e) =
     map (GStream Stderr) ls @ (if fst (pull_attempts p n k e) then [] else [GError err])"
proof (induction k arbitrary: n e)
  case (Suc k)
  have ex: "(\<exists>i<Suc k. P i) \<longleftrightarrow> P 0 \<or> (\<exists>i<k. P (Suc i))" for P by (auto simp: less_Suc_eq_0_disj)
  have al: "(\<forall>j<Suc i. Q j) \<longleftrightarrow> Q 0 \<and> (\<forall>j<i. Q (Suc j))" for Q :: "nat \<Rightarrow> bool" and i by (auto simp: less_Suc_eq_0_disj)
  { case 1 show ?case
      using Suc.IH(1)[of "Suc n"] unfolding ex
      by (cases "p n") (simp_all add: al pull_ok_def split_beta Let_def)
  next case 2 show ?case
    proof (cases "p n")
      case (Inr r)
      obtain ls c where r: "r = (ls, c)" by (cases r)
      obtain ls' err where "snd (pull_attempts p (Suc n) k (''image pull failed (exit '' @ show_i32 (code_of c) @ '')'')) =
          map (GStream Stderr) ls' @ (if fst (pull_attempts p (Suc n) k (''image pull failed (exit '' @ show_i32 (code_of c) @ '')''))
             then [] else [GError err])"
        using Suc.IH(2) by blast
      then have "snd (pull_attempts p n (Suc k) e) = map (GStream Stderr) (map (\<lambda>l. l @ [nl]) ls @ (if c = Some 0 then [] else ls'))
          @ (if fst (pull_attempts p n (Suc k) e) then [] else [GError err])"
        using Inr r by (simp add: comp_def split_beta)
      then show ?thesis by blast
    qed (auto intro: exI[of _ "[]"])
  }
qed (auto intro: exI[of _ "[]"])

lemma pull_attempts_cong:
  "(\<And>i. i < k \<Longrightarrow> p (n + i) = q (n + i)) \<Longrightarrow> pull_attempts p n k e = pull_attempts q n k e"
proof (induction k arbitrary: n e)
  case (Suc k)
  have "pull_attempts p (Suc n) k e' = pull_attempts q (Suc n) k e'" for e'
    using Suc.prems by (intro Suc.IH) (metis Suc_less_eq add_Suc_shift)
  then show ?case using Suc.prems[of 0] by (simp add: Let_def split: sum.splits prod.splits)
qed simp

text \<open>An image that is cached is not pulled. Otherwise at most ten attempts are made: the
  pull succeeds exactly when one of them ends with code 0 and all attempts before it could be
  started; the progress lines are sent as stderr, and a failure ends with exactly one error
  message, a success with none.\<close>

lemma gr_pull_retries:
  "(image_cached_locally ex img \<longrightarrow> pull_image ex pull img = (True, [])) \<and>
   (\<not> image_cached_locally ex img \<longrightarrow>
      (fst (pull_image ex pull img) \<longleftrightarrow>
         (\<exists>i<10. pull_ok (pull img (Suc i)) \<and> (\<forall>j<i. \<not> isl (pull img (Suc j))))) \<and>
      (\<exists>ls err. snd (pull_image ex pull img) =
         map (GStream Stderr) ls @ (if fst (pull_image ex pull img) then [] else [GError err])) \<and>
      (\<forall>pull'. (\<forall>n\<in>{1..10}. pull' img n = pull img n) \<longrightarrow> pull_image ex pull' img = pull_image ex pull img))"
  using pull_attempts_spec[of "pull img" 1 10 "[]"]
  by (auto simp: pull_image_def PULL_ATTEMPTS_def intro!: pull_attempts_cong)

definition third_pull :: "string \<Rightarrow> nat \<Rightarrow> pull_result" where
  "third_pull _ n = Inr ([''try''], Some (if n = 3 then 0 else 1))"

lemma gr_pull_retries_witness: "fst (pull_image (\<lambda>_. False) third_pull ''alpine'')"
proof -
  have "\<not> image_cached_locally (\<lambda>_. False) ''alpine''" by (simp add: image_cached_locally_def)
  moreover have "(2::nat) < 10" by simp
  moreover have "pull_ok (third_pull ''alpine'' (Suc 2))" by (simp add: pull_ok_def third_pull_def)
  moreover have "\<forall>j<2. \<not> isl (third_pull ''alpine'' (Suc j))" by (simp add: third_pull_def)
  ultimately show ?thesis using gr_pull_retries[of "\<lambda>_. False" "''alpine''" third_pull] by blast
qed

section \<open>Several commands on one connection\<close>

text \<open>The guest answers every line of a connection in turn: for commands that keep the line
  protocol the answers are those of their handlers, in the order of the commands; a line that
  is no command is answered by one error and does not end the connection.\<close>

lemma gr_connection_replies:
  assumes "list_all (\<lambda>c. json_line to_json from_json (ser_command c) \<and> distinct (map fst (env_of c)) \<and>
      \<not> ends_connection (as_guest c) \<and> \<not> breaks_off os (as_guest c)) cs"
    and "bad \<noteq> []" and "\<not> is_ws (last bad)" and "from_json bad = None"
  shows "serve_lines os k8s from_json json_error (map (\<lambda>c. to_json (ser_command c)) cs) =
      (concat (map (\<lambda>c. handle_command os k8s (as_guest c)) cs), None) \<and>
    serve_lines os k8s from_json json_error (bad # map (\<lambda>c. to_json (ser_command c)) cs) =
      (GError (''parse error: '' @ json_error bad) # concat (map (\<lambda>c. handle_command os k8s (as_guest c)) cs), None)"
proof -
  have "serve_lines os k8s from_json json_error (map (\<lambda>c. to_json (ser_command c)) cs) =
      (concat (map (\<lambda>c. handle_command os k8s (as_guest c)) cs), None)"
    using assms(1)
  proof (induction cs)
    case (Cons c cs)
    then show ?case
      using json_line_read[of to_json from_json "ser_command c"] de_ser_command[of c]
      by (simp add: Let_def)
  qed simp
  then show ?thesis using assms(2-4) drop_cr_clean[of bad] by (simp add: Let_def)
qed

definition quiet_os :: guest_os where
  "quiet_os = \<lparr>os_exists = \<lambda>_. True, os_pull = third_pull, os_stream = \<lambda>_. Inr ([], Some 0), os_takes_stdin = \<lambda>_. True,
     os_detach = \<lambda>_. Inr ([], Some 0), os_containers = Some [], os_remove = \<lambda>_. Inr (True, [])\<rparr>"

definition stop_from :: "string \<Rightarrow> json option" where
  "stop_from s = (if s = ''s'' then Some (ser_command (HStop ''web'')) else None)"

lemma gr_connection_replies_witness:
  "serve_lines quiet_os (\<lambda>_. []) stop_from id [''bad'', ''s''] = ([GError ''parse error: bad'', GExit 0], None)"
proof -
  have "list_all (\<lambda>c. json_line (\<lambda>_. ''s'') stop_from (ser_command c) \<and> distinct (map fst (env_of c)) \<and>
      \<not> ends_connection (as_guest c) \<and> \<not> breaks_off quiet_os (as_guest c)) [HStop ''web'']"
    by (simp add: json_line_def stop_from_def is_ws_def)
  from gr_connection_replies[OF this, of "''bad''" "\<lambda>_. []" id] show ?thesis
    by (simp add: stop_from_def is_ws_def handle_command_def spawn_and_stream_def quiet_os_def code_of_def)
qed

section \<open>Building an image\<close>

text \<open>
  \<open>substitute_build_args\<close> walks over the UTF-8 bytes of the text and pushes each byte it copies
  as a character of its own: a character beyond ASCII, two bytes, becomes two characters.
\<close>

definition push_byte_char :: "char \<Rightarrow> string" where
  "push_byte_char c =
     (let n = of_char c :: nat in
      if n < 128 then [c] else [char_of (192 + n div 64), char_of (128 + n mod 64)])"

definition is_var_char :: "char \<Rightarrow> bool" where
  "is_var_char c = (let n = of_char c :: nat in
     (48 \<le> n \<and> n \<le> 57) \<or> (65 \<le> n \<and> n \<le> 90) \<or> (97 \<le> n \<and> n \<le> 122) \<or> c = CHR ''_'')"

definition var_value :: "(string \<Rightarrow> string option) \<Rightarrow> string \<Rightarrow> string" where
  "var_value vars name = (case vars name of Some v \<Rightarrow> v | None \<Rightarrow> [])"

lemma split_once_shorter: "split_once d s = Some (a, b) \<Longrightarrow> length b < length s"
  by (auto simp: split_once_Some)

function substitute_build_args :: "(string \<Rightarrow> string option) \<Rightarrow> string \<Rightarrow> string" where
  "substitute_build_args vars [] = []"
| "substitute_build_args vars (c # r) =
     (if c = CHR ''$'' then
        (if r \<noteq> [] \<and> hd r = CHR ''{'' then
           (case split_once CHR ''}'' (tl r) of
              Some (name, rest) \<Rightarrow> var_value vars name @ substitute_build_args vars rest
            | None \<Rightarrow> ''$'' @ substitute_build_args vars r)
         else if r \<noteq> [] \<and> is_var_char (hd r) then
           var_value vars (takeWhile is_var_char r) @ substitute_build_args vars (dropWhile is_var_char r)
         else ''$'' @ substitute_build_args vars r)
      else push_byte_char c @ substitute_build_args vars r)"
  by pat_completeness auto
termination
  by (relation "measure (\<lambda>(_, s). length s)")
    (auto dest!: split_once_shorter simp: le_imp_less_Suc length_dropWhile_le)

text \<open>The variables: defaults of the \<open>ARG\<close> lines, the first one of a name counts, overridden by
  the build arguments, of which the last one counts.\<close>

definition arg_default :: "string \<Rightarrow> (string \<times> string) option" where
  "arg_default line =
     (let trimmed = trim line in
      if starts_with (upper trimmed) ''ARG'' then
        map_option (\<lambda>(k, v). (trim k, trim v)) (split_once CHR ''='' (trim (drop 3 trimmed)))
      else None)"

definition build_vars :: "string list \<Rightarrow> string \<Rightarrow> string \<Rightarrow> string option" where
  "build_vars build_args content =
     map_of (List.map_filter arg_default (str_lines content))
     ++ map_of (rev (List.map_filter (split_once CHR ''='') build_args))"

text \<open>The base images to pull, line by line, with the stage names and the images seen so far.\<close>

fun build_bases :: "(string \<Rightarrow> string option) \<Rightarrow> string list \<Rightarrow> string list \<Rightarrow> string list \<Rightarrow> string list" where
  "build_bases vars aliases pulled [] = []"
| "build_bases vars aliases pulled (line # ls) =
     (let trimmed = trim line in
      if \<not> starts_with (upper trimmed) ''FROM'' then build_bases vars aliases pulled ls
      else
        (let parts = split_ws trimmed;
             raw_base = (if length parts > 1 then parts ! 1 else []);
             aliases = (if length parts \<ge> 4 \<and> lower (parts ! 2) = ''as'' then lower (parts ! 3) # aliases else aliases);
             base = substitute_build_args vars raw_base
         in if base = [] \<or> lower base = ''scratch'' \<or> starts_with base ''$'' \<or> lower base \<in> set pulled \<or> lower base \<in> set aliases
            then build_bases vars aliases pulled ls
            else base # build_bases vars aliases (lower base # pulled) ls))"

text \<open>Each base is pulled in turn; the first failure ends the build.\<close>

fun pull_all :: "guest_os \<Rightarrow> string list \<Rightarrow> bool \<times> guest_response list" where
  "pull_all os [] = (True, [])"
| "pull_all os (b # bs) =
     (case pull_image (os_exists os) (os_pull os) b of
        (False, rs) \<Rightarrow> (False, rs)
      | (True, rs) \<Rightarrow> (case pull_all os bs of (ok, rs') \<Rightarrow> (ok, rs @ rs')))"

text \<open>
  \<open>handle_build\<close> with the context directory \<open>ctx_dir\<close>. \<open>extracted\<close> is the result of unpacking:
  it could not be started, failed with a code and a message, or gave the text of the
  Dockerfile when that could be read.
\<close>

definition handle_build :: "guest_os \<Rightarrow> string \<Rightarrow> string + (u32 option \<times> string) + string option
    \<Rightarrow> string \<Rightarrow> string \<Rightarrow> string list \<Rightarrow> bool \<Rightarrow> guest_response list" where
  "handle_build os ctx_dir extracted t dockerfile build_args no_cache =
     (case extracted of
        Inl e \<Rightarrow> [GError (''tar spawn failed: '' @ e)]
      | Inr (Inl (code, err)) \<Rightarrow>
          [GError (''build context extract failed (exit '' @ show_i32 (code_of code) @ ''): '' @ trim err)]
      | Inr (Inr content) \<Rightarrow>
          (let dockerfile_path = ctx_dir @ ''/'' @ dockerfile;
               bases = (case content of
                          None \<Rightarrow> []
                        | Some text \<Rightarrow> build_bases (build_vars build_args text) [] [] (str_lines text))
           in case pull_all os bases of
                (False, rs) \<Rightarrow> rs
              | (True, rs) \<Rightarrow>
                  rs @ spawn_and_stream (os_stream os (plain_cmd
                    ([''build'', ''-t'', t, ''-f'', dockerfile_path, ''--network'', ''pasta'']
                     @ each_arg ''--build-arg'' build_args @ (if no_cache then [''--no-cache''] else [])
                     @ [ctx_dir])))))"

lemma push_byte_char_id: "push_byte_char c = [c] \<longleftrightarrow> (of_char c :: nat) < 128"
  by (simp add: push_byte_char_def Let_def)

lemma substitute_no_var: "CHR ''$'' \<notin> set s \<Longrightarrow> substitute_build_args vars s = concat (map push_byte_char s)"
  by (induction s) auto

lemma length_push_byte_char: "length (push_byte_char c) = (if (of_char c :: nat) < 128 then 1 else 2)"
  by (simp add: push_byte_char_def Let_def)

lemma push_bytes_longer:
  "length s \<le> length (concat (map push_byte_char s))"
  "concat (map push_byte_char s) = s \<longleftrightarrow> list_all (\<lambda>c. (of_char c :: nat) < 128) s"
proof (induction s)
  case (Cons c s)
  { case 1 show ?case using Cons.IH(1) by (simp add: length_push_byte_char)
  next case 2 show ?case
    proof (cases "(of_char c :: nat) < 128")
      case True then show ?thesis using Cons.IH(2) push_byte_char_id[of c] by simp
    next
      case False
      then have "length (concat (map push_byte_char (c # s))) > length (c # s)"
        using Cons.IH(1) by (simp add: length_push_byte_char)
      then have "concat (map push_byte_char (c # s)) \<noteq> c # s" by (metis less_irrefl)
      then show ?thesis using False by simp
    qed }
qed simp_all

text \<open>The substitution of build arguments leaves a text without \<open>$\<close> unchanged exactly when
  all its characters are ASCII: every character beyond ASCII is garbled into the characters
  numbered by the bytes of its encoding.\<close>

lemma gr_substitute_ascii_only:
  assumes "CHR ''$'' \<notin> set text"
  shows "substitute_build_args vars text = text \<longleftrightarrow> list_all (\<lambda>c. (of_char c :: nat) < 128) text"
  using assms by (simp add: substitute_no_var push_bytes_longer(2))

lemma gr_substitute_ascii_only_witness:
  "substitute_build_args (\<lambda>_. None) (''caf'' @ [CHR 0xE9]) \<noteq> ''caf'' @ [CHR 0xE9]"
  using gr_substitute_ascii_only[of "''caf'' @ [CHR 0xE9]" "\<lambda>_. None"] by simp

text \<open>The stage names after some lines.\<close>

fun stage_aliases :: "string list \<Rightarrow> string list \<Rightarrow> string list" where
  "stage_aliases aliases [] = aliases"
| "stage_aliases aliases (line # ls) =
     (let trimmed = trim line; parts = split_ws trimmed in
      stage_aliases
        (if starts_with (upper trimmed) ''FROM'' \<and> length parts \<ge> 4 \<and> lower (parts ! 2) = ''as''
         then lower (parts ! 3) # aliases else aliases) ls)"

definition fresh_base :: "string list \<Rightarrow> string list \<Rightarrow> string \<Rightarrow> bool" where
  "fresh_base aliases pulled b =
     (b \<noteq> [] \<and> lower b \<noteq> ''scratch'' \<and> \<not> starts_with b ''$'' \<and> lower b \<notin> set pulled \<and> lower b \<notin> set aliases)"

lemma fresh_base_mono:
  "fresh_base al' pu' b \<Longrightarrow> set al \<subseteq> set al' \<Longrightarrow> set pu \<subseteq> set pu' \<Longrightarrow> fresh_base al pu b"
  unfolding fresh_base_def by blast

lemma build_bases_fresh:
  "list_all (fresh_base aliases pulled) (build_bases vars aliases pulled ls) \<and>
   distinct (map lower (build_bases vars aliases pulled ls))"
proof (induction ls arbitrary: aliases pulled)
  case (Cons line ls)
  define al where "al = (let parts = split_ws (trim line) in
    if length parts \<ge> 4 \<and> lower (parts ! 2) = ''as'' then lower (parts ! 3) # aliases else aliases)"
  define base where "base = substitute_build_args vars (let parts = split_ws (trim line) in if length parts > 1 then parts ! 1 else [])"
  have sub: "set aliases \<subseteq> set al" unfolding al_def Let_def by (cases "4 \<le> length (split_ws (trim line))") auto
  have step: "build_bases vars aliases pulled (line # ls) =
    (if \<not> starts_with (upper (trim line)) ''FROM'' then build_bases vars aliases pulled ls
     else if \<not> fresh_base al pulled base then build_bases vars al pulled ls
     else base # build_bases vars al (lower base # pulled) ls)"
    by (simp add: al_def base_def Let_def fresh_base_def)
  have weaker: "list_all (fresh_base aliases pulled) bs" if "list_all (fresh_base al pu) bs" "set pulled \<subseteq> set pu" for bs pu
    using that fresh_base_mono[OF _ sub that(2)] by (simp add: list_all_iff)
  show ?case
  proof (cases "starts_with (upper (trim line)) ''FROM'' \<and> fresh_base al pulled base")
    case True
    let ?bs = "build_bases vars al (lower base # pulled) ls"
    have "list_all (fresh_base al (lower base # pulled)) ?bs" "distinct (map lower ?bs)" using Cons.IH by blast+
    moreover from this have "lower base \<notin> set (map lower ?bs)" by (auto simp: list_all_iff fresh_base_def)
    moreover have "fresh_base aliases pulled base" using True fresh_base_mono[OF _ sub] by blast
    moreover have "set pulled \<subseteq> set (lower base # pulled)" by auto
    ultimately show ?thesis using True weaker unfolding step by simp
  next
    case False
    then show ?thesis
      using Cons.IH[of aliases pulled] Cons.IH[of al pulled] weaker[of pulled] unfolding step by (simp split: if_splits)
  qed
qed simp

lemma build_bases_append:
  "\<exists>pulled'. build_bases vars aliases pulled (xs @ ys) =
     build_bases vars aliases pulled xs @ build_bases vars (stage_aliases aliases xs) pulled' ys"
proof (induction xs arbitrary: aliases pulled)
  case (Cons x xs)
  show ?case
    using Cons.IH by (simp add: Let_def)
qed auto

text \<open>A build pulls each base image once, never \<open>scratch\<close> or an unresolved variable, and never
  a name that an earlier line of the Dockerfile gave to a stage.\<close>

theorem gr_build_bases:
  "distinct (map lower (build_bases vars [] [] (pre @ post))) \<and>
   list_all (\<lambda>b. b \<noteq> [] \<and> lower b \<noteq> ''scratch'' \<and> \<not> starts_with b ''$'') (build_bases vars [] [] (pre @ post)) \<and>
   (\<exists>bs. build_bases vars [] [] (pre @ post) = build_bases vars [] [] pre @ bs \<and>
      list_all (\<lambda>b. lower b \<notin> set (stage_aliases [] pre)) bs)"
proof -
  obtain p where p: "build_bases vars [] [] (pre @ post) =
      build_bases vars [] [] pre @ build_bases vars (stage_aliases [] pre) p post"
    using build_bases_append by blast
  show ?thesis
    unfolding p using build_bases_fresh[of "[]" "[]" vars "pre @ post"]
      build_bases_fresh[of "stage_aliases [] pre" p vars post]
    by (simp add: p list_all_iff fresh_base_def)
qed

text \<open>A platform flag of a \<open>FROM\<close> line is taken for the image.\<close>

lemma platform_flag_pulled:
  assumes "is_word flag" "is_word img" and "list_all (\<lambda>c. (of_char c :: nat) < 128 \<and> c \<noteq> CHR ''$'') flag"
    and "lower flag \<noteq> ''scratch''"
  shows "build_bases vars [] [] [''FROM '' @ flag @ '' '' @ img] = [flag]"
proof -
  have from_word: "is_word ''FROM''" and sp: "is_ws CHR '' ''" by (simp_all add: is_word_def is_ws_def)
  have t: "trim (''FROM '' @ flag @ '' '' @ img) = ''FROM '' @ flag @ '' '' @ img"
    using assms(2) by (intro trim_clean) (auto simp: is_word_def is_ws_def list_all_iff)
  have parts: "split_ws (''FROM'' @ CHR '' '' # flag @ CHR '' '' # img) = [''FROM'', flag, img]"
    using assms(1,2) by (simp only: split_ws_simps(3,4) from_word sp)
  have sub: "substitute_build_args vars flag = flag"
    using assms(3) substitute_no_var[of flag vars] push_bytes_longer(2)[of flag] by (auto simp: list_all_iff)
  have "\<not> starts_with flag ''$''" using assms(1,3) by (cases flag) (auto simp: starts_with_def)
  then show ?thesis
    using assms(1,4) parts t sub by (simp add: Let_def is_word_def upper_def starts_with_def)
qed

end
