(* ===== verification/Run_Command.thy ===== *)
theory Run_Command
  imports Daemon_Args Guest_Runtime "HOL-Library.AList"
begin

text \<open>
  The \<open>run\<close> and \<open>compose\<close> commands of \<open>pelagos-mac/src/main.rs\<close> on the host: the environment and
  the bind mounts of a container from the command line, the message to the guest, the
  registration of the ports with the daemon before and after, and the translation of the
  path of a compose file.
\<close>

section \<open>Environment and mounts\<close>

text \<open>A hash map collected from \<open>KEY=VALUE\<close> texts; the list is one of its iteration orders.\<close>

definition env_map :: "string list \<Rightarrow> host_env" where
  "env_map kvs = fold (\<lambda>(k, v). AList.update k v) (List.map_filter (split_once CHR ''='') kvs) []"

text \<open>The mount of one \<open>-v\<close> option: under the home directory a sub-path of the share of that
  directory, otherwise the first share with this host path, compared by components, if there is one.\<close>

definition guest_mount_of :: "string \<Rightarrow> virtiofs_share list \<Rightarrow> string \<Rightarrow> guest_mount option" where
  "guest_mount_of home shares spec =
     (case splitn3 CHR '':'' spec of
        host_path # container_path # _ \<Rightarrow>
          if home \<noteq> [] \<and> (host_path = home \<or> starts_with host_path (home @ ''/'')) then
            Some \<lparr>mount_tag = ''share0'',
              mount_subpath = (case strip_prefix (home @ ''/'') host_path of Some s \<Rightarrow> s | None \<Rightarrow> []),
              mount_container_path = container_path\<rparr>
          else map_option (\<lambda>s. \<lparr>mount_tag = share_tag s, mount_subpath = [], mount_container_path = container_path\<rparr>)
                 (find (\<lambda>s. path_eq (share_host s) host_path) shares)
      | _ \<Rightarrow> None)"

definition guest_mounts :: "env \<Rightarrow> virtiofs_share list \<Rightarrow> string list \<Rightarrow> guest_mount list" where
  "guest_mounts e shares volumes =
     List.map_filter (guest_mount_of (get_or (home_dir e) []) shares) volumes"

section \<open>The message to the guest\<close>

record run_opts =
  ro_image :: string
  ro_args :: "string list"
  ro_name :: "string option"
  ro_detach :: bool
  ro_env :: "string list"
  ro_labels :: "string list"
  ro_interactive :: bool
  ro_tty :: bool
  ro_network :: "string list"
  ro_dns :: "string list"

definition run_message :: "env \<Rightarrow> bool \<Rightarrow> cli \<Rightarrow> daemon_args \<Rightarrow> run_opts \<Rightarrow> host_command" where
  "run_message e stdout_is_tty c a r =
     (let mounts = guest_mounts e (da_shares a) (cli_volumes c);
          net = Some (case ro_network r of n # _ \<Rightarrow> n | [] \<Rightarrow> ''pasta'') in
      if ro_interactive r \<or> ro_tty r then
        HExec (ro_image r) (ro_args r) (env_map (ro_env r)) (ro_tty r \<or> stdout_is_tty) (ro_name r) mounts
          (ro_labels r) (cli_ports c) net (ro_dns r)
      else
        HRun (ro_image r) (ro_args r) mounts (ro_name r) (ro_detach r) (env_map (ro_env r)) (ro_labels r)
          (cli_ports c) net (ro_dns r))"

section \<open>Ports\<close>

text \<open>\<open>send_daemon_cmd\<close> to a daemon that can be reached.\<close>

definition send_daemon_cmd :: "daemon_cmd \<Rightarrow> port_state \<Rightarrow> (string + unit) \<times> port_state" where
  "send_daemon_cmd c ps =
     (case handle_daemon_cmd c ps of (DOk, ps') \<Rightarrow> (Inr (), ps') | (DErr m, ps') \<Rightarrow> (Inl m, ps'))"

text \<open>Registration for \<open>run\<close>: the first conflict ends the command.\<close>

fun register_ports :: "string list \<Rightarrow> port_state \<Rightarrow> (string + unit) \<times> port_state" where
  "register_ports [] ps = (Inr (), ps)"
| "register_ports (spec # specs) ps =
     (case parse_port_spec spec of
        None \<Rightarrow> register_ports specs ps
      | Some pf \<Rightarrow>
          (case send_daemon_cmd (RegisterPort (host_port pf) (container_port pf)) ps of
             (Inl m, ps') \<Rightarrow> (Inl m, ps')
           | (Inr _, ps') \<Rightarrow> register_ports specs ps'))"

fun unregister_ports :: "string list \<Rightarrow> port_state \<Rightarrow> port_state" where
  "unregister_ports [] ps = ps"
| "unregister_ports (spec # specs) ps =
     unregister_ports specs
       (case parse_port_spec spec of
          None \<Rightarrow> ps
        | Some pf \<Rightarrow> snd (send_daemon_cmd (UnregisterPort (host_port pf)) ps))"

text \<open>The ports around a \<open>run\<close>: they are given back when the command waited for the container,
  neither detached nor on a terminal.\<close>

definition run_ports :: "run_opts \<Rightarrow> string list \<Rightarrow> port_state \<Rightarrow> (string + unit) \<times> port_state" where
  "run_ports r specs ps =
     (case register_ports specs ps of
        (Inl m, ps') \<Rightarrow> (Inl m, ps')
      | (Inr _, ps') \<Rightarrow>
          (Inr (), if ro_interactive r \<or> ro_tty r \<or> ro_detach r then ps' else unregister_ports specs ps'))"

text \<open>Registration for \<open>compose\<close> remembers the ports and takes them back on a conflict.\<close>

definition roll_back :: "u16 list \<Rightarrow> port_state \<Rightarrow> port_state" where
  "roll_back hps ps = fold (\<lambda>hp ps. snd (send_daemon_cmd (UnregisterPort hp) ps)) hps ps"

fun register_compose :: "string list \<Rightarrow> u16 list \<Rightarrow> port_state \<Rightarrow> (string + u16 list) \<times> port_state" where
  "register_compose [] registered ps = (Inr registered, ps)"
| "register_compose (spec # specs) registered ps =
     (case parse_port_spec spec of
        None \<Rightarrow> register_compose specs registered ps
      | Some pf \<Rightarrow>
          (case send_daemon_cmd (RegisterPort (host_port pf) (container_port pf)) ps of
             (Inl m, ps') \<Rightarrow> (Inl m, roll_back registered ps')
           | (Inr _, ps') \<Rightarrow> register_compose specs (registered @ [host_port pf]) ps'))"

text \<open>The ports around a \<open>compose\<close> command: state while the guest works, and state afterwards.\<close>

definition compose_ports :: "string \<Rightarrow> string list \<Rightarrow> port_state \<Rightarrow> string + (port_state \<times> port_state)" where
  "compose_ports project specs ps =
     (case register_compose specs [] ps of
        (Inl m, _) \<Rightarrow> Inl m
      | (Inr registered, ps1) \<Rightarrow>
          (let ps2 = (if registered = [] then ps1
                      else snd (send_daemon_cmd (TrackComposeProject project registered) ps1))
           in Inr (ps2, snd (send_daemon_cmd (UnregisterComposePorts project) ps2))))"

section \<open>Compose files\<close>

text \<open>Components of a path, and the path without its last component.\<close>

definition components :: "string \<Rightarrow> string list" where
  "components p = filter (\<lambda>c. c \<noteq> [] \<and> c \<noteq> ''.'') (split_chr CHR ''/'' p)"

definition is_absolute :: "string \<Rightarrow> bool" where
  "is_absolute p = starts_with p ''/''"

definition compose_project_name :: "string \<Rightarrow> string option \<Rightarrow> string" where
  "compose_project_name file project_flag =
     (case project_flag of
        Some p \<Rightarrow> p
      | None \<Rightarrow>
          (let dirs = butlast (components file) in
           if dirs = [] \<or> last dirs = ''..'' then ''default'' else lower (last dirs)))"

text \<open>The path of the file in the machine and its directory, for a file under the home
  directory. Paths are compared by their components; the result is written with single
  separators.\<close>

definition compose_paths :: "string \<Rightarrow> string \<Rightarrow> (string \<times> string) option" where
  "compose_paths home abs_file =
     (if home = [] \<or> \<not> starts_with (components abs_file) (components home) \<or> is_absolute home \<noteq> is_absolute abs_file then None
      else (let rel = drop (length (components home)) (components abs_file);
                vm_file = ''/mnt/share0/'' @ join ''/'' rel;
                working_dir = (if rel = [] then ''/mnt'' else ''/'' @ join ''/'' ([''mnt'', ''share0''] @ butlast rel))
            in Some (vm_file, working_dir)))"

text \<open>The variables a compose file names as \<open>(env "NAME")\<close>.\<close>

function env_names :: "string \<Rightarrow> string list" where
  "env_names s =
     (case s of
        [] \<Rightarrow> []
      | c # r \<Rightarrow>
          (case strip_prefix (''(env '' @ [CHR 0x22]) s of
             None \<Rightarrow> env_names r
           | Some rest \<Rightarrow>
               (case split_once (CHR 0x22) rest of
                  None \<Rightarrow> env_names rest
                | Some (name, rest') \<Rightarrow> (if name = [] then [] else [name]) @ env_names rest')))"
  by pat_completeness auto
termination
  by (relation "measure length") (auto simp: strip_prefix_Some split_once_Some simp del: strip_prefix.simps)

definition collect_compose_env :: "(string \<Rightarrow> string option) \<Rightarrow> string option \<Rightarrow> string \<Rightarrow> string option" where
  "collect_compose_env getenv content =
     (case content of None \<Rightarrow> (\<lambda>_. None) | Some s \<Rightarrow> (\<lambda>n. if n \<in> set (env_names s) then getenv n else None))"

section \<open>Lemmas on the ports\<close>

lemma send_cmd_simps:
  "send_daemon_cmd (UnregisterPort hp) ps =
     (Inr (), if active ps hp \<noteq> None then ps\<lparr>active := (active ps)(hp := None), proxies := (proxies ps)(hp := None)\<rparr> else ps)"
  "send_daemon_cmd (TrackComposeProject pr hps) ps = (Inr (), ps\<lparr>compose_projects := (compose_projects ps)(pr := Some hps)\<rparr>)"
  "active ps hp = None \<Longrightarrow> send_daemon_cmd (RegisterPort hp cp) ps = (Inr (), add_forward hp cp ps)"
  "active ps hp = Some cp \<Longrightarrow> send_daemon_cmd (RegisterPort hp cp) ps = (Inr (), ps)"
  by (simp_all add: send_daemon_cmd_def handle_daemon_cmd_def)

lemma spec_ports_Cons:
  "spec_ports (s # specs) = (case parse_port_spec s of None \<Rightarrow> spec_ports specs | Some pf \<Rightarrow> host_port pf # spec_ports specs)"
  by (simp add: spec_ports_def map_filter_simps split: option.splits)

lemma register_one:
  assumes "send_daemon_cmd (RegisterPort hp cp) ps = (Inr u, ps')"
  shows "active ps' = (active ps)(hp := Some cp)" "p \<noteq> hp \<Longrightarrow> proxies ps' p = proxies ps p"
    "compose_projects ps' = compose_projects ps"
  using assms by (auto simp: send_daemon_cmd_def handle_daemon_cmd_def add_forward_def split: option.splits if_splits)

lemma register_ports_done:
  assumes "register_ports specs ps = (Inr u, ps')"
  shows "(\<forall>p. p \<notin> set (spec_ports specs) \<longrightarrow> active ps' p = active ps p \<and> proxies ps' p = proxies ps p) \<and>
    (\<forall>p\<in>set (spec_ports specs). active ps' p \<noteq> None) \<and> compose_projects ps' = compose_projects ps"
  using assms
proof (induction specs arbitrary: ps)
  case (Cons s specs)
  show ?case
  proof (cases "parse_port_spec s")
    case None
    then show ?thesis using Cons by (simp add: spec_ports_Cons)
  next
    case (Some pf)
    obtain q where q: "send_daemon_cmd (RegisterPort (host_port pf) (container_port pf)) ps = (Inr (), q)"
        "register_ports specs q = (Inr u, ps')"
      using Cons.prems Some by (auto split: prod.splits sum.splits)
    show ?thesis
      using Cons.IH[OF q(2)] register_one[OF q(1)] Some by (auto simp: spec_ports_Cons)
  qed
qed (simp add: spec_ports_def map_filter_simps)

lemma register_ports_free:
  assumes "distinct (spec_ports specs)" and "\<forall>p\<in>set (spec_ports specs). active ps p = None"
  shows "\<exists>ps'. register_ports specs ps = (Inr (), ps') \<and>
    (\<forall>s\<in>set specs. \<forall>pf. parse_port_spec s = Some pf \<longrightarrow> active ps' (host_port pf) = Some (container_port pf))"
  using assms
proof (induction specs arbitrary: ps)
  case (Cons s specs)
  show ?case
  proof (cases "parse_port_spec s")
    case (Some pf)
    let ?q = "add_forward (host_port pf) (container_port pf) ps"
    have send: "send_daemon_cmd (RegisterPort (host_port pf) (container_port pf)) ps = (Inr (), ?q)"
      using Cons.prems Some by (simp add: spec_ports_Cons send_cmd_simps)
    have nin: "host_port pf \<notin> set (spec_ports specs)" and "distinct (spec_ports specs)"
        and "\<forall>p\<in>set (spec_ports specs). active ?q p = None"
      using Cons.prems Some by (auto simp: spec_ports_Cons add_forward_def)
    then obtain ps' where ps': "register_ports specs ?q = (Inr (), ps')"
        "\<forall>s\<in>set specs. \<forall>pf. parse_port_spec s = Some pf \<longrightarrow> active ps' (host_port pf) = Some (container_port pf)"
      using Cons.IH by blast
    moreover have "active ps' (host_port pf) = Some (container_port pf)"
      using register_ports_done[OF ps'(1)] nin by (simp add: add_forward_def)
    ultimately show ?thesis using Some send by auto
  qed (use Cons in \<open>auto simp: spec_ports_Cons\<close>)
qed simp

lemma unregister_ports_fields:
  "active (unregister_ports specs ps) = (\<lambda>p. if p \<in> set (spec_ports specs) then None else active ps p)"
  "proxies (unregister_ports specs ps) =
     (\<lambda>p. if p \<in> set (spec_ports specs) \<and> active ps p \<noteq> None then None else proxies ps p)"
  by (induction specs arbitrary: ps)
    (auto simp: spec_ports_Cons send_cmd_simps spec_ports_def map_filter_simps fun_eq_iff split: option.splits)

lemma roll_back_active:
  "active (roll_back hps ps) = (\<lambda>p. if p \<in> set hps then None else active ps p)"
  unfolding roll_back_def by (induction hps arbitrary: ps) (auto simp: send_cmd_simps fun_eq_iff)

lemma register_compose_append:
  assumes "register_ports s1 ps = (Inr u, ps1)"
  shows "register_compose (s1 @ s2) reg ps = register_compose s2 (reg @ spec_ports s1) ps1"
  using assms
proof (induction s1 arbitrary: ps reg)
  case (Cons s s1)
  then show ?case
    by (cases "parse_port_spec s") (auto simp: spec_ports_Cons split: prod.splits sum.splits)
qed (simp add: spec_ports_def map_filter_simps)

lemma register_ports_append:
  "register_ports s1 ps = (Inr u, ps1) \<Longrightarrow> register_ports (s1 @ s2) ps = register_ports s2 ps1"
  by (induction s1 arbitrary: ps) (auto split: option.splits prod.splits sum.splits)

text \<open>A container that is run in the foreground with free ports has all its forwards active
  while it runs, and gives them back: afterwards the active forwards are those from before and
  none of its listeners is left. Detached or on a terminal, the forwards stay.\<close>

lemma rc_run_gives_ports_back:
  assumes "distinct (spec_ports specs)" and "\<forall>p\<in>set (spec_ports specs). active ps p = None"
  shows "\<exists>ps'. run_ports r specs ps = (Inr (), ps') \<and>
    (if ro_interactive r \<or> ro_tty r \<or> ro_detach r
     then \<forall>s\<in>set specs. \<forall>pf. parse_port_spec s = Some pf \<longrightarrow> active ps' (host_port pf) = Some (container_port pf)
     else active ps' = active ps \<and>
          proxies ps' = (\<lambda>p. if p \<in> set (spec_ports specs) then None else proxies ps p))"
proof -
  obtain q where q: "register_ports specs ps = (Inr (), q)"
      "\<forall>s\<in>set specs. \<forall>pf. parse_port_spec s = Some pf \<longrightarrow> active q (host_port pf) = Some (container_port pf)"
    using register_ports_free[OF assms] by blast
  have "active (unregister_ports specs q) = active ps"
    "proxies (unregister_ports specs q) = (\<lambda>p. if p \<in> set (spec_ports specs) then None else proxies ps p)"
    using register_ports_done[OF q(1)] assms(2) by (auto simp: unregister_ports_fields fun_eq_iff)
  then show ?thesis using q by (simp add: run_ports_def)
qed

definition demo_opts :: run_opts where
  "demo_opts = \<lparr>ro_image = ''alpine'', ro_args = [], ro_name = None, ro_detach = False, ro_env = [], ro_labels = [],
     ro_interactive = False, ro_tty = False, ro_network = [], ro_dns = []\<rparr>"

lemma demo_port: "parse_port_spec ''8080:80'' = Some \<lparr>host_port = 8080, container_port = 80\<rparr>"
    "parse_port_spec ''8080:81'' = Some \<lparr>host_port = 8080, container_port = 81\<rparr>"
  by (simp_all add: parse_port_spec_def splitn2_def parse_word_def parse_uint_def is_digit_def dec_val_def)

lemma demo_spec_ports: "spec_ports [''8080:80''] = [8080]"
  by (simp add: spec_ports_Cons demo_port) (simp add: spec_ports_def map_filter_simps)

lemma rc_run_gives_ports_back_witness:
  "\<exists>ps'. run_ports demo_opts [''8080:80''] port_state_new = (Inr (), ps') \<and>
     active ps' = (\<lambda>_. None)"
  using rc_run_gives_ports_back[of "[''8080:80'']" port_state_new demo_opts]
  by (auto simp: port_state_new_def demo_spec_ports demo_opts_def)

text \<open>When a port conflicts with an existing forward, \<open>run\<close> fails but leaves the ports it
  registered before that one active. \<open>compose\<close> takes back every port it asked for, including
  those that had been active before with the same target.\<close>

lemma rc_port_conflict:
  assumes "register_ports s1 ps = (Inr (), ps1)" and "parse_port_spec s = Some pf"
    and "active ps1 (host_port pf) = Some other" and "other \<noteq> container_port pf"
  shows "(\<exists>m. run_ports r (s1 @ s # s2) ps = (Inl m, ps1) \<and>
      (\<forall>p\<in>set (spec_ports s1). active ps1 p \<noteq> None)) \<and>
    (\<exists>m ps2. register_compose (s1 @ s # s2) [] ps = (Inl m, ps2) \<and>
      active ps2 = (\<lambda>p. if p \<in> set (spec_ports s1) then None else active ps p))"
proof -
  obtain m where m: "send_daemon_cmd (RegisterPort (host_port pf) (container_port pf)) ps1 = (Inl m, ps1)"
    using assms(3,4) by (simp add: send_daemon_cmd_def handle_daemon_cmd_def)
  have "run_ports r (s1 @ s # s2) ps = (Inl m, ps1)"
    using register_ports_append[OF assms(1), of "s # s2"] assms(2) m by (simp add: run_ports_def)
  moreover have "register_compose (s1 @ s # s2) [] ps = (Inl m, roll_back (spec_ports s1) ps1)"
    using register_compose_append[OF assms(1), of "s # s2" "[]"] assms(2) m by simp
  moreover have "active (roll_back (spec_ports s1) ps1) = (\<lambda>p. if p \<in> set (spec_ports s1) then None else active ps p)"
    using register_ports_done[OF assms(1)] by (auto simp: roll_back_active fun_eq_iff)
  ultimately show ?thesis using register_ports_done[OF assms(1)] by blast
qed

lemma rc_port_conflict_witness:
  "(\<exists>m. run_ports demo_opts [''8080:80'', ''8080:81''] port_state_new = (Inl m, add_forward 8080 80 port_state_new)) \<and>
   (\<exists>m ps2. register_compose [''8080:80'', ''8080:81''] [] port_state_new = (Inl m, ps2) \<and> active ps2 = (\<lambda>_. None))"
proof -
  have "register_ports [''8080:80''] port_state_new = (Inr (), add_forward 8080 80 port_state_new)"
    by (simp add: demo_port send_cmd_simps port_state_new_def)
  from rc_port_conflict[OF this demo_port(2), of 80 demo_opts "[]"] show ?thesis
    using refl[of "active port_state_new"]
    by (auto simp: add_forward_def demo_spec_ports simp del: register_compose.simps)
      (auto simp: port_state_new_def simp del: register_compose.simps)
qed

lemma register_compose_fails:
  "register_ports specs ps = (Inl m, ps1) \<Longrightarrow> \<exists>ps2. register_compose specs reg ps = (Inl m, ps2)"
  by (induction specs arbitrary: ps reg) (auto split: option.splits prod.splits sum.splits)

text \<open>The ports of a compose project are inactive again as soon as the command returns, which for
  a project in the background is while it runs.\<close>

lemma compose_ports_dropped:
  assumes "compose_ports project specs ps = Inr (during, after)"
  shows "\<forall>p\<in>set (spec_ports specs). active during p \<noteq> None \<and> active after p = None"
proof -
  obtain reg q where "register_compose specs [] ps = (Inr reg, q)"
    using assms by (auto simp: compose_ports_def split: prod.splits sum.splits)
  moreover obtain x ps1 where x: "register_ports specs ps = (x, ps1)" by (rule prod.exhaust)
  ultimately have "\<not> isl x" using register_compose_fails[of specs ps _ ps1 "[]"] by (cases x) auto
  then obtain u where r: "register_ports specs ps = (Inr u, ps1)" using x by (cases x) auto
  then have "register_compose specs [] ps = (Inr (spec_ports specs), ps1)"
    using register_compose_append[OF r, of "[]" "[]"] by simp
  then have "during = (if spec_ports specs = [] then ps1 else ps1\<lparr>compose_projects := (compose_projects ps1)(project := Some (spec_ports specs))\<rparr>)"
    and "after = snd (send_daemon_cmd (UnregisterComposePorts project) during)"
    using assms by (auto simp: compose_ports_def send_cmd_simps Let_def split: if_splits)
  then show ?thesis
    using register_ports_done[OF r] by (auto simp: send_daemon_cmd_def handle_daemon_cmd_def fold_drop_active)
qed

end
