(* ===== verification/Docker_Parse.thy ===== *)
theory Docker_Parse
  imports Daemon_Args Guest_Protocol
begin

text \<open>
  The text processing of the Docker command line shim \<open>pelagos-docker\<close>: finding its
  configuration (\<open>config.rs\<close>), reading the container table of \<open>pelagos ps\<close>
  (\<open>docker_types.rs\<close>), and in \<open>main.rs\<close> the specifications of mounts, volumes and ports.
\<close>

section \<open>Configuration\<close>

text \<open>\<open>str::trim_matches\<close> of a character.\<close>

definition trim_chr :: "char \<Rightarrow> string \<Rightarrow> string" where
  "trim_chr c s = rev (dropWhile (\<lambda>d. d = c) (rev (dropWhile (\<lambda>d. d = c) s)))"

definition toml_line :: "string \<Rightarrow> string \<Rightarrow> string option" where
  "toml_line key line =
     (case strip_prefix key (trim line) of
        None \<Rightarrow> None
      | Some rest \<Rightarrow>
          (case strip_prefix ''='' (trim rest) of
             None \<Rightarrow> None
           | Some v \<Rightarrow> Some (trim_chr (CHR 0x22) (trim v))))"

definition parse_toml_str :: "string \<Rightarrow> string \<Rightarrow> string option" where
  "parse_toml_str src key = find_map (toml_line key) (str_lines src)"

record config =
  pelagos_bin :: string
  cfg_kernel :: string
  cfg_initrd :: string
  cfg_disk :: string
  cfg_cmdline :: string
  cfg_memory_mib :: u64

text \<open>What the process can ask: environment variables, files, and the directory of its own
  executable.\<close>

record host =
  h_var :: "string \<Rightarrow> string option"
  h_exists :: "string \<Rightarrow> bool"
  h_is_file :: "string \<Rightarrow> bool"
  h_read :: "string \<Rightarrow> string option"
  h_exe_dir :: "string option"

definition config_file_path :: "host \<Rightarrow> string option" where
  "config_file_path h =
     map_option (\<lambda>base. path_join (path_join base ''pelagos'') ''config.toml'')
       (case h_var h ''XDG_CONFIG_HOME'' of
          Some x \<Rightarrow> Some x
        | None \<Rightarrow> map_option (\<lambda>x. path_join x ''.config'') (h_var h ''HOME''))"

text \<open>The directory on the path that has the program.\<close>

definition find_pelagos_dir :: "host \<Rightarrow> string option" where
  "find_pelagos_dir h =
     Option.bind (h_var h ''PATH'') (\<lambda>p. find (\<lambda>dir. h_is_file h (path_join dir ''pelagos'')) (split_chr CHR '':'' p))"

definition find_pelagos_on_path :: "host \<Rightarrow> string option" where
  "find_pelagos_on_path h = map_option (\<lambda>dir. path_join dir ''pelagos'') (find_pelagos_dir h)"

definition default_cmdline :: string where "default_cmdline = ''console=hvc0 random.trust_cpu=on''"

definition memory_of :: "string option \<Rightarrow> u64" where
  "memory_of v = (case Option.bind v parse_word of Some n \<Rightarrow> n | None \<Rightarrow> 4096)"

text \<open>A configuration is taken only when its three artifacts exist.\<close>

definition complete :: "host \<Rightarrow> config \<Rightarrow> config option" where
  "complete h c = (if h_exists h (cfg_kernel c) \<and> h_exists h (cfg_initrd c) \<and> h_exists h (cfg_disk c) then Some c else None)"

definition from_file :: "host \<Rightarrow> config option" where
  "from_file h = do {
     path \<leftarrow> config_file_path h;
     src \<leftarrow> h_read h path;
     bin \<leftarrow> (case parse_toml_str src ''pelagos_bin'' of Some b \<Rightarrow> Some b | None \<Rightarrow> find_pelagos_on_path h);
     k \<leftarrow> parse_toml_str src ''kernel'';
     i \<leftarrow> parse_toml_str src ''initrd'';
     d \<leftarrow> parse_toml_str src ''disk'';
     complete h \<lparr>pelagos_bin = bin, cfg_kernel = k, cfg_initrd = i, cfg_disk = d,
       cfg_cmdline = get_or (parse_toml_str src ''cmdline'') default_cmdline,
       cfg_memory_mib = memory_of (parse_toml_str src ''memory_mib'')\<rparr> }"

definition from_env :: "host \<Rightarrow> config option" where
  "from_env h = do {
     bin \<leftarrow> (case h_var h ''PELAGOS_BIN'' of Some b \<Rightarrow> Some b | None \<Rightarrow> find_pelagos_on_path h);
     k \<leftarrow> h_var h ''PELAGOS_KERNEL'';
     i \<leftarrow> h_var h ''PELAGOS_INITRD'';
     d \<leftarrow> h_var h ''PELAGOS_DISK'';
     complete h \<lparr>pelagos_bin = bin, cfg_kernel = k, cfg_initrd = i, cfg_disk = d,
       cfg_cmdline = get_or (h_var h ''PELAGOS_CMDLINE'') default_cmdline,
       cfg_memory_mib = memory_of (h_var h ''PELAGOS_MEMORY_MIB'')\<rparr> }"

definition artifacts_in :: "host \<Rightarrow> string \<Rightarrow> string \<Rightarrow> config" where
  "artifacts_in h bin dir = \<lparr>pelagos_bin = bin, cfg_kernel = path_join dir ''vmlinuz'',
     cfg_initrd = path_join dir ''initramfs-custom.gz'', cfg_disk = path_join dir ''root.img'',
     cfg_cmdline = default_cmdline, cfg_memory_mib = memory_of (h_var h ''PELAGOS_MEMORY_MIB'')\<rparr>"

text \<open>The parent of the program's path is the directory it was found in.\<close>

definition from_path_sibling :: "host \<Rightarrow> config option" where
  "from_path_sibling h = do {
     dir \<leftarrow> find_pelagos_dir h;
     complete h (artifacts_in h (path_join dir ''pelagos'') dir) }"

definition from_dev_out :: "host \<Rightarrow> config option" where
  "from_dev_out h = do {
     bin_dir \<leftarrow> h_exe_dir h;
     bin \<leftarrow> (let sibling = path_join bin_dir ''pelagos'' in
             if h_is_file h sibling then Some sibling else find_pelagos_on_path h);
     complete h (artifacts_in h bin ''out'') }"

definition load_config :: "host \<Rightarrow> string + config" where
  "load_config h =
     (case find_map (\<lambda>src. src h) [from_file, from_env, from_path_sibling, from_dev_out] of
        Some c \<Rightarrow> Inr c
      | None \<Rightarrow> Inl ''Cannot find VM image artifacts.'')"

definition pelagos_prefix_args :: "config \<Rightarrow> string list" where
  "pelagos_prefix_args c =
     [''--kernel'', cfg_kernel c, ''--initrd'', cfg_initrd c, ''--disk'', cfg_disk c,
      ''--cmdline'', cfg_cmdline c, ''--memory'', show_word (cfg_memory_mib c)]"

section \<open>The container table\<close>

record ps_entry =
  pe_name :: string
  pe_status :: string
  pe_image :: string

definition skipped_line :: "string \<Rightarrow> bool" where
  "skipped_line line =
     (line = [] \<or> starts_with line ''['' \<or> starts_with (upper line) ''NAME'' \<or> starts_with (lower line) ''no containers'')"

definition ps_line :: "string \<Rightarrow> ps_entry option" where
  "ps_line line =
     (if skipped_line line then None
      else (case split_ws line of
              c0 # c1 # _ # c3 # _ \<Rightarrow> Some \<lparr>pe_name = c0, pe_status = c1, pe_image = c3\<rparr>
            | _ \<Rightarrow> None))"

definition parse_pelagos_ps :: "string \<Rightarrow> ps_entry list" where
  "parse_pelagos_ps output_text = List.map_filter ps_line (str_lines output_text)"

section \<open>Mounts, volumes and ports\<close>

text \<open>\<open>--mount\<close>: type, source and target, the last one of each.\<close>

fun mount_parts :: "string list \<Rightarrow> string option \<times> string option \<times> string option \<Rightarrow> string option \<times> string option \<times> string option" where
  "mount_parts [] acc = acc"
| "mount_parts (part # parts) (ty, src, tgt) =
     mount_parts parts
       (case strip_prefix ''type='' part of Some v \<Rightarrow> (Some v, src, tgt) | None \<Rightarrow>
       (case strip_prefix ''source='' part of Some v \<Rightarrow> (ty, Some v, tgt) | None \<Rightarrow>
       (case strip_prefix ''src='' part of Some v \<Rightarrow> (ty, Some v, tgt) | None \<Rightarrow>
       (case strip_prefix ''target='' part of Some v \<Rightarrow> (ty, src, Some v) | None \<Rightarrow>
       (case strip_prefix ''dst='' part of Some v \<Rightarrow> (ty, src, Some v) | None \<Rightarrow>
       (case strip_prefix ''destination='' part of Some v \<Rightarrow> (ty, src, Some v) | None \<Rightarrow> (ty, src, tgt)))))))"

definition parse_mount_as_volume :: "string \<Rightarrow> string option" where
  "parse_mount_as_volume spec =
     (case mount_parts (split_chr CHR '','' spec) (None, None, None) of (ty, src, tgt) \<Rightarrow>
        if ty = Some ''volume'' then None
        else (case (src, tgt) of (Some s, Some t) \<Rightarrow> Some (s @ '':'' @ t) | _ \<Rightarrow> None))"

text \<open>The shares recorded for the running machine: their tags and host paths.\<close>

type_synonym share_map = "(string \<times> string) list"

definition share_map_entry :: "json \<Rightarrow> (string \<times> string) option" where
  "share_map_entry e =
     (case e of
        JObj kvs \<Rightarrow>
          (case Option.bind (map_of (rev kvs) ''tag'') de_str of
             None \<Rightarrow> None
           | Some t \<Rightarrow> map_option (Pair t) (Option.bind (map_of (rev kvs) ''host_path'') de_str))
      | _ \<Rightarrow> None)"

definition read_vm_share_map :: "(string \<Rightarrow> json option) \<Rightarrow> env \<Rightarrow> fs \<Rightarrow> share_map" where
  "read_vm_share_map from_json e f =
     (case home_dir e of
        None \<Rightarrow> []
      | Some h \<Rightarrow>
          (case read_to_string f (path_join h ''.local/share/pelagos/vm.mounts'') of
             Inl _ \<Rightarrow> []
           | Inr text \<Rightarrow> (case from_json text of Some (JArr es) \<Rightarrow> List.map_filter share_map_entry es | _ \<Rightarrow> [])))"

text \<open>A path of the machine back to a path of the host, by the first tag that fits.\<close>

definition trim_end_slashes :: "string \<Rightarrow> string" where
  "trim_end_slashes s = rev (dropWhile (\<lambda>c. c = CHR ''/'') (rev s))"

fun translate_path :: "string \<Rightarrow> share_map \<Rightarrow> string option" where
  "translate_path vm_src [] = None"
| "translate_path vm_src ((tag, host_path) # m) =
     (case strip_prefix (''/mnt/'' @ tag) vm_src of
        Some suffix \<Rightarrow> Some (if suffix = [] then host_path else trim_end_slashes host_path @ suffix)
      | None \<Rightarrow> translate_path vm_src m)"

definition translate_volume_spec :: "string \<Rightarrow> share_map \<Rightarrow> string" where
  "translate_volume_spec spec m =
     (case split_once CHR '':'' spec of
        None \<Rightarrow> spec
      | Some (vm_src, rest) \<Rightarrow>
          (case translate_path vm_src m of Some host_src \<Rightarrow> host_src @ '':'' @ rest | None \<Rightarrow> spec))"

text \<open>\<open>rsplit_once\<close>, and the parts \<open>host_port\<close>, \<open>container_port/proto\<close> of a port specification.\<close>

definition rsplit_once :: "char \<Rightarrow> string \<Rightarrow> (string \<times> string) option" where
  "rsplit_once d s = map_option (\<lambda>(a, b). (rev b, rev a)) (split_once d (rev s))"

definition port_parts :: "string \<Rightarrow> (string \<times> string) option" where
  "port_parts spec =
     (let (spec_no_proto, proto) = (case rsplit_once CHR ''/'' spec of Some sp \<Rightarrow> sp | None \<Rightarrow> (spec, ''tcp''))
      in case splitn3 CHR '':'' spec_no_proto of
           [_, hp, cp] \<Rightarrow> Some (hp, cp @ ''/'' @ proto)
         | [hp, cp] \<Rightarrow> Some (hp, cp @ ''/'' @ proto)
         | _ \<Rightarrow> None)"

record port_binding =
  host_ip :: string
  pb_host_port :: string

definition push_binding :: "string \<times> string \<Rightarrow> (string \<Rightarrow> port_binding list option) \<Rightarrow> string \<Rightarrow> port_binding list option" where
  "push_binding b m =
     (case b of (hp, key) \<Rightarrow>
        m(key := Some (get_or (m key) [] @ [\<lparr>host_ip = ''0.0.0.0'', pb_host_port = hp\<rparr>])))"

definition build_ports_map :: "string list \<Rightarrow> string \<Rightarrow> port_binding list option" where
  "build_ports_map port_specs = fold push_binding (List.map_filter port_parts port_specs) (\<lambda>_. None)"

definition port_lines :: "string list \<Rightarrow> string list" where
  "port_lines port_specs = map (\<lambda>(hp, key). key @ '' -> 0.0.0.0:'' @ hp) (List.map_filter port_parts port_specs)"


section \<open>What the configuration promises\<close>

lemma complete_Some: "complete h c0 = Some c \<Longrightarrow> c = c0 \<and> h_exists h (cfg_kernel c) \<and> h_exists h (cfg_initrd c) \<and> h_exists h (cfg_disk c)"
  by (auto simp: complete_def split: if_splits)

lemma config_artifacts_exist:
  "load_config h = Inr c \<Longrightarrow> h_exists h (cfg_kernel c) \<and> h_exists h (cfg_initrd c) \<and> h_exists h (cfg_disk c)"
  by (auto simp: load_config_def from_file_def from_env_def from_path_sibling_def from_dev_out_def bind_eq_Some_conv
      split: option.splits dest!: complete_Some)

section \<open>Reading the container table\<close>

text \<open>A row of the table: four words with gaps between them, and the other columns.\<close>

record ps_row =
  row_name :: string
  row_status :: string
  row_pid :: string
  row_image :: string
  row_gaps :: "string \<times> string \<times> string"
  row_rest :: string

definition row_text :: "ps_row \<Rightarrow> string" where
  "row_text r = (case row_gaps r of (g1, g2, g3) \<Rightarrow>
     row_name r @ g1 @ row_status r @ g2 @ row_pid r @ g3 @ row_image r @ row_rest r)"

definition gap :: "string \<Rightarrow> bool" where
  "gap g = (g \<noteq> [] \<and> list_all (\<lambda>c. c = CHR '' '') g)"

definition valid_row :: "ps_row \<Rightarrow> bool" where
  "valid_row r =
     (is_word (row_name r) \<and> is_word (row_status r) \<and> is_word (row_pid r) \<and> is_word (row_image r) \<and>
      (case row_gaps r of (g1, g2, g3) \<Rightarrow> gap g1 \<and> gap g2 \<and> gap g3) \<and>
      (row_rest r = [] \<or> hd (row_rest r) = CHR '' '') \<and> nl \<notin> set (row_rest r) \<and> cr \<notin> set (row_rest r) \<and>
      lower (row_name r) \<noteq> ''no'')"

definition row_entry :: "ps_row \<Rightarrow> ps_entry" where
  "row_entry r = \<lparr>pe_name = row_name r, pe_status = row_status r, pe_image = row_image r\<rparr>"

text \<open>A name under which a container is not seen.\<close>

definition hidden_name :: "string \<Rightarrow> bool" where
  "hidden_name n = (starts_with n ''['' \<or> starts_with (upper n) ''NAME'')"

lemma ws_space [simp]: "is_ws CHR '' ''" by (simp add: is_ws_def)

lemma split_ws_gap: "list_all (\<lambda>c. c = CHR '' '') g \<Longrightarrow> split_ws (g @ r) = split_ws r"
  by (induction g) (simp_all add: split_ws_simps)

lemma split_ws_word_gap: "is_word w \<Longrightarrow> gap g \<Longrightarrow> split_ws (w @ g @ r) = w # split_ws r"
  by (cases g) (simp_all add: gap_def split_ws_simps split_ws_gap)

lemma split_ws_word_rest:
  "is_word w \<Longrightarrow> r = [] \<or> hd r = CHR '' '' \<Longrightarrow> \<exists>ws. split_ws (w @ r) = w # ws"
  by (cases r) (auto simp: split_ws_simps)

lemma split_row:
  assumes "valid_row r"
  shows "\<exists>ws. split_ws (row_text r) = row_name r # row_status r # row_pid r # row_image r # ws"
proof -
  obtain g1 g2 g3 where "row_gaps r = (g1, g2, g3)" by (cases "row_gaps r")
  then show ?thesis
    using assms split_ws_word_rest[of "row_image r" "row_rest r"]
    by (auto simp: valid_row_def row_text_def split_ws_word_gap)
qed

lemma starts_with_before:
  assumes "c \<notin> set p" and "a \<noteq> [] \<or> p \<noteq> []"
  shows "starts_with (a @ c # r) p \<longleftrightarrow> starts_with a p"
  using assms(1)
proof (induction p arbitrary: a)
  case (Cons x p)
  then show ?case by (cases a) (auto simp: starts_with_def)
qed (simp add: starts_with_def)

lemma upper_lower_append: "upper (a @ b) = upper a @ upper b" "lower (a @ b) = lower a @ lower b"
  "upper (CHR '' '' # b) = CHR '' '' # upper b" "lower (CHR '' '' # b) = CHR '' '' # lower b"
  by (simp_all add: upper_def lower_def)

lemma lower_ws:
  assumes "list_all (\<lambda>c. c \<noteq> CHR '' '') w"
  shows "list_all (\<lambda>c. c \<noteq> CHR '' '') (lower w)"
proof -
  have up: "char_of (k + 32) \<noteq> CHR '' ''" if "65 \<le> k" "k \<le> (90::nat)" for k
  proof
    assume "char_of (k + 32) = CHR '' ''"
    then have "of_char (char_of (k + 32) :: char) = (of_char CHR '' '' :: nat)" by (rule arg_cong)
    then show False using that by (simp only: of_char_of) simp
  qed
  have "(let n = of_char c :: nat in if 65 \<le> n \<and> n \<le> 90 then char_of (n + 32) else c) \<noteq> CHR '' ''"
    if "c \<noteq> CHR '' ''" for c
    using up[of "of_char c"] that by (simp add: Let_def)
  then show ?thesis using assms unfolding lower_def list_all_iff by auto
qed

lemma not_no_containers:
  assumes "is_word n" and "lower n \<noteq> ''no''"
  shows "\<not> starts_with (lower (n @ CHR '' '' # r)) ''no containers''"
proof
  assume "starts_with (lower (n @ CHR '' '' # r)) ''no containers''"
  then obtain t where t: "lower n @ CHR '' '' # lower r = ''no containers'' @ t"
    by (auto simp: starts_with_def strip_prefix_Some upper_lower_append simp del: strip_prefix.simps)
  have "list_all (\<lambda>c. c \<noteq> CHR '' '') n" using assms(1) by (auto simp: is_word_def list_all_iff is_ws_def)
  then have "takeWhile (\<lambda>c. c \<noteq> CHR '' '') (lower n @ CHR '' '' # lower r) = lower n"
    using lower_ws[of n] by (simp add: list_all_iff takeWhile_append2)
  then show False using assms(2) t by simp
qed

lemma ps_row_line:
  assumes "valid_row r"
  shows "ps_line (row_text r) = (if hidden_name (row_name r) then None else Some (row_entry r))"
proof -
  obtain g1 g2 g3 where g: "row_gaps r = (g1, g2, g3)" by (cases "row_gaps r")
  obtain t where t: "row_text r = row_name r @ CHR '' '' # t"
    using assms g by (cases g1) (auto simp: valid_row_def row_text_def gap_def)
  have n: "is_word (row_name r)" "lower (row_name r) \<noteq> ''no''" using assms by (auto simp: valid_row_def)
  have "skipped_line (row_text r) = hidden_name (row_name r)"
    using not_no_containers[OF n, of t] n(1)
    by (simp add: t skipped_line_def hidden_name_def upper_lower_append starts_with_before is_word_def)
  then show ?thesis using split_row[OF assms] by (auto simp: ps_line_def row_entry_def)
qed

text \<open>The shim reads from the table of \<open>pelagos ps\<close> exactly the name, status and image of
  every container, for any width of the columns, except the containers whose name begins with
  \<open>name\<close> in any case or with a bracket, which are taken for a header or a log line.\<close>

lemma dk_ps_table:
  assumes "list_all valid_row rows"
  shows "parse_pelagos_ps (concat (map (\<lambda>r. row_text r @ [nl]) rows)) =
    map row_entry (filter (\<lambda>r. \<not> hidden_name (row_name r)) rows)"
  using assms
proof (induction rows)
  case (Cons r rows)
  have line: "nl \<notin> set (row_text r)" "cr \<notin> set (row_text r)"
    using Cons.prems by (auto simp: valid_row_def row_text_def is_word_def gap_def list_all_iff is_ws_def split: prod.splits)
  have "str_lines (row_text r @ nl # s) = row_text r # str_lines s" for s
    using str_lines_app[of "row_text r" s] str_lines_one[of "row_text r"] line by (metis append_Cons append_Nil last_in_set)
  then show ?case using Cons ps_row_line[of r] by (simp add: parse_pelagos_ps_def map_filter_simps)
qed (simp add: parse_pelagos_ps_def str_lines_def map_filter_simps)

definition demo_row :: "string \<Rightarrow> ps_row" where
  "demo_row n = \<lparr>row_name = n, row_status = ''running'', row_pid = ''12'', row_image = ''alpine'',
     row_gaps = ('' '', ''  '', '' ''), row_rest = '' sh''\<rparr>"

lemma dk_ps_table_witness:
  "parse_pelagos_ps (concat (map (\<lambda>r. row_text r @ [nl]) [demo_row ''web'', demo_row ''nameserver''])) =
     [\<lparr>pe_name = ''web'', pe_status = ''running'', pe_image = ''alpine''\<rparr>]"
proof -
  have "list_all valid_row [demo_row ''web'', demo_row ''nameserver'']"
    by (simp add: valid_row_def demo_row_def is_word_def gap_def is_ws_def lower_def)
  moreover have "hidden_name ''nameserver''" "\<not> hidden_name ''web''" by code_simp+
  moreover have "row_name (demo_row n) = n" "row_entry (demo_row n) = \<lparr>pe_name = n, pe_status = ''running'', pe_image = ''alpine''\<rparr>" for n
    by (simp_all add: demo_row_def row_entry_def)
  ultimately show ?thesis using dk_ps_table[of "[demo_row ''web'', demo_row ''nameserver'']"] by simp
qed

section \<open>Ports\<close>

lemma fold_push_binding:
  "fold push_binding bs m key =
     (let hs = map (\<lambda>b. \<lparr>host_ip = ''0.0.0.0'', pb_host_port = fst b\<rparr>) (filter (\<lambda>b. snd b = key) bs) in
      if hs = [] then m key else Some (get_or (m key) [] @ hs))"
  by (induction bs arbitrary: m) (auto simp: push_binding_def Let_def get_or_def split: option.splits)

text \<open>\<open>docker inspect\<close> and \<open>docker port\<close> agree: a container port has exactly the host ports
  that the printed lines give for it, in their order.\<close>

theorem dk_ports_agree:
  "build_ports_map specs key =
     (let hs = [hp. (hp, k) \<leftarrow> List.map_filter port_parts specs, k = key] in
      if hs = [] then None else Some (map (\<lambda>hp. \<lparr>host_ip = ''0.0.0.0'', pb_host_port = hp\<rparr>) hs)) \<and>
   port_lines specs = [k @ '' -> 0.0.0.0:'' @ hp. (hp, k) \<leftarrow> List.map_filter port_parts specs]"
proof -
  have "[hp. (hp, k) \<leftarrow> bs, k = key] = map fst (filter (\<lambda>b. snd b = key) bs)" for bs :: "(string \<times> string) list"
    by (induction bs) auto
  moreover have "[k @ '' -> 0.0.0.0:'' @ hp. (hp, k) \<leftarrow> bs] = map (\<lambda>(hp, k). k @ '' -> 0.0.0.0:'' @ hp) bs" for bs
    by (induction bs) auto
  ultimately show ?thesis
    by (simp add: build_ports_map_def fold_push_binding port_lines_def Let_def get_or_def)
qed

section \<open>Mounts\<close>

text \<open>Options such as \<open>readonly\<close> do not survive the translation of a \<open>--mount\<close>.\<close>

lemma mount_options_lost:
  assumes "CHR '','' \<notin> set s" and "CHR '','' \<notin> set t" and "CHR '','' \<notin> set opt"
    and "list_all (\<lambda>k. \<not> starts_with opt k) [''type='', ''source='', ''src='', ''target='', ''dst='', ''destination='']"
  shows "parse_mount_as_volume (''type=bind,source='' @ s @ '',target='' @ t @ CHR '','' # opt) = Some (s @ '':'' @ t)"
proof -
  have "''type=bind,source='' @ s @ '',target='' @ t @ CHR '','' # opt =
      ''type=bind'' @ CHR '','' # (''source='' @ s) @ CHR '','' # (''target='' @ t) @ CHR '','' # opt" by simp
  then have parts: "split_chr CHR '','' (''type=bind,source='' @ s @ '',target='' @ t @ CHR '','' # opt) =
      [''type=bind'', ''source='' @ s, ''target='' @ t, opt]"
    using assms(1-3) by (simp only: split_chr_append split_chr_single) (simp add: split_chr_append split_chr_single)
  show ?thesis
    unfolding parse_mount_as_volume_def parts using assms(4) by (simp add: starts_with_def)
qed

end
