(* ===== verification/Json_Text.thy ===== *)
theory Json_Text
  imports Guest_Runtime
begin

text \<open>
  The text of JSON values is the business of the library \<open>serde_json\<close>, so printer and parser
  are parameters wherever files and lines hold JSON. What the code relies on is that parsing
  the text of a value gives this value back (\<open>json_lib\<close>, and \<open>json_line\<close> for texts on lines). The format below, with lengths in
  front of strings, arrays and objects, is one pair of functions with this property; the
  examples of the development use it.
\<close>

definition json_lib :: "(json \<Rightarrow> string) \<Rightarrow> (string \<Rightarrow> json option) \<Rightarrow> bool" where
  "json_lib to_json from_json = (\<forall>j. from_json (to_json j) = Some j)"

lemma json_libD [simp]: "json_lib to_json from_json \<Longrightarrow> from_json (to_json j) = Some j"
  by (simp add: json_lib_def)

section \<open>A format with lengths\<close>

definition put_len :: "nat \<Rightarrow> string" where
  "put_len n = show_nat n @ '':''"

definition put_str :: "string \<Rightarrow> string" where
  "put_str s = put_len (length s) @ s"

fun sized :: "json \<Rightarrow> string" where
  "sized JNull = ''z''"
| "sized (JBool b) = (if b then ''t'' else ''f'')"
| "sized (JNum i) = (if 0 \<le> i then ''p'' @ put_len (nat i) else ''m'' @ put_len (nat (- i)))"
| "sized (JStr s) = ''s'' @ put_str s"
| "sized (JArr xs) = ''a'' @ put_len (length xs) @ concat (map sized xs)"
| "sized (JObj kvs) = ''o'' @ put_len (length kvs) @ concat (map (\<lambda>(k, v). put_str k @ sized v) kvs)"

text \<open>The text ends with a full stop.\<close>

definition sized_text :: "json \<Rightarrow> string" where
  "sized_text j = sized j @ ''.''"

definition get_len :: "string \<Rightarrow> (nat \<times> string) option" where
  "get_len s = (case split_once CHR '':'' s of Some (d, r) \<Rightarrow> Some (dec_val d, r) | None \<Rightarrow> None)"

definition get_str :: "string \<Rightarrow> (string \<times> string) option" where
  "get_str s = map_option (\<lambda>(n, r). (take n r, drop n r)) (get_len s)"

primrec many :: "(string \<Rightarrow> ('a \<times> string) option) \<Rightarrow> nat \<Rightarrow> string \<Rightarrow> ('a list \<times> string) option" where
  "many p 0 s = Some ([], s)"
| "many p (Suc n) s =
     (case p s of None \<Rightarrow> None | Some (x, r) \<Rightarrow> map_option (apfst (Cons x)) (many p n r))"

definition member :: "(string \<Rightarrow> (json \<times> string) option) \<Rightarrow> string \<Rightarrow> ((string \<times> json) \<times> string) option" where
  "member p s =
     (case get_str s of None \<Rightarrow> None | Some (k, r) \<Rightarrow> map_option (apfst (Pair k)) (p r))"

fun unsized :: "nat \<Rightarrow> string \<Rightarrow> (json \<times> string) option" where
  "unsized (Suc d) (c # s) =
     (if c = CHR ''z'' then Some (JNull, s)
      else if c = CHR ''t'' then Some (JBool True, s)
      else if c = CHR ''f'' then Some (JBool False, s)
      else if c = CHR ''p'' then map_option (apfst (\<lambda>n. JNum (int n))) (get_len s)
      else if c = CHR ''m'' then map_option (apfst (\<lambda>n. JNum (- int n))) (get_len s)
      else if c = CHR ''s'' then map_option (apfst JStr) (get_str s)
      else if c = CHR ''a'' then
        Option.bind (get_len s) (\<lambda>(n, r). map_option (apfst JArr) (many (unsized d) n r))
      else if c = CHR ''o'' then
        Option.bind (get_len s) (\<lambda>(n, r). map_option (apfst JObj) (many (member (unsized d)) n r))
      else None)"
| "unsized _ _ = None"

definition unsized_text :: "string \<Rightarrow> json option" where
  "unsized_text s = map_option fst (unsized (length s) s)"

lemma get_len_put [simp]: "get_len (put_len n @ r) = Some (n, r)"
  using split_once_append[of "CHR '':''" "show_nat n" r]
  by (simp add: get_len_def put_len_def show_nat_no codec_simps)

lemma get_str_put [simp]: "get_str (put_str s @ r) = Some (s, r)"
  by (simp add: get_str_def put_str_def)

lemma many_encoded:
  assumes "\<And>x r. x \<in> set xs \<Longrightarrow> p (enc x @ r) = Some (x, r)"
  shows "many p (length xs) (concat (map enc xs) @ r) = Some (xs, r)"
  using assms by (induction xs) auto

lemma length_concat_member: "x \<in> set xs \<Longrightarrow> length (f x) \<le> length (concat (map f xs))"
  by (induction xs) auto

lemma unsized_sized: "length (sized j) \<le> d \<Longrightarrow> unsized d (sized j @ r) = Some (j, r)"
proof (induction j arbitrary: d r)
  case (JArr xs)
  then obtain d' where d: "d = Suc d'" by (cases d) auto
  have "many (unsized d') (length xs) (concat (map sized xs) @ r) = Some (xs, r)"
  proof (rule many_encoded)
    fix x r assume x: "x \<in> set xs"
    with JArr.prems d length_concat_member[OF x, of sized] show "unsized d' (sized x @ r) = Some (x, r)"
      by (intro JArr.IH) auto
  qed
  then show ?case by (simp add: d)
next
  case (JObj kvs)
  then obtain d' where d: "d = Suc d'" by (cases d) auto
  let ?enc = "\<lambda>(k, v). put_str k @ sized v"
  have "many (member (unsized d')) (length kvs) (concat (map ?enc kvs) @ r) = Some (kvs, r)"
  proof (rule many_encoded)
    fix kv r assume kv: "kv \<in> set kvs"
    obtain k v where v: "kv = (k, v)" by (cases kv)
    have "unsized d' (sized v @ r) = Some (v, r)"
      using JObj.prems d length_concat_member[OF kv, of ?enc] kv v
      by (intro JObj.IH[of kv v]) auto
    then show "member (unsized d') (?enc kv @ r) = Some (kv, r)" by (simp add: v member_def)
  qed
  then show ?case by (simp add: d)
next
  case (JNum i)
  then obtain d' where "d = Suc d'" by (cases d) (auto split: if_splits)
  then show ?case by (cases "0 \<le> i") simp_all
next
  case (JBool b)
  then obtain d' where "d = Suc d'" by (cases d) (auto split: if_splits)
  then show ?case by (cases b) simp_all
next
  case JNull
  then obtain d' where "d = Suc d'" by (cases d) auto
  then show ?case by simp
next
  case (JStr s)
  then obtain d' where "d = Suc d'" by (cases d) auto
  then show ?case by simp
qed

lemma json_lib_sized: "json_lib sized_text unsized_text"
  unfolding json_lib_def unsized_text_def sized_text_def
  by (intro allI) (subst unsized_sized, simp_all)

lemma sized_text_end: "sized_text j \<noteq> []" "last (sized_text j) = CHR ''.''"
  by (simp_all add: sized_text_def)

lemma json_line_sized: "json_line sized_text unsized_text j"
  using json_libD[OF json_lib_sized] sized_text_end[of j] by (simp add: json_line_def is_ws_def)

section \<open>Texts of one line\<close>

text \<open>Two letters for each character.\<close>

definition letters :: "string \<Rightarrow> string" where
  "letters s = concat (map (\<lambda>c. let n = of_char c :: nat in [char_of (97 + n div 16), char_of (97 + n mod 16)]) s)"

fun unletters :: "string \<Rightarrow> string" where
  "unletters (a # b # s) = char_of ((of_char a - 97) * 16 + (of_char b - 97) :: nat) # unletters s"
| "unletters _ = []"

lemma unletters_letters: "unletters (letters s) = s"
proof (induction s)
  case (Cons c s)
  have n: "(of_char c :: nat) < 256" by (simp add: nat_of_char_less_256)
  have "(of_char c :: nat) div 16 * 16 + of_char c mod 16 = of_char c" by simp
  moreover have "97 + (of_char c :: nat) div 16 < 256" "97 + (of_char c :: nat) mod 16 < 256" using n by linarith+
  ultimately show ?case using Cons by (simp add: letters_def Let_def)
qed (simp add: letters_def)

lemma letters_lower: "c \<in> set (letters s) \<Longrightarrow> 97 \<le> (of_char c :: nat) \<and> (of_char c :: nat) < 113"
proof -
  assume "c \<in> set (letters s)"
  then obtain x :: char where c: "c = char_of (97 + (of_char x :: nat) div 16) \<or> c = char_of (97 + (of_char x :: nat) mod 16)"
    by (auto simp: letters_def Let_def)
  have "(of_char x :: nat) < 256" by (simp add: nat_of_char_less_256)
  then have "(of_char x :: nat) div 16 < 16" "(of_char x :: nat) mod 16 < 16" by linarith+
  then show ?thesis using c by auto
qed

end
