(* ===== verification/Docker_Cache.thy ===== *)
theory Docker_Cache
  imports Docker_Parse Json_Text "HOL-Library.AList"
begin

text \<open>
  The cache of started containers of the Docker shim (\<open>pelagos-docker/src/main.rs\<close>): its
  entries with the JSON that \<open>serde\<close> derives for them, the file they are kept in, and the
  three operations on it. The file is an instance of a key store (\<open>key_store\<close>): what any
  sequence of insertions and removals leaves in it is proved from the laws of the store.
\<close>

section \<open>Entries\<close>

record cached_container =
  cc_image :: string
  cc_labels :: "(string \<times> string) list"
  cc_vol_specs :: "string list"
  cc_bind_specs :: "string list"
  cc_started_at :: string
  cc_port_specs :: "string list"
  cc_proxy_pid :: "u32 option"

text \<open>A hash map is the list of its entries in iteration order, with every key once.\<close>

type_synonym cache = "(string \<times> cached_container) list"

definition insert_all :: "('k \<times> 'v) list \<Rightarrow> ('k \<times> 'v) list" where
  "insert_all kvs = fold (\<lambda>(k, v). AList.update k v) kvs []"

definition key_values :: "string list \<Rightarrow> (string \<times> string) list" where
  "key_values kvs = insert_all (List.map_filter (split_once CHR ''='') kvs)"

definition ser_cached :: "cached_container \<Rightarrow> json" where
  "ser_cached c =
     JObj ([(''image'', JStr (cc_image c)), (''labels'', env_json (cc_labels c)), (''vol_specs'', strs (cc_vol_specs c)),
            (''bind_specs'', strs (cc_bind_specs c)), (''started_at'', JStr (cc_started_at c))]
           @ list_field ''port_specs'' (map JStr (cc_port_specs c))
           @ (case cc_proxy_pid c of None \<Rightarrow> [] | Some pid \<Rightarrow> [(''proxy_pid'', JNum (uint pid))]))"

fun de_u32 :: "json \<Rightarrow> u32 option" where
  "de_u32 (JNum n) = (if 0 \<le> n \<and> n < 2 ^ 32 then Some (word_of_int n) else None)"
| "de_u32 _ = None"

fun de_map :: "(json \<Rightarrow> 'a option) \<Rightarrow> json \<Rightarrow> (string \<times> 'a) list option" where
  "de_map dec (JObj kvs) = map_option insert_all (all_some (map (\<lambda>(k, v). map_option (Pair k) (dec v)) kvs))"
| "de_map dec _ = None"

fun de_cached :: "json \<Rightarrow> cached_container option" where
  "de_cached (JObj obj) = do {
     img \<leftarrow> required ''image'' de_str obj;
     labels \<leftarrow> required ''labels'' (de_map de_str) obj;
     vols \<leftarrow> required ''vol_specs'' (de_list de_str) obj;
     binds \<leftarrow> required ''bind_specs'' (de_list de_str) obj;
     started \<leftarrow> required ''started_at'' de_str obj;
     ports \<leftarrow> defaulted ''port_specs'' (de_list de_str) [] obj;
     pid \<leftarrow> defaulted ''proxy_pid'' (de_opt de_u32) None obj;
     Some \<lparr>cc_image = img, cc_labels = labels, cc_vol_specs = vols, cc_bind_specs = binds, cc_started_at = started,
           cc_port_specs = ports, cc_proxy_pid = pid\<rparr> }"
| "de_cached _ = None"

definition ser_cache :: "cache \<Rightarrow> json" where
  "ser_cache m = JObj (map (\<lambda>(k, c). (k, ser_cached c)) m)"

section \<open>The file\<close>

text \<open>The JSON library: the text of a value and the parser.\<close>

record json_text =
  to_text :: "json \<Rightarrow> string"
  of_text :: "string \<Rightarrow> json option"

definition shim_containers_path :: "env \<Rightarrow> string option" where
  "shim_containers_path e =
     (case xdg_data_home e of
        Some xdg \<Rightarrow> Some (path_join (path_join xdg ''pelagos'') ''shim-containers.json'')
      | None \<Rightarrow>
          (case home_dir e of
             Some h \<Rightarrow> Some (path_join (path_join h ''.local/share/pelagos'') ''shim-containers.json'')
           | None \<Rightarrow> None))"

definition load_shim_containers :: "json_text \<Rightarrow> env \<Rightarrow> fs \<Rightarrow> cache" where
  "load_shim_containers js e f =
     (case shim_containers_path e of
        None \<Rightarrow> []
      | Some p \<Rightarrow>
          (case read_to_string f p of
             Inl _ \<Rightarrow> []
           | Inr s \<Rightarrow> get_or (Option.bind (of_text js s) (de_map de_cached)) []))"

definition save_shim_containers :: "json_text \<Rightarrow> env \<Rightarrow> cache \<Rightarrow> fs \<Rightarrow> fs" where
  "save_shim_containers js e m f =
     (case shim_containers_path e of
        None \<Rightarrow> f
      | Some p \<Rightarrow> snd (write_file p (to_text js (ser_cache m)) f))"

definition cache_container :: "json_text \<Rightarrow> env \<Rightarrow> string \<Rightarrow> cached_container \<Rightarrow> fs \<Rightarrow> fs" where
  "cache_container js e name entry f =
     save_shim_containers js e (AList.update name entry (load_shim_containers js e f)) f"

definition uncache_container :: "json_text \<Rightarrow> env \<Rightarrow> string \<Rightarrow> fs \<Rightarrow> fs" where
  "uncache_container js e name f =
     (let m = load_shim_containers js e f in
      if map_of m name \<noteq> None then save_shim_containers js e (AList.delete name m) f else f)"

section \<open>What is written is read back\<close>

definition wf_entry :: "cached_container \<Rightarrow> bool" where
  "wf_entry c = distinct (map fst (cc_labels c))"

definition wf_cache :: "cache \<Rightarrow> bool" where
  "wf_cache m = (distinct (map fst m) \<and> list_all (\<lambda>(_, c). wf_entry c) m)"

lemma insert_all_distinct [simp]: "distinct (map fst (insert_all kvs))"
proof -
  have "distinct (map fst m) \<Longrightarrow> distinct (map fst (fold (\<lambda>(k, v). AList.update k v) kvs m))" for m
    by (induction kvs arbitrary: m) (auto simp: distinct_update)
  then show ?thesis by (simp add: insert_all_def)
qed

lemma update_new: "k \<notin> fst ` set m \<Longrightarrow> AList.update k v m = m @ [(k, v)]"
  by (induction m) auto

lemma insert_all_id: "distinct (map fst kvs) \<Longrightarrow> insert_all kvs = kvs"
proof -
  have "distinct (map fst (m @ kvs)) \<Longrightarrow> fold (\<lambda>(k, v). AList.update k v) kvs m = m @ kvs" for m
  proof (induction kvs arbitrary: m)
    case (Cons kv kvs)
    obtain k v where kv: "kv = (k, v)" by (cases kv)
    with Cons have "AList.update k v m = m @ [kv]" using update_new[of k m v] by auto
    with Cons.IH[of "m @ [kv]"] Cons.prems show ?case by (simp add: kv)
  qed simp
  then show "distinct (map fst kvs) \<Longrightarrow> ?thesis" by (simp add: insert_all_def)
qed

lemma insert_all_set: "set (insert_all kvs) \<subseteq> set kvs"
proof -
  have "set (fold (\<lambda>(k, v). AList.update k v) kvs m) \<subseteq> set kvs \<union> set m" for m
  proof (induction kvs arbitrary: m)
    case (Cons kv kvs)
    obtain k v where kv: "kv = (k, v)" by (cases kv)
    have "set (AList.update k v m) \<subseteq> insert kv (set m)" unfolding kv by (induction m) auto
    with Cons.IH[of "AList.update k v m"] show ?case by (auto simp: kv)
  qed simp
  from this[of "[]"] show ?thesis by (simp add: insert_all_def)
qed

lemma de_map_ser:
  assumes "distinct (map fst m)" "\<And>k v. (k, v) \<in> set m \<Longrightarrow> dec (enc v) = Some v"
  shows "de_map dec (JObj (map (\<lambda>(k, v). (k, enc v)) m)) = Some m"
proof -
  have "all_some (map ((\<lambda>(k, v). map_option (Pair k) (dec v)) \<circ> (\<lambda>(k, v). (k, enc v))) m) = Some m"
    using assms(2) by (subst all_some_map[where g = id]) auto
  then show ?thesis using assms(1) by (simp add: insert_all_id)
qed

lemma de_ser_cached: "wf_entry c \<Longrightarrow> de_cached (ser_cached c) = Some c"
proof -
  assume "wf_entry c"
  then have labels: "de_map de_str (env_json (cc_labels c)) = Some (cc_labels c)"
    using de_map_ser[of "cc_labels c" de_str JStr] by (simp add: wf_entry_def env_json_def)
  have pid: "with_default ''proxy_pid'' (de_opt de_u32) (Some None)
      (case cc_proxy_pid c of None \<Rightarrow> [] | Some pid \<Rightarrow> [(''proxy_pid'', JNum (uint pid))]) = Some (cc_proxy_pid c)"
  proof (cases "cc_proxy_pid c")
    case (Some pid)
    then show ?thesis using unsigned_less[of pid, where 'a = int] by (simp add: wire_simps de_opt_def)
  qed (simp add: wire_simps)
  have "\<not> has_key k (case cc_proxy_pid c of None \<Rightarrow> [] | Some pid \<Rightarrow> [(''proxy_pid'', JNum (uint pid))])"
    if "k \<noteq> ''proxy_pid''" for k
    using that by (simp add: wire_simps split: option.splits)
  then show ?thesis using labels pid by (simp add: ser_cached_def wire_simps)
qed

lemma de_ser_cache: "wf_cache m \<Longrightarrow> de_map de_cached (ser_cache m) = Some m"
  unfolding ser_cache_def by (rule de_map_ser) (auto simp: wf_cache_def list_all_iff de_ser_cached)

lemma de_map_Some:
  assumes "de_map dec j = Some m"
  shows "distinct (map fst m) \<and> (\<forall>(k, c) \<in> set m. \<exists>v. dec v = Some c)"
proof -
  obtain kvs where j: "j = JObj kvs" using assms by (cases j) auto
  with assms obtain xs where xs: "all_some (map (\<lambda>(k, v). map_option (Pair k) (dec v)) kvs) = Some xs"
    and m: "m = insert_all xs" by auto
  have "\<forall>(k, c) \<in> set xs. \<exists>v. dec v = Some c"
    using xs
  proof (induction kvs arbitrary: xs)
    case (Cons kv kvs)
    obtain k v where "kv = (k, v)" by (cases kv)
    with Cons show ?case by (cases "dec v") auto
  qed simp
  then show ?thesis using m insert_all_set[of xs] by auto
qed

lemma de_cached_wf: "de_cached j = Some c \<Longrightarrow> wf_entry c"
proof -
  assume c: "de_cached j = Some c"
  then obtain obj where obj: "j = JObj obj" by (cases j) auto
  have "\<exists>v. de_map de_str v = Some (cc_labels c)"
    using c obj by (auto simp: with_default_def bind_eq_Some_conv split: list.splits)
  then show ?thesis using de_map_Some by (auto simp: wf_entry_def)
qed

lemma decoded_wf: "de_map de_cached j = Some m \<Longrightarrow> wf_cache m"
  using de_map_Some[of de_cached j m] de_cached_wf by (fastforce simp: wf_cache_def list_all_iff)

lemma load_wf: "wf_cache (load_shim_containers js e f)"
proof -
  have "wf_cache (get_or (Option.bind t (de_map de_cached)) [])" for t
  proof (cases "Option.bind t (de_map de_cached)")
    case (Some m)
    then show ?thesis using decoded_wf by (cases t) (auto simp: get_or_def)
  qed (simp add: wf_cache_def get_or_def)
  moreover have "wf_cache []" by (simp add: wf_cache_def)
  ultimately show ?thesis
    unfolding load_shim_containers_def by (simp split: option.split sum.split)
qed

section \<open>The file as a key store\<close>

text \<open>What a client of a store relies on: a lookup sees what was put and what was removed, as long
  as the store works (\<open>ok\<close>), for values the store can hold (\<open>good\<close>).\<close>

datatype ('k, 'v) store_op = Put 'k 'v | Remove 'k

fun op_map :: "('k, 'v) store_op \<Rightarrow> ('k \<Rightarrow> 'v option) \<Rightarrow> 'k \<Rightarrow> 'v option" where
  "op_map (Put k v) m = m(k \<mapsto> v)"
| "op_map (Remove k) m = m(k := None)"

locale key_store =
  fixes ok :: "'s \<Rightarrow> bool" and good :: "'v \<Rightarrow> bool" and look :: "'s \<Rightarrow> 'k \<Rightarrow> 'v option"
    and put :: "'k \<Rightarrow> 'v \<Rightarrow> 's \<Rightarrow> 's" and remove :: "'k \<Rightarrow> 's \<Rightarrow> 's"
  assumes ok_put: "ok s \<Longrightarrow> ok (put k v s)"
    and ok_remove: "ok s \<Longrightarrow> ok (remove k s)"
    and look_put: "ok s \<Longrightarrow> good v \<Longrightarrow> look (put k v s) = (look s)(k \<mapsto> v)"
    and look_remove: "ok s \<Longrightarrow> look (remove k s) = (look s)(k := None)"
begin

fun op_step :: "('k, 'v) store_op \<Rightarrow> 's \<Rightarrow> 's" where
  "op_step (Put k v) s = put k v s"
| "op_step (Remove k) s = remove k s"

fun op_good :: "('k, 'v) store_op \<Rightarrow> bool" where
  "op_good (Put k v) = good v"
| "op_good (Remove k) = True"

lemma look_step: "ok s \<Longrightarrow> op_good x \<Longrightarrow> look (op_step x s) = op_map x (look s) \<and> ok (op_step x s)"
  by (cases x) (simp_all add: look_put look_remove ok_put ok_remove)

lemma look_steps:
  "ok s \<Longrightarrow> list_all op_good xs \<Longrightarrow> look (fold op_step xs s) = fold op_map xs (look s) \<and> ok (fold op_step xs s)"
  by (induction xs arbitrary: s) (simp_all add: look_step)

end

definition store_ok :: "json_text \<Rightarrow> env \<Rightarrow> fs \<Rightarrow> bool" where
  "store_ok js e f =
     (json_lib (to_text js) (of_text js) \<and>
      (case shim_containers_path e of None \<Rightarrow> False | Some p \<Rightarrow> write_err f p = None))"

lemma load_save:
  assumes "store_ok js e f" "wf_cache m"
  shows "load_shim_containers js e (save_shim_containers js e m f) = m"
  using assms
  by (auto simp: store_ok_def load_shim_containers_def save_shim_containers_def write_file_def read_to_string_def
      de_ser_cache get_or_def split: option.splits)

lemma save_keeps_ok: "store_ok js e f \<Longrightarrow> store_ok js e (save_shim_containers js e m f)"
  by (auto simp: store_ok_def save_shim_containers_def write_file_def split: option.splits)

lemma wf_update: "wf_cache m \<Longrightarrow> wf_entry c \<Longrightarrow> wf_cache (AList.update k c m)"
proof -
  assume m: "wf_cache m" and c: "wf_entry c"
  have "set (AList.update k c m) \<subseteq> insert (k, c) (set m)" by (induction m) auto
  with m c show ?thesis by (fastforce simp: wf_cache_def list_all_iff distinct_update)
qed

lemma wf_delete: "wf_cache m \<Longrightarrow> wf_cache (AList.delete k m)"
  using distinct_delete[of m k] by (auto simp: wf_cache_def list_all_iff AList.delete_eq)

interpretation shim_cache: key_store "store_ok js e" wf_entry "\<lambda>f. map_of (load_shim_containers js e f)"
  "cache_container js e" "uncache_container js e"
proof unfold_locales
  fix f k v
  assume ok: "store_ok js e f"
  show "store_ok js e (cache_container js e k v f)"
    using ok by (simp add: cache_container_def save_keeps_ok)
  show "store_ok js e (uncache_container js e k f)"
    using ok by (simp add: uncache_container_def Let_def save_keeps_ok)
  show "map_of (load_shim_containers js e (uncache_container js e k f)) = (map_of (load_shim_containers js e f))(k := None)"
    using load_save[OF ok wf_delete[OF load_wf]]
    by (auto simp: uncache_container_def Let_def delete_conv' fun_upd_idem)
  show "map_of (load_shim_containers js e (cache_container js e k v f)) = (map_of (load_shim_containers js e f))(k \<mapsto> v)"
    if "wf_entry v" using load_save[OF ok wf_update[OF load_wf that]]
    by (simp add: cache_container_def update_conv')
qed

end
