(* ===== verification/Guest_Events.thy ===== *)
theory Guest_Events
  imports Guest_Protocol "HOL-Library.List_Lexorder"
begin

text \<open>
  The container events of \<open>pelagos-guest/src/main.rs\<close>: reading the state files of the runtime,
  the poller that compares two readings, the broadcast to the subscribers through bounded
  channels, and the handler of a subscription. The abstract view of a subscriber is the set of
  containers it believes to be running; the lemmas relate this view to what the poller saw.
\<close>

section \<open>Reading the container states\<close>

text \<open>\<open>Value::get\<close>, \<open>as_str\<close>, \<open>as_i64\<close> and \<open>as_array\<close>; a repeated key has its last value.\<close>

definition json_get :: "json \<Rightarrow> string \<Rightarrow> json option" where
  "json_get j k = (case j of JObj kvs \<Rightarrow> map_of (rev kvs) k | _ \<Rightarrow> None)"

fun as_i64 :: "json \<Rightarrow> int option" where
  "as_i64 (JNum n) = (if - (2 ^ 63) \<le> n \<and> n < 2 ^ 63 then Some n else None)"
| "as_i64 _ = None"

fun as_array :: "json \<Rightarrow> json list option" where
  "as_array (JArr xs) = Some xs"
| "as_array _ = None"

definition str_or :: "string \<Rightarrow> json \<Rightarrow> string \<Rightarrow> string" where
  "str_or k j d = (case Option.bind (json_get j k) de_str of Some s \<Rightarrow> s | None \<Rightarrow> d)"

text \<open>The snapshot of one state file; the numbers are cast to 32 bits.\<close>

definition snapshot_of :: "json \<Rightarrow> container_snapshot option" where
  "snapshot_of val =
     (let name = str_or ''name'' val [] in
      if name = [] then None
      else Some \<lparr>cs_name = name, cs_status = str_or ''status'' val ''unknown'',
        cs_pid = (case Option.bind (json_get val ''pid'') as_i64 of Some n \<Rightarrow> word_of_int n | None \<Rightarrow> 0),
        cs_rootfs = str_or ''rootfs'' val [], cs_started_at = str_or ''started_at'' val [],
        cs_exit_code = map_option word_of_int (Option.bind (json_get val ''exit_code'') as_i64),
        cs_ports = (case Option.bind (Option.bind (json_get val ''spawn_config'') (\<lambda>sc. json_get sc ''publish'')) as_array of
                      Some arr \<Rightarrow> List.map_filter de_str arr | None \<Rightarrow> [])\<rparr>)"

text \<open>\<open>dir\<close> is what is in the directory: for every entry the value of its state file, if it can be
  read and parsed. The names are compared as byte strings.\<close>

definition name_key :: "container_snapshot \<Rightarrow> nat list" where
  "name_key c = map of_char (cs_name c)"

definition read_container_states :: "json option list option \<Rightarrow> container_snapshot list" where
  "read_container_states dir =
     (case dir of
        None \<Rightarrow> []
      | Some entries \<Rightarrow> sort_key name_key (List.map_filter (\<lambda>e. Option.bind e snapshot_of) entries))"

section \<open>Comparing two readings\<close>

definition is_running :: "container_snapshot \<Rightarrow> bool" where
  "is_running c = (cs_status c = ''running'')"

definition named :: "string \<Rightarrow> container_snapshot list \<Rightarrow> container_snapshot option" where
  "named x cs = find (\<lambda>c. cs_name c = x) cs"

definition start_events :: "container_snapshot list \<Rightarrow> container_snapshot \<Rightarrow> guest_event list" where
  "start_events prev c =
     (case named (cs_name c) prev of
        None \<Rightarrow> GStarted c # (if is_running c then [] else [GExited (cs_name c) (cs_exit_code c)])
      | Some p \<Rightarrow> if \<not> is_running p \<and> is_running c then [GStarted c] else [])"

definition exit_events :: "container_snapshot list \<Rightarrow> container_snapshot \<Rightarrow> guest_event list" where
  "exit_events current p =
     (case named (cs_name p) current of
        None \<Rightarrow> [GExited (cs_name p) (cs_exit_code p)]
      | Some c \<Rightarrow> if is_running p \<and> \<not> is_running c then [GExited (cs_name c) (cs_exit_code c)] else [])"

definition diff_container_states :: "container_snapshot list \<Rightarrow> container_snapshot list \<Rightarrow> guest_event list" where
  "diff_container_states prev current =
     concat (map (start_events prev) current) @ concat (map (exit_events current) prev)"

section \<open>Subscribers\<close>

text \<open>A subscriber: the events waiting in its channel, and whether its receiver still exists.\<close>

record subscriber =
  sub_queue :: "guest_event list"
  sub_alive :: bool

definition CHANNEL_CAP :: nat where "CHANNEL_CAP = 256"

text \<open>\<open>try_send\<close> for the events of a batch; the result tells whether the subscriber is kept.\<close>

fun send_batch :: "guest_event list \<Rightarrow> subscriber \<Rightarrow> bool \<times> subscriber" where
  "send_batch [] s = (True, s)"
| "send_batch (e # es) s =
     (if \<not> sub_alive s then (False, s)
      else if length (sub_queue s) \<ge> CHANNEL_CAP then (True, s)
      else send_batch es (s\<lparr>sub_queue := sub_queue s @ [e]\<rparr>))"

definition broadcast_events :: "guest_event list \<Rightarrow> subscriber list \<Rightarrow> subscriber list" where
  "broadcast_events events subs = map snd (filter fst (map (send_batch events) subs))"

text \<open>One turn of the poller.\<close>

definition poll_step :: "container_snapshot list \<Rightarrow> container_snapshot list \<times> subscriber list
    \<Rightarrow> container_snapshot list \<times> subscriber list" where
  "poll_step current st =
     (case st of (prev, subs) \<Rightarrow>
        let events = diff_container_states prev current in
        (current, if events \<noteq> [] then broadcast_events events subs else subs))"

text \<open>
  \<open>handle_subscribe\<close> after the registration: the snapshot, then what is received: an event, or
  nothing for five seconds, when a heartbeat with the time is sent. \<open>writes\<close> tells how many
  messages can be written before the connection is lost.
\<close>

datatype received = Event guest_event | Timeout u64 | Closed

fun stream_events :: "nat \<Rightarrow> received list \<Rightarrow> guest_event list" where
  "stream_events writes [] = []"
| "stream_events 0 (r # rs) = []"
| "stream_events (Suc n) (r # rs) =
     (case r of Event e \<Rightarrow> e # stream_events n rs | Timeout ts \<Rightarrow> GHeartbeat ts # stream_events n rs | Closed \<Rightarrow> [])"

definition handle_subscribe :: "nat \<Rightarrow> container_snapshot list \<Rightarrow> received list \<Rightarrow> guest_event list" where
  "handle_subscribe writes states rs =
     (case writes of 0 \<Rightarrow> [] | Suc n \<Rightarrow> GSnapshot states True # stream_events n rs)"

section \<open>The view of a subscriber\<close>

definition running :: "container_snapshot list \<Rightarrow> string set" where
  "running cs = cs_name ` set (filter is_running cs)"

fun apply_event :: "guest_event \<Rightarrow> string set \<Rightarrow> string set" where
  "apply_event (GSnapshot cs _) v = running cs"
| "apply_event (GStarted c) v = insert (cs_name c) v"
| "apply_event (GExited n _) v = v - {n}"
| "apply_event (GHeartbeat _) v = v"

text \<open>What an event says of the container \<open>x\<close>.\<close>

fun about :: "string \<Rightarrow> guest_event \<Rightarrow> bool" where
  "about x (GSnapshot _ _) = True"
| "about x (GStarted c) = (cs_name c = x)"
| "about x (GExited n _) = (n = x)"
| "about x (GHeartbeat _) = False"

fun runs_after :: "string \<Rightarrow> guest_event \<Rightarrow> bool \<Rightarrow> bool" where
  "runs_after x (GSnapshot cs _) b = (x \<in> running cs)"
| "runs_after x (GStarted c) b = (b \<or> cs_name c = x)"
| "runs_after x (GExited n _) b = (b \<and> n \<noteq> x)"
| "runs_after x (GHeartbeat _) b = b"

lemma view_of_one: "x \<in> fold apply_event es v \<longleftrightarrow> fold (runs_after x) es (x \<in> v)"
proof (induction es arbitrary: v)
  case (Cons e es)
  have "x \<in> apply_event e v \<longleftrightarrow> runs_after x e (x \<in> v)" by (cases e) auto
  then show ?case using Cons by simp
qed simp

lemma runs_after_other: "\<not> about x e \<Longrightarrow> runs_after x e b = b"
  by (cases e) auto

lemma fold_about: "fold (runs_after x) es b = fold (runs_after x) (filter (about x) es) b"
  by (induction es arbitrary: b) (simp_all add: runs_after_other)

lemma filter_concat_named:
  assumes "\<And>c. list_all (\<lambda>e. about x e \<longleftrightarrow> cs_name c = x) (f c)" and "distinct (map cs_name cs)"
  shows "filter (about x) (concat (map f cs)) = (case named x cs of None \<Rightarrow> [] | Some c \<Rightarrow> f c)"
  using assms(2)
proof (induction cs)
  case (Cons c cs)
  have c: "filter (about x) (f c) = (if cs_name c = x then f c else [])"
    using assms(1)[of c] by (auto simp: list_all_iff filter_id_conv filter_empty_conv)
  have "named x cs = None" if "cs_name c = x" using Cons.prems that by (auto simp: named_def find_None_iff) (metis image_eqI)
  then show ?case using Cons c by (auto simp: named_def)
qed (simp add: named_def)

lemma start_events_about: "list_all (\<lambda>e. about x e \<longleftrightarrow> cs_name c = x) (start_events prev c)"
  by (auto simp: start_events_def split: option.splits)

lemma named_name: "named x cs = Some c \<Longrightarrow> cs_name c = x"
  by (auto simp: named_def find_Some_iff)

lemma exit_events_about: "list_all (\<lambda>e. about x e \<longleftrightarrow> cs_name p = x) (exit_events current p)"
proof (cases "named (cs_name p) current")
  case (Some c)
  then show ?thesis using named_name[OF Some] by (simp add: exit_events_def)
qed (simp add: exit_events_def)

lemma running_named:
  assumes "distinct (map cs_name cs)"
  shows "x \<in> running cs \<longleftrightarrow> (case named x cs of None \<Rightarrow> False | Some c \<Rightarrow> is_running c)"
  using assms by (induction cs) (auto simp: running_def named_def split: option.splits dest: named_name)

text \<open>The events of a comparison that concern \<open>x\<close>.\<close>

lemma diff_about:
  assumes "distinct (map cs_name prev)" and "distinct (map cs_name cur)"
  shows "filter (about x) (diff_container_states prev cur) =
      (case named x cur of
         None \<Rightarrow> []
       | Some c \<Rightarrow>
           (case named x prev of
              None \<Rightarrow> GStarted c # (if is_running c then [] else [GExited x (cs_exit_code c)])
            | Some p \<Rightarrow> if \<not> is_running p \<and> is_running c then [GStarted c] else []))
      @ (case named x prev of
           None \<Rightarrow> []
         | Some p \<Rightarrow>
             (case named x cur of
                None \<Rightarrow> [GExited x (cs_exit_code p)]
              | Some c \<Rightarrow> if is_running p \<and> \<not> is_running c then [GExited x (cs_exit_code c)] else []))"
proof -
  have "filter (about x) (diff_container_states prev cur) =
      (case named x cur of None \<Rightarrow> [] | Some c \<Rightarrow> start_events prev c)
      @ (case named x prev of None \<Rightarrow> [] | Some p \<Rightarrow> exit_events cur p)"
    using assms by (simp add: diff_container_states_def filter_concat_named start_events_about exit_events_about)
  then show ?thesis
    using named_name[of x cur] named_name[of x prev]
    by (simp add: start_events_def exit_events_def split: option.splits)
qed

text \<open>The effect of one comparison on what a subscriber believes of \<open>x\<close>: the new state if it
  changed; otherwise what it believed, or the new state.\<close>

lemma diff_effect:
  assumes "distinct (map cs_name prev)" and "distinct (map cs_name cur)"
  shows "fold (runs_after x) (diff_container_states prev cur) b =
      (if (x \<in> running prev) = (x \<in> running cur) \<and> (named x prev = None) = (named x cur = None)
       then b else x \<in> running cur)"
  unfolding running_named[OF assms(1)] running_named[OF assms(2)] fold_about[of x "diff_container_states prev cur"]
    diff_about[OF assms]
  using named_name[of x cur] by (cases "named x cur"; cases "named x prev") simp_all

text \<open>The events of a poll turn the set of running containers of the previous reading into
  the set of the current one.\<close>

theorem ev_diff_exact:
  assumes "distinct (map cs_name prev)" and "distinct (map cs_name cur)"
  shows "fold apply_event (diff_container_states prev cur) (running prev) = running cur"
  by (rule set_eqI) (simp add: view_of_one diff_effect[OF assms])

text \<open>The events of several polls after the first reading.\<close>

fun poll_events :: "container_snapshot list \<Rightarrow> container_snapshot list list \<Rightarrow> guest_event list" where
  "poll_events p [] = []"
| "poll_events p (q # qs) = diff_container_states p q @ poll_events q qs"

lemma poll_events_effect:
  assumes "list_all (\<lambda>p. distinct (map cs_name p)) (p # ps)" and "\<exists>q\<in>set (p # ps). b = (x \<in> running q)"
  shows "fold (runs_after x) (poll_events p ps) b = (x \<in> running (last (p # ps)))"
  using assms
proof (induction ps arbitrary: p b)
  case (Cons q ps)
  let ?b = "fold (runs_after x) (diff_container_states p q) b"
  have "?b = (x \<in> running q) \<or> (?b = b \<and> (x \<in> running p) = (x \<in> running q))"
    using Cons.prems(1) by (simp add: diff_effect)
  then have "\<exists>r\<in>set (q # ps). ?b = (x \<in> running r)" using Cons.prems(2) by auto
  then show ?case using Cons.IH[of q ?b] Cons.prems(1) by simp
qed auto

text \<open>The events a connection received, without the time-outs.\<close>

fun events_in :: "received list \<Rightarrow> guest_event list" where
  "events_in [] = []"
| "events_in (Event e # rs) = e # events_in rs"
| "events_in (_ # rs) = events_in rs"

lemma stream_view:
  "list_all (\<lambda>r. r \<noteq> Closed) rs \<Longrightarrow> length rs \<le> n \<Longrightarrow>
   fold apply_event (stream_events n rs) v = fold apply_event (events_in rs) v"
proof (induction n rs arbitrary: v rule: stream_events.induct)
  case (3 n r rs)
  then show ?case by (cases r) simp_all
qed auto

text \<open>C21: A client that subscribes is sent a snapshot and then the events of all later polls, with
  heartbeats in between. While its connection holds it ends up with exactly the containers
  that run at the last poll, provided that every container is in the snapshot as some poll saw
  it. (A container that changed its state between two polls and back, with the snapshot taken
  in between, is never corrected.)\<close>

theorem ev_subscriber_converges:
  assumes "list_all (\<lambda>p. distinct (map cs_name p)) (p # ps)"
    and "\<forall>x. \<exists>q\<in>set (p # ps). (x \<in> running snap) = (x \<in> running q)"
    and "list_all (\<lambda>r. r \<noteq> Closed) rs" and "events_in rs = poll_events p ps" and "length rs < writes"
  shows "fold apply_event (handle_subscribe writes snap rs) {} = running (last (p # ps))"
proof -
  obtain n where n: "writes = Suc n" using assms(5) by (cases writes) auto
  then have "fold apply_event (handle_subscribe writes snap rs) {} = fold apply_event (poll_events p ps) (running snap)"
    using stream_view[OF assms(3), of n] assms(4,5) by (simp add: handle_subscribe_def)
  also have "\<dots> = running (last (p # ps))"
    using poll_events_effect[OF assms(1)] assms(2) by (intro set_eqI) (simp add: view_of_one)
  finally show ?thesis .
qed

text \<open>The state that is missed: the snapshot sees a container that neither poll sees.\<close>

lemma snapshot_race:
  assumes "x \<in> running snap"
  shows "x \<in> fold apply_event (GSnapshot snap True # poll_events [] [[]]) {} \<and> x \<notin> running (last [[], []])"
  using assms by (simp add: diff_container_states_def running_def)

section \<open>Delivery\<close>

lemma send_batch_alive:
  assumes "sub_alive s" and "length (sub_queue s) \<le> CHANNEL_CAP"
  shows "send_batch es s = (True, s\<lparr>sub_queue := take CHANNEL_CAP (sub_queue s @ es)\<rparr>)"
  using assms by (induction es arbitrary: s) (auto simp: take_Cons')

definition room :: "subscriber \<Rightarrow> bool" where
  "room s = (length (sub_queue s) \<le> CHANNEL_CAP)"

lemma broadcast_nonempty:
  assumes "list_all room subs" and "es \<noteq> []"
  shows "broadcast_events es subs =
    map (\<lambda>s. s\<lparr>sub_queue := take CHANNEL_CAP (sub_queue s @ es)\<rparr>) (filter sub_alive subs)"
  using assms
proof (induction subs)
  case (Cons s subs)
  obtain e es' where "es = e # es'" using assms(2) by (cases es) auto
  then have "\<not> fst (send_batch es s)" if "\<not> sub_alive s" using that by simp
  then show ?case using Cons send_batch_alive[of s es] by (auto simp: broadcast_events_def room_def)
qed (simp add: broadcast_events_def)

definition subs_ok :: "container_snapshot list \<times> subscriber list \<Rightarrow> bool" where
  "subs_ok st = list_all room (snd st)"

lemma poll_subs_ok: "subs_ok st \<Longrightarrow> subs_ok (poll_step cur st)"
  by (cases st) (auto simp: subs_ok_def poll_step_def Let_def broadcast_nonempty list_all_iff room_def)

interpretation poller: invariant_machine poll_step "\<lambda>_. True" subs_ok
  by unfold_locales (rule poll_subs_ok)

text \<open>C22: A poll appends its events, in order, to the channel of every subscriber that is still
  there, as far as the channel of 256 events has room, and forgets the subscribers that are
  gone (when there is anything to send); the channels never hold more.\<close>

theorem ev_broadcast:
  assumes "list_all room subs"
  shows "poll_step cur (prev, subs) =
      (cur, let es = diff_container_states prev cur in
            if es = [] then subs
            else map (\<lambda>s. s\<lparr>sub_queue := take 256 (sub_queue s @ es)\<rparr>) (filter sub_alive subs)) \<and>
    list_all room (snd (fold poll_step polls (prev, subs)))"
  using poller.run_inv[of "(prev, subs)" polls] broadcast_nonempty[OF assms] assms
  by (simp add: poll_step_def Let_def subs_ok_def list_all_iff CHANNEL_CAP_def)

section \<open>Witnesses\<close>

definition demo_box :: "string \<Rightarrow> string \<Rightarrow> container_snapshot" where
  "demo_box n st = \<lparr>cs_name = n, cs_status = st, cs_pid = 1, cs_rootfs = [], cs_started_at = [],
     cs_exit_code = None, cs_ports = [''8080:80'']\<rparr>"

theorem ev_diff_exact_witness:
  "fold apply_event (diff_container_states [demo_box ''a'' ''running''] [demo_box ''b'' ''running'']) {''a''} = {''b''}"
  using ev_diff_exact[of "[demo_box ''a'' ''running'']" "[demo_box ''b'' ''running'']"]
  by (simp add: running_def demo_box_def is_running_def)

theorem ev_subscriber_converges_witness:
  "fold apply_event (handle_subscribe 9 [] [Timeout 5, Event (GStarted (demo_box ''a'' ''running''))]) {} = {''a''}"
  using ev_subscriber_converges[of "[]" "[[demo_box ''a'' ''running'']]" "[]"
      "[Timeout 5, Event (GStarted (demo_box ''a'' ''running''))]" 9]
  by (simp add: running_def demo_box_def is_running_def diff_container_states_def start_events_def named_def)

theorem ev_broadcast_witness:
  "snd (poll_step [demo_box ''a'' ''running''] ([], [\<lparr>sub_queue = [], sub_alive = False\<rparr>, \<lparr>sub_queue = [], sub_alive = True\<rparr>])) =
     [\<lparr>sub_queue = [GStarted (demo_box ''a'' ''running'')], sub_alive = True\<rparr>]"
  using ev_broadcast[of "[\<lparr>sub_queue = [], sub_alive = False\<rparr>, \<lparr>sub_queue = [], sub_alive = True\<rparr>]"
      "[demo_box ''a'' ''running'']" "[]" "[]"]
  by (simp add: room_def diff_container_states_def start_events_def named_def demo_box_def is_running_def)

end
