(* ===== verification/Docker_Shim.thy ===== *)
theory Docker_Shim
  imports Docker_Cache Guest_Events
begin

text \<open>
  The commands of the Docker shim (\<open>pelagos-docker/src/main.rs\<close>): the translation of Docker's
  command lines to \<open>pelagos\<close>, containers with their port proxies,
  inspection and the event stream. A command returns its exit code, what it did (programs run,
  processes killed) in order, and the files afterwards; what the programs answer is a
  parameter. The lemmas on the cache and on the port proxies are about any sequence of
  commands, from the laws of the cache file as a key store.
\<close>

section \<open>The world of a command\<close>

datatype shim_event =
    Ran "string list"
  | SpawnedProxy "string list" u32
  | KilledChild u32
  | SentTerm u32

text \<open>The answers: a run with inherited or captured streams (left: it could not be started), a
  spawned process with its number, and what a run within a time limit printed, parsed.\<close>

record shim_sys =
  sh_inherit :: "string list \<Rightarrow> string + u32 option"
  sh_capture :: "string list \<Rightarrow> string + (u32 option \<times> string)"
  sh_spawn :: "string list \<Rightarrow> string + u32"
  sh_inspect :: "string list \<Rightarrow> json option"

text \<open>\<open>run_pelagos_inherited\<close> and the exit code every command makes of it.\<close>

definition run_inherited :: "shim_sys \<Rightarrow> config \<Rightarrow> string list \<Rightarrow> u32" where
  "run_inherited sys cfg sub_args =
     (case sh_inherit sys (pelagos_prefix_args cfg @ sub_args) of
        Inl _ \<Rightarrow> 1
      | Inr code \<Rightarrow> (case code of Some c \<Rightarrow> c | None \<Rightarrow> 1))"

text \<open>\<open>run_pelagos\<close> and \<open>run_pelagos_timeout\<close>: the answer to a run, and the run itself.\<close>

definition run_pelagos :: "shim_sys \<Rightarrow> config \<Rightarrow> string list \<Rightarrow> (string + (u32 option \<times> string)) \<times> shim_event list" where
  "run_pelagos sys cfg sub_args = (sh_capture sys (pelagos_prefix_args cfg @ sub_args), [Ran sub_args])"

definition pelagos_container_inspect_json :: "shim_sys \<Rightarrow> config \<Rightarrow> string \<Rightarrow> json option \<times> shim_event list" where
  "pelagos_container_inspect_json sys cfg name =
     (let sub_args = [''inspect'', name] in (sh_inspect sys (pelagos_prefix_args cfg @ sub_args), [Ran sub_args]))"

definition passthrough :: "shim_sys \<Rightarrow> config \<Rightarrow> string list \<Rightarrow> u32 \<times> shim_event list" where
  "passthrough sys cfg sub_args = (run_inherited sys cfg sub_args, [Ran sub_args])"

definition kill_proxy_for_container :: "json_text \<Rightarrow> env \<Rightarrow> string \<Rightarrow> fs \<Rightarrow> shim_event list" where
  "kill_proxy_for_container js e name f =
     (case map_of (load_shim_containers js e f) name of
        Some entry \<Rightarrow> (case cc_proxy_pid entry of Some pid \<Rightarrow> [SentTerm pid] | None \<Rightarrow> [])
      | None \<Rightarrow> [])"

section \<open>Running and removing containers\<close>

record docker_run =
  dr_name :: "string option"
  dr_detach :: bool
  dr_volumes :: "string list"
  dr_mounts :: "string list"
  dr_env :: "string list"
  dr_ports :: "string list"
  dr_labels :: "string list"
  dr_entrypoint :: "string option"
  dr_image_and_args :: "string list"

definition flag_args :: "string \<Rightarrow> string list \<Rightarrow> string list" where
  "flag_args k vs = concat (map (\<lambda>v. [k, v]) vs)"

definition run_sub_args :: "docker_run \<Rightarrow> string \<Rightarrow> string \<Rightarrow> string list \<Rightarrow> string list" where
  "run_sub_args o' name img cmd_args =
     [''run'', ''--name'', name] @ (if dr_detach o' then [''--detach''] else [])
     @ flag_args ''-v'' (dr_volumes o') @ flag_args ''-v'' (List.map_filter parse_mount_as_volume (dr_mounts o'))
     @ flag_args ''-e'' (dr_env o') @ flag_args ''--label'' (dr_labels o')
     @ [img] @ (case dr_entrypoint o' of Some ep \<Rightarrow> [ep] | None \<Rightarrow> []) @ cmd_args"

text \<open>\<open>millis\<close> and \<open>secs\<close> are the parts of the clock the command reads.\<close>

definition run_name :: "nat \<Rightarrow> docker_run \<Rightarrow> string" where
  "run_name millis o' = get_or (dr_name o') (''dc-'' @ show_nat millis)"

definition cached_run :: "nat \<Rightarrow> u32 option \<Rightarrow> docker_run \<Rightarrow> string \<Rightarrow> cached_container" where
  "cached_run secs pid o' img =
     \<lparr>cc_image = img, cc_labels = key_values (dr_labels o'), cc_vol_specs = dr_volumes o',
      cc_bind_specs = List.map_filter parse_mount_as_volume (dr_mounts o'), cc_started_at = show_nat secs,
      cc_port_specs = dr_ports o', cc_proxy_pid = pid\<rparr>"

text \<open>The proxy, started before the container so that it listens in time.\<close>

definition proxy_args :: "config \<Rightarrow> string list \<Rightarrow> string list" where
  "proxy_args cfg ports = pelagos_prefix_args cfg @ [''port-proxy''] @ flag_args ''--port'' ports"

definition proxy_child :: "shim_sys \<Rightarrow> config \<Rightarrow> string list \<Rightarrow> u32 option" where
  "proxy_child sys cfg ports =
     (if ports = [] then None
      else (case sh_spawn sys (proxy_args cfg ports) of Inr pid \<Rightarrow> Some pid | Inl _ \<Rightarrow> None))"

definition cmd_run :: "shim_sys \<Rightarrow> config \<Rightarrow> json_text \<Rightarrow> env \<Rightarrow> nat \<Rightarrow> nat \<Rightarrow> docker_run \<Rightarrow> fs
    \<Rightarrow> u32 \<times> shim_event list \<times> fs" where
  "cmd_run sys cfg js e millis secs o' f =
     (case dr_image_and_args o' of
        [] \<Rightarrow> (1, [], f)
      | img # cmd_args \<Rightarrow>
          (let name = run_name millis o';
               sub_args = run_sub_args o' name img cmd_args;
               child = proxy_child sys cfg (dr_ports o');
               spawned = (case child of Some pid \<Rightarrow> [SpawnedProxy (proxy_args cfg (dr_ports o')) pid] | None \<Rightarrow> []);
               code = run_inherited sys cfg sub_args;
               killed = (case child of Some pid \<Rightarrow> [KilledChild pid] | None \<Rightarrow> [])
           in if code = 0 then
                (code, spawned @ [Ran sub_args] @ (if dr_detach o' then [] else killed),
                 cache_container js e name (cached_run secs (if dr_detach o' then child else None) o' img) f)
              else (code, spawned @ [Ran sub_args] @ killed, f)))"

definition cmd_stop :: "shim_sys \<Rightarrow> config \<Rightarrow> json_text \<Rightarrow> env \<Rightarrow> string \<Rightarrow> fs \<Rightarrow> u32 \<times> shim_event list \<times> fs" where
  "cmd_stop sys cfg js e name f =
     (run_inherited sys cfg [''stop'', name], Ran [''stop'', name] # kill_proxy_for_container js e name f, f)"

definition cmd_rm :: "shim_sys \<Rightarrow> config \<Rightarrow> json_text \<Rightarrow> env \<Rightarrow> bool \<Rightarrow> string \<Rightarrow> fs \<Rightarrow> u32 \<times> shim_event list \<times> fs" where
  "cmd_rm sys cfg js e force name f =
     (let sub_args = (if force then [''rm'', ''--force'', name] else [''rm'', name]) in
      (run_inherited sys cfg sub_args, kill_proxy_for_container js e name f @ [Ran sub_args],
       uncache_container js e name f))"

definition start_code :: "shim_sys \<Rightarrow> config \<Rightarrow> string \<Rightarrow> u32 \<Rightarrow> u32" where
  "start_code sys cfg name exit =
     (let code = run_inherited sys cfg [''start'', name] in if code \<noteq> 0 then code else exit)"

definition cmd_start :: "shim_sys \<Rightarrow> config \<Rightarrow> string list \<Rightarrow> u32 \<times> shim_event list" where
  "cmd_start sys cfg names = (fold (start_code sys cfg) names 0, map (\<lambda>name. Ran [''start'', name]) names)"

text \<open>There is no command that only pulls: a container that does nothing is run and removed.\<close>

definition pull_probe :: "shim_sys \<Rightarrow> config \<Rightarrow> string \<Rightarrow> string \<Rightarrow> u32 \<times> shim_event list" where
  "pull_probe sys cfg probe img =
     (case run_pelagos sys cfg [''run'', ''--detach'', ''--name'', probe, img, ''/bin/true''] of
        (Inl _, ran_run) \<Rightarrow> (1, ran_run)
      | (Inr (code, _), ran_run) \<Rightarrow>
          (get_or code 1, ran_run @ snd (run_pelagos sys cfg [''stop'', probe]) @ snd (run_pelagos sys cfg [''rm'', probe])))"

definition cmd_pull :: "shim_sys \<Rightarrow> config \<Rightarrow> string \<Rightarrow> u32 \<times> shim_event list" where
  "cmd_pull sys cfg img = pull_probe sys cfg ''pelagos-docker-pull-probe'' img"

definition cmd_port :: "json_text \<Rightarrow> env \<Rightarrow> string \<Rightarrow> fs \<Rightarrow> u32 \<times> string list" where
  "cmd_port js e name f =
     (case map_of (load_shim_containers js e f) name of
        None \<Rightarrow> (1, [])
      | Some c \<Rightarrow> (0, port_lines (cc_port_specs c)))"

text \<open>Commands that only change the arguments.\<close>

definition exec_sub_args :: "bool \<Rightarrow> string option \<Rightarrow> string option \<Rightarrow> string list \<Rightarrow> string list \<Rightarrow> string list option" where
  "exec_sub_args tty user workdir env name_and_args =
     (case name_and_args of
        [] \<Rightarrow> None
      | name # cmd_args \<Rightarrow>
          (let caller_has_home = list_ex (\<lambda>kv. starts_with kv ''HOME='') env;
               effective_user = get_or user ''root'';
               home_for_user = (if effective_user = ''root'' \<or> effective_user = ''0'' then Some ''/root'' else None);
               need_env_prefix = (env \<noteq> [] \<or> (\<not> caller_has_home \<and> home_for_user \<noteq> None))
           in Some ([''exec''] @ (if tty then [''-t''] else [])
                @ (case user of Some u \<Rightarrow> [''--user'', u] | None \<Rightarrow> [])
                @ (case workdir of Some w \<Rightarrow> [''-w'', w] | None \<Rightarrow> []) @ [name]
                @ (if need_env_prefix then
                     [''env''] @ (case home_for_user of Some h \<Rightarrow> if caller_has_home then [] else [''HOME='' @ h] | None \<Rightarrow> []) @ env
                   else [])
                @ cmd_args)))"

definition cmd_exec :: "shim_sys \<Rightarrow> config \<Rightarrow> bool \<Rightarrow> string option \<Rightarrow> string option \<Rightarrow> string list \<Rightarrow> string list
    \<Rightarrow> u32 \<times> shim_event list" where
  "cmd_exec sys cfg tty user workdir env name_and_args =
     (case exec_sub_args tty user workdir env name_and_args of
        None \<Rightarrow> (1, [])
      | Some sub_args \<Rightarrow> passthrough sys cfg sub_args)"

definition cmd_logs :: "shim_sys \<Rightarrow> config \<Rightarrow> bool \<Rightarrow> string \<Rightarrow> u32 \<times> shim_event list" where
  "cmd_logs sys cfg follow name =
     passthrough sys cfg (if follow then [''logs'', ''--follow'', name] else [''logs'', name])"

definition cmd_cp :: "shim_sys \<Rightarrow> config \<Rightarrow> string \<Rightarrow> string \<Rightarrow> u32 \<times> shim_event list" where
  "cmd_cp sys cfg src dst = passthrough sys cfg [''cp'', src, dst]"

text \<open>\<open>docker volume\<close>, with the lines it prints itself: the names of a quiet listing.\<close>

definition volume_names :: "string \<Rightarrow> string list" where
  "volume_names text =
     List.map_filter (\<lambda>line. case split_ws line of [] \<Rightarrow> None | ws \<Rightarrow> Some (last ws)) (drop 1 (str_lines text))"

definition cmd_volume :: "shim_sys \<Rightarrow> config \<Rightarrow> string \<Rightarrow> string option \<Rightarrow> bool \<Rightarrow> u32 \<times> string list \<times> shim_event list" where
  "cmd_volume sys cfg sb name quiet =
     (let a = [''volume'', sb] @ (case name of Some n \<Rightarrow> [n] | None \<Rightarrow> []) in
      if sb = ''ls'' \<and> quiet then
        (case run_pelagos sys cfg a of
           (Inl _, evs) \<Rightarrow> (1, [], evs)
         | (Inr (code, text), evs) \<Rightarrow> (if code = Some 0 then 0 else 1, volume_names text, evs))
      else (run_inherited sys cfg a, [], [Ran a]))"

definition network_subnet :: "string \<Rightarrow> u8" where
  "network_subnet n = fold (\<lambda>c acc. acc + of_nat (of_char c)) n 0"

definition network_args :: "string \<Rightarrow> string option \<Rightarrow> string list" where
  "network_args sb name =
     [''network'', sb] @
     (case name of
        None \<Rightarrow> []
      | Some n \<Rightarrow>
          if sb = ''create'' then [''--subnet'', ''10.88.'' @ show_word (network_subnet n) @ ''.0/24'', n] else [n])"

definition cmd_network :: "shim_sys \<Rightarrow> config \<Rightarrow> string \<Rightarrow> string option \<Rightarrow> u32 \<times> shim_event list" where
  "cmd_network sys cfg sb name = passthrough sys cfg (network_args sb name)"

section \<open>Listing and inspecting\<close>

definition container_labels :: "json option \<Rightarrow> (string \<times> string) list" where
  "container_labels v =
     (case Option.bind v (\<lambda>j. json_get j ''labels'') of
        Some (JObj kvs) \<Rightarrow> map (\<lambda>(k, x). (k, get_or (de_str x) [])) kvs
      | _ \<Rightarrow> [])"

definition pelagos_container_labels :: "shim_sys \<Rightarrow> config \<Rightarrow> string \<Rightarrow> (string \<times> string) list \<times> shim_event list" where
  "pelagos_container_labels sys cfg name = map_prod container_labels id (pelagos_container_inspect_json sys cfg name)"

definition label_filters :: "string list \<Rightarrow> (string \<times> string) list" where
  "label_filters filters = List.map_filter (\<lambda>f. Option.bind (strip_prefix ''label='' f) (split_once CHR ''='')) filters"

text \<open>The entries \<open>docker ps\<close> shows, and its runs of \<open>pelagos\<close>; \<open>None\<close> when \<open>pelagos ps\<close> did not answer in
  time. Each entry is inspected when there is a filter on labels.\<close>

definition ps_entries :: "shim_sys \<Rightarrow> config \<Rightarrow> bool \<Rightarrow> string list \<Rightarrow> ps_entry list option \<times> shim_event list" where
  "ps_entries sys cfg all filters =
     (case run_pelagos sys cfg ([''ps''] @ (if all then [''--all''] else [])) of
        (Inl _, evs) \<Rightarrow> (None, evs)
      | (Inr (_, text), evs) \<Rightarrow>
          (let entries = parse_pelagos_ps text;
               lfs = label_filters filters;
               labelled = (\<lambda>en. list_all (\<lambda>(k, v). map_of (rev (fst (pelagos_container_labels sys cfg (pe_name en)))) k = Some v) lfs);
               named_ok = (\<lambda>en. list_all (\<lambda>f. case strip_prefix ''name='' f of Some v \<Rightarrow> str_contains v (pe_name en) | None \<Rightarrow> True) filters)
           in (Some (filter named_ok (if lfs = [] then entries else filter labelled entries)),
               evs @ (if lfs = [] then [] else concat (map (\<lambda>en. snd (pelagos_container_labels sys cfg (pe_name en))) entries)))))"

record mount_entry =
  me_source :: string
  me_destination :: string
  me_rw :: bool

record container_inspect =
  ci_id :: string
  ci_name :: string
  ci_created :: string
  ci_running :: bool
  ci_status :: string
  ci_image :: string
  ci_labels :: "(string \<times> string) list"
  ci_binds :: "string list"
  ci_ports :: "string \<Rightarrow> port_binding list option"
  ci_mounts :: "mount_entry list"

definition mounts_of :: "string list \<Rightarrow> mount_entry list" where
  "mounts_of specs =
     List.map_filter (\<lambda>s. map_option (\<lambda>(a, b). \<lparr>me_source = a, me_destination = b, me_rw = True\<rparr>) (split_once CHR '':'' s)) specs"

definition spawn_specs :: "string \<Rightarrow> json option \<Rightarrow> string list" where
  "spawn_specs k v =
     (case Option.bind (Option.bind (Option.bind v (\<lambda>j. json_get j ''spawn_config'')) (\<lambda>c. json_get c k)) as_array of
        Some arr \<Rightarrow> List.map_filter de_str arr
      | None \<Rightarrow> [])"

definition inspect_live :: "share_map \<Rightarrow> cache \<Rightarrow> json option \<Rightarrow> ps_entry \<Rightarrow> container_inspect" where
  "inspect_live sm cache native en =
     (let specs = map (\<lambda>s. translate_volume_spec s sm) (spawn_specs ''volume'' native @ spawn_specs ''bind'' native);
          ports = build_ports_map (case map_of cache (pe_name en) of Some c \<Rightarrow> cc_port_specs c | None \<Rightarrow> []);
          started = get_or (Option.bind (Option.bind native (\<lambda>j. json_get j ''started_at'')) de_str) []
      in \<lparr>ci_id = pe_name en, ci_name = ''/'' @ pe_name en, ci_created = started, ci_running = (pe_status en = ''running''),
          ci_status = pe_status en, ci_image = pe_image en, ci_labels = container_labels native, ci_binds = specs,
          ci_ports = ports, ci_mounts = mounts_of specs\<rparr>)"

definition inspect_cached :: "share_map \<Rightarrow> string \<Rightarrow> cached_container \<Rightarrow> container_inspect" where
  "inspect_cached sm name c =
     (let specs = map (\<lambda>s. translate_volume_spec s sm) (cc_vol_specs c @ cc_bind_specs c)
      in \<lparr>ci_id = name, ci_name = ''/'' @ name, ci_created = cc_started_at c, ci_running = False, ci_status = ''exited'',
          ci_image = cc_image c, ci_labels = cc_labels c, ci_binds = specs, ci_ports = build_ports_map (cc_port_specs c),
          ci_mounts = mounts_of specs\<rparr>)"

definition inspect_one :: "shim_sys \<Rightarrow> config \<Rightarrow> share_map \<Rightarrow> cache \<Rightarrow> ps_entry list \<Rightarrow> string
    \<Rightarrow> container_inspect option \<times> shim_event list" where
  "inspect_one sys cfg sm cache entries name =
     (case find (\<lambda>en. pe_name en = name) entries of
        Some en \<Rightarrow> (case pelagos_container_inspect_json sys cfg name of (native, evs) \<Rightarrow> (Some (inspect_live sm cache native en), evs))
      | None \<Rightarrow> (map_option (inspect_cached sm name) (map_of cache name), []))"

definition cmd_inspect_container :: "shim_sys \<Rightarrow> config \<Rightarrow> json_text \<Rightarrow> env \<Rightarrow> string list \<Rightarrow> fs
    \<Rightarrow> (u32 \<times> container_inspect list) \<times> shim_event list" where
  "cmd_inspect_container sys cfg js e names f =
     (case run_pelagos sys cfg [''ps'', ''--all''] of
        (Inl _, evs) \<Rightarrow> ((1, []), evs)
      | (Inr (_, text), evs) \<Rightarrow>
          (let found = map (inspect_one sys cfg (read_vm_share_map (of_text js) e f) (load_shim_containers js e f) (parse_pelagos_ps text)) names
           in ((if None \<in> set (map fst found) then 1 else 0, List.map_filter fst found), evs @ concat (map snd found))))"

text \<open>An image is never looked up: its name alone gives the answer. Without a type, names are
  containers only if all of them are in the table.\<close>

datatype inspected = Containers "container_inspect list" | Images "string list" | NoNames

definition cmd_inspect :: "shim_sys \<Rightarrow> config \<Rightarrow> json_text \<Rightarrow> env \<Rightarrow> string option \<Rightarrow> string list \<Rightarrow> fs
    \<Rightarrow> (u32 \<times> inspected) \<times> shim_event list" where
  "cmd_inspect sys cfg js e inspect_type names f =
     (let containers = map_prod (map_prod id Containers) id (cmd_inspect_container sys cfg js e names f);
          images = ((0, Images names), [])
      in if names = [] then ((1, NoNames), [])
         else if inspect_type = Some ''image'' then images
         else if inspect_type = Some ''container'' then containers
         else (case run_pelagos sys cfg [''ps'', ''--all''] of (answer, evs) \<Rightarrow>
           (let known = (case answer of Inl _ \<Rightarrow> [] | Inr (_, text) \<Rightarrow> map pe_name (parse_pelagos_ps text))
            in map_prod id ((@) evs) (if list_all (\<lambda>n. n \<in> set known) names then containers else images))))"

section \<open>The event stream\<close>

record start_event =
  se_id :: string
  se_from :: string
  se_attributes :: "(string \<times> string) list"
  se_time :: u64
  se_time_nano :: u64

text \<open>One round of \<open>cmd_events\<close>: the containers already seen, the events written so far, and the runs of
  \<open>pelagos\<close>. The answers of the programs are those of the round; \<open>clock n\<close> is what the clock shows for the
  \<open>n\<close>-th event.\<close>

type_synonym event_state = "string set \<times> start_event list \<times> shim_event list"

definition event_entry :: "(nat \<Rightarrow> u64) \<Rightarrow> config \<Rightarrow> shim_sys \<Rightarrow> ps_entry \<Rightarrow> event_state \<Rightarrow> event_state" where
  "event_entry clock cfg sys en st =
     (case st of (known, out, evs) \<Rightarrow>
        if pe_name en \<in> known then st
        else (case pelagos_container_labels sys cfg (pe_name en) of (labels, es) \<Rightarrow>
          (insert (pe_name en) known,
           out @ [let now = clock (length out) in
             \<lparr>se_id = pe_name en, se_from = pe_image en,
              se_attributes = AList.update ''name'' (pe_name en) (AList.update ''image'' (pe_image en) labels),
              se_time = now, se_time_nano = now * 1000000000\<rparr>],
           evs @ es)))"

definition event_round :: "(nat \<Rightarrow> u64) \<Rightarrow> config \<Rightarrow> shim_sys \<Rightarrow> event_state \<Rightarrow> event_state" where
  "event_round clock cfg sys st =
     (case st of (known, out, evs) \<Rightarrow>
     (case run_pelagos sys cfg [''ps'', ''--all''] of
        (Inl _, es) \<Rightarrow> (known, out, evs @ es)
      | (Inr (_, text), es) \<Rightarrow> fold (event_entry clock cfg sys) (parse_pelagos_ps text) (known, out, evs @ es)))"

definition cmd_events :: "(nat \<Rightarrow> u64) \<Rightarrow> config \<Rightarrow> shim_sys list \<Rightarrow> start_event list \<times> shim_event list" where
  "cmd_events clock cfg rounds = snd (fold (event_round clock cfg) rounds ({}, [], []))"

section \<open>The event stream announces every container once\<close>

text \<open>The names a round can see.\<close>

definition listed :: "config \<Rightarrow> shim_sys \<Rightarrow> string set" where
  "listed cfg sys =
     (case sh_capture sys (pelagos_prefix_args cfg @ [''ps'', ''--all'']) of
        Inl _ \<Rightarrow> {} | Inr (_, text) \<Rightarrow> pe_name ` set (parse_pelagos_ps text))"

definition announced :: "event_state \<Rightarrow> bool" where
  "announced st = (case st of (known, out, _) \<Rightarrow> distinct (map se_id out) \<and> set (map se_id out) = known)"

lemma event_entry_announced:
  "announced st \<Longrightarrow> announced (event_entry clock cfg sys en st) \<and> fst (event_entry clock cfg sys en st) = insert (pe_name en) (fst st)"
  by (auto simp: announced_def event_entry_def Let_def split: prod.splits)

lemma event_entries_announced:
  "announced st \<Longrightarrow> announced (fold (event_entry clock cfg sys) ens st) \<and>
     fst (fold (event_entry clock cfg sys) ens st) = fst st \<union> pe_name ` set ens"
  by (induction ens arbitrary: st) (auto simp: event_entry_announced)

lemma event_rounds_announced:
  "announced st \<Longrightarrow> announced (fold (event_round clock cfg) rounds st) \<and>
     fst (fold (event_round clock cfg) rounds st) = fst st \<union> (\<Union>sys \<in> set rounds. listed cfg sys)"
proof (induction rounds arbitrary: st)
  case (Cons sys rounds)
  obtain known out evs where st: "st = (known, out, evs)" by (rule prod_cases3)
  have "announced (known, out, evs @ es)" for es using Cons.prems by (simp add: announced_def st)
  then have "announced (event_round clock cfg sys st) \<and> fst (event_round clock cfg sys st) = fst st \<union> listed cfg sys"
    by (auto simp: st event_round_def run_pelagos_def listed_def event_entries_announced split: sum.splits)
  then show ?case using Cons.IH[of "event_round clock cfg sys st"] by auto
qed simp

text \<open>
  \<open>docker events\<close> writes one start event for every container name that any of its rounds
  lists, and never a second one for the same name; a round in which \<open>pelagos ps\<close> cannot be run
  adds nothing.
\<close>

lemma sh_events_once:
  "distinct (map se_id (fst (cmd_events clock cfg rounds))) \<and>
   set (map se_id (fst (cmd_events clock cfg rounds))) = (\<Union>sys \<in> set rounds. listed cfg sys)"
  using event_rounds_announced[of "({}, [], [])" clock cfg rounds] by (auto simp: announced_def cmd_events_def split: prod.splits)

section \<open>Port proxies are not lost\<close>

text \<open>The processes that live after what was done.\<close>

fun proxy_event :: "shim_event \<Rightarrow> u32 set \<Rightarrow> u32 set" where
  "proxy_event (SpawnedProxy _ pid) ps = insert pid ps"
| "proxy_event (KilledChild pid) ps = ps - {pid}"
| "proxy_event (SentTerm pid) ps = ps - {pid}"
| "proxy_event (Ran _) ps = ps"

definition proxies_alive :: "shim_event list \<Rightarrow> u32 set" where
  "proxies_alive h = fold proxy_event h {}"

text \<open>The commands that change the cache or the proxies, one after the other, each with the
  answers of its own time; \<open>h\<close> is what was done so far. The third component is no state of the
  shim: it collects the living proxies whose entry a successful run replaced, because it took the
  name of a container the cache still had (the same \<open>--name\<close>, or the same \<open>dc-\<close> number).\<close>

definition recorded_as :: "cache \<Rightarrow> string \<Rightarrow> u32 set" where
  "recorded_as cache name = set_option (Option.bind (map_of cache name) cc_proxy_pid)"

inductive shim_step :: "config \<Rightarrow> json_text \<Rightarrow> env \<Rightarrow> fs \<times> shim_event list \<times> u32 set \<Rightarrow> fs \<times> shim_event list \<times> u32 set \<Rightarrow> bool"
  for cfg :: config and js :: json_text and e :: env where
  run: "cmd_run sys cfg js e millis secs o' f = (code, evs, f') \<Longrightarrow>
    replaced = (if code = 0 then proxies_alive h \<inter> recorded_as (load_shim_containers js e f) (run_name millis o') else {}) \<Longrightarrow>
    shim_step cfg js e (f, h, lost) (f', h @ evs, lost \<union> replaced)"
| stop: "cmd_stop sys cfg js e name f = (code, evs, f') \<Longrightarrow> shim_step cfg js e (f, h, lost) (f', h @ evs, lost)"
| rm: "cmd_rm sys cfg js e force name f = (code, evs, f') \<Longrightarrow> shim_step cfg js e (f, h, lost) (f', h @ evs, lost)"

inductive_cases shim_stepE: "shim_step cfg js e (f, h, lost) s'"

definition recorded :: "(string \<Rightarrow> cached_container option) \<Rightarrow> u32 set" where
  "recorded m = {pid. \<exists>name c. m name = Some c \<and> cc_proxy_pid c = Some pid}"

definition proxies_recorded :: "json_text \<Rightarrow> env \<Rightarrow> fs \<times> shim_event list \<times> u32 set \<Rightarrow> bool" where
  "proxies_recorded js e st =
     (case st of (f, h, lost) \<Rightarrow>
        store_ok js e f \<and> proxies_alive h \<subseteq> recorded (map_of (load_shim_containers js e f)) \<union> lost)"

lemma wf_cached_run [simp]: "wf_entry (cached_run secs pid o' img)"
  by (simp add: wf_entry_def cached_run_def key_values_def)

lemma recorded_iff: "pid \<in> recorded m \<longleftrightarrow> (\<exists>name c. m name = Some c \<and> cc_proxy_pid c = Some pid)"
  by (simp add: recorded_def)

lemma recorded_put: "cc_proxy_pid c = Some pid \<Longrightarrow> pid \<in> recorded (m(k \<mapsto> c))"
  by (auto simp: recorded_iff)

lemma recorded_replaced: "pid \<in> recorded (map_of cache) \<Longrightarrow> pid \<in> recorded ((map_of cache)(k \<mapsto> c)) \<or> pid \<in> recorded_as cache k"
  unfolding recorded_iff recorded_as_def by (metis bind.bind_lunit fun_upd_other option.set_intros)

lemma recorded_removed: "recorded m \<subseteq> recorded (m(k := None)) \<union> {pid. \<exists>c. m k = Some c \<and> cc_proxy_pid c = Some pid}"
  by (auto simp: recorded_def)

lemma proxies_alive_append: "proxies_alive (h @ evs) = fold proxy_event evs (proxies_alive h)"
  by (simp add: proxies_alive_def)

text \<open>A run: the cache afterwards, and which proxies it adds to the living ones.\<close>

lemma run_outcome:
  assumes "cmd_run sys cfg js e millis secs o' f = (code, evs, f')"
  obtains (kept) "f' = f" "fold proxy_event evs ps \<subseteq> ps"
  | (cached) c where "code = 0" "f' = cache_container js e (run_name millis o') c f" "wf_entry c"
      "fold proxy_event evs ps \<subseteq> ps \<union> {pid. cc_proxy_pid c = Some pid}"
proof (cases "dr_image_and_args o'")
  case Nil
  with assms kept show ?thesis by (simp add: cmd_run_def)
next
  case (Cons img cmd_args)
  let ?pc = "proxy_child sys cfg (dr_ports o')"
  let ?code = "run_inherited sys cfg (run_sub_args o' (run_name millis o') img cmd_args)"
  show ?thesis
  proof (cases "?code = 0")
    case True
    let ?c = "cached_run secs (if dr_detach o' then ?pc else None) o' img"
    have "code = 0" "f' = cache_container js e (run_name millis o') ?c f"
      using assms Cons True by (simp_all add: cmd_run_def Let_def)
    moreover have "fold proxy_event evs ps \<subseteq> ps \<union> {pid. cc_proxy_pid ?c = Some pid}"
      using assms Cons True by (cases ?pc) (auto simp: cmd_run_def Let_def cached_run_def split: if_splits)
    ultimately show ?thesis using cached wf_cached_run by blast
  next
    case False
    have "f' = f" using assms Cons False by (simp add: cmd_run_def Let_def)
    moreover have "fold proxy_event evs ps \<subseteq> ps"
      using assms Cons False by (cases ?pc) (auto simp: cmd_run_def Let_def)
    ultimately show ?thesis by (rule kept)
  qed
qed

lemma kill_proxy_effect:
  "fold proxy_event (kill_proxy_for_container js e name f) ps =
     ps - {pid. \<exists>c. map_of (load_shim_containers js e f) name = Some c \<and> cc_proxy_pid c = Some pid}"
  by (auto simp: kill_proxy_for_container_def split: option.splits)

lemma shim_step_recorded:
  assumes step: "shim_step cfg js e st st'" and inv: "proxies_recorded js e st"
  shows "proxies_recorded js e st'"
  using step
proof cases
  case (run sys millis secs o' f code evs f' replaced h lost)
  let ?m = "map_of (load_shim_containers js e f)"
  have inv': "store_ok js e f" "proxies_alive h \<subseteq> recorded ?m \<union> lost" using inv run by (auto simp: proxies_recorded_def)
  from run(3) show ?thesis
  proof (cases rule: run_outcome[where ps = "proxies_alive h"])
    case kept
    then show ?thesis using inv' run by (auto simp: proxies_recorded_def proxies_alive_append)
  next
    case (cached c)
    have "map_of (load_shim_containers js e f') = ?m(run_name millis o' \<mapsto> c)"
      unfolding cached(2) by (rule shim_cache.look_put[OF inv'(1) cached(3)])
    moreover have "store_ok js e f'" unfolding cached(2) by (rule shim_cache.ok_put[OF inv'(1)])
    ultimately show ?thesis
      using cached(1,4) inv'(2) run recorded_replaced[of _ "load_shim_containers js e f" "run_name millis o'" c]
        recorded_put[of c _ ?m "run_name millis o'"]
      by (fastforce simp: proxies_recorded_def proxies_alive_append)
  qed
next
  case (stop sys name f code evs f' h lost)
  then show ?thesis
    using inv kill_proxy_effect[of js e name f "proxies_alive h"]
    by (auto simp: proxies_recorded_def proxies_alive_append cmd_stop_def)
next
  case (rm sys force name f code evs f' h lost)
  then have f': "f' = uncache_container js e name f" and evs: "proxies_alive (h @ evs) =
      fold proxy_event (kill_proxy_for_container js e name f) (proxies_alive h)"
    by (auto simp: cmd_rm_def Let_def proxies_alive_append)
  have ok: "store_ok js e f" using inv rm by (simp add: proxies_recorded_def)
  show ?thesis
    using inv rm recorded_removed[of "map_of (load_shim_containers js e f)" name]
      shim_cache.look_remove[OF ok, of name] shim_cache.ok_remove[OF ok, of name]
    by (auto simp: proxies_recorded_def f' evs kill_proxy_effect)
qed

text \<open>
  C19: However \<open>docker run\<close>, \<open>docker stop\<close> and \<open>docker rm\<close> are mixed, a port proxy that the shim
  started and did not kill is recorded in the cache file under a container name, so that
  stopping or removing this container ends it, unless a later successful run took the name the
  proxy was recorded under and so replaced its entry. It is assumed that the cache file can be
  written and that the JSON library reads what it writes.
\<close>

theorem sh_proxies_recorded:
  assumes "(shim_step cfg js e)\<^sup>*\<^sup>* (f0, [], {}) (f, h, lost)" and "store_ok js e f0"
  shows "\<forall>pid \<in> proxies_alive h - lost. \<exists>name c. map_of (load_shim_containers js e f) name = Some c \<and> cc_proxy_pid c = Some pid
    \<and> SentTerm pid \<in> set (fst (snd (cmd_rm sys cfg js e force name f)))
    \<and> SentTerm pid \<in> set (fst (snd (cmd_stop sys cfg js e name f)))"
proof -
  have "proxies_recorded js e (f0, [], {})" using assms(2) by (simp add: proxies_recorded_def proxies_alive_def)
  with assms(1) have "proxies_recorded js e (f, h, lost)"
    by (induction rule: rtranclp_induct) (auto intro: shim_step_recorded)
  then have "pid \<in> recorded (map_of (load_shim_containers js e f))" if "pid \<in> proxies_alive h - lost" for pid
    using that by (auto simp: proxies_recorded_def)
  then show ?thesis
    by (fastforce simp: recorded_def cmd_rm_def cmd_stop_def kill_proxy_for_container_def Let_def)
qed

text \<open>A container with a published port is run in the background.\<close>

definition demo_js :: json_text where
  "demo_js = \<lparr>to_text = sized_text, of_text = unsized_text\<rparr>"

definition demo_cfg :: config where
  "demo_cfg = \<lparr>pelagos_bin = ''pelagos'', cfg_kernel = ''k'', cfg_initrd = ''i'', cfg_disk = ''d'', cfg_cmdline = [], cfg_memory_mib = 512\<rparr>"

definition demo_home :: env where
  "demo_home = \<lparr>xdg_data_home = Some ''/x'', home_dir = None\<rparr>"

definition demo_fs :: fs where
  "demo_fs = \<lparr>files = (\<lambda>_. None), listing = None, write_err = (\<lambda>_. None)\<rparr>"

definition demo_sys :: shim_sys where
  "demo_sys = \<lparr>sh_inherit = (\<lambda>_. Inr (Some 0)), sh_capture = (\<lambda>_. Inr (Some 0, [])), sh_spawn = (\<lambda>_. Inr 77),
     sh_inspect = (\<lambda>_. None)\<rparr>"

definition demo_run :: docker_run where
  "demo_run = \<lparr>dr_name = Some ''web'', dr_detach = True, dr_volumes = [], dr_mounts = [], dr_env = [], dr_ports = [''80:80''],
     dr_labels = [''a=b''], dr_entrypoint = None, dr_image_and_args = [''alpine'']\<rparr>"

lemma demo_store: "store_ok demo_js demo_home demo_fs"
  by (simp add: store_ok_def demo_js_def demo_home_def demo_fs_def json_lib_sized shim_containers_path_def)

lemma demo_load: "load_shim_containers demo_js demo_home demo_fs = []"
  by (simp add: load_shim_containers_def demo_home_def demo_fs_def read_to_string_def shim_containers_path_def)

theorem sh_proxies_recorded_witness:
  "\<exists>f h. (shim_step demo_cfg demo_js demo_home)\<^sup>*\<^sup>* (demo_fs, [], {}) (f, h, {}) \<and> proxies_alive h = {77} \<and>
     (\<exists>name c. map_of (load_shim_containers demo_js demo_home f) name = Some c \<and> cc_proxy_pid c = Some 77 \<and>
        SentTerm 77 \<in> set (fst (snd (cmd_rm demo_sys demo_cfg demo_js demo_home False name f))))"
proof -
  obtain code evs f where r: "cmd_run demo_sys demo_cfg demo_js demo_home 0 0 demo_run demo_fs = (code, evs, f)"
    by (rule prod_cases3)
  have "shim_step demo_cfg demo_js demo_home (demo_fs, [], {}) (f, [] @ evs, {} \<union> {})"
    by (rule shim_step.run[OF r]) (simp add: demo_load recorded_as_def)
  then have step: "(shim_step demo_cfg demo_js demo_home)\<^sup>*\<^sup>* (demo_fs, [], {}) (f, evs, {})" by simp
  have "evs = [SpawnedProxy (proxy_args demo_cfg [''80:80'']) 77, Ran (run_sub_args demo_run ''web'' ''alpine'' [])]"
    using r by (simp add: cmd_run_def demo_run_def demo_sys_def proxy_child_def run_inherited_def run_name_def get_or_def Let_def)
  then have "proxies_alive evs = {77}" by (simp add: proxies_alive_def)
  with step sh_proxies_recorded[OF step demo_store] show ?thesis by blast
qed

text \<open>The exception is real: a second run of the name in the background, with another proxy, leaves the
  first proxy alive and unrecorded, so that no \<open>docker stop\<close> and no \<open>docker rm\<close> ends it.\<close>

lemma rerun_orphans_proxy:
  assumes "store_ok js e f" and "cmd_run sys cfg js e millis secs o' f = (0, evs, f')" and "dr_detach o'"
    and "recorded_as (load_shim_containers js e f) (run_name millis o') = {pid}" and "pid \<in> proxies_alive h"
    and "\<And>name. name \<noteq> run_name millis o' \<Longrightarrow> pid \<notin> recorded_as (load_shim_containers js e f) name"
    and "proxy_child sys cfg (dr_ports o') \<noteq> Some pid"
  shows "pid \<in> proxies_alive (h @ evs) \<and> (\<forall>name. pid \<notin> recorded_as (load_shim_containers js e f') name \<and>
    SentTerm pid \<notin> set (fst (snd (cmd_rm sys' cfg js e force name f'))) \<and>
    SentTerm pid \<notin> set (fst (snd (cmd_stop sys' cfg js e name f'))))"
proof -
  obtain img args where img: "dr_image_and_args o' = img # args" using assms(2) by (cases "dr_image_and_args o'") (auto simp: cmd_run_def)
  let ?c = "cached_run secs (proxy_child sys cfg (dr_ports o')) o' img"
  have f': "f' = cache_container js e (run_name millis o') ?c f" and alive: "pid \<in> fold proxy_event evs (proxies_alive h)"
    using assms(2,3,5) img by (auto simp: cmd_run_def Let_def split: if_splits option.splits)
  have "map_of (load_shim_containers js e f') = (map_of (load_shim_containers js e f))(run_name millis o' \<mapsto> ?c)"
    unfolding f' by (rule shim_cache.look_put[OF assms(1) wf_cached_run])
  then have "pid \<notin> recorded_as (load_shim_containers js e f') name" for name
    using assms(6)[of name] assms(7) by (auto simp: recorded_as_def cached_run_def)
  moreover have "SentTerm pid \<in> set (kill_proxy_for_container js e name f') \<Longrightarrow> pid \<in> recorded_as (load_shim_containers js e f') name" for name
    by (auto simp: kill_proxy_for_container_def recorded_as_def split: option.splits)
  ultimately show ?thesis using alive by (auto simp: proxies_alive_append cmd_rm_def cmd_stop_def Let_def)
qed

section \<open>Inspecting a container that has exited\<close>

lemma run_success:
  assumes "cmd_run sys cfg js e millis secs o' f = (0, evs, f')"
  shows "\<exists>img args pid. dr_image_and_args o' = img # args \<and>
    f' = cache_container js e (run_name millis o') (cached_run secs pid o' img) f"
  using assms by (cases "dr_image_and_args o'") (auto simp: cmd_run_def Let_def split: if_splits)

lemma find_name_None: "name \<notin> pe_name ` set ens \<Longrightarrow> find (\<lambda>en. pe_name en = name) ens = None"
  by (auto simp: find_None_iff)

text \<open>
  The cache makes \<open>docker inspect --type container\<close> answer for a container that the
  machine has already forgotten: after a successful \<open>docker run\<close> it reports the container as
  exited, with the image, the labels and the published ports of the run, and after
  \<open>docker rm\<close>, whatever the exit code of \<open>pelagos rm\<close>, it reports it as missing. Without
  \<open>--type\<close> the same name is taken for an image, although the cache knows the container.
\<close>

lemma sh_inspect_exited:
  assumes "store_ok js e f" and "cmd_run sys cfg js e millis secs o' f = (0, evs, f1)"
    and "sh_capture sys' (pelagos_prefix_args cfg @ [''ps'', ''--all'']) = Inr (rc, text)"
    and "run_name millis o' \<notin> pe_name ` set (parse_pelagos_ps text)"
  shows "(\<exists>ci. fst (cmd_inspect_container sys' cfg js e [run_name millis o'] f1) = (0, [ci]) \<and>
      ci_status ci = ''exited'' \<and> \<not> ci_running ci \<and> ci_image ci = hd (dr_image_and_args o') \<and>
      ci_labels ci = key_values (dr_labels o') \<and> ci_ports ci = build_ports_map (dr_ports o')) \<and>
    fst (cmd_inspect_container sys' cfg js e [run_name millis o']
      (snd (snd (cmd_rm sys'' cfg js e force (run_name millis o') f1)))) = (1, []) \<and>
    fst (cmd_inspect sys' cfg js e None [run_name millis o'] f1) = (0, Images [run_name millis o'])"
    (is "?A \<and> ?B \<and> ?C")
proof (intro conjI)
  let ?n = "run_name millis o'"
  obtain img args pid where img: "dr_image_and_args o' = img # args"
    and f1: "f1 = cache_container js e ?n (cached_run secs pid o' img) f"
    using run_success[OF assms(2)] by blast
  have one: "inspect_one sys' cfg sm cache (parse_pelagos_ps text) ?n = (map_option (inspect_cached sm ?n) (map_of cache ?n), [])"
    for sm cache by (simp add: inspect_one_def find_name_None assms(4))
  have "map_of (load_shim_containers js e f1) ?n = Some (cached_run secs pid o' img)"
    using shim_cache.look_put[OF assms(1) wf_cached_run, of ?n secs pid o' img] by (simp add: f1)
  then show ?A
    using assms(3) by (simp add: cmd_inspect_container_def run_pelagos_def one img inspect_cached_def cached_run_def List.map_filter_simps Let_def)
  have "map_of (load_shim_containers js e (uncache_container js e ?n f1)) ?n = None"
    using shim_cache.look_remove[OF shim_cache.ok_put[OF assms(1)], of ?n ?n "cached_run secs pid o' img"] by (simp add: f1)
  then show ?B
    using assms(3) by (simp add: cmd_inspect_container_def run_pelagos_def cmd_rm_def one List.map_filter_simps Let_def)
  show ?C using assms(3,4) by (simp add: cmd_inspect_def run_pelagos_def Let_def)
qed

lemma sh_inspect_exited_witness:
  "\<exists>evs f1 ci. cmd_run demo_sys demo_cfg demo_js demo_home 0 0 demo_run demo_fs = (0, evs, f1) \<and>
     fst (cmd_inspect_container demo_sys demo_cfg demo_js demo_home [''web''] f1) = (0, [ci]) \<and>
     ci_status ci = ''exited'' \<and> ci_image ci = ''alpine'' \<and> ci_labels ci = key_values [''a=b''] \<and>
     fst (cmd_inspect_container demo_sys demo_cfg demo_js demo_home [''web'']
       (snd (snd (cmd_rm demo_sys demo_cfg demo_js demo_home True ''web'' f1)))) = (1, [])"
proof -
  obtain evs f1 where r: "cmd_run demo_sys demo_cfg demo_js demo_home 0 0 demo_run demo_fs = (0, evs, f1)"
    by (simp add: cmd_run_def demo_run_def demo_sys_def run_inherited_def Let_def)
  have t: "sh_capture demo_sys (pelagos_prefix_args demo_cfg @ [''ps'', ''--all'']) = Inr (Some 0, [])"
    by (simp add: demo_sys_def)
  have n: "run_name 0 demo_run = ''web''" "hd (dr_image_and_args demo_run) = ''alpine''" "dr_labels demo_run = [''a=b'']"
    by (simp_all add: run_name_def demo_run_def get_or_def)
  have "run_name 0 demo_run \<notin> pe_name ` set (parse_pelagos_ps [])"
    by (simp add: parse_pelagos_ps_def str_lines_def)
  from sh_inspect_exited[OF demo_store r t this, of demo_sys True] r show ?thesis unfolding n by blast
qed

text \<open>\<open>docker stop\<close> leaves the number of the proxy in the cache, so that removing the container
  later signals a process that may no longer be the proxy.\<close>

lemma stop_then_rm_signals_twice:
  assumes "map_of (load_shim_containers js e f) name = Some c" "cc_proxy_pid c = Some pid"
    and "cmd_stop sys cfg js e name f = (code, evs, f')"
  shows "SentTerm pid \<in> set evs \<and> SentTerm pid \<in> set (fst (snd (cmd_rm sys' cfg js e force name f')))"
  using assms by (auto simp: cmd_stop_def cmd_rm_def kill_proxy_for_container_def Let_def)

end
