(* ===== verification/Docker_Build.thy ===== *)
theory Docker_Build
  imports Docker_Shim
begin

text \<open>
  \<open>docker build\<close> of the shim (\<open>pelagos-docker/src/main.rs\<close>): variables in the \<open>FROM\<close> lines of
  the Dockerfile are replaced in a copy of it, the base images are pulled, and then
  \<open>pelagos build\<close> is run. Dockerfiles are taken to be ASCII text, where upper-casing keeps
  positions. A hash map of build arguments is iterated in an order that is a parameter.
\<close>

section \<open>Variables\<close>

text \<open>\<open>s.replace("$" + key, v)\<close>\<close>

function replace_var :: "string \<Rightarrow> string \<Rightarrow> string \<Rightarrow> string" where
  "replace_var key v [] = []"
| "replace_var key v (c # s) =
     (if c = CHR ''$'' then
        (case strip_prefix key s of Some r \<Rightarrow> v @ replace_var key v r | None \<Rightarrow> c # replace_var key v s)
      else c # replace_var key v s)"
  by pat_completeness auto
termination
  by (relation "measure (\<lambda>(_, _, s). length s)") (auto simp: strip_prefix_Some)

definition braced :: "string \<Rightarrow> string" where
  "braced key = ''{'' @ key @ ''}''"

definition replace_arg :: "string \<times> string \<Rightarrow> string \<Rightarrow> string" where
  "replace_arg kv s = (case kv of (k, v) \<Rightarrow> replace_var k v (replace_var (braced k) v s))"

definition replace_args :: "(string \<times> string) list \<Rightarrow> string \<Rightarrow> string" where
  "replace_args m s = fold replace_arg m s"

definition is_from :: "string \<Rightarrow> bool" where
  "is_from line = starts_with (upper (trim line)) ''FROM''"

text \<open>The defaults of the \<open>ARG\<close> lines before the first \<open>FROM\<close>, where no build argument has the
  name.\<close>

definition global_arg :: "string \<Rightarrow> (string \<times> string) list \<Rightarrow> (string \<times> string) list" where
  "global_arg line m =
     (let t = trim line in
      if starts_with (upper t) ''ARG '' then
        (case split_once CHR ''='' (trim (drop 4 t)) of
           Some (k, v) \<Rightarrow> if map_of m (trim k) = None then AList.update (trim k) (trim v) m else m
         | None \<Rightarrow> m)
      else m)"

definition preprocess_args :: "string list \<Rightarrow> string \<Rightarrow> (string \<times> string) list" where
  "preprocess_args build_args content =
     fold global_arg (takeWhile (\<lambda>l. \<not> is_from l) (str_lines content)) (key_values build_args)"

definition resolve_line :: "(string \<times> string) list \<Rightarrow> string \<Rightarrow> string" where
  "resolve_line m line = (if is_from line then replace_args m line else line)"

type_synonym map_order = "(string \<times> string) list \<Rightarrow> (string \<times> string) list"

definition preprocess_dockerfile_args :: "map_order \<Rightarrow> nat \<Rightarrow> string \<Rightarrow> string list \<Rightarrow> fs \<Rightarrow> string option \<times> fs" where
  "preprocess_dockerfile_args order millis path build_args f =
     (case read_to_string f path of
        Inl _ \<Rightarrow> (None, f)
      | Inr content \<Rightarrow>
          if \<not> list_ex (\<lambda>l. is_from l \<and> CHR ''$'' \<in> set l) (str_lines content) then (None, f)
          else
            (let m = order (preprocess_args build_args content);
                 resolved = concat (map (\<lambda>l. resolve_line m l @ [nl]) (str_lines content));
                 tmp_path = path @ ''.pelagos-resolved'';
                 tmp_path2 = ''/tmp/pelagos-dockerfile-'' @ show_nat millis @ ''.resolved''
             in case write_file tmp_path resolved f of
                  (Inr _, f1) \<Rightarrow> (Some tmp_path, f1)
                | (Inl _, f1) \<Rightarrow>
                    (case write_file tmp_path2 resolved f1 of
                       (Inr _, f2) \<Rightarrow> (Some tmp_path2, f2)
                     | (Inl _, f2) \<Rightarrow> (None, f2))))"

section \<open>Base images\<close>

text \<open>\<open>str::find\<close> of a string.\<close>

fun find_str :: "string \<Rightarrow> string \<Rightarrow> nat option" where
  "find_str p [] = (if p = [] then Some 0 else None)"
| "find_str p (c # s) = (if starts_with (c # s) p then Some 0 else map_option Suc (find_str p s))"

definition from_image :: "string \<Rightarrow> string list \<times> string list \<Rightarrow> string list \<times> string list" where
  "from_image line st =
     (case st of (stage_names, images) \<Rightarrow>
        (let trimmed = trim line in
         if trimmed = [] \<or> starts_with trimmed ''#'' \<or> \<not> starts_with (upper trimmed) ''FROM '' then st
         else
           (let rest = trim (drop 5 trimmed);
                (image_part, stage) =
                  (case find_str '' AS '' (upper rest) of
                     Some idx \<Rightarrow> (trim (take idx rest), Some (trim (drop (idx + 4) rest)))
                   | None \<Rightarrow> (rest, None));
                img = (if starts_with image_part ''--'' then get_or (get_at (split_ws image_part) 1) [] else image_part);
                stage_names = (case stage of Some n \<Rightarrow> lower n # stage_names | None \<Rightarrow> stage_names)
            in if img = [] \<or> img = ''scratch'' \<or> starts_with img ''$'' \<or> lower img \<in> set stage_names
               then (stage_names, images)
               else (stage_names, images @ [img]))))"

definition parse_from_images :: "string \<Rightarrow> string list" where
  "parse_from_images dockerfile = snd (fold from_image (str_lines dockerfile) ([], []))"

text \<open>The name of the container that pulls, and the pull.\<close>

definition probe_name :: "string \<Rightarrow> string" where
  "probe_name img = ''pelagos-docker-pull-'' @ take 40 (map (\<lambda>c. if is_alnum c \<or> c = CHR ''-'' then c else CHR ''-'') img)"

definition pull_image_probe :: "shim_sys \<Rightarrow> config \<Rightarrow> string \<Rightarrow> u32 \<times> shim_event list" where
  "pull_image_probe sys cfg img = pull_probe sys cfg (probe_name img) img"

text \<open>A name with a dot or a slash is a reference to a registry, others are built locally.\<close>

definition registry_ref :: "string \<Rightarrow> bool" where
  "registry_ref img = (let name_part = hd (split_chr CHR '':'' img) in CHR ''.'' \<in> set name_part \<or> CHR ''/'' \<in> set name_part)"

fun pull_images :: "shim_sys \<Rightarrow> config \<Rightarrow> string list \<Rightarrow> u32 \<times> shim_event list" where
  "pull_images sys cfg [] = (0, [])"
| "pull_images sys cfg (img # imgs) =
     (if \<not> registry_ref img then pull_images sys cfg imgs
      else (case pull_image_probe sys cfg img of (rc, evs) \<Rightarrow>
        if rc \<noteq> 0 then (rc, evs)
        else (case pull_images sys cfg imgs of (rc', evs') \<Rightarrow> (rc', evs @ evs'))))"

definition base_images :: "map_order \<Rightarrow> string list \<Rightarrow> string \<Rightarrow> string list" where
  "base_images order build_args raw = parse_from_images (replace_args (order (key_values build_args)) raw)"

definition pull_base_images :: "shim_sys \<Rightarrow> config \<Rightarrow> map_order \<Rightarrow> string \<Rightarrow> string list \<Rightarrow> fs \<Rightarrow> u32 \<times> shim_event list" where
  "pull_base_images sys cfg order path build_args f =
     (case read_to_string f path of
        Inl _ \<Rightarrow> (1, [])
      | Inr raw \<Rightarrow> pull_images sys cfg (base_images order build_args raw))"

section \<open>The build\<close>

definition build_file :: "string \<Rightarrow> string \<Rightarrow> string" where
  "build_file context file = (if starts_with file ''/'' then file else context @ ''/'' @ file)"

definition build_sub_args :: "string \<Rightarrow> string \<Rightarrow> string list \<Rightarrow> bool \<Rightarrow> string \<Rightarrow> string list" where
  "build_sub_args tag dockerfile build_args no_cache context =
     [''build'', ''-t'', tag, ''-f'', dockerfile] @ flag_args ''--build-arg'' build_args
     @ (if no_cache then [''--no-cache''] else []) @ [context]"

definition cmd_build :: "shim_sys \<Rightarrow> config \<Rightarrow> map_order \<Rightarrow> nat \<Rightarrow> string \<Rightarrow> string \<Rightarrow> string list \<Rightarrow> bool \<Rightarrow> string \<Rightarrow> fs
    \<Rightarrow> u32 \<times> shim_event list \<times> fs" where
  "cmd_build sys cfg order millis tag file build_args no_cache context f =
     (let file = build_file context file in
      case preprocess_dockerfile_args order millis file build_args f of (resolved, f1) \<Rightarrow>
        (let dockerfile = get_or resolved file in
         case pull_base_images sys cfg order dockerfile build_args f1 of (rc, evs) \<Rightarrow>
           if rc \<noteq> 0 then (rc, evs, case resolved of Some p \<Rightarrow> remove_file p f1 | None \<Rightarrow> f1)
           else
             (let sub_args = build_sub_args tag dockerfile build_args no_cache context in
              (run_inherited sys cfg sub_args, evs @ [Ran sub_args], f1))))"

section \<open>Resolving variables\<close>

lemma replace_var_prefix: "CHR ''$'' \<notin> set pre \<Longrightarrow> replace_var k v (pre @ s) = pre @ replace_var k v s"
  by (induction pre) auto

lemma replace_var_none [simp]: "CHR ''$'' \<notin> set s \<Longrightarrow> replace_var k v s = s"
  using replace_var_prefix[of s k v "[]"] by simp

lemma replace_args_none: "CHR ''$'' \<notin> set s \<Longrightarrow> replace_args m s = s"
  by (induction m arbitrary: s) (auto simp: replace_args_def replace_arg_def)

text \<open>Names a variable can have.\<close>

definition var_name :: "string \<Rightarrow> bool" where
  "var_name k = (k \<noteq> [] \<and> CHR ''{'' \<notin> set k \<and> CHR ''}'' \<notin> set k)"

lemma braced_prefix:
  assumes "var_name k" "var_name k'"
  shows "strip_prefix (braced k) (braced k' @ s) = (if k = k' then Some s else None)"
proof (cases "strip_prefix (braced k) (braced k' @ s)")
  case None
  then show ?thesis by auto
next
  case (Some r)
  then have "k' @ ''}'' @ s = k @ ''}'' @ r" by (simp add: strip_prefix_Some braced_def)
  then have "split_once CHR ''}'' (k' @ CHR ''}'' # s) = split_once CHR ''}'' (k @ CHR ''}'' # r)" by simp
  then have "k = k' \<and> r = s" using assms by (simp add: var_name_def split_once_append)
  with Some show ?thesis by simp
qed

lemma replace_arg_braced:
  assumes "var_name k" "var_name K" "CHR ''$'' \<notin> set pre" "CHR ''$'' \<notin> set post" "CHR ''$'' \<notin> set K"
    and "k = K \<Longrightarrow> CHR ''$'' \<notin> set v"
  shows "replace_arg (k, v) (pre @ CHR ''$'' # braced K @ post) =
    (if k = K then pre @ v @ post else pre @ CHR ''$'' # braced K @ post)"
proof -
  have b: "CHR ''$'' \<notin> set (braced K @ post)" using assms by (simp add: braced_def)
  have "strip_prefix k (braced K @ post) = None"
    using assms(1) by (cases k) (auto simp: var_name_def braced_def)
  then show ?thesis
    using assms b by (simp add: replace_arg_def replace_var_prefix braced_prefix)
qed

lemma replace_args_braced:
  assumes "\<forall>k \<in> fst ` set m. var_name k" "var_name K" "CHR ''$'' \<notin> set pre" "CHR ''$'' \<notin> set post" "CHR ''$'' \<notin> set K"
    and "map_of m K = Some v" "CHR ''$'' \<notin> set v"
  shows "replace_args m (pre @ CHR ''$'' # braced K @ post) = pre @ v @ post"
  using assms
proof (induction m)
  case (Cons kv m)
  obtain k w where kv: "kv = (k, w)" by (cases kv)
  have step: "replace_arg (k, w) (pre @ CHR ''$'' # braced K @ post) =
      (if k = K then pre @ w @ post else pre @ CHR ''$'' # braced K @ post)"
    by (rule replace_arg_braced) (use Cons.prems kv in auto)
  show ?case
  proof (cases "k = K")
    case True
    with Cons.prems kv have "w = v" by simp
    with True step Cons.prems show ?thesis using replace_args_none[of "pre @ v @ post" m]
      by (simp add: kv replace_args_def)
  next
    case False
    with step Cons show ?thesis by (simp add: kv replace_args_def)
  qed
qed simp

text \<open>
  A \<open>FROM\<close> line with one variable in braces is resolved to the value of the build argument
  or, if there is none, of the global \<open>ARG\<close> default, in whatever order the hash map of the
  arguments is iterated and whatever the other arguments are: provided names of variables
  have no braces and the value has no dollar sign.
\<close>

lemma db_from_resolved:
  assumes "\<And>m. distinct (map fst m) \<Longrightarrow> distinct (map fst (order m)) \<and> set (order m) = set m"
    and "list_all (\<lambda>kv. var_name (fst kv)) (preprocess_args build_args content)"
    and "map_of (preprocess_args build_args content) K = Some v"
    and "CHR ''$'' \<notin> set (pre @ K @ v @ post)" and "is_from (pre @ ''${'' @ K @ ''}'' @ post)"
  shows "resolve_line (order (preprocess_args build_args content)) (pre @ ''${'' @ K @ ''}'' @ post) = pre @ v @ post"
proof -
  let ?m = "preprocess_args build_args content"
  have "distinct (map fst m) \<Longrightarrow> distinct (map fst (fold global_arg ls m))" for ls m
    by (induction ls arbitrary: m) (auto simp: global_arg_def Let_def distinct_update split: option.splits)
  then have d: "distinct (map fst ?m)" by (simp add: preprocess_args_def key_values_def)
  with assms(1)[OF d] have o: "map_of (order ?m) = map_of ?m" by (simp add: map_of_inject_set)
  have names: "\<forall>k \<in> fst ` set (order ?m). var_name k" using assms(1)[OF d] assms(2) by (auto simp: list_all_iff)
  have "K \<in> fst ` set ?m" using assms(3) map_of_SomeD by force
  then have "var_name K" using assms(2) by (auto simp: list_all_iff)
  from replace_args_braced[OF names this, of pre post v] show ?thesis
    using assms(3-5) by (simp add: resolve_line_def o braced_def)
qed

lemma db_from_resolved_witness:
  "resolve_line (rev (preprocess_args [''BASE=x/y''] ''ARG IMG=a.b/c'')) ''FROM ${IMG} AS s'' = ''FROM a.b/c AS s'' \<and>
   resolve_line (rev (preprocess_args [''IMG=x/y''] ''ARG IMG=a.b/c'')) ''FROM ${IMG} AS s'' = ''FROM x/y AS s''"
proof -
  have m: "preprocess_args [''BASE=x/y''] ''ARG IMG=a.b/c'' = [(''BASE'', ''x/y''), (''IMG'', ''a.b/c'')]"
    "preprocess_args [''IMG=x/y''] ''ARG IMG=a.b/c'' = [(''IMG'', ''x/y'')]" by code_simp+
  have line: "is_from (''FROM '' @ ''${'' @ ''IMG'' @ ''}'' @ '' AS s'')" by code_simp
  have ord: "distinct (map fst m) \<Longrightarrow> distinct (map fst (rev m)) \<and> set (rev m) = set m" for m :: "(string \<times> string) list"
    by (simp add: rev_map[symmetric])
  have "resolve_line (rev (preprocess_args [''BASE=x/y''] ''ARG IMG=a.b/c'')) (''FROM '' @ ''${'' @ ''IMG'' @ ''}'' @ '' AS s'')
      = ''FROM '' @ ''a.b/c'' @ '' AS s''"
    by (rule db_from_resolved[OF ord _ _ _ line]) (simp_all add: m var_name_def)
  moreover have "resolve_line (rev (preprocess_args [''IMG=x/y''] ''ARG IMG=a.b/c'')) (''FROM '' @ ''${'' @ ''IMG'' @ ''}'' @ '' AS s'')
      = ''FROM '' @ ''x/y'' @ '' AS s''"
    by (rule db_from_resolved[OF ord _ _ _ line]) (simp_all add: m var_name_def)
  ultimately show ?thesis by simp
qed

text \<open>Without braces the result depends on the order: the shorter of two names can win.\<close>

lemma bare_variable_order:
  "replace_args [(''BASE'', ''a''), (''BASE_IMAGE'', ''b'')] ''FROM $BASE_IMAGE'' = ''FROM a_IMAGE''"
  "replace_args [(''BASE_IMAGE'', ''b''), (''BASE'', ''a'')] ''FROM $BASE_IMAGE'' = ''FROM b''"
  by (simp_all add: replace_args_def replace_arg_def braced_def)

section \<open>What a build does\<close>

lemma pull_images_code:
  "fst (pull_images sys cfg imgs) =
     (case find (\<lambda>i. registry_ref i \<and> fst (pull_image_probe sys cfg i) \<noteq> 0) imgs of
        None \<Rightarrow> 0 | Some i \<Rightarrow> fst (pull_image_probe sys cfg i))"
  by (induction imgs) (auto split: prod.splits)

lemma no_build_event:
  "Ran (''build'' # xs) \<notin> set (snd (pull_image_probe sys cfg i))"
  by (auto simp: pull_image_probe_def pull_probe_def run_pelagos_def Let_def split: sum.splits)

lemma no_build_in_pulls: "Ran (''build'' # xs) \<notin> set (snd (pull_images sys cfg imgs))"
proof (induction imgs)
  case (Cons i imgs)
  then show ?case using no_build_event[of xs sys cfg i] by (auto split: prod.splits)
qed simp

lemma preprocess_frame:
  assumes "preprocess_dockerfile_args order millis path build_args f = (resolved, f1)"
  shows "(resolved = None \<longrightarrow> f1 = f) \<and>
    (\<forall>p. resolved = Some p \<longrightarrow> (\<forall>q. q \<noteq> p \<longrightarrow> files f1 q = files f q) \<and>
       p \<in> {path @ ''.pelagos-resolved'', ''/tmp/pelagos-dockerfile-'' @ show_nat millis @ ''.resolved''})"
  using assms
  by (auto simp: preprocess_dockerfile_args_def write_file_def Let_def split: sum.splits if_splits option.splits)

text \<open>
  \<open>docker build\<close> pulls the base images of the resolved Dockerfile that are references to a
  registry, in order. The first pull that fails gives the exit code, nothing is built, and
  the resolved copy of the Dockerfile is removed again. Otherwise \<open>pelagos build\<close> is run, once
  and last, on the resolved copy, and gives the exit code; the copy is left behind. No other
  file changes.
\<close>

lemma db_build_outcome:
  assumes "preprocess_dockerfile_args order millis (build_file context file) build_args f = (resolved, f1)"
    and "read_to_string f1 (get_or resolved (build_file context file)) = Inr text"
  shows "case cmd_build sys cfg order millis tag file build_args no_cache context f of (code, evs, f') \<Rightarrow>
    (let dockerfile = get_or resolved (build_file context file);
         build = build_sub_args tag dockerfile build_args no_cache context
     in (\<forall>q. resolved \<noteq> Some q \<longrightarrow> files f' q = files f q) \<and>
        (case find (\<lambda>i. registry_ref i \<and> fst (pull_image_probe sys cfg i) \<noteq> 0) (base_images order build_args text) of
           Some img \<Rightarrow> code = fst (pull_image_probe sys cfg img) \<and> (\<forall>xs. Ran (''build'' # xs) \<notin> set evs) \<and>
             (\<forall>p. resolved = Some p \<longrightarrow> files f' p = None)
         | None \<Rightarrow> code = run_inherited sys cfg build \<and> (\<exists>pulls. evs = pulls @ [Ran build] \<and> (\<forall>xs. Ran (''build'' # xs) \<notin> set pulls)) \<and>
             (\<forall>p. resolved = Some p \<longrightarrow> files f' p \<noteq> None)))"
proof -
  let ?imgs = "base_images order build_args text"
  let ?fail = "find (\<lambda>i. registry_ref i \<and> fst (pull_image_probe sys cfg i) \<noteq> 0) ?imgs"
  have pulls: "pull_base_images sys cfg order (get_or resolved (build_file context file)) build_args f1 = pull_images sys cfg ?imgs"
    by (simp add: pull_base_images_def assms(2))
  obtain rc evs where r: "pull_images sys cfg ?imgs = (rc, evs)" by (rule prod.exhaust)
  have nb: "\<forall>xs. Ran (''build'' # xs) \<notin> set evs" using no_build_in_pulls[of _ sys cfg ?imgs] r by simp
  note frame = preprocess_frame[OF assms(1)]
  have present: "\<forall>p. resolved = Some p \<longrightarrow> files f1 p \<noteq> None"
    using assms(2) by (auto simp: get_or_def read_to_string_def split: option.splits)
  show ?thesis
  proof (cases ?fail)
    case None
    then have "rc = 0" using pull_images_code[of sys cfg ?imgs] r by simp
    then have "cmd_build sys cfg order millis tag file build_args no_cache context f =
        (run_inherited sys cfg (build_sub_args tag (get_or resolved (build_file context file)) build_args no_cache context),
         evs @ [Ran (build_sub_args tag (get_or resolved (build_file context file)) build_args no_cache context)], f1)"
      by (simp add: cmd_build_def assms(1) pulls r Let_def)
    then show ?thesis using None nb frame present by (cases resolved) (simp_all add: Let_def)
  next
    case (Some img)
    then have rc: "rc = fst (pull_image_probe sys cfg img)" using pull_images_code[of sys cfg ?imgs] r by simp
    moreover from Some have "fst (pull_image_probe sys cfg img) \<noteq> 0" by (auto simp: find_Some_iff)
    ultimately have "cmd_build sys cfg order millis tag file build_args no_cache context f =
        (rc, evs, case resolved of Some p \<Rightarrow> remove_file p f1 | None \<Rightarrow> f1)"
      by (simp add: cmd_build_def assms(1) pulls r Let_def)
    then show ?thesis using Some nb frame rc by (cases resolved) (simp_all add: Let_def remove_file_def)
  qed
qed

text \<open>A Dockerfile whose base is a build argument, on a registry that cannot be reached.\<close>

definition demo_dockerfile :: fs where
  "demo_dockerfile = demo_fs\<lparr>files := [''/c/Dockerfile'' \<mapsto> Inr ''FROM ${B}'']\<rparr>"

definition demo_offline :: shim_sys where
  "demo_offline = demo_sys\<lparr>sh_capture := (\<lambda>_. Inr (Some 125, []))\<rparr>"

lemma db_build_outcome_witness:
  "\<exists>evs f'. cmd_build demo_offline demo_cfg id 0 ''t'' ''Dockerfile'' [''B=a.b/c''] False ''/c'' demo_dockerfile = (125, evs, f') \<and>
     (\<forall>xs. Ran (''build'' # xs) \<notin> set evs) \<and> files f' ''/c/Dockerfile'' = Some (Inr ''FROM ${B}'') \<and>
     files f' ''/c/Dockerfile.pelagos-resolved'' = None"
proof -
  define r where "r = ''/c/Dockerfile.pelagos-resolved''"
  define f1 where "f1 = snd (write_file r (''FROM a.b/c'' @ [nl]) demo_dockerfile)"
  have path: "build_file ''/c'' ''Dockerfile'' = ''/c/Dockerfile''" by code_simp
  have facts: "list_ex (\<lambda>l. is_from l \<and> CHR ''$'' \<in> set l) (str_lines ''FROM ${B}'')"
    "concat (map (\<lambda>l. resolve_line (preprocess_args [''B=a.b/c''] ''FROM ${B}'') l @ [nl]) (str_lines ''FROM ${B}'')) = ''FROM a.b/c'' @ [nl]"
    "base_images id [''B=a.b/c''] (''FROM a.b/c'' @ [nl]) = [''a.b/c'']" "registry_ref ''a.b/c''"
    by code_simp+
  have pre: "preprocess_dockerfile_args id 0 (build_file ''/c'' ''Dockerfile'') [''B=a.b/c''] demo_dockerfile = (Some r, f1)"
    unfolding path preprocess_dockerfile_args_def read_to_string_def f1_def r_def
    by (simp add: facts demo_dockerfile_def demo_fs_def write_file_def Let_def)
  have read: "read_to_string f1 (get_or (Some r) (build_file ''/c'' ''Dockerfile'')) = Inr (''FROM a.b/c'' @ [nl])"
    by (simp add: f1_def get_or_def read_to_string_def write_file_def demo_dockerfile_def demo_fs_def)
  have pull: "fst (pull_image_probe demo_offline demo_cfg ''a.b/c'') = 125"
    by (simp add: pull_image_probe_def pull_probe_def run_pelagos_def demo_offline_def demo_sys_def get_or_def)
  obtain code evs f' where b: "cmd_build demo_offline demo_cfg id 0 ''t'' ''Dockerfile'' [''B=a.b/c''] False ''/c'' demo_dockerfile = (code, evs, f')"
    by (rule prod_cases3)
  have "r \<noteq> ''/c/Dockerfile''" by (simp add: r_def)
  then show ?thesis
    using db_build_outcome[OF pre read, where sys = demo_offline and cfg = demo_cfg and tag = "''t''" and no_cache = False] b pull facts(3,4)
    by (simp add: Let_def r_def demo_dockerfile_def)
qed

end
