(* ===== verification/Bind_Mounts.thy ===== *)
theory Bind_Mounts
  imports Run_Command Docker_Build
begin

text \<open>
  A bind mount on its way through the program: the option \<open>-v\<close> of the command line becomes a
  share of the machine and a mount in the message to the guest (\<open>pelagos-mac\<close>), the guest turns
  the mount into an option of the container runtime (\<open>pelagos-guest\<close>), and the Docker shim
  translates the path it finds there back to a path of the host (\<open>pelagos-docker\<close>).
\<close>

section \<open>Shares\<close>

text \<open>With the home directory shared first, the shares are those of the volumes outside it.\<close>

lemma effective_volumes:
  assumes "CHR '':'' \<notin> set h"
  shows "build_virtiofs_shares (Some h) exists volumes =
    parse_volumes exists ((h @ '':'') # filter (\<lambda>v. \<not> under_home (Some h) v) volumes)"
proof -
  have "under_home (Some h) (h @ '':'')"
    using assms by (simp add: under_home_def split_chr_append)
  then show ?thesis
    by (cases volumes) (auto simp: build_virtiofs_shares_def)
qed

lemma parse_volumes_from_nth:
  assumes "parse_volumes_from exists n vs = Some ss"
  shows "length ss = length vs \<and> (\<forall>i < length vs. parse_volume exists (n + i) (vs ! i) = Some (ss ! i))"
  using assms
proof (induction vs arbitrary: n ss)
  case (Cons v vs)
  then obtain s ss' where s: "parse_volume exists n v = Some s" "parse_volumes_from exists (Suc n) vs = Some ss'" "ss = s # ss'"
    by (auto simp: parse_volumes_from_Cons split: option.splits)
  with Cons.IH[of "Suc n" ss'] show ?case by (auto simp: nth_Cons split: nat.split)
qed (simp add: parse_volumes_from_def)

text \<open>The tags of a machine with at most ten shares.\<close>

definition short_tag :: "string \<Rightarrow> bool" where
  "short_tag t = (t = ''pelagos-volumes'' \<or> (\<exists>d < 10. t = ''share'' @ [digit_chr d]))"

lemma digit_chr_inject: "i < 10 \<Longrightarrow> k < 10 \<Longrightarrow> digit_chr i = digit_chr k \<Longrightarrow> i = k"
  by (metis add_left_cancel of_char_digit_chr)

lemma short_tag_apart:
  assumes "short_tag t" "short_tag t'" "t \<noteq> t'"
  shows "strip_prefix (''/mnt/'' @ t') (''/mnt/'' @ t @ suffix) = None"
proof -
  consider d where "t = ''pelagos-volumes''" "t' = ''share'' @ [digit_chr d]"
    | d where "t' = ''pelagos-volumes''" "t = ''share'' @ [digit_chr d]"
    | d d' where "t = ''share'' @ [digit_chr d]" "t' = ''share'' @ [digit_chr d']"
    using assms unfolding short_tag_def by blast
  then show ?thesis using assms(3) by cases auto
qed

lemma translate_share:
  assumes "s \<in> set shares" "distinct (map share_tag shares)" "list_all (\<lambda>s. short_tag (share_tag s)) shares"
  shows "translate_path (''/mnt/'' @ share_tag s @ suffix) (map (\<lambda>s. (share_tag s, share_host s)) shares) =
    Some (if suffix = [] then share_host s else trim_end_slashes (share_host s) @ suffix)"
  using assms
proof (induction shares)
  case (Cons s' shares)
  show ?case
  proof (cases "share_tag s' = share_tag s")
    case True
    then have "s' = s" using Cons.prems by (auto simp: image_iff)
    then show ?thesis using strip_prefix_append[of "''/mnt/'' @ share_tag s" suffix] by simp
  next
    case False
    then have "s \<in> set shares" using Cons.prems by auto
    then have "short_tag (share_tag s)" using Cons.prems by (auto simp: list_all_iff)
    then have "strip_prefix (''/mnt/'' @ share_tag s') (''/mnt/'' @ share_tag s @ suffix) = None"
      using short_tag_apart False Cons.prems by simp
    then show ?thesis using Cons.IH \<open>s \<in> set shares\<close> Cons.prems
      by (simp del: strip_prefix.simps)
  qed
qed simp

lemma digit_chr_0: "digit_chr 0 = CHR ''0''"
  by code_simp

lemma digit_chr_no_colon: "d < 10 \<Longrightarrow> CHR '':'' \<noteq> digit_chr d"
  using is_digit_digit_chr[of d] not_digit_seps by metis

lemma show_nat_digit: "n < 10 \<Longrightarrow> show_nat n = [digit_chr n]"
  by (subst show_nat.simps) simp

lemma daemon_shares_tags:
  assumes "home_dir e = Some h" "CHR '':'' \<notin> set h" "daemon_shares e exists profile volumes = Some shares"
    and "length shares \<le> 11"
  shows "distinct (map share_tag shares)" "list_all (\<lambda>s. short_tag (share_tag s)) shares"
    and "\<exists>s \<in> set shares. share_tag s = ''share0'' \<and> share_host s = h"
    and "v \<in> set volumes \<Longrightarrow> \<not> under_home (Some h) v \<Longrightarrow> \<exists>s \<in> set shares. share_host s = hd (split_chr CHR '':'' v)"
proof -
  let ?vs = "(h @ '':'') # filter (\<lambda>v. \<not> under_home (Some h) v) volumes"
  obtain ss where ss: "parse_volumes_from exists 0 ?vs = Some ss"
    and shares: "shares = volumes_share (pelagos_volumes_host_path e profile) # ss"
    using assms(1,3) by (auto simp: daemon_shares_def effective_volumes[OF assms(2)] parse_volumes_def)
  from parse_volumes_from_nth[OF ss] have len: "length ss = length ?vs"
    and nth: "\<And>i. i < length ss \<Longrightarrow> parse_volume exists i (?vs ! i) = Some (ss ! i)" by auto
  have ten: "length ss \<le> 10" using assms(4) shares by simp
  have tag: "share_tag (ss ! i) = ''share'' @ [digit_chr i]" if "i < length ss" for i
    using parse_volume_Some(4)[OF nth[OF that]] that ten by (simp add: show_nat_digit)
  have "short_tag (share_tag s)" if "s \<in> set ss" for s
  proof -
    from that obtain i where "i < length ss" "s = ss ! i" by (metis in_set_conv_nth)
    then show ?thesis using tag ten unfolding short_tag_def by (metis order_less_le_trans)
  qed
  then show "list_all (\<lambda>s. short_tag (share_tag s)) shares"
    by (simp add: shares list_all_iff volumes_share_def short_tag_def)
  have "distinct (map share_tag ss)"
    using tag ten digit_chr_inject by (auto simp: distinct_conv_nth)
  moreover have "''pelagos-volumes'' \<notin> set (map share_tag ss)"
    using tag by (auto simp: in_set_conv_nth)
  ultimately show "distinct (map share_tag shares)" by (simp add: shares volumes_share_def)
  have host: "share_host (ss ! i) = hd (split_chr CHR '':'' (?vs ! i))" if "i < length ss" for i
    using parse_volume_Some(5)[OF nth[OF that]] by simp
  have pos: "0 < length ss" using len by simp
  show "\<exists>s \<in> set shares. share_tag s = ''share0'' \<and> share_host s = h"
    using tag[OF pos] host[OF pos] pos assms(2) unfolding shares
    by (intro bexI[of _ "ss ! 0"]) (simp_all add: split_chr_append digit_chr_0)
  assume v: "v \<in> set volumes" "\<not> under_home (Some h) v"
  then have "v \<in> set ?vs" by simp
  then obtain i where "i < length ss" "?vs ! i = v" using len by (metis in_set_conv_nth)
  then show "\<exists>s \<in> set shares. share_host s = hd (split_chr CHR '':'' v)"
    using host by (metis list.set_intros(2) nth_mem shares)
qed

section \<open>The round trip\<close>

lemma two_parts:
  assumes "CHR '':'' \<notin> set host" "CHR '':'' \<notin> set path"
  shows "splitn3 CHR '':'' (host @ '':'' @ path) = [host, path]" "hd (split_chr CHR '':'' (host @ '':'' @ path)) = host"
  using assms by (simp_all add: splitn3_def split_once_append split_once_None split_chr_append)

lemma guest_mount_parts:
  assumes "CHR '':'' \<notin> set host" "CHR '':'' \<notin> set path"
  shows "guest_mount_of h shares (host @ '':'' @ path) =
    (if h \<noteq> [] \<and> (host = h \<or> starts_with host (h @ ''/'')) then
       Some \<lparr>mount_tag = ''share0'', mount_subpath = (case strip_prefix (h @ ''/'') host of Some s \<Rightarrow> s | None \<Rightarrow> []),
         mount_container_path = path\<rparr>
     else map_option (\<lambda>s. \<lparr>mount_tag = share_tag s, mount_subpath = [], mount_container_path = path\<rparr>)
            (find (\<lambda>s. path_eq (share_host s) host) shares))"
  unfolding guest_mount_of_def two_parts[OF assms] by simp

lemma under_home_parts:
  "CHR '':'' \<notin> set host \<Longrightarrow> under_home (Some h) (host @ '':'' @ path) \<longleftrightarrow> host = h \<or> starts_with host (h @ ''/'')"
  by (simp add: under_home_def split_chr_append)

lemma no_slash_end: "h \<noteq> [] \<Longrightarrow> last h \<noteq> CHR ''/'' \<Longrightarrow> trim_end_slashes h = h"
  by (cases h rule: rev_cases) (simp_all add: trim_end_slashes_def)

lemma mount_of_share:
  assumes "home_dir e = Some h" "h \<noteq> []" "CHR '':'' \<notin> set h" "last h \<noteq> CHR ''/''"
    and "daemon_shares e exists profile volumes = Some shares" "length shares \<le> 11"
    and "host @ '':'' @ path \<in> set volumes" "CHR '':'' \<notin> set host" "CHR '':'' \<notin> set path"
    and "\<And>r. host = h @ ''/'' @ r \<Longrightarrow> r \<noteq> [] \<and> hd r \<noteq> CHR ''/''"
    and "\<And>s. s \<in> set shares \<Longrightarrow> path_eq (share_host s) host \<Longrightarrow> share_host s = host"
  obtains s suffix m where "s \<in> set shares" "guest_mount_of h shares (host @ '':'' @ path) = Some m"
    "mount_container_path m = path" "mount_source m = ''/mnt/'' @ share_tag s @ suffix"
    "(if suffix = [] then share_host s else trim_end_slashes (share_host s) @ suffix) = host"
proof (cases "under_home (Some h) (host @ '':'' @ path)")
  case True
  then have under: "host = h \<or> starts_with host (h @ ''/'')" using under_home_parts[OF assms(8)] by blast
  obtain s where s: "s \<in> set shares" "share_tag s = ''share0''" "share_host s = h"
    using daemon_shares_tags(3)[OF assms(1,3,5,6)] by blast
  from under consider "host = h" | r where "host = h @ ''/'' @ r"
    by (auto simp: starts_with_def strip_prefix_Some)
  then show ?thesis
  proof cases
    case 1
    have "strip_prefix (h @ ''/'') h = None" by (cases "strip_prefix (h @ ''/'') h") (auto simp: strip_prefix_Some)
    then have "guest_mount_of h shares (host @ '':'' @ path) =
        Some \<lparr>mount_tag = ''share0'', mount_subpath = [], mount_container_path = path\<rparr>"
      using 1 assms(2) unfolding guest_mount_parts[OF assms(8,9)] by simp
    then show ?thesis using that[OF s(1), of _ "[]"] s 1 by (simp add: mount_source_def)
  next
    case (2 r)
    have r: "r \<noteq> []" "hd r \<noteq> CHR ''/''" using assms(10)[OF 2] by auto
    have "strip_prefix (h @ ''/'') (h @ ''/'' @ r) = Some r" using strip_prefix_append[of "h @ ''/''" r] by simp
    then have "guest_mount_of h shares (host @ '':'' @ path) =
        Some \<lparr>mount_tag = ''share0'', mount_subpath = r, mount_container_path = path\<rparr>"
      using 2 assms(2) unfolding guest_mount_parts[OF assms(8,9)] by (simp add: starts_with_def)
    moreover have "dropWhile (\<lambda>c. c = CHR ''/'') r = r" using r by (cases r) auto
    ultimately show ?thesis
      using that[OF s(1), of _ "''/'' @ r"] s 2 r no_slash_end[OF assms(2,4)] by (simp add: mount_source_def)
  qed
next
  case False
  then have not_under: "\<not> (host = h \<or> starts_with host (h @ ''/''))"
    using under_home_parts[OF assms(8)] by blast
  obtain s0 where "s0 \<in> set shares" "share_host s0 = host"
    using daemon_shares_tags(4)[OF assms(1,3,5,6,7) False] two_parts(2)[OF assms(8,9)] by auto
  then obtain s where s: "find (\<lambda>s. path_eq (share_host s) host) shares = Some s"
    by (cases "find (\<lambda>s. path_eq (share_host s) host) shares") (auto simp: find_None_iff path_eq_def)
  then have mem: "s \<in> set shares" "share_host s = host" using assms(11) by (auto simp: find_Some_iff)
  have "guest_mount_of h shares (host @ '':'' @ path) =
      Some \<lparr>mount_tag = share_tag s, mount_subpath = [], mount_container_path = path\<rparr>"
    using not_under s unfolding guest_mount_parts[OF assms(8,9)] by simp
  then show ?thesis using that[OF mem(1), of _ "[]"] mem by (simp add: mount_source_def)
qed

lemma mount_translated:
  assumes "home_dir e = Some h" "CHR '':'' \<notin> set h"
    and "daemon_shares e exists profile volumes = Some shares" "length shares \<le> 11"
    and "s \<in> set shares" "CHR '':'' \<notin> set suffix"
  shows "translate_volume_spec ((''/mnt/'' @ share_tag s @ suffix) @ '':'' @ path) (map (\<lambda>s. (share_tag s, share_host s)) shares) =
    (if suffix = [] then share_host s else trim_end_slashes (share_host s) @ suffix) @ '':'' @ path"
proof -
  note tags = daemon_shares_tags[OF assms(1-4)]
  have "short_tag (share_tag s)" using tags(2) assms(5) by (simp add: list_all_iff)
  then have "CHR '':'' \<notin> set (share_tag s)" by (auto simp: short_tag_def digit_chr_no_colon)
  then have "split_once CHR '':'' ((''/mnt/'' @ share_tag s @ suffix) @ '':'' @ path) = Some (''/mnt/'' @ share_tag s @ suffix, path)"
    using assms(6) split_once_append[of "CHR '':''" "''/mnt/'' @ share_tag s @ suffix" path] by simp
  then show ?thesis
    using translate_share[OF assms(5) tags(1,2)]
    by (simp only: translate_volume_spec_def option.case prod.case)
qed

text \<open>
  C17: A bind mount \<open>-v HOST:PATH\<close> of the command line, without a third part such as \<open>:ro\<close>, reaches the
  container, and is shown as it was given: the shares the machine is started with contain a share for it, the message to
  the guest has a mount for it, and the option the guest passes to the container runtime,
  translated back by the Docker shim with the shares of the machine, is \<open>HOST:PATH\<close> again. It
  is assumed that the home directory is known, its path without a colon and not ended by a slash,
  that a host path under it goes on with a name after the separator, that no share has the host path in
  another spelling, and that there are at most ten shares beside the one of the named volumes. The
  lemmas after it show what happens to a third part and with more shares.
\<close>

theorem bm_round_trip:
  assumes "home_dir e = Some h" and "h \<noteq> []" and "CHR '':'' \<notin> set h" and "last h \<noteq> CHR ''/''"
    and "daemon_shares e exists profile volumes = Some shares" and "length shares \<le> 11"
    and "host @ '':'' @ path \<in> set volumes" and "CHR '':'' \<notin> set host" and "CHR '':'' \<notin> set path"
    and "\<And>r. host = h @ ''/'' @ r \<Longrightarrow> r \<noteq> [] \<and> hd r \<noteq> CHR ''/''"
    and "\<And>s. s \<in> set shares \<Longrightarrow> path_eq (share_host s) host \<Longrightarrow> share_host s = host"
  shows "\<exists>m. guest_mount_of h shares (host @ '':'' @ path) = Some m \<and>
    translate_volume_spec (mount_source m @ '':'' @ mount_container_path m)
      (map (\<lambda>s. (share_tag s, share_host s)) shares) = host @ '':'' @ path"
proof -
  obtain s suffix m where m: "s \<in> set shares" "guest_mount_of h shares (host @ '':'' @ path) = Some m"
    "mount_container_path m = path" "mount_source m = ''/mnt/'' @ share_tag s @ suffix"
    "(if suffix = [] then share_host s else trim_end_slashes (share_host s) @ suffix) = host"
    by (rule mount_of_share[OF assms])
  have "CHR '':'' \<notin> set suffix" using m(5) assms(8) by (auto split: if_splits)
  from mount_translated[OF assms(1,3,5,6) m(1) this, of path] show ?thesis
    unfolding m(5) using m(2,3,4) by (intro exI[of _ m]) (simp only:)
qed

definition demo_volumes :: "string list" where
  "demo_volumes = [''/Users/cb/src:/src'', ''/opt/data:/data'']"

definition demo_user :: env where
  "demo_user = \<lparr>xdg_data_home = None, home_dir = Some ''/Users/cb''\<rparr>"

theorem bm_round_trip_witness:
  "\<exists>shares m. daemon_shares demo_user (\<lambda>_. True) ''default'' demo_volumes = Some shares \<and>
     guest_mount_of ''/Users/cb'' shares ''/Users/cb/src:/src'' = Some m \<and> mount_source m = ''/mnt/share0/src'' \<and>
     translate_volume_spec (mount_source m @ '':'' @ mount_container_path m)
       (map (\<lambda>s. (share_tag s, share_host s)) shares) = ''/Users/cb/src:/src''"
proof -
  define shares where "shares = the (daemon_shares demo_user (\<lambda>_. True) ''default'' demo_volumes)"
  have e: "home_dir demo_user = Some ''/Users/cb''" by (simp add: demo_user_def)
  have some: "daemon_shares demo_user (\<lambda>_. True) ''default'' demo_volumes = Some shares \<and> length shares = 3"
    unfolding shares_def by code_simp
  have under: "r \<noteq> [] \<and> hd r \<noteq> CHR ''/''" if "''/Users/cb/src'' = ''/Users/cb'' @ ''/'' @ r" for r
    using that by auto
  have "list_all (\<lambda>s. path_eq (share_host s) ''/Users/cb/src'' \<longrightarrow> share_host s = ''/Users/cb/src'') shares"
    unfolding shares_def by code_simp
  then have spelling: "share_host s = ''/Users/cb/src''" if "s \<in> set shares" "path_eq (share_host s) ''/Users/cb/src''" for s
    using that by (auto simp: list_all_iff)
  have "\<exists>m. guest_mount_of ''/Users/cb'' shares (''/Users/cb/src'' @ '':'' @ ''/src'') = Some m \<and>
    translate_volume_spec (mount_source m @ '':'' @ mount_container_path m)
      (map (\<lambda>s. (share_tag s, share_host s)) shares) = ''/Users/cb/src'' @ '':'' @ ''/src''"
    by (rule bm_round_trip[OF e _ _ _ conjunct1[OF some] _ _ _ _ under spelling]) (simp_all add: some demo_volumes_def)
  moreover have "map_option mount_source (guest_mount_of ''/Users/cb'' shares ''/Users/cb/src:/src'') = Some ''/mnt/share0/src''"
    unfolding shares_def by code_simp
  ultimately show ?thesis using some by auto
qed

text \<open>With more shares the tag of one is the beginning of the tag of another, and the path of the
  wrong share is found.\<close>

lemma long_tags_confused:
  "translate_volume_spec ''/mnt/share10:/x'' [(''share1'', ''/b''), (''share10'', ''/k'')] = ''/b0:/x''"
  by code_simp

text \<open>The mode of a volume does not reach the guest. A volume outside the home directory has a share
  of its own, which is read-only; a volume under it uses the writable share of the home
  directory, and \<open>:ro\<close> is lost.\<close>

lemma read_only_dropped:
  assumes "CHR '':'' \<notin> set host" "CHR '':'' \<notin> set path"
  shows "guest_mount_of h shares (host @ '':'' @ path @ '':ro'') = guest_mount_of h shares (host @ '':'' @ path)"
proof -
  have "splitn3 CHR '':'' (host @ '':'' @ path @ '':ro'') = [host, path, ''ro'']"
    using assms by (simp add: splitn3_def split_once_append)
  then show ?thesis unfolding guest_mount_of_def two_parts[OF assms] by simp
qed

end
