(* ===== verification/File_Copy.thy ===== *)
theory File_Copy
  imports Json_Text
begin

text \<open>
  Copying files between host and container (\<open>cp_from_command\<close> and \<open>cp_to_command\<close> in
  \<open>pelagos-mac/src/main.rs\<close>, \<open>handle_cp_from\<close> and \<open>handle_cp_to\<close> in \<open>pelagos-guest/src/main.rs\<close>): a tar
  archive travels as raw bytes between JSON lines on the same connection, so both sides have
  to agree where it begins and ends. The \<open>tar\<close> programs and the namespaces of the container are
  parameters. The commands that wait for one reply (\<open>ping\<close>, \<open>version\<close>, the status of Kubernetes)
  are here too.
\<close>

section \<open>Lines and bytes of one connection\<close>

text \<open>\<open>BufRead::read_line\<close>: the line with its newline and what follows; \<open>None\<close> at the end.\<close>

definition read_line :: "string \<Rightarrow> (string \<times> string) option" where
  "read_line s =
     (if s = [] then None
      else (case split_once nl s of Some (l, r) \<Rightarrow> Some (l @ [nl], r) | None \<Rightarrow> Some (s, [])))"

lemma read_line_shorter: "read_line s = Some (l, r) \<Longrightarrow> length r < length s"
  by (auto simp: read_line_def split_once_Some split: if_splits option.splits)

text \<open>\<open>send_response\<close>\<close>

definition send_response :: "(json \<Rightarrow> string) \<Rightarrow> guest_response \<Rightarrow> string" where
  "send_response to_json r = to_json (ser_response r) @ [nl]"

text \<open>What is written to a connection that carries raw bytes between lines.\<close>

datatype sent = Reply guest_response | Raw string

fun sent_bytes :: "(json \<Rightarrow> string) \<Rightarrow> sent \<Rightarrow> string" where
  "sent_bytes to_json (Reply r) = send_response to_json r"
| "sent_bytes to_json (Raw s) = s"

definition wire :: "(json \<Rightarrow> string) \<Rightarrow> sent list \<Rightarrow> string" where
  "wire to_json xs = concat (map (sent_bytes to_json) xs)"

section \<open>Paths\<close>

text \<open>\<open>Path::parent\<close> (written with single separators) and \<open>Path::file_name\<close>.\<close>

definition path_parent :: "string \<Rightarrow> string option" where
  "path_parent p =
     (let cs = path_comps p in
      if cs = [] then None
      else Some ((if starts_with p ''/'' then ''/'' else []) @ join ''/'' (butlast cs)))"

definition path_file_name :: "string \<Rightarrow> string option" where
  "path_file_name p =
     (let cs = path_comps p in if cs = [] \<or> last cs = ''.'' \<or> last cs = ''..'' then None else Some (last cs))"

text \<open>\<open>Option::filter(|s| !s.is_empty())\<close> and a default.\<close>

definition nonempty_or :: "string option \<Rightarrow> string \<Rightarrow> string" where
  "nonempty_or v d = (case v of Some s \<Rightarrow> if s = [] then d else s | None \<Rightarrow> d)"

definition some_or :: "'a option \<Rightarrow> 'a \<Rightarrow> 'a" where
  "some_or v d = (case v of Some x \<Rightarrow> x | None \<Rightarrow> d)"

definition parse_container_path :: "string \<Rightarrow> (string \<times> string) option" where
  "parse_container_path s =
     (if starts_with s ''/'' \<or> starts_with s ''.'' \<or> s = ''-'' then None
      else (case split_once CHR '':'' s of
              None \<Rightarrow> None
            | Some (container, path) \<Rightarrow> if container = [] \<or> path = [] then None else Some (container, path)))"

text \<open>Which argument of \<open>cp\<close> is in a container: paths of the host are recognised by their first
  character, and a container name does not contain a colon.\<close>

lemma container_path:
  assumes "c \<noteq> []" and "p \<noteq> []" and "CHR '':'' \<notin> set c" and "hd c \<notin> {CHR ''/'', CHR ''.''}"
  shows "parse_container_path (c @ CHR '':'' # p) = Some (c, p)"
  using assms by (cases c) (auto simp: parse_container_path_def starts_with_def split_once_append)

lemma host_path: "s \<noteq> [] \<Longrightarrow> hd s \<in> {CHR ''/'', CHR ''.''} \<Longrightarrow> parse_container_path s = None"
  by (cases s) (auto simp: parse_container_path_def starts_with_def)

section \<open>Out of the container\<close>

text \<open>Entering the namespaces of a container: where it failed.\<close>

datatype entered = NoPid string | NoNamespaces string | NoRoot string | Entered

fun enter_error :: "entered \<Rightarrow> string option" where
  "enter_error (NoPid e) = Some (''cp: '' @ e)"
| "enter_error (NoNamespaces e) = Some (''cp: open ns fds: '' @ e)"
| "enter_error (NoRoot e) = Some (''cp: open root fd: '' @ e)"
| "enter_error Entered = None"

record tar_output =
  tar_code :: "u32 option"
  tar_stdout :: string
  tar_stderr :: string

definition cp_source :: "string \<Rightarrow> string list" where
  "cp_source src = [''-cC'', nonempty_or (path_parent src) ''/'', some_or (path_file_name src) ''.'']"

definition handle_cp_from :: "entered \<Rightarrow> (string list \<Rightarrow> string + tar_output) \<Rightarrow> string \<Rightarrow> sent list" where
  "handle_cp_from ent tar src =
     (case enter_error ent of
        Some e \<Rightarrow> [Reply (GError e)]
      | None \<Rightarrow>
          (case tar (cp_source src) of
             Inl e \<Rightarrow> [Reply (GError e)]
           | Inr out \<Rightarrow>
               if tar_code out \<noteq> Some 0 then
                 [Reply (GError (''cp: tar failed (exit '' @ show_i32 (code_of (tar_code out)) @ ''): '' @ trim (tar_stderr out)))]
               else
                 [Reply (GRawBytes (of_nat (length (tar_stdout out)))), Raw (tar_stdout out), Reply (GExit 0)]))"

definition cp_dst_dir :: "(string \<Rightarrow> bool) \<Rightarrow> string \<Rightarrow> string" where
  "cp_dst_dir is_dir dst = (if is_dir dst then dst else some_or (path_parent dst) ''.'')"

text \<open>The host: what it extracts, and the exit code. \<open>extract dir data\<close> tells whether \<open>tar\<close> could be
  started and whether it succeeded.\<close>

function cp_from_loop :: "(string \<Rightarrow> json option) \<Rightarrow> (string \<Rightarrow> bool option) \<Rightarrow> string \<Rightarrow> string list \<times> u32" where
  "cp_from_loop from_json extract s =
     (case read_line s of
        None \<Rightarrow> ([], 1)
      | Some (line, rest) \<Rightarrow>
          (let trimmed = trim_end line in
           if trimmed = [] then cp_from_loop from_json extract rest
           else (case Option.bind (from_json trimmed) de_response of
                   Some (HRawBytes len) \<Rightarrow>
                     (let data = take (unat len) rest in
                      case extract data of
                        None \<Rightarrow> ([], 1)
                      | Some ok \<Rightarrow>
                          if ok then apfst (Cons data) (cp_from_loop from_json extract (drop (unat len) rest)) else ([data], 1))
                 | Some (HError _) \<Rightarrow> ([], 1)
                 | Some (HExit e) \<Rightarrow> ([], e)
                 | Some _ \<Rightarrow> cp_from_loop from_json extract rest
                 | None \<Rightarrow> ([], 1))))"
  by pat_completeness auto
termination
  by (relation "measure (\<lambda>(_, _, s). length s)") (auto dest: read_line_shorter)

text \<open>The command; \<open>guest\<close> is what the guest writes in answer to a request, \<open>None\<close> when the request
  cannot be written.\<close>

definition cp_from_request :: "(json \<Rightarrow> string) \<Rightarrow> string \<Rightarrow> string \<Rightarrow> string" where
  "cp_from_request to_json container src = to_json (ser_command (HCpFrom container src)) @ [nl]"

definition cp_from_command :: "(json \<Rightarrow> string) \<Rightarrow> (string \<Rightarrow> json option) \<Rightarrow> (string \<Rightarrow> bool)
    \<Rightarrow> (string \<Rightarrow> string \<Rightarrow> bool option) \<Rightarrow> (string \<Rightarrow> string option) \<Rightarrow> string \<Rightarrow> string \<Rightarrow> string
    \<Rightarrow> string list \<times> u32" where
  "cp_from_command to_json from_json is_dir extract guest container src dst =
     (case guest (cp_from_request to_json container src) of
        None \<Rightarrow> ([], 1)
      | Some s \<Rightarrow> cp_from_loop from_json (extract (cp_dst_dir is_dir dst)) s)"

section \<open>Into the container\<close>

definition cp_to_source :: "(string \<Rightarrow> bool) \<Rightarrow> string \<Rightarrow> string \<times> string" where
  "cp_to_source is_dir src =
     (if is_dir src then (src, ''.'')
      else (nonempty_or (path_parent src) ''.'', some_or (path_file_name src) src))"

text \<open>What the host writes: the header with the size of the archive, and the archive.\<close>

definition cp_to_request :: "(json \<Rightarrow> string) \<Rightarrow> string \<Rightarrow> string \<Rightarrow> string \<Rightarrow> string" where
  "cp_to_request to_json container dst data =
     to_json (ser_command (HCpTo container dst (of_nat (length data)))) @ [nl] @ data"

text \<open>The whole command: the archive is made, sent, and the replies are printed. \<open>tar\<close> gives the
  archive (left: it could not be made or read), \<open>guest\<close> what the guest answers (\<open>None\<close>: the request
  cannot be written). The replies are printed as \<open>passthrough_command\<close> prints them.\<close>

definition cp_to_command :: "(json \<Rightarrow> string) \<Rightarrow> (string \<Rightarrow> json option) \<Rightarrow> (string \<Rightarrow> bool) \<Rightarrow> (string \<times> string \<Rightarrow> unit + string)
    \<Rightarrow> (string \<Rightarrow> string option) \<Rightarrow> string \<Rightarrow> string \<Rightarrow> string \<Rightarrow> string \<times> string \<times> u32" where
  "cp_to_command to_json from_json is_dir tar guest src container dst =
     (case tar (cp_to_source is_dir src) of
        Inl _ \<Rightarrow> ([], [], 1)
      | Inr data \<Rightarrow>
          (case guest (cp_to_request to_json container dst data) of
             None \<Rightarrow> ([], [], 1)
           | Some s \<Rightarrow> passthrough_command from_json (split_chr nl s)))"

text \<open>The guest: \<open>run dst data\<close> is \<open>tar\<close> given these bytes: it cannot be started, it does not take
  them all, or it ends with its messages and a code.\<close>

datatype tar_in = NotStarted string | Refused string | Done string "u32 option"

definition handle_cp_to :: "entered \<Rightarrow> (string \<Rightarrow> string \<Rightarrow> tar_in) \<Rightarrow> string \<Rightarrow> u64 \<Rightarrow> string \<Rightarrow> guest_response list" where
  "handle_cp_to ent run dst data_size input =
     (case enter_error ent of
        Some e \<Rightarrow> [GError e]
      | None \<Rightarrow>
          (case run dst (take (unat data_size) input) of
             NotStarted e \<Rightarrow> [GError e]
           | Refused e \<Rightarrow> [GError e]
           | Done err code \<Rightarrow> (if err = [] then [] else [GStream Stderr err]) @ [GExit (code_of code)]))"

section \<open>Commands with one reply\<close>

definition first_reply :: "(string \<Rightarrow> json option) \<Rightarrow> string \<Rightarrow> host_response option" where
  "first_reply from_json s =
     (case read_line s of
        None \<Rightarrow> None
      | Some (line, _) \<Rightarrow> Option.bind (from_json (trim_end line)) de_response)"

definition ping_command :: "(string \<Rightarrow> json option) \<Rightarrow> string \<Rightarrow> string \<times> u32" where
  "ping_command from_json s =
     (case first_reply from_json s of Some (HPong True) \<Rightarrow> (''pong'' @ [nl], 0) | _ \<Rightarrow> ([], 1))"

definition kubernetes_status_command :: "(string \<Rightarrow> json option) \<Rightarrow> string \<Rightarrow> string \<times> u32" where
  "kubernetes_status_command from_json s =
     (case first_reply from_json s of
        Some (HKubernetesStatusR running) \<Rightarrow> ((if running then ''running'' else ''stopped'') @ [nl], 0)
      | _ \<Rightarrow> ([], 1))"

definition version_command :: "(string \<Rightarrow> json option) \<Rightarrow> string \<Rightarrow> string list" where
  "version_command from_json s =
     (case first_reply from_json s of
        Some (HVersionInfo guest runtime kern) \<Rightarrow>
          [''pelagos-guest  '' @ guest]
          @ (case runtime of Some v \<Rightarrow> [''pelagos        '' @ v] | None \<Rightarrow> [])
          @ (case kern of Some k \<Rightarrow> [''kernel         '' @ k] | None \<Rightarrow> [])
      | _ \<Rightarrow> [])"

text \<open>The guest's answers; \<open>runtime\<close> and \<open>uname\<close> are the outputs of two programs that succeeded.\<close>

definition handle_ping :: guest_response where
  "handle_ping = GPong True"

definition handle_version :: "string \<Rightarrow> string option \<Rightarrow> string option \<Rightarrow> guest_response" where
  "handle_version guest runtime uname =
     GVersionInfo guest (map_option (\<lambda>s. some_or (strip_prefix ''pelagos '' (trim s)) (trim s)) runtime) (map_option trim uname)"

definition handle_kubernetes_status :: "(string \<Rightarrow> bool) \<Rightarrow> guest_response" where
  "handle_kubernetes_status is_running = GKubernetesStatusR (is_running ''api-server'' \<and> is_running ''kubelet'')"

section \<open>The connection in the guest\<close>

text \<open>The line loop on the bytes of the connection: what is answered before the first command that
  ends the line protocol, that command, and the bytes that follow its line.\<close>

function serve_bytes :: "guest_os \<Rightarrow> (guest_command \<Rightarrow> guest_response list) \<Rightarrow> (string \<Rightarrow> json option) \<Rightarrow> (string \<Rightarrow> string)
    \<Rightarrow> string \<Rightarrow> guest_response list \<times> (guest_command \<times> string) option" where
  "serve_bytes os k8s from_json json_error s =
     (case read_line s of
        None \<Rightarrow> ([], None)
      | Some (l, rest) \<Rightarrow>
          (let line = rev (dropWhile (\<lambda>c. c = cr) (dropWhile (\<lambda>c. c = nl) (rev l))) in
           if line = [] then serve_bytes os k8s from_json json_error rest
           else (case Option.bind (from_json line) de_command of
                   None \<Rightarrow> apfst (Cons (GError (''parse error: '' @ json_error line))) (serve_bytes os k8s from_json json_error rest)
                 | Some c \<Rightarrow>
                     if ends_connection c then ([], Some (c, rest))
                     else if breaks_off os c then (handle_command os k8s c, None)
                     else apfst (append (handle_command os k8s c)) (serve_bytes os k8s from_json json_error rest))))"
  by pat_completeness auto
termination
  by (relation "measure (\<lambda>(_, _, _, _, s). length s)") (auto dest: read_line_shorter)

text \<open>The programs and names the copy and version handlers use.\<close>

record copy_os =
  co_enter :: "string \<Rightarrow> entered"
  co_tar_out :: "string \<Rightarrow> string list \<Rightarrow> string + tar_output"
  co_tar_in :: "string \<Rightarrow> string \<Rightarrow> string \<Rightarrow> tar_in"
  co_guest :: string
  co_runtime :: "string option"
  co_uname :: "string option"

definition handle_last :: "copy_os \<Rightarrow> guest_command \<Rightarrow> string \<Rightarrow> sent list" where
  "handle_last co c rest =
     (case c of
        GPing \<Rightarrow> [Reply handle_ping]
      | GVersion \<Rightarrow> [Reply (handle_version (co_guest co) (co_runtime co) (co_uname co))]
      | GCpFrom container src \<Rightarrow> handle_cp_from (co_enter co container) (co_tar_out co container) src
      | GCpTo container dst data_size \<Rightarrow>
          map Reply (handle_cp_to (co_enter co container) (co_tar_in co container) dst data_size rest)
      | _ \<Rightarrow> [])"

text \<open>A connection with its last command, for the last commands that are not interactive sessions,
  builds or subscriptions.\<close>

definition serve_copy :: "guest_os \<Rightarrow> (guest_command \<Rightarrow> guest_response list) \<Rightarrow> copy_os \<Rightarrow> (string \<Rightarrow> json option)
    \<Rightarrow> (string \<Rightarrow> string) \<Rightarrow> string \<Rightarrow> sent list" where
  "serve_copy os k8s co from_json json_error s =
     (case serve_bytes os k8s from_json json_error s of (rs, last_command) \<Rightarrow>
        map Reply rs @ (case last_command of None \<Rightarrow> [] | Some (c, rest) \<Rightarrow> handle_last co c rest))"

section \<open>Archives arrive unchanged\<close>

lemma unat_of_nat64: "n < 2 ^ 64 \<Longrightarrow> unat (of_nat n :: u64) = n"
  by (simp add: unat_of_nat take_bit_eq_mod)

lemma drop_nl: "nl \<notin> set t \<Longrightarrow> dropWhile (\<lambda>c. c = nl) (rev (t @ [nl])) = rev t"
  by (cases t rule: rev_cases) auto

text \<open>What is relied on of the JSON library for a line: as before, and that the text of a value is
  one line.\<close>

definition text_line :: "(json \<Rightarrow> string) \<Rightarrow> (string \<Rightarrow> json option) \<Rightarrow> json \<Rightarrow> bool" where
  "text_line to_json from_json j = (json_line to_json from_json j \<and> nl \<notin> set (to_json j))"

lemma read_line_text: "nl \<notin> set l \<Longrightarrow> read_line (l @ nl # r) = Some (l @ [nl], r)"
  by (simp add: read_line_def split_once_append)

lemma trim_end_nl: "trim_end (s @ [nl]) = trim_end s"
  by (simp add: trim_end_def is_ws_def)

lemma reply_line:
  assumes "text_line to_json from_json (ser_response r)"
  shows "read_line (send_response to_json r @ s) = Some (to_json (ser_response r) @ [nl], s)"
    "trim_end (to_json (ser_response r) @ [nl]) = to_json (ser_response r)" "to_json (ser_response r) \<noteq> []"
    "Option.bind (from_json (to_json (ser_response r))) de_response = Some (as_host r)"
proof -
  have j: "json_line to_json from_json (ser_response r)" and n: "nl \<notin> set (to_json (ser_response r))"
    using assms by (auto simp: text_line_def)
  note read = json_line_read[OF j]
  show "read_line (send_response to_json r @ s) = Some (to_json (ser_response r) @ [nl], s)"
    using read_line_text[OF n, of s] by (simp add: send_response_def)
  show "trim_end (to_json (ser_response r) @ [nl]) = to_json (ser_response r)" using read(3) by (simp add: trim_end_nl)
  show "to_json (ser_response r) \<noteq> []" by (rule read(2))
  show "Option.bind (from_json (to_json (ser_response r))) de_response = Some (as_host r)"
    using read(1) by (simp add: de_ser_response)
qed

lemma cp_from_loop_reply:
  assumes "text_line to_json from_json (ser_response r)"
  shows "cp_from_loop from_json extract (send_response to_json r @ s) =
    (case as_host r of
       HRawBytes len \<Rightarrow>
         (case extract (take (unat len) s) of
            None \<Rightarrow> ([], 1)
          | Some ok \<Rightarrow>
              if ok then apfst (Cons (take (unat len) s)) (cp_from_loop from_json extract (drop (unat len) s))
              else ([take (unat len) s], 1))
     | HError _ \<Rightarrow> ([], 1)
     | HExit e \<Rightarrow> ([], e)
     | _ \<Rightarrow> cp_from_loop from_json extract s)"
  using reply_line[OF assms]
  by (subst cp_from_loop.simps) (simp add: Let_def del: cp_from_loop.simps split: host_response.split)

lemma serve_bytes_line:
  assumes "nl \<notin> set l"
  shows "serve_bytes os k8s from_json json_error (l @ nl # s) =
    (let line = rev (dropWhile (\<lambda>c. c = cr) (rev l)) in
     if line = [] then serve_bytes os k8s from_json json_error s
     else (case Option.bind (from_json line) de_command of
             None \<Rightarrow> apfst (Cons (GError (''parse error: '' @ json_error line))) (serve_bytes os k8s from_json json_error s)
           | Some c \<Rightarrow>
               if ends_connection c then ([], Some (c, s))
               else if breaks_off os c then (handle_command os k8s c, None)
               else apfst (append (handle_command os k8s c)) (serve_bytes os k8s from_json json_error s)))"
  using read_line_text[OF assms, of s] drop_nl[OF assms]
  by (subst serve_bytes.simps) (simp add: Let_def del: serve_bytes.simps rev_append split: option.split)

text \<open>On a connection that holds complete lines only, the loop on bytes is the loop on lines.\<close>

lemma serve_bytes_lines:
  assumes "list_all (\<lambda>l. nl \<notin> set l) ls"
  shows "serve_lines os k8s from_json json_error ls =
    apsnd (map_option fst) (serve_bytes os k8s from_json json_error (unlines ls))"
  using assms
proof (induction ls)
  case (Cons l ls)
  then have "serve_bytes os k8s from_json json_error (unlines (l # ls)) =
      serve_bytes os k8s from_json json_error (l @ nl # unlines ls)" by (simp add: unlines_def)
  with Cons show ?case
    by (simp add: serve_bytes_line Let_def apfst_def apsnd_def map_prod_def split_beta del: serve_bytes.simps split: option.splits)
qed (simp add: unlines_def read_line_def)

lemma serve_copy_last:
  assumes "text_line to_json from_json (ser_command c)" and "ends_connection (as_guest c)" and "env_of c = []"
  shows "serve_copy os k8s co from_json json_error (to_json (ser_command c) @ nl # s) = handle_last co (as_guest c) s"
proof -
  have j: "json_line to_json from_json (ser_command c)" and n: "nl \<notin> set (to_json (ser_command c))"
    using assms by (auto simp: text_line_def)
  show ?thesis using assms(2,3) json_line_read[OF j] de_ser_command[of c]
    by (simp add: serve_copy_def serve_bytes_line[OF n] Let_def del: serve_bytes.simps)
qed

text \<open>
  C24: A file copied out of a container arrives unchanged: whatever bytes \<open>tar\<close> writes in the
  container, newlines and texts that look like messages included, the \<open>tar\<close> of the host is
  given exactly these bytes, once, and the command returns 0. When the container cannot be
  entered or \<open>tar\<close> fails there, the host extracts nothing and returns 1.
\<close>

theorem cp_from_delivers:
  fixes co container src dst
  defines "result \<equiv> co_tar_out co container (cp_source src)"
  assumes "text_line to_json from_json (ser_command (HCpFrom container src))"
    and "list_all (\<lambda>x. case x of Reply r \<Rightarrow> text_line to_json from_json (ser_response r) | Raw _ \<Rightarrow> True)
      (handle_cp_from (co_enter co container) (co_tar_out co container) src)"
    and "\<And>out. result = Inr out \<Longrightarrow> length (tar_stdout out) < 2 ^ 64 \<and>
      extract (cp_dst_dir is_dir dst) (tar_stdout out) = Some True"
  shows "cp_from_command to_json from_json is_dir extract
      (\<lambda>request. Some (wire to_json (serve_copy os k8s co from_json json_error request))) container src dst =
    (case result of
       Inr out \<Rightarrow> if co_enter co container = Entered \<and> tar_code out = Some 0 then ([tar_stdout out], 0) else ([], 1)
     | Inl _ \<Rightarrow> ([], 1))"
proof -
  let ?h = "handle_cp_from (co_enter co container) (co_tar_out co container) src"
  have c: "cp_from_command to_json from_json is_dir extract
      (\<lambda>request. Some (wire to_json (serve_copy os k8s co from_json json_error request))) container src dst =
      cp_from_loop from_json (extract (cp_dst_dir is_dir dst)) (wire to_json ?h)"
    using serve_copy_last[OF assms(2), of os k8s co json_error "[]"]
    by (simp add: cp_from_command_def cp_from_request_def handle_last_def del: cp_from_loop.simps)
  show ?thesis
  proof (cases "\<exists>out. co_enter co container = Entered \<and> result = Inr out \<and> tar_code out = Some 0")
    case True
    then obtain out where out: "co_enter co container = Entered" "result = Inr out" "tar_code out = Some 0" by blast
    let ?data = "tar_stdout out"
    have n: "unat (of_nat (length ?data) :: u64) = length ?data" using assms(4)[OF out(2)] by (simp add: unat_of_nat64)
    have h: "?h = [Reply (GRawBytes (of_nat (length ?data))), Raw ?data, Reply (GExit 0)]"
      using out by (simp add: handle_cp_from_def result_def)
    then have raw: "text_line to_json from_json (ser_response (GRawBytes (of_nat (length ?data))))"
      and ex: "text_line to_json from_json (ser_response (GExit 0))" using assms(3) by simp_all
    have "cp_from_loop from_json (extract (cp_dst_dir is_dir dst)) (send_response to_json (GExit 0) @ []) = ([], 0)"
      by (subst cp_from_loop_reply[OF ex]) simp
    then have "cp_from_loop from_json (extract (cp_dst_dir is_dir dst)) (wire to_json ?h) = ([?data], 0)"
      using assms(4)[OF out(2)] unfolding h wire_def
      by (simp del: cp_from_loop.simps, subst cp_from_loop_reply[OF raw]) (simp add: n del: cp_from_loop.simps)
    with out c show ?thesis by simp
  next
    case False
    then obtain msg where h: "?h = [Reply (GError msg)]"
      by (cases "co_enter co container"; cases result) (auto simp: handle_cp_from_def result_def)
    then have err: "text_line to_json from_json (ser_response (GError msg))" using assms(3) by simp
    have "cp_from_loop from_json (extract (cp_dst_dir is_dir dst)) (wire to_json ?h) = ([], 1)"
      using cp_from_loop_reply[OF err, of _ "[]"] by (simp add: h wire_def del: cp_from_loop.simps)
    with c False show ?thesis by (auto split: sum.splits)
  qed
qed

text \<open>An archive with a newline and a text like a message, and a \<open>tar\<close> that takes it.\<close>

definition demo_archive :: tar_output where
  "demo_archive = \<lparr>tar_code = Some 0, tar_stdout = ''x'' @ [nl] @ ''{exit}'' @ [nl], tar_stderr = []\<rparr>"

definition demo_copy :: copy_os where
  "demo_copy = \<lparr>co_enter = (\<lambda>_. Entered), co_tar_out = (\<lambda>_ _. Inr demo_archive),
     co_tar_in = (\<lambda>_ _ d. if d = ''a'' @ [nl] @ ''b'' then Done ''w'' (Some 2) else Refused []),
     co_guest = [], co_runtime = None, co_uname = None\<rparr>"

lemma nl_not_len [simp]: "nl \<notin> set (put_len n)"
  by (simp add: put_len_def show_nat_no)

theorem cp_from_delivers_witness:
  "cp_from_command sized_text unsized_text (\<lambda>_. True) (\<lambda>_ _. Some True)
     (\<lambda>request. Some (wire sized_text (serve_copy quiet_os (\<lambda>_. []) demo_copy unsized_text id request)))
     ''box'' ''/etc/x'' ''/tmp'' = ([tar_stdout demo_archive], 0)"
  using cp_from_delivers[of sized_text unsized_text "''box''" "''/etc/x''" demo_copy "\<lambda>_ _. Some True" "\<lambda>_. True" "''/tmp''"
      quiet_os "\<lambda>_. []" id]
  by (simp add: handle_cp_from_def demo_copy_def demo_archive_def text_line_def json_line_sized outer_def tagged_def
      sized_text_def num64_def num32_def put_str_def)

lemma split_chr_wire:
  assumes "list_all (\<lambda>r. text_line to_json from_json (ser_response r)) rs"
  shows "split_chr nl (wire to_json (map Reply rs)) = map (\<lambda>r. to_json (ser_response r)) rs @ [[]]"
  using assms
proof (induction rs)
  case (Cons r rs)
  then show ?case
    by (simp add: wire_def send_response_def text_line_def split_chr_append)
qed (simp add: wire_def)

text \<open>
  C25: A file copied into a container arrives unchanged: the input of \<open>tar\<close> in the container is
  exactly the bytes the host's \<open>tar\<close> made, whatever follows them on the connection, and the host
  prints the messages of that \<open>tar\<close> and returns its exit code. When the container cannot be
  entered or its \<open>tar\<close> does not take the bytes, the host prints nothing and returns 1.
\<close>

theorem cp_to_delivers:
  assumes "tar (cp_to_source is_dir src) = Inr data" and "length data < 2 ^ 64"
    and "text_line to_json from_json (ser_command (HCpTo container dst (of_nat (length data))))"
    and "list_all (\<lambda>r. text_line to_json from_json (ser_response r))
      (handle_cp_to (co_enter co container) (co_tar_in co container) dst (of_nat (length data)) data)"
  shows "cp_to_command to_json from_json is_dir tar
      (\<lambda>request. Some (wire to_json (serve_copy os k8s co from_json json_error (request @ later)))) src container dst =
    (case co_tar_in co container dst data of
       Done err code \<Rightarrow> if co_enter co container = Entered then ([], err, code_of code) else ([], [], 1)
     | _ \<Rightarrow> ([], [], 1))"
proof -
  let ?h = "handle_cp_to (co_enter co container) (co_tar_in co container) dst (of_nat (length data)) data"
  have n: "unat (of_nat (length data) :: u64) = length data" using assms(2) by (rule unat_of_nat64)
  have "handle_cp_to (co_enter co container) (co_tar_in co container) dst (of_nat (length data)) (data @ later) = ?h"
    unfolding handle_cp_to_def n by (simp split: option.split)
  then have "serve_copy os k8s co from_json json_error (cp_to_request to_json container dst data @ later) = map Reply ?h"
    using serve_copy_last[OF assms(3), of os k8s co json_error "data @ later"]
    by (simp add: cp_to_request_def handle_last_def)
  then have "cp_to_command to_json from_json is_dir tar
      (\<lambda>request. Some (wire to_json (serve_copy os k8s co from_json json_error (request @ later)))) src container dst =
      passthrough_command from_json (map (\<lambda>r. to_json (ser_response r)) ?h @ [[]])"
    using assms(1) split_chr_wire[OF assms(4)] by (simp add: cp_to_command_def)
  moreover have "list_all (\<lambda>r. json_line to_json from_json (ser_response r)) ?h"
    using assms(4) by (simp add: list_all_iff text_line_def)
  ultimately show ?thesis
    by (cases "co_enter co container"; cases "co_tar_in co container dst data")
      (simp_all add: handle_cp_to_def n passthrough_response ser_stream_kind_def del: passthrough_command.simps ser_response.simps
        split: if_splits)
qed

theorem cp_to_delivers_witness:
  "cp_to_command sized_text unsized_text (\<lambda>_. False) (\<lambda>_. Inr (''a'' @ [nl] @ ''b''))
      (\<lambda>request. Some (wire sized_text (serve_copy quiet_os (\<lambda>_. []) demo_copy unsized_text id (request @ ''c''))))
      ''f'' ''box'' ''/tmp'' = ([], ''w'', 2)"
  using cp_to_delivers[of "\<lambda>_. Inr (''a'' @ [nl] @ ''b'')" "\<lambda>_. False" "''f''" "''a'' @ [nl] @ ''b''" sized_text unsized_text "''box''" "''/tmp''"
      demo_copy quiet_os "\<lambda>_. []" id "''c''"]
  by (simp add: demo_copy_def handle_cp_to_def text_line_def json_line_sized tagged_def outer_def sized_text_def num64_def
      num32_def put_str_def code_of_def ser_stream_kind_def)

text \<open>A destination that is a file name without a directory makes \<open>tar\<close> change to the directory
  with the empty name; and the name of the destination is not used.\<close>

lemma cp_from_bare_name: "dst \<noteq> [] \<Longrightarrow> CHR ''/'' \<notin> set dst \<Longrightarrow> \<not> is_dir dst \<Longrightarrow> cp_dst_dir is_dir dst = []"
proof -
  assume d: "dst \<noteq> []" "CHR ''/'' \<notin> set dst" "\<not> is_dir dst"
  have "\<not> starts_with dst ''/''" using d by (cases dst) (auto simp: starts_with_def)
  moreover have "path_comps dst = [dst]" using d calculation by (auto simp: path_comps_def split_chr_single Let_def)
  ultimately show ?thesis using d by (simp add: cp_dst_dir_def path_parent_def some_or_def join_def)
qed

text \<open>The answers of the guest as the commands with one reply print them.\<close>

lemma one_reply:
  assumes "text_line to_json from_json (ser_response r)"
  shows "first_reply from_json (send_response to_json r) = Some (as_host r)"
  using reply_line(1)[OF assms, of "[]"] reply_line(2-)[OF assms] by (simp add: first_reply_def)

lemma ping_answered:
  "text_line to_json from_json (ser_response handle_ping) \<Longrightarrow>
   ping_command from_json (send_response to_json handle_ping) = (''pong'' @ [nl], 0)"
  by (drule one_reply) (simp add: ping_command_def handle_ping_def)

lemma version_answered:
  assumes "text_line to_json from_json (ser_response (handle_version g (Some (''pelagos '' @ v @ [nl])) None))"
    and "trim (''pelagos '' @ v @ [nl]) = ''pelagos '' @ v"
  shows "version_command from_json (send_response to_json (handle_version g (Some (''pelagos '' @ v @ [nl])) None)) =
     [''pelagos-guest  '' @ g, ''pelagos        '' @ v]"
  using one_reply[OF assms(1)] assms(2) strip_prefix_append[of "''pelagos ''" v]
  by (simp add: version_command_def handle_version_def some_or_def del: strip_prefix.simps)

end
