(* ===== verification/Byte_Codec.thy ===== *)
theory Byte_Codec
  imports Prelude
begin

text \<open>
  Big-endian integers (\<open>to_be_bytes\<close>, \<open>from_be_bytes\<close>) and the contract of a
  self-delimiting frame encoding, the locale \<open>frame_codec\<close>: decoding a stream that starts
  with an encoded frame gives the frame and the bytes after it. The lemmas about whole
  streams of frames are proved once in the locale and used by the exec protocol
  (\<open>Exec_Frames\<close>) and the vmnet relay (\<open>Vmnet\<close>).
\<close>

unbundle bit_operations_syntax

section \<open>Big-endian integers\<close>

definition to_be16 :: "u16 \<Rightarrow> bytes" where
  "to_be16 w = [ucast (drop_bit 8 w), ucast w]"

definition from_be16 :: "u8 \<Rightarrow> u8 \<Rightarrow> u16" where
  "from_be16 a b = push_bit 8 (ucast a) OR ucast b"

definition to_be32 :: "u32 \<Rightarrow> bytes" where
  "to_be32 w = [ucast (drop_bit 24 w), ucast (drop_bit 16 w), ucast (drop_bit 8 w), ucast w]"

definition from_be32 :: "u8 \<Rightarrow> u8 \<Rightarrow> u8 \<Rightarrow> u8 \<Rightarrow> u32" where
  "from_be32 a b c d =
     push_bit 24 (ucast a) OR push_bit 16 (ucast b) OR push_bit 8 (ucast c) OR ucast d"

lemma length_to_be [simp]: "length (to_be16 w) = 2" "length (to_be32 v) = 4"
  by (simp_all add: to_be16_def to_be32_def)

lemma from_to_be16 [codec_simps]: "from_be16 (ucast (drop_bit 8 w)) (ucast w) = w"
  by (rule bit_word_eqI) (auto simp: from_be16_def bit_simps)

lemma from_to_be32 [codec_simps]:
  "from_be32 (ucast (drop_bit 24 w)) (ucast (drop_bit 16 w)) (ucast (drop_bit 8 w)) (ucast w) = w"
proof (rule bit_word_eqI)
  fix n assume "n < LENGTH(32)"
  then have "n < 32" by simp
  then consider "n < 8" | "8 \<le> n" "n < 16" | "16 \<le> n" "n < 24" | "24 \<le> n" "n < 32"
    by linarith
  then show "bit (from_be32 (ucast (drop_bit 24 w)) (ucast (drop_bit 16 w))
      (ucast (drop_bit 8 w)) (ucast w)) n = bit w n"
    by cases (auto simp: from_be32_def bit_simps)
qed

lemma from_be16_bytes [codec_simps]:
  "(ucast (drop_bit 8 (from_be16 a b)) :: u8) = a" "(ucast (from_be16 a b) :: u8) = b"
  by (rule bit_word_eqI; auto simp: from_be16_def bit_simps dest: bit_imp_le_length)+

lemma to_be32_from_be32 [codec_simps]: "to_be32 (from_be32 a b c d) = [a, b, c, d]"
proof -
  have high: "\<not> bit x n" if "8 \<le> n" for x :: u8 and n
    using that bit_imp_le_length[of x n] by auto
  show ?thesis
    by (auto simp: to_be32_def from_be32_def bit_simps high intro!: bit_word_eqI)
qed

text \<open>Two octets read as a big-endian integer weigh 256 and 1.\<close>

lemma unat_from_be16: "unat (from_be16 a b) = 256 * unat a + unat b"
proof -
  have high: "\<not> bit b n" if "8 \<le> n" for n
    using that bit_imp_le_length[of b n] by auto
  have "from_be16 a b = push_bit 8 (ucast a) + ucast b"
    unfolding from_be16_def
    by (subst disjunctive_add_eq_or) (auto intro!: bit_word_eqI simp: bit_simps high)
  also have "\<dots> = word_of_nat (256 * unat a + unat b)"
    by (simp add: push_bit_eq_mult mult.commute)
  finally have eq: "from_be16 a b = word_of_nat (256 * unat a + unat b)" .
  have "256 * unat a + unat b < 65536" using unat_bounds(1)[of a] unat_bounds(1)[of b] by simp
  then show ?thesis unfolding eq by (subst unat_of_nat) simp
qed

section \<open>Reading a stream\<close>

text \<open>
  A stream is the list of the bytes still to be delivered, after which it is at end of file.
  \<open>Read::read_exact\<close> fails with \<open>UnexpectedEof\<close> when fewer bytes are left.
\<close>

datatype io_error = UnexpectedEof | InvalidLength nat

definition read_exact :: "nat \<Rightarrow> bytes \<Rightarrow> io_error + bytes \<times> bytes" where
  "read_exact n s = (if length s < n then Inl UnexpectedEof else Inr (take n s, drop n s))"

lemma read_exact_append [simp]: "length a = n \<Longrightarrow> read_exact n (a @ s) = Inr (a, s)"
  by (simp add: read_exact_def)

lemma read_exact_Inr: "read_exact n s = Inr (a, r) \<longleftrightarrow> s = a @ r \<and> length a = n"
  by (auto simp: read_exact_def)

section \<open>Self-delimiting frames\<close>

locale frame_codec =
  fixes enc :: "'f \<Rightarrow> bytes" and dec :: "bytes \<Rightarrow> io_error + 'f \<times> bytes" and wf :: "'f \<Rightarrow> bool"
  assumes dec_enc: "wf f \<Longrightarrow> dec (enc f @ rest) = Inr (f, rest)"
    and dec_shorter: "dec s = Inr (f, rest) \<Longrightarrow> length rest < length s"
    and dec_Nil: "dec [] = Inl UnexpectedEof"
begin

text \<open>Reading frames until the first error, as the relay and session loops do.\<close>

function frames :: "bytes \<Rightarrow> 'f list \<times> io_error" where
  "frames s = (case dec s of Inl e \<Rightarrow> ([], e)
               | Inr (f, rest) \<Rightarrow> (let (fs, e) = frames rest in (f # fs, e)))"
  by pat_completeness auto
termination
  by (relation "measure length") (auto dest: dec_shorter)

declare frames.simps [simp del]

lemma frames_enc_append:
  assumes "wf f"
  shows "frames (enc f @ s) = (f # fst (frames s), snd (frames s))"
  by (subst frames.simps) (simp add: dec_enc[OF assms] split: prod.split)

lemma frames_stream:
  "list_all wf fs \<Longrightarrow> frames (concat (map enc fs) @ s) = (fs @ fst (frames s), snd (frames s))"
  by (induction fs) (simp_all add: frames_enc_append)

lemma frames_Nil: "frames [] = ([], UnexpectedEof)"
  by (subst frames.simps) (simp add: dec_Nil)

lemma frames_roundtrip: "list_all wf fs \<Longrightarrow> frames (concat (map enc fs)) = (fs, UnexpectedEof)"
  using frames_stream[of fs "[]"] by (simp add: frames_Nil)

lemma enc_stream_inject:
  "list_all wf fs \<Longrightarrow> list_all wf gs \<Longrightarrow> concat (map enc fs) = concat (map enc gs) \<Longrightarrow> fs = gs"
  by (metis frames_roundtrip prod.inject)

end

end
