(* ===== verification/Exec_Frames.thy ===== *)
theory Exec_Frames
  imports Byte_Codec
begin

text \<open>
  The framed binary protocol of \<open>pelagos exec\<close>, \<open>shell\<close> and \<open>exec-into\<close>: the
  host side in \<open>pelagos-mac/src/main.rs\<close> (\<open>send_frame\<close>, \<open>recv_frame\<close>, the stdin
  thread of \<open>exec_command\<close>, \<open>read_guest_frames\<close>, \<open>read_winsize\<close>) and the guest
  side in \<open>pelagos-guest/src/main.rs\<close> (its own copies of the frame functions,
  \<open>handle_exec_piped\<close>, \<open>handle_exec_tty\<close>). Each side is modelled on its own and the
  theorems connect them: what the child prints reaches the caller's stdout and stderr with
  the child's exit code, and what the caller types reaches the child.
\<close>

section \<open>Frames\<close>

type_synonym frame = "u8 \<times> bytes"

definition FRAME_STDIN :: u8 where "FRAME_STDIN = 0"
definition FRAME_STDOUT :: u8 where "FRAME_STDOUT = 1"
definition FRAME_STDERR :: u8 where "FRAME_STDERR = 2"
definition FRAME_EXIT :: u8 where "FRAME_EXIT = 3"
definition FRAME_RESIZE :: u8 where "FRAME_RESIZE = 4"

lemmas frame_type_defs =
  FRAME_STDIN_def FRAME_STDOUT_def FRAME_STDERR_def FRAME_EXIT_def FRAME_RESIZE_def

text \<open>The host's copies.\<close>

definition send_frame :: "u8 \<Rightarrow> bytes \<Rightarrow> bytes" where
  "send_frame frame_type data = [frame_type] @ to_be32 (of_nat (length data)) @ data"

definition recv_frame :: "bytes \<Rightarrow> io_error + frame \<times> bytes" where
  "recv_frame r =
     (case read_exact 1 r of Inl e \<Rightarrow> Inl e | Inr (type_buf, r1) \<Rightarrow>
     (case read_exact 4 r1 of Inl e \<Rightarrow> Inl e | Inr (len_buf, r2) \<Rightarrow>
      let len = unat (from_be32 (len_buf ! 0) (len_buf ! 1) (len_buf ! 2) (len_buf ! 3)) in
     (case read_exact len r2 of Inl e \<Rightarrow> Inl e | Inr (data, r3) \<Rightarrow>
      Inr ((type_buf ! 0, data), r3))))"

text \<open>The guest's copies.\<close>

definition guest_send_frame :: "u8 \<Rightarrow> bytes \<Rightarrow> bytes" where
  "guest_send_frame frame_type data = [frame_type] @ to_be32 (of_nat (length data)) @ data"

definition guest_recv_frame :: "bytes \<Rightarrow> io_error + frame \<times> bytes" where
  "guest_recv_frame r =
     (case read_exact 1 r of Inl e \<Rightarrow> Inl e | Inr (type_buf, r1) \<Rightarrow>
     (case read_exact 4 r1 of Inl e \<Rightarrow> Inl e | Inr (len_buf, r2) \<Rightarrow>
      let len = unat (from_be32 (len_buf ! 0) (len_buf ! 1) (len_buf ! 2) (len_buf ! 3)) in
     (case read_exact len r2 of Inl e \<Rightarrow> Inl e | Inr (data, r3) \<Rightarrow>
      Inr ((type_buf ! 0, data), r3))))"

text \<open>The length field has 32 bits: longer data would be truncated in the header.\<close>

definition wf_frame :: "frame \<Rightarrow> bool" where
  "wf_frame f = (length (snd f) < 2 ^ 32)"

lemma recv_frame_shorter: "recv_frame s = Inr (f, r) \<Longrightarrow> length r < length s"
  by (auto simp: recv_frame_def read_exact_def Let_def split: sum.splits prod.splits if_splits)

lemma guest_recv_frame_shorter: "guest_recv_frame s = Inr (f, r) \<Longrightarrow> length r < length s"
  by (auto simp: guest_recv_frame_def read_exact_def Let_def
           split: sum.splits prod.splits if_splits)

lemma be32_len:
  "n < 2 ^ 32 \<Longrightarrow> unat (from_be32 (to_be32 (of_nat n) ! 0) (to_be32 (of_nat n) ! 1)
     (to_be32 (of_nat n) ! 2) (to_be32 (of_nat n) ! 3)) = n"
  by (simp add: to_be32_def from_to_be32 unat_of_nat)

lemma recv_guest_send:
  "length d < 2 ^ 32 \<Longrightarrow> recv_frame (guest_send_frame t d @ r) = Inr ((t, d), r)"
  using be32_len[of "length d"] by (simp add: recv_frame_def guest_send_frame_def read_exact_def)

lemma guest_recv_send:
  "length d < 2 ^ 32 \<Longrightarrow> guest_recv_frame (send_frame t d @ r) = Inr ((t, d), r)"
  using be32_len[of "length d"] by (simp add: guest_recv_frame_def send_frame_def read_exact_def)

lemma recv_Nil: "recv_frame [] = Inl UnexpectedEof" "guest_recv_frame [] = Inl UnexpectedEof"
  by (simp_all add: recv_frame_def guest_recv_frame_def read_exact_def)

text \<open>Both directions of the connection satisfy the frame contract.\<close>

interpretation to_host: frame_codec "\<lambda>f. guest_send_frame (fst f) (snd f)" recv_frame wf_frame
  by unfold_locales (simp_all add: recv_guest_send wf_frame_def recv_frame_shorter recv_Nil)

interpretation to_guest: frame_codec "\<lambda>f. send_frame (fst f) (snd f)" guest_recv_frame wf_frame
  by unfold_locales (simp_all add: guest_recv_send wf_frame_def guest_recv_frame_shorter recv_Nil)

section \<open>Host: reading the guest's frames\<close>

text \<open>
  \<open>read_guest_frames\<close>: the bytes written to stdout, those written to stderr, and the
  exit code (an \<open>i32\<close> as its 32-bit word).
\<close>

function read_guest_frames :: "bytes \<Rightarrow> bytes \<times> bytes \<times> u32" where
  "read_guest_frames s =
     (case recv_frame s of
        Inr ((frame_type, data), r) \<Rightarrow>
          if frame_type = FRAME_STDOUT then
            (let (out, err, code) = read_guest_frames r in (data @ out, err, code))
          else if frame_type = FRAME_STDERR then
            (let (out, err, code) = read_guest_frames r in (out, data @ err, code))
          else if frame_type = FRAME_EXIT then
            ([], [], if length data = 4
                     then from_be32 (data ! 0) (data ! 1) (data ! 2) (data ! 3) else 0)
          else ([], [], 1)
      | Inl e \<Rightarrow> ([], [], 1))"
  by pat_completeness auto
termination
  by (relation "measure length") (auto dest: recv_frame_shorter)

declare read_guest_frames.simps [simp del]

section \<open>Guest: output of an exec session\<close>

text \<open>
  The stdout and stderr threads of \<open>handle_exec_piped\<close> each send one frame per read of
  the child's pipe under the writer lock; a \<open>chunk\<close> is one such read and the list gives
  the order in which the threads took the lock. \<open>WaitStatus\<close> is the result of
  \<open>child.wait()\<close>: an exit code, a death by signal (no code), or a failed wait.
\<close>

datatype chunk = Out bytes | Err bytes
datatype wait_status = Exited u32 | Signalled | WaitFailed

fun exit_code_of :: "wait_status \<Rightarrow> u32" where
  "exit_code_of (Exited c) = c"
| "exit_code_of Signalled = -1"
| "exit_code_of WaitFailed = -1"

fun send_chunk :: "chunk \<Rightarrow> bytes" where
  "send_chunk (Out d) = guest_send_frame FRAME_STDOUT d"
| "send_chunk (Err d) = guest_send_frame FRAME_STDERR d"

definition ascii :: "string \<Rightarrow> bytes" where
  "ascii s = map of_char s"

text \<open>\<open>handle_exec_piped\<close>: \<open>Inl e\<close> is a failed spawn with the error text \<open>e\<close>.\<close>

definition handle_exec_piped :: "bytes + unit \<Rightarrow> chunk list \<Rightarrow> wait_status \<Rightarrow> bytes" where
  "handle_exec_piped spawned chunks status =
     (case spawned of
        Inl e \<Rightarrow> guest_send_frame FRAME_STDERR (ascii ''exec spawn failed: '' @ e)
                 @ guest_send_frame FRAME_EXIT (to_be32 1)
      | Inr _ \<Rightarrow> concat (map send_chunk chunks)
                 @ guest_send_frame FRAME_EXIT (to_be32 (exit_code_of status)))"

text \<open>
  \<open>handle_exec_tty\<close>: one output stream (the pseudo-terminal master); opening the terminal,
  spawning the child and duplicating the master can each fail.
\<close>

datatype tty_setup = OpenptyFailed bytes | TtySpawnFailed bytes | DupFailed | TtyReady

definition handle_exec_tty :: "tty_setup \<Rightarrow> bytes list \<Rightarrow> wait_status \<Rightarrow> bytes" where
  "handle_exec_tty setup reads status =
     (case setup of
        OpenptyFailed e \<Rightarrow> guest_send_frame FRAME_STDERR (ascii ''openpty failed: '' @ e)
                           @ guest_send_frame FRAME_EXIT (to_be32 1)
      | TtySpawnFailed e \<Rightarrow> guest_send_frame FRAME_STDERR (ascii ''exec spawn failed: '' @ e)
                            @ guest_send_frame FRAME_EXIT (to_be32 1)
      | DupFailed \<Rightarrow> guest_send_frame FRAME_EXIT (to_be32 1)
      | TtyReady \<Rightarrow> concat (map (guest_send_frame FRAME_STDOUT) reads)
                    @ guest_send_frame FRAME_EXIT (to_be32 (exit_code_of status)))"

section \<open>Guest: input of an exec session\<close>

text \<open>
  The stdin thread of \<open>handle_exec_piped\<close>: the bytes written to the child's stdin before
  it is closed. \<open>accepts w d\<close> says whether writing \<open>d\<close> after \<open>w\<close> succeeds.
\<close>

function piped_stdin :: "(bytes \<Rightarrow> bytes \<Rightarrow> bool) \<Rightarrow> bytes \<Rightarrow> bytes \<Rightarrow> bytes" where
  "piped_stdin accepts w s =
     (case guest_recv_frame s of
        Inr ((frame_type, data), r) \<Rightarrow>
          if frame_type = FRAME_STDIN then
            (if data = [] then w
             else if accepts w data then piped_stdin accepts (w @ data) r else w)
          else if frame_type = FRAME_RESIZE then piped_stdin accepts w r
          else w
      | Inl e \<Rightarrow> w)"
  by pat_completeness auto
termination
  by (relation "measure (\<lambda>(_, _, s). length s)") (auto dest: guest_recv_frame_shorter)

declare piped_stdin.simps [simp del]

datatype pty_event = PtyWrite bytes | PtyResize u16 u16

text \<open>The stdin/resize thread of \<open>handle_exec_tty\<close>: what is done to the terminal.\<close>

function tty_stdin :: "(bytes \<Rightarrow> bool) \<Rightarrow> bytes \<Rightarrow> pty_event list" where
  "tty_stdin accepts s =
     (case guest_recv_frame s of
        Inr ((frame_type, data), r) \<Rightarrow>
          if frame_type = FRAME_STDIN then
            (if accepts data then PtyWrite data # tty_stdin accepts r else [])
          else if frame_type = FRAME_RESIZE \<and> length data = 4 then
            PtyResize (from_be16 (data ! 0) (data ! 1)) (from_be16 (data ! 2) (data ! 3))
              # tty_stdin accepts r
          else []
      | Inl e \<Rightarrow> [])"
  by pat_completeness auto
termination
  by (relation "measure (\<lambda>(_, s). length s)") (auto dest: guest_recv_frame_shorter)

declare tty_stdin.simps [simp del]

section \<open>Host: forwarding stdin and terminal size\<close>

text \<open>
  One iteration of the stdin thread's poll loop in \<open>exec_command\<close>: whether the resize
  pipe is readable and the window size then read (\<open>read_winsize\<close>), whether stdin is ready
  (readable or hung up) with the outcome of the read, whether sending succeeds, and whether
  stdin is in error (\<open>POLLERR\<close> or \<open>POLLNVAL\<close>).
\<close>

datatype stdin_read = ReadErr bool | ReadData bytes

record poll_round =
  resize_ready :: bool
  winsize :: "(u16 \<times> u16) option"
  stdin_ready :: bool
  stdin_result :: stdin_read
  send_ok :: bool
  stdin_bad :: bool

definition read_winsize :: "(u16 \<times> u16) option \<Rightarrow> bytes option" where
  "read_winsize ws = map_option (\<lambda>(row, col). to_be16 row @ to_be16 col) ws"

definition resize_part :: "poll_round \<Rightarrow> bytes" where
  "resize_part r =
     (if resize_ready r then
        (case read_winsize (winsize r) of
           Some data \<Rightarrow> send_frame FRAME_RESIZE data | None \<Rightarrow> [])
      else [])"

text \<open>The bytes sent for stdin and whether the loop goes on.\<close>

definition stdin_part :: "poll_round \<Rightarrow> bytes \<times> bool" where
  "stdin_part r =
     (let (sent, go) =
        (if stdin_ready r then
           (case stdin_result r of
              ReadErr interrupted \<Rightarrow>
                if interrupted then ([], True) else (send_frame FRAME_STDIN [], False)
            | ReadData d \<Rightarrow>
                if d = [] then (send_frame FRAME_STDIN [], False)
                else if send_ok r then (send_frame FRAME_STDIN d, True) else ([], False))
         else ([], True)) in
      if go \<and> stdin_bad r then (sent @ send_frame FRAME_STDIN [], False) else (sent, go))"

fun stdin_thread :: "poll_round list \<Rightarrow> bytes" where
  "stdin_thread [] = []"
| "stdin_thread (r # rs) =
     (let (sent, go) = stdin_part r in
      resize_part r @ sent @ (if go then stdin_thread rs else []))"

section \<open>Output reaches the caller\<close>

lemma read_guest_frames_step:
  assumes "length d < 2 ^ 32"
  shows "read_guest_frames (guest_send_frame FRAME_STDOUT d @ r) =
           (let (out, err, code) = read_guest_frames r in (d @ out, err, code))"
    and "read_guest_frames (guest_send_frame FRAME_STDERR d @ r) =
           (let (out, err, code) = read_guest_frames r in (out, d @ err, code))"
  using assms by (subst read_guest_frames.simps; simp add: recv_guest_send frame_type_defs)+

lemma read_guest_frames_exit:
  "read_guest_frames (guest_send_frame FRAME_EXIT (to_be32 code) @ r) = ([], [], code)"
  by (subst read_guest_frames.simps)
     (simp add: recv_guest_send frame_type_defs to_be32_def from_to_be32)

lemma read_guest_frames_Nil: "read_guest_frames [] = ([], [], 1)"
  by (subst read_guest_frames.simps) (simp add: recv_Nil)

fun out_of :: "chunk \<Rightarrow> bytes" where
  "out_of (Out d) = d" | "out_of (Err d) = []"

fun err_of :: "chunk \<Rightarrow> bytes" where
  "err_of (Out d) = []" | "err_of (Err d) = d"

lemma read_guest_frames_chunks:
  assumes "\<forall>c\<in>set chunks. length (out_of c @ err_of c) < 2 ^ 32"
  shows "read_guest_frames (concat (map send_chunk chunks) @ r) =
    (let (out, err, code) = read_guest_frames r in
     (concat (map out_of chunks) @ out, concat (map err_of chunks) @ err, code))"
  using assms
proof (induction chunks)
  case (Cons c cs)
  then have len: "length (out_of c @ err_of c) < 2 ^ 32" by simp
  have "read_guest_frames (send_chunk c @ s) =
     (let (out, err, code) = read_guest_frames s in (out_of c @ out, err_of c @ err, code))" for s
    using len by (cases c) (simp_all add: read_guest_frames_step split: prod.split)
  with Cons show ?case by (simp split: prod.split)
qed (simp split: prod.split)

lemma chunks_of_shuffle:
  "chunks \<in> shuffles (map Out outs) (map Err errs) \<Longrightarrow>
     concat (map out_of chunks) = concat outs \<and> concat (map err_of chunks) = concat errs \<and>
     set chunks = Out ` set outs \<union> Err ` set errs"
proof (induction chunks arbitrary: outs errs)
  case (Cons c cs)
  from Cons.prems consider outs' d where "c = Out d" "outs = d # outs'"
      "cs \<in> shuffles (map Out outs') (map Err errs)"
    | errs' d where "c = Err d" "errs = d # errs'" "cs \<in> shuffles (map Out outs) (map Err errs')"
    by (auto simp: Cons_in_shuffles_iff) (case_tac outs; case_tac errs; auto)+
  then show ?case by cases (auto dest: Cons.IH)
qed simp

section \<open>Input reaches the child\<close>

text \<open>What one round of the stdin thread contributes, and whether the thread goes on.\<close>

definition round_goes_on :: "poll_round \<Rightarrow> bool" where
  "round_goes_on r =
     (\<not> stdin_bad r \<and> (stdin_ready r \<longrightarrow>
        (case stdin_result r of ReadErr i \<Rightarrow> i | ReadData d \<Rightarrow> d \<noteq> [] \<and> send_ok r)))"

definition round_data :: "poll_round \<Rightarrow> bytes" where
  "round_data r =
     (if stdin_ready r then
        (case stdin_result r of ReadErr i \<Rightarrow> [] | ReadData d \<Rightarrow> if send_ok r then d else [])
      else [])"

fun typed :: "poll_round list \<Rightarrow> bytes" where
  "typed [] = []"
| "typed (r # rs) = round_data r @ (if round_goes_on r then typed rs else [])"

definition wf_round :: "poll_round \<Rightarrow> bool" where
  "wf_round r = (case stdin_result r of ReadErr i \<Rightarrow> True | ReadData d \<Rightarrow> length d \<le> 4096)"

lemma length_send_frame [simp]: "send_frame t d \<noteq> []" "send_frame t d @ r \<noteq> []"
  by (simp_all add: send_frame_def)

lemma piped_stdin_step:
  assumes "length d < 2 ^ 32"
  shows "piped_stdin a w (send_frame FRAME_STDIN d @ r) =
           (if d = [] then w else if a w d then piped_stdin a (w @ d) r else w)"
    and "piped_stdin a w (send_frame FRAME_RESIZE d @ r) = piped_stdin a w r"
  using assms by (subst piped_stdin.simps; simp add: guest_recv_send frame_type_defs)+

lemma piped_stdin_Nil: "piped_stdin a w [] = w"
  by (subst piped_stdin.simps) (simp add: recv_Nil)

lemma piped_stdin_resize: "piped_stdin a w (resize_part r @ s) = piped_stdin a w s"
  by (simp add: resize_part_def read_winsize_def piped_stdin_step split: option.split prod.split)

lemma piped_stdin_eof: "piped_stdin a w (send_frame FRAME_STDIN []) = w"
  using piped_stdin_step(1)[of "[]" a w "[]"] by simp

lemma stdin_part_go: "snd (stdin_part r) = round_goes_on r"
  by (auto simp: stdin_part_def round_goes_on_def split: stdin_read.split)

lemma stdin_thread_Cons:
  "stdin_thread (r # rs) =
     resize_part r @ fst (stdin_part r) @ (if round_goes_on r then stdin_thread rs else [])"
  using stdin_part_go[of r] by (simp add: case_prod_beta)

declare stdin_thread.simps(2) [simp del]

lemma piped_stdin_round:
  assumes "wf_round r"
  shows "piped_stdin (\<lambda>_ _. True) w (fst (stdin_part r) @ (if round_goes_on r then s else [])) =
    (if round_goes_on r then piped_stdin (\<lambda>_ _. True) (w @ round_data r) s else w @ round_data r)"
  using assms
  by (auto simp: stdin_part_def round_goes_on_def round_data_def wf_round_def piped_stdin_step
        piped_stdin_Nil piped_stdin_eof split: stdin_read.splits)

subsection \<open>Terminal sessions\<close>

text \<open>What one round does to a guest terminal.\<close>

definition round_resize :: "poll_round \<Rightarrow> pty_event list" where
  "round_resize r =
     (if resize_ready r then (case winsize r of Some (a, b) \<Rightarrow> [PtyResize a b] | None \<Rightarrow> []) else [])"

definition eof_sent :: "poll_round \<Rightarrow> bool" where
  "eof_sent r =
     (\<not> round_goes_on r \<and>
      \<not> (stdin_ready r \<and> \<not> send_ok r \<and>
         (case stdin_result r of ReadErr i \<Rightarrow> False | ReadData d \<Rightarrow> d \<noteq> [])))"

definition round_writes :: "poll_round \<Rightarrow> pty_event list" where
  "round_writes r =
     (if round_data r \<noteq> [] then [PtyWrite (round_data r)] else [])
     @ (if eof_sent r then [PtyWrite []] else [])"

fun terminal_events :: "poll_round list \<Rightarrow> pty_event list" where
  "terminal_events [] = []"
| "terminal_events (r # rs) =
     round_resize r @ round_writes r @ (if round_goes_on r then terminal_events rs else [])"

lemma tty_stdin_step:
  assumes "length d < 2 ^ 32"
  shows "tty_stdin (\<lambda>_. True) (send_frame FRAME_STDIN d @ s) =
           PtyWrite d # tty_stdin (\<lambda>_. True) s"
  using assms by (subst tty_stdin.simps) (simp add: guest_recv_send frame_type_defs)

lemma tty_stdin_resize:
  "tty_stdin a (send_frame FRAME_RESIZE (to_be16 rows @ to_be16 cols) @ s) =
     PtyResize rows cols # tty_stdin a s"
  by (subst tty_stdin.simps)
     (simp add: guest_recv_send frame_type_defs to_be16_def from_to_be16)

lemma tty_stdin_Nil: "tty_stdin a [] = []"
  by (subst tty_stdin.simps) (simp add: recv_Nil)

lemma tty_stdin_resize_part:
  "tty_stdin a (resize_part r @ s) = round_resize r @ tty_stdin a s"
  by (auto simp: resize_part_def read_winsize_def round_resize_def tty_stdin_resize
        split: option.split prod.split)

lemma tty_stdin_eof: "tty_stdin (\<lambda>_. True) (send_frame FRAME_STDIN []) = [PtyWrite []]"
  using tty_stdin_step[of "[]" "[]"] by (simp add: tty_stdin_Nil)

lemma tty_stdin_round:
  assumes "wf_round r"
  shows "tty_stdin (\<lambda>_. True) (fst (stdin_part r) @ (if round_goes_on r then s else [])) =
    round_writes r @ (if round_goes_on r then tty_stdin (\<lambda>_. True) s else [])"
  using assms
  by (auto simp: stdin_part_def round_goes_on_def round_data_def round_writes_def eof_sent_def
        wf_round_def tty_stdin_step tty_stdin_Nil tty_stdin_eof split: stdin_read.splits)

section \<open>The properties of an exec session\<close>

text \<open>
  output of a piped session. However the guest's stdout and stderr threads interleave
  their frames (any shuffle of the chunks read from the two pipes), the host writes to its
  stdout exactly the child's stdout, to its stderr exactly the child's stderr, each in order,
  and returns the exit code the guest collected.
\<close>

lemma exec_piped_delivers:
  assumes "chunks \<in> shuffles (map Out outs) (map Err errs)"
    and "\<And>d. d \<in> set outs \<union> set errs \<Longrightarrow> length d \<le> 4096"
  shows "read_guest_frames (handle_exec_piped (Inr ()) chunks status @ rest) =
           (concat outs, concat errs, exit_code_of status)"
proof -
  note sh = chunks_of_shuffle[OF assms(1)]
  have "\<forall>c\<in>set chunks. length (out_of c @ err_of c) < 2 ^ 32"
  proof
    fix c assume "c \<in> set chunks"
    with sh obtain d where "d \<in> set outs \<union> set errs" "c = Out d \<or> c = Err d" by blast
    with assms(2)[of d] show "length (out_of c @ err_of c) < 2 ^ 32" by auto
  qed
  from read_guest_frames_chunks[OF this] show ?thesis
    using sh by (simp add: handle_exec_piped_def read_guest_frames_exit)
qed

lemma exec_piped_delivers_witness:
  "read_guest_frames (handle_exec_piped (Inr ()) [Out [104], Err [101], Out [105]] (Exited 3) @ []) =
     ([104, 105], [101], 3)"
proof -
  have "[Out [104], Err [101], Out [105]] \<in> shuffles (map Out [[104], [105]]) (map Err [[101]])"
    by (simp add: Cons_in_shuffles_iff)
  from exec_piped_delivers[OF this, of "Exited 3" "[]"] show ?thesis by fastforce
qed

text \<open>
  a session that ends without an exit frame. When the connection to the guest is lost
  after any sequence of output frames, the host still delivers that output and returns 1.
\<close>

theorem exec_lost_connection:
  assumes "\<And>c. c \<in> set chunks \<Longrightarrow> length (out_of c @ err_of c) \<le> 4096"
  shows "read_guest_frames (concat (map send_chunk chunks)) =
           (concat (map out_of chunks), concat (map err_of chunks), 1)"
  using read_guest_frames_chunks[of chunks "[]"] assms
  by (fastforce simp: read_guest_frames_Nil)

theorem exec_lost_connection_witness:
  "read_guest_frames (concat (map send_chunk [Out [7]])) = ([7], [], 1)"
  using exec_lost_connection[of "[Out [7]]"] by simp

text \<open>
  input of a piped session. The bytes the guest writes to the child's stdin are exactly
  the bytes the host's stdin thread read, in order, up to the round in which the thread saw
  end of file or an error; resize frames interleaved with the data do not disturb it.
\<close>

lemma exec_stdin_delivered:
  assumes "list_all wf_round rounds"
  shows "piped_stdin (\<lambda>_ _. True) w (stdin_thread rounds) = w @ typed rounds"
  using assms
proof (induction rounds arbitrary: w)
  case (Cons r rs)
  then have "piped_stdin (\<lambda>_ _. True) w (stdin_thread (r # rs)) =
     (if round_goes_on r then piped_stdin (\<lambda>_ _. True) (w @ round_data r) (stdin_thread rs)
      else w @ round_data r)"
    using piped_stdin_round[of r w "stdin_thread rs"]
    by (simp add: stdin_thread_Cons piped_stdin_resize)
  with Cons show ?case by simp
qed (simp add: piped_stdin_Nil)

lemma exec_stdin_delivered_witness:
  "piped_stdin (\<lambda>_ _. True) []
     (stdin_thread [\<lparr>resize_ready = True, winsize = Some (24, 80), stdin_ready = True,
        stdin_result = ReadData [65, 66], send_ok = True, stdin_bad = False\<rparr>]) = [65, 66]"
  using exec_stdin_delivered[of "[\<lparr>resize_ready = True, winsize = Some (24, 80),
     stdin_ready = True, stdin_result = ReadData [65, 66], send_ok = True, stdin_bad = False\<rparr>]" "[]"]
  by (simp add: wf_round_def round_data_def round_goes_on_def)

text \<open>
  input of a terminal session. The guest's terminal sees the keystrokes and the window
  sizes of the host's terminal in the order in which the host's poll loop handled them, with
  the rows and columns unchanged.
\<close>

theorem exec_tty_events:
  assumes "list_all wf_round rounds"
  shows "tty_stdin (\<lambda>_. True) (stdin_thread rounds) = terminal_events rounds"
  using assms
proof (induction rounds)
  case (Cons r rs)
  then show ?case
    using tty_stdin_round[of r "stdin_thread rs"]
    by (simp add: stdin_thread_Cons tty_stdin_resize_part)
qed (simp add: tty_stdin_Nil)

theorem exec_tty_events_witness:
  "tty_stdin (\<lambda>_. True)
     (stdin_thread [\<lparr>resize_ready = True, winsize = Some (24, 80), stdin_ready = True,
        stdin_result = ReadData [65, 66], send_ok = True, stdin_bad = False\<rparr>]) =
     [PtyResize 24 80, PtyWrite [65, 66]]"
  using exec_tty_events[of "[\<lparr>resize_ready = True, winsize = Some (24, 80),
     stdin_ready = True, stdin_result = ReadData [65, 66], send_ok = True, stdin_bad = False\<rparr>]"]
  by (simp add: wf_round_def round_data_def round_goes_on_def round_resize_def round_writes_def eof_sent_def)

end
