(* ===== verification/Guest_Exec.thy ===== *)
theory Guest_Exec
  imports File_Copy Exec_Frames
begin

text \<open>
  Interactive sessions from the command of the host to the child in the guest and back:
  \<open>exec_command\<close> in \<open>pelagos-mac/src/main.rs\<close>, \<open>handle_exec\<close>, \<open>handle_exec_into\<close> and the branches
  for shells and interactive starts of \<open>handle_connection\<close> in \<open>pelagos-guest/src/main.rs\<close>. A session
  starts with a JSON line in each direction; then both sides switch to binary frames on the
  same connection (theory \<open>Exec_Frames\<close>).
\<close>

section \<open>Bytes as characters\<close>

definition chars :: "bytes \<Rightarrow> string" where
  "chars bs = map (\<lambda>b. char_of (unat b)) bs"

lemma of_char_unat: "of_char (char_of (unat b)) = (b :: u8)"
proof -
  have "of_char (char_of (unat b)) = (of_nat (of_char (char_of (unat b))) :: u8)" by (rule of_nat_of_char[symmetric])
  also have "\<dots> = b" using unat_bounds(1)[of b] by (simp add: take_bit_eq_mod)
  finally show ?thesis .
qed

lemma ascii_chars [simp]: "ascii (chars bs) = bs"
  by (induction bs) (simp_all add: chars_def ascii_def of_char_unat)

lemma ascii_append [simp]: "ascii (a @ b) = ascii a @ ascii b"
  by (simp add: ascii_def)

section \<open>The host\<close>

text \<open>Waiting for the acknowledgement: what is printed on both streams, and the bytes after the
  acknowledging line (\<open>None\<close>: the command ends with 1).\<close>

function exec_wait :: "(string \<Rightarrow> json option) \<Rightarrow> string \<Rightarrow> string \<times> string \<times> string option" where
  "exec_wait from_json s =
     (case read_line s of
        None \<Rightarrow> ([], [], None)
      | Some (line, rest) \<Rightarrow>
          (let trimmed = trim_end line in
           if trimmed = [] then exec_wait from_json rest
           else (case Option.bind (from_json trimmed) de_response of
                   Some (HReady True) \<Rightarrow> ([], [], Some rest)
                 | Some (HError _) \<Rightarrow> ([], [], None)
                 | Some (HStream st d) \<Rightarrow>
                     (case exec_wait from_json rest of (out, err, r) \<Rightarrow>
                        if st = ''stderr'' then (out, d @ err, r) else (d @ out, err, r))
                 | Some _ \<Rightarrow> exec_wait from_json rest
                 | None \<Rightarrow> ([], [], None))))"
  by pat_completeness auto
termination
  by (relation "measure (\<lambda>(_, s). length s)") (auto dest: read_line_shorter)

declare exec_wait.simps [simp del]

text \<open>The terminal of the host: raw mode on, and off again.\<close>

datatype term_event = EnterRawMode | RestoreTerminal

text \<open>What a session does on the host: what it prints, its exit code, what it does to the
  terminal, and what it sends. \<open>guest\<close> is what the guest writes after the request (\<open>None\<close>: the
  request cannot be written), \<open>rounds\<close> what the input thread sees.\<close>

record exec_result =
  er_out :: string
  er_err :: string
  er_code :: u32
  er_terminal :: "term_event list"
  er_sent :: string

definition exec_command :: "(json \<Rightarrow> string) \<Rightarrow> (string \<Rightarrow> json option) \<Rightarrow> (string \<Rightarrow> string option) \<Rightarrow> poll_round list
    \<Rightarrow> host_command \<Rightarrow> bool \<Rightarrow> exec_result" where
  "exec_command to_json from_json guest rounds cmd tty =
     (let msg = to_json (ser_command cmd) @ [nl] in
      case guest msg of
        None \<Rightarrow> \<lparr>er_out = [], er_err = [], er_code = 1, er_terminal = [], er_sent = []\<rparr>
      | Some s \<Rightarrow>
          (case exec_wait from_json s of
             (out, err, None) \<Rightarrow> \<lparr>er_out = out, er_err = err, er_code = 1, er_terminal = [], er_sent = msg\<rparr>
           | (out, err, Some rest) \<Rightarrow>
               (case read_guest_frames (ascii rest) of (o', e', code) \<Rightarrow>
                  \<lparr>er_out = out @ chars o', er_err = err @ chars e', er_code = code,
                   er_terminal = (if tty then [EnterRawMode, RestoreTerminal] else []),
                   er_sent = msg @ chars (stdin_thread rounds)\<rparr>)))"

section \<open>The guest\<close>

text \<open>The child of a session, a run of the runtime or a shell of the machine: started with pipes it may fail to start, or its output is read in
  chunks until it ends; with a terminal the setup can fail too.\<close>

datatype child = Pelagos runtime_cmd | BinSh guest_env

record session_os =
  so_piped :: "child \<Rightarrow> (bytes + unit) \<times> chunk list \<times> wait_status"
  so_tty :: "child \<Rightarrow> tty_setup \<times> bytes list \<times> wait_status"
  so_env_order :: "guest_env \<Rightarrow> (string \<times> string) list"

definition exec_piped :: "session_os \<Rightarrow> child \<Rightarrow> string" where
  "exec_piped so cmd = (case so_piped so cmd of (spawned, cs, status) \<Rightarrow> chars (handle_exec_piped spawned cs status))"

definition exec_tty :: "session_os \<Rightarrow> child \<Rightarrow> string" where
  "exec_tty so cmd = (case so_tty so cmd of (setup, rs, status) \<Rightarrow> chars (handle_exec_tty setup rs status))"

text \<open>\<open>handle_exec\<close>: a new container on a terminal. The image is pulled before the
  acknowledgement.\<close>

definition exec_mount_source :: "guest_mount \<Rightarrow> string" where
  "exec_mount_source m =
     (if mount_subpath m = [] then ''/mnt/'' @ mount_tag m else ''/mnt/'' @ mount_tag m @ ''/'' @ mount_subpath m)"

definition exec_args :: "string \<Rightarrow> string list \<Rightarrow> bool \<Rightarrow> string option \<Rightarrow> guest_mount list \<Rightarrow> string list \<Rightarrow> string list
    \<Rightarrow> string option \<Rightarrow> string list \<Rightarrow> string list" where
  "exec_args img args tty name mounts labels publish network dns =
     [''run''] @ (if tty then [''--interactive''] else []) @ opt_arg ''--name'' name @ each_arg ''--label'' labels
     @ each_arg ''--publish'' publish @ opt_arg ''--network'' network @ each_arg ''--dns'' dns
     @ each_arg ''--volume'' (map (\<lambda>m. exec_mount_source m @ '':'' @ mount_container_path m) mounts)
     @ [img] @ args"

definition handle_exec :: "(json \<Rightarrow> string) \<Rightarrow> guest_os \<Rightarrow> session_os \<Rightarrow> string \<Rightarrow> string list \<Rightarrow> guest_env \<Rightarrow> bool
    \<Rightarrow> string option \<Rightarrow> guest_mount list \<Rightarrow> string list \<Rightarrow> string list \<Rightarrow> string option \<Rightarrow> string list \<Rightarrow> string" where
  "handle_exec to_json os so img args env tty name mounts labels publish network dns =
     (case pull_image (os_exists os) (os_pull os) img of
        (False, rs) \<Rightarrow> wire to_json (map Reply rs)
      | (True, rs) \<Rightarrow>
          wire to_json (map Reply (rs @ [GReady True]))
          @ exec_piped so (Pelagos ((plain_cmd (exec_args img args tty name mounts labels publish network dns))\<lparr>rc_env := env\<rparr>)))"

text \<open>\<open>handle_exec_into\<close>: a command in a running container, through \<open>pelagos exec\<close>. The variables
  become options, in the iteration order of the hash map.\<close>

definition exec_into_args :: "session_os \<Rightarrow> string \<Rightarrow> string list \<Rightarrow> guest_env \<Rightarrow> bool \<Rightarrow> string option \<Rightarrow> string list" where
  "exec_into_args so container args env tty workdir =
     [''exec''] @ (if tty then [''--interactive''] else []) @ opt_arg ''--workdir'' workdir
     @ each_arg ''--env'' (map (\<lambda>(k, v). k @ ''='' @ v) (so_env_order so env)) @ [container] @ args"

definition handle_exec_into :: "(json \<Rightarrow> string) \<Rightarrow> session_os \<Rightarrow> string \<Rightarrow> string list \<Rightarrow> guest_env \<Rightarrow> bool
    \<Rightarrow> string option \<Rightarrow> string" where
  "handle_exec_into to_json so container args env tty workdir =
     (if args = [] then send_response to_json (GError ''exec: no command specified'')
      else send_response to_json (GReady True)
        @ (let cmd = Pelagos (plain_cmd (exec_into_args so container args env tty workdir)) in
           if tty then exec_tty so cmd else exec_piped so cmd))"

text \<open>The branches for a shell in the machine and an interactive start.\<close>

definition shell_cmd :: child where
  "shell_cmd = BinSh [''PATH'' \<mapsto> ''/usr/local/sbin:/usr/local/bin:/usr/sbin:/usr/bin:/sbin:/bin'']"

definition handle_shell :: "(json \<Rightarrow> string) \<Rightarrow> session_os \<Rightarrow> bool \<Rightarrow> string" where
  "handle_shell to_json so tty =
     send_response to_json (GReady True) @ (if tty then exec_tty so shell_cmd else exec_piped so shell_cmd)"

definition handle_start_interactive :: "(json \<Rightarrow> string) \<Rightarrow> session_os \<Rightarrow> string \<Rightarrow> string list \<Rightarrow> string" where
  "handle_start_interactive to_json so name cmd_override =
     send_response to_json (GReady True)
     @ exec_tty so (Pelagos (plain_cmd ([''start'', ''-i'', name] @ (if cmd_override = [] then [] else ''--'' # cmd_override))))"

text \<open>The commands that end the line protocol with a session, dispatched as in
  \<open>handle_connection\<close>; the replies to earlier lines come first.\<close>

definition handle_session :: "(json \<Rightarrow> string) \<Rightarrow> guest_os \<Rightarrow> session_os \<Rightarrow> guest_command \<Rightarrow> string" where
  "handle_session to_json os so c =
     (case c of
        GExec img args env tty name mounts labels publish network dns \<Rightarrow>
          handle_exec to_json os so img args env tty name mounts labels publish network dns
      | GExecInto container args env tty workdir \<Rightarrow> handle_exec_into to_json so container args env tty workdir
      | GShell tty \<Rightarrow> handle_shell to_json so tty
      | GStart name interactive cmd_override \<Rightarrow>
          (if interactive then handle_start_interactive to_json so name cmd_override else [])
      | _ \<Rightarrow> [])"

definition serve_session :: "(json \<Rightarrow> string) \<Rightarrow> (string \<Rightarrow> json option) \<Rightarrow> (string \<Rightarrow> string) \<Rightarrow> guest_os
    \<Rightarrow> (guest_command \<Rightarrow> guest_response list) \<Rightarrow> session_os \<Rightarrow> string \<Rightarrow> string" where
  "serve_session to_json from_json json_error os k8s so s =
     (case serve_bytes os k8s from_json json_error s of (rs, last_command) \<Rightarrow>
        wire to_json (map Reply rs)
        @ (case last_command of None \<Rightarrow> [] | Some (c, _) \<Rightarrow> handle_session to_json os so c))"

section \<open>The handshake\<close>

text \<open>The child of a session and whether it has a terminal of its own, and the pull before it.\<close>

definition session_child :: "session_os \<Rightarrow> guest_command \<Rightarrow> (bool \<times> child) option" where
  "session_child so c =
     (case c of
        GExec img args env tty name mounts labels publish network dns \<Rightarrow>
          Some (False, Pelagos ((plain_cmd (exec_args img args tty name mounts labels publish network dns))\<lparr>rc_env := env\<rparr>))
      | GExecInto container args env tty workdir \<Rightarrow>
          if args = [] then None else Some (tty, Pelagos (plain_cmd (exec_into_args so container args env tty workdir)))
      | GShell tty \<Rightarrow> Some (tty, shell_cmd)
      | GStart name interactive cmd_override \<Rightarrow>
          if interactive
          then Some (True, Pelagos (plain_cmd ([''start'', ''-i'', name] @ (if cmd_override = [] then [] else ''--'' # cmd_override))))
          else None
      | _ \<Rightarrow> None)"

definition session_pull :: "guest_os \<Rightarrow> guest_command \<Rightarrow> bool \<times> guest_response list" where
  "session_pull os c = (case c of GExec img _ _ _ _ _ _ _ _ _ \<Rightarrow> pull_image (os_exists os) (os_pull os) img | _ \<Rightarrow> (True, []))"

lemma wire_append: "wire to_json (a @ b) = wire to_json a @ wire to_json b"
  by (simp add: wire_def)

lemma wire_one: "wire to_json [Reply r] = send_response to_json r"
  by (simp add: wire_def)

lemma session_ends: "session_child so c = Some p \<Longrightarrow> ends_connection c"
  by (cases c) (auto simp: session_child_def split: if_splits)

lemma handle_session_ready:
  assumes "session_child so c = Some (tty, ch)" and "session_pull os c = (True, rs)"
  shows "handle_session to_json os so c =
    wire to_json (map Reply rs) @ send_response to_json (GReady True) @ (if tty then exec_tty so ch else exec_piped so ch)"
  using assms
  by (cases c) (auto simp: session_child_def session_pull_def handle_session_def handle_exec_def handle_exec_into_def
      handle_shell_def handle_start_interactive_def wire_append wire_one wire_def split: if_splits)

lemma handle_session_no_image:
  assumes "session_pull os c = (False, rs)"
  shows "handle_session to_json os so c = wire to_json (map Reply rs)"
  using assms by (cases c) (auto simp: session_pull_def handle_session_def handle_exec_def)

lemma serve_session_last:
  assumes "text_line to_json from_json (ser_command c)" and "distinct (map fst (env_of c))" and "ends_connection (as_guest c)"
  shows "serve_bytes os k8s from_json json_error (to_json (ser_command c) @ nl # s) = ([], Some (as_guest c, s))"
    "serve_session to_json from_json json_error os k8s so (to_json (ser_command c) @ nl # s) = handle_session to_json os so (as_guest c)"
proof -
  have j: "json_line to_json from_json (ser_command c)" and n: "nl \<notin> set (to_json (ser_command c))"
    using assms by (auto simp: text_line_def)
  show *: "serve_bytes os k8s from_json json_error (to_json (ser_command c) @ nl # s) = ([], Some (as_guest c, s))"
    using assms(2,3) json_line_read[OF j] de_ser_command[of c]
    by (simp add: serve_bytes_line[OF n] Let_def del: serve_bytes.simps)
  show "serve_session to_json from_json json_error os k8s so (to_json (ser_command c) @ nl # s) = handle_session to_json os so (as_guest c)"
    by (simp add: serve_session_def * wire_def del: serve_bytes.simps)
qed

lemma exec_wait_reply:
  assumes "text_line to_json from_json (ser_response r)"
  shows "exec_wait from_json (send_response to_json r @ s) =
    (case as_host r of
       HReady True \<Rightarrow> ([], [], Some s)
     | HError _ \<Rightarrow> ([], [], None)
     | HStream st d \<Rightarrow>
         (case exec_wait from_json s of (out, err, x) \<Rightarrow> if st = ''stderr'' then (out, d @ err, x) else (d @ out, err, x))
     | _ \<Rightarrow> exec_wait from_json s)"
  using reply_line[OF assms]
  by (subst exec_wait.simps) (simp add: Let_def split: host_response.split)

lemma exec_wait_progress:
  assumes "list_all (\<lambda>r. text_line to_json from_json (ser_response r)) (map (GStream Stderr) ls)"
  shows "exec_wait from_json (wire to_json (map Reply (map (GStream Stderr) ls)) @ s) =
    (case exec_wait from_json s of (out, err, x) \<Rightarrow> (out, concat ls @ err, x))"
  using assms
proof (induction ls)
  case (Cons l ls)
  then have "text_line to_json from_json (ser_response (GStream Stderr l))" by simp
  from exec_wait_reply[OF this, of "wire to_json (map Reply (map (GStream Stderr) ls)) @ s"] Cons
  show ?case by (simp add: wire_def ser_stream_kind_def split_beta del: ser_response.simps)
qed (simp add: wire_def)

lemma session_pull_shape:
  "\<exists>ls err. snd (session_pull os c) = map (GStream Stderr) ls @ (if fst (session_pull os c) then [] else [GError err])"
proof (cases c)
  case (GExec img)
  then show ?thesis using pull_attempts_spec(2)[of "os_pull os img" 1 PULL_ATTEMPTS "[]"]
    by (auto simp: session_pull_def pull_image_def)
qed (auto simp: session_pull_def)

lemma read_tty:
  assumes "\<forall>d \<in> set reads. length d \<le> 4096"
  shows "read_guest_frames (handle_exec_tty TtyReady reads status) = (concat reads, [], exit_code_of status)"
proof -
  have "concat (map (guest_send_frame FRAME_STDOUT) reads) = concat (map send_chunk (map Out reads))"
    by (simp add: comp_def)
  moreover have "\<forall>c\<in>set (map Out reads). length (out_of c @ err_of c) < 2 ^ 32" using assms by fastforce
  ultimately show ?thesis
    using read_guest_frames_chunks[of "map Out reads"] read_guest_frames_exit[of _ "[]"]
    by (simp add: handle_exec_tty_def comp_def)
qed

text \<open>The progress of a pull.\<close>

definition progress :: "guest_response list \<Rightarrow> string" where
  "progress rs = concat (map (\<lambda>r. case r of GStream _ d \<Rightarrow> d | _ \<Rightarrow> []) rs)"

lemma progress_streams [simp]: "progress (map (GStream k) ls) = concat ls"
  by (simp add: progress_def comp_def)

lemma progress_error [simp]: "progress (rs @ [GError e]) = progress rs" "progress [] = []"
  by (simp_all add: progress_def)

lemma session_result:
  assumes "session_child so (as_guest c) = Some (t, ch)" and "session_pull os (as_guest c) = (True, map (GStream Stderr) ls)"
    and "text_line to_json from_json (ser_command c)" and "distinct (map fst (env_of c))"
    and "list_all (\<lambda>r. text_line to_json from_json (ser_response r)) (map (GStream Stderr) ls @ [GReady True])"
    and "(if t then exec_tty so ch else exec_piped so ch) = chars frames" and "read_guest_frames frames = (out, err, code)"
  shows "exec_command to_json from_json (\<lambda>request. Some (serve_session to_json from_json json_error os k8s so request)) rounds c tty =
      \<lparr>er_out = chars out, er_err = concat ls @ chars err, er_code = code,
       er_terminal = (if tty then [EnterRawMode, RestoreTerminal] else []),
       er_sent = to_json (ser_command c) @ [nl] @ chars (stdin_thread rounds)\<rparr>"
proof -
  have lines: "list_all (\<lambda>r. text_line to_json from_json (ser_response r)) (map (GStream Stderr) ls)"
    and ready: "text_line to_json from_json (ser_response (GReady True))" using assms(5) by simp_all
  have "serve_session to_json from_json json_error os k8s so (to_json (ser_command c) @ [nl]) =
      wire to_json (map Reply (map (GStream Stderr) ls)) @ send_response to_json (GReady True) @ chars frames"
    using serve_session_last(2)[OF assms(3,4) session_ends[OF assms(1)], of json_error os k8s so "[]"]
      handle_session_ready[OF assms(1,2), of to_json] assms(6) by simp
  moreover have "exec_wait from_json (wire to_json (map Reply (map (GStream Stderr) ls)) @ send_response to_json (GReady True) @
      chars frames) = ([], concat ls, Some (chars frames))"
    unfolding exec_wait_progress[OF lines] exec_wait_reply[OF ready] by simp
  ultimately show ?thesis using assms(7) by (simp add: exec_command_def Let_def)
qed


definition demo_session :: session_os where
  "demo_session = \<lparr>so_piped = (\<lambda>_. (Inr (), [Out [104], Err [101], Out [105]], Exited 3)),
     so_tty = (\<lambda>_. (DupFailed, [], WaitFailed)), so_env_order = (\<lambda>_. [])\<rparr>"

definition demo_round :: poll_round where
  "demo_round = \<lparr>resize_ready = True, winsize = Some (24, 80), stdin_ready = True,
     stdin_result = ReadData [65, 66], send_ok = True, stdin_bad = False\<rparr>"


text \<open>
  A session that cannot start: when the image cannot be pulled, or \<open>exec\<close> is given no command,
  the host prints the progress so far, returns 1, never touches the terminal and sends no input.
\<close>

theorem exec_not_started:
  assumes "text_line to_json from_json (ser_command c)" and "distinct (map fst (env_of c))"
    and "(\<exists>img args env t name ms lb pb nw dns. c = HExec img args env t name ms lb pb nw dns \<and>
            fst (session_pull os (as_guest c)) = False) \<or>
         (\<exists>container env t wd. c = HExecInto container [] env t wd)"
    and "list_all (\<lambda>r. text_line to_json from_json (ser_response r))
       (snd (session_pull os (as_guest c)) @ [GError ''exec: no command specified''])"
  shows "exec_command to_json from_json (\<lambda>request. Some (serve_session to_json from_json json_error os k8s so request)) rounds c tty =
    \<lparr>er_out = [], er_err = progress (snd (session_pull os (as_guest c))), er_code = 1, er_terminal = [], er_sent = to_json (ser_command c) @ [nl]\<rparr>"
proof -
  have ends: "ends_connection (as_guest c)" using assms(3) by auto
  note last = serve_session_last(2)[OF assms(1,2) ends, of json_error os k8s so "[]"]
  have "exec_wait from_json (handle_session to_json os so (as_guest c)) = ([], progress (snd (session_pull os (as_guest c))), None)"
    using assms(3)
  proof (elim disjE exE conjE)
    fix img args env t name ms lb pb nw dns
    assume c: "c = HExec img args env t name ms lb pb nw dns" and no: "fst (session_pull os (as_guest c)) = False"
    obtain ls err where rs: "session_pull os (as_guest c) = (False, map (GStream Stderr) ls @ [GError err])"
      using session_pull_shape[of os "as_guest c"] no by (metis prod.collapse)
    have h: "handle_session to_json os so (as_guest c) =
        wire to_json (map Reply (map (GStream Stderr) ls)) @ send_response to_json (GError err) @ []"
      using handle_session_no_image[OF rs] by (simp add: wire_append wire_one)
    have lines: "list_all (\<lambda>r. text_line to_json from_json (ser_response r)) (map (GStream Stderr) ls)"
      and e: "text_line to_json from_json (ser_response (GError err))" using assms(4) rs by simp_all
    show ?thesis unfolding h exec_wait_progress[OF lines] exec_wait_reply[OF e] rs by simp
  next
    fix container env t wd assume c: "c = HExecInto container [] env t wd"
    have e: "text_line to_json from_json (ser_response (GError ''exec: no command specified''))" using assms(4) by simp
    show ?thesis using exec_wait_reply[OF e, of "[]"]
      by (simp add: c handle_session_def handle_exec_into_def session_pull_def del: ser_response.simps)
  qed
  then show ?thesis using last by (simp add: exec_command_def Let_def)
qed

theorem exec_not_started_witness:
  "er_code (exec_command sized_text unsized_text
      (\<lambda>request. Some (serve_session sized_text unsized_text id quiet_os (\<lambda>_. []) demo_session request))
      [demo_round] (HExecInto ''box'' [] [] False None) True) = 1"
  using exec_not_started[of sized_text unsized_text "HExecInto ''box'' [] [] False None" quiet_os id "\<lambda>_. []" demo_session "[demo_round]" True]
  by (simp add: session_pull_def text_line_def json_line_sized tagged_def outer_def sized_text_def put_str_def strs_def env_json_def
      ex_bool_eq)

end
