(* ===== verification/Guest_Enter.thy ===== *)
theory Guest_Enter
  imports File_Copy
begin

text \<open>
  How the guest enters a running container to copy files (\<open>get_container_pid\<close>, \<open>find_root_pid\<close>,
  \<open>open_root_fd\<close>, \<open>open_ns_fds\<close> and the parts of \<open>handle_cp_from\<close> and \<open>handle_cp_to\<close> around \<open>tar\<close> in
  \<open>pelagos-guest/src/main.rs\<close>): the process is looked up in the list of containers, descriptors of
  its namespaces and its root are opened, the child joins them and changes its root before it
  becomes \<open>tar\<close>, and the descriptors are closed on every path. The table of open descriptors is an
  explicit state; what \<open>open\<close> returns is a parameter.
\<close>

section \<open>The process of a container\<close>

text \<open>\<open>get_container_pid\<close>, for the output of \<open>pelagos ps --all\<close> (left: it could not be run). \<open>parse_err\<close>
  is the text of the error of an integer parse.\<close>

fun pid_in_lines :: "(string \<Rightarrow> string) \<Rightarrow> string \<Rightarrow> string list \<Rightarrow> string + u32" where
  "pid_in_lines parse_err container [] = Inl (''container '' @ [CHR 0x27] @ container @ [CHR 0x27] @ '' not found or not running'')"
| "pid_in_lines parse_err container (line # ls) =
     (let cols = split_ws line in
      if length cols \<ge> 3 \<and> cols ! 0 = container then
        (if cols ! 2 = ''-'' then
           Inl (''container '' @ [CHR 0x27] @ container @ [CHR 0x27] @ '' has no running process (PID is '' @ [CHR 0x27] @ ''-'' @ [CHR 0x27] @ '')'')
         else (case parse_word (cols ! 2) of Some p \<Rightarrow> Inr p | None \<Rightarrow> Inl (parse_err (cols ! 2))))
      else pid_in_lines parse_err container ls)"

definition get_container_pid :: "(string \<Rightarrow> string) \<Rightarrow> string + string \<Rightarrow> string \<Rightarrow> string + u32" where
  "get_container_pid parse_err ps container =
     (case ps of Inl e \<Rightarrow> Inl e | Inr out \<Rightarrow> pid_in_lines parse_err container (str_lines out))"

text \<open>\<open>find_root_pid\<close>: the only child of the process, or the process itself. \<open>read_file\<close> reads a file
  of \<open>/proc\<close>.\<close>

definition find_root_pid :: "(string \<Rightarrow> string option) \<Rightarrow> u32 \<Rightarrow> u32" where
  "find_root_pid read_file pid =
     (case read_file (''/proc/'' @ show_word pid @ ''/task/'' @ show_word pid @ ''/children'') of
        None \<Rightarrow> pid
      | Some content \<Rightarrow>
          (case List.map_filter parse_word (split_ws content) of [child] \<Rightarrow> child | _ \<Rightarrow> pid))"

section \<open>Descriptors\<close>

type_synonym fd_table = "int list"

text \<open>\<open>open\<close> of a path with a given table: an error or a descriptor.\<close>

type_synonym opener = "fd_table \<Rightarrow> string \<Rightarrow> string + int"

definition close_fd :: "int \<Rightarrow> fd_table \<Rightarrow> fd_table" where
  "close_fd fd t = remove1 fd t"

definition close_all :: "int list \<Rightarrow> fd_table \<Rightarrow> fd_table" where
  "close_all fds t = fold close_fd fds t"

definition ns_names :: "string list" where
  "ns_names = [''net'', ''uts'', ''ipc'', ''pid'', ''mnt'']"

fun open_ns_loop :: "opener \<Rightarrow> u32 \<Rightarrow> string list \<Rightarrow> int list \<Rightarrow> fd_table \<Rightarrow> (string + int list) \<times> fd_table" where
  "open_ns_loop op pid [] fds t = (Inr fds, t)"
| "open_ns_loop op pid (ns # nss) fds t =
     (case op t (''/proc/'' @ show_word pid @ ''/ns/'' @ ns) of
        Inl e \<Rightarrow> (Inl e, close_all fds t)
      | Inr fd \<Rightarrow> open_ns_loop op pid nss (fds @ [fd]) (fd # t))"

definition open_ns_fds :: "opener \<Rightarrow> u32 \<Rightarrow> fd_table \<Rightarrow> (string + int list) \<times> fd_table" where
  "open_ns_fds op pid t = open_ns_loop op pid ns_names [] t"

definition open_root_fd :: "opener \<Rightarrow> (string \<Rightarrow> string option) \<Rightarrow> u32 \<Rightarrow> fd_table \<Rightarrow> (string + int) \<times> fd_table" where
  "open_root_fd op read_file pid t =
     (case op t (''/proc/'' @ show_word (find_root_pid read_file pid) @ ''/root'') of
        Inl e \<Rightarrow> (Inl e, t)
      | Inr fd \<Rightarrow> (Inr fd, fd # t))"

section \<open>Entering and leaving\<close>

text \<open>What the system answers, and the calls of the child between \<open>fork\<close> and \<open>exec\<close>.\<close>

record enter_os =
  eo_ps :: "string + string"
  eo_parse_err :: "string \<Rightarrow> string"
  eo_read :: "string \<Rightarrow> string option"
  eo_open :: opener

text \<open>The first half of \<open>handle_cp_from\<close> and \<open>handle_cp_to\<close>: the namespaces and the root of the
  container, or the error that is answered.\<close>

definition enter_container :: "enter_os \<Rightarrow> string \<Rightarrow> fd_table \<Rightarrow> (entered + int list \<times> int) \<times> fd_table" where
  "enter_container eo container t =
     (case get_container_pid (eo_parse_err eo) (eo_ps eo) container of
        Inl e \<Rightarrow> (Inl (NoPid e), t)
      | Inr pid \<Rightarrow>
          (case open_ns_fds (eo_open eo) pid t of
             (Inl e, t1) \<Rightarrow> (Inl (NoNamespaces e), t1)
           | (Inr ns_fds, t1) \<Rightarrow>
               (case open_root_fd (eo_open eo) (eo_read eo) pid t1 of
                  (Inl e, t2) \<Rightarrow> (Inl (NoRoot e), close_all ns_fds t2)
                | (Inr root_fd, t2) \<Rightarrow> (Inr (ns_fds, root_fd), t2))))"

text \<open>The child: it joins each namespace, then changes its root. A call that fails ends it; \<open>ok\<close>
  tells which calls succeed.\<close>

datatype child_call = SetNs int | CloseFd int | Fchdir int | Chroot string | Chdir string

fun join_calls :: "(child_call \<Rightarrow> bool) \<Rightarrow> child_call list \<Rightarrow> bool \<times> child_call list" where
  "join_calls ok [] = (True, [])"
| "join_calls ok (c # cs) =
     (case c of
        CloseFd _ \<Rightarrow> apsnd (Cons c) (join_calls ok cs)
      | _ \<Rightarrow> if ok c then apsnd (Cons c) (join_calls ok cs) else (False, [c]))"

definition pre_exec_calls :: "int list \<Rightarrow> int \<Rightarrow> child_call list" where
  "pre_exec_calls ns_fds root_fd =
     concat (map (\<lambda>fd. [SetNs fd, CloseFd fd]) ns_fds) @ [Fchdir root_fd, Chroot ''.'', Chdir ''/'', CloseFd root_fd]"

definition pre_exec :: "(child_call \<Rightarrow> bool) \<Rightarrow> int list \<Rightarrow> int \<Rightarrow> bool \<times> child_call list" where
  "pre_exec ok ns_fds root_fd = join_calls ok (pre_exec_calls ns_fds root_fd)"

text \<open>The copy handlers around the child: entering, starting \<open>tar\<close>, and closing the parent's copies
  whether or not the child could be started.\<close>

definition in_container :: "enter_os \<Rightarrow> (int list \<Rightarrow> int \<Rightarrow> 'r) \<Rightarrow> string \<Rightarrow> fd_table \<Rightarrow> (entered + 'r) \<times> fd_table" where
  "in_container eo body container t =
     (case enter_container eo container t of
        (Inl e, t1) \<Rightarrow> (Inl e, t1)
      | (Inr (ns_fds, root_fd), t1) \<Rightarrow> (Inr (body ns_fds root_fd), close_fd root_fd (close_all ns_fds t1)))"

text \<open>The value of the parameter \<open>co_enter\<close> of the copy handlers.\<close>

definition entered_of :: "enter_os \<Rightarrow> fd_table \<Rightarrow> string \<Rightarrow> entered" where
  "entered_of eo t container = (case fst (enter_container eo container t) of Inl e \<Rightarrow> e | Inr _ \<Rightarrow> Entered)"

section \<open>No descriptor is left open\<close>

text \<open>What is relied on of the system: a new descriptor is not open yet.\<close>

definition fresh_opener :: "opener \<Rightarrow> bool" where
  "fresh_opener op = (\<forall>t p fd. op t p = Inr fd \<longrightarrow> fd \<notin> set t)"

lemma fresh_openerD: "fresh_opener op \<Longrightarrow> op t p = Inr fd \<Longrightarrow> fd \<notin> set t"
  by (auto simp: fresh_opener_def)

lemma close_all_snoc: "close_all (fds @ [fd]) t = close_fd fd (close_all fds t)"
  by (simp add: close_all_def)

lemma close_all_other: "set fds \<inter> set u = {} \<Longrightarrow> close_all fds (u @ t) = u @ close_all fds t"
  by (induction fds arbitrary: t) (auto simp: close_all_def close_fd_def remove1_append)

lemma close_all_rev: "distinct fds \<Longrightarrow> set fds \<inter> set t = {} \<Longrightarrow> close_all fds (rev fds @ t) = t"
proof (induction fds rule: rev_induct)
  case (snoc fd fds)
  have "close_all fds ([fd] @ rev fds @ t) = [fd] @ t"
    using snoc by (subst close_all_other) auto
  then show ?case using snoc by (simp add: close_all_snoc close_fd_def)
qed (simp add: close_all_def)

lemma open_ns_loop_table:
  assumes "fresh_opener op" and "distinct fds" and "set fds \<inter> set t = {}"
    and "open_ns_loop op pid nss fds (rev fds @ t) = (r, t')"
  shows "case r of Inl _ \<Rightarrow> t' = t
    | Inr fds' \<Rightarrow> t' = rev fds' @ t \<and> distinct fds' \<and> set fds' \<inter> set t = {} \<and> length fds' = length fds + length nss"
  using assms(2-)
proof (induction nss arbitrary: fds)
  case (Cons ns nss)
  show ?case
  proof (cases "op (rev fds @ t) (''/proc/'' @ show_word pid @ ''/ns/'' @ ns)")
    case (Inl e)
    then show ?thesis using Cons.prems by (auto simp: close_all_rev)
  next
    case (Inr fd)
    then have "fd \<notin> set (rev fds @ t)" using fresh_openerD[OF assms(1)] by blast
    then show ?thesis using Cons.IH[of "fds @ [fd]"] Cons.prems Inr by (auto split: sum.splits)
  qed
qed (auto split: sum.splits)

lemma enter_container_table:
  assumes "fresh_opener (eo_open eo)" and "enter_container eo container t = (r, t')"
  shows "case r of Inl _ \<Rightarrow> t' = t
    | Inr (ns_fds, root_fd) \<Rightarrow> t' = rev (ns_fds @ [root_fd]) @ t \<and> distinct (ns_fds @ [root_fd]) \<and>
        set (ns_fds @ [root_fd]) \<inter> set t = {} \<and> length ns_fds = 5"
proof (cases "get_container_pid (eo_parse_err eo) (eo_ps eo) container")
  case (Inr pid)
  obtain q t1 where ns: "open_ns_fds (eo_open eo) pid t = (q, t1)" by (cases "open_ns_fds (eo_open eo) pid t")
  note tab = open_ns_loop_table[OF assms(1), of "[]" t pid ns_names q t1]
  show ?thesis
  proof (cases q)
    case (Inl e)
    then show ?thesis using assms(2) Inr ns tab by (auto simp: enter_container_def open_ns_fds_def)
  next
    case (Inr ns_fds)
    then have t1: "t1 = rev ns_fds @ t" "distinct ns_fds" "set ns_fds \<inter> set t = {}" "length ns_fds = 5"
      using ns tab by (simp_all add: open_ns_fds_def ns_names_def)
    show ?thesis
    proof (cases "open_root_fd (eo_open eo) (eo_read eo) pid t1")
      case (Pair w t2)
      show ?thesis
      proof (cases w)
        case (Inl e)
        then have "t2 = t1" using Pair by (auto simp: open_root_fd_def split: sum.splits)
        then show ?thesis
          using assms(2) \<open>get_container_pid _ _ _ = Inr pid\<close> ns \<open>q = Inr ns_fds\<close> Pair Inl t1
          by (auto simp: enter_container_def close_all_rev)
      next
        case (Inr root_fd)
        then have "t2 = root_fd # t1" "root_fd \<notin> set t1"
          using Pair fresh_openerD[OF assms(1)] by (auto simp: open_root_fd_def split: sum.splits)
        then show ?thesis
          using assms(2) \<open>get_container_pid _ _ _ = Inr pid\<close> ns \<open>q = Inr ns_fds\<close> Pair Inr t1
          by (auto simp: enter_container_def)
      qed
    qed
  qed
qed (use assms(2) in \<open>auto simp: enter_container_def\<close>)

lemma join_calls_all: "join_calls ok cs = (True, calls) \<Longrightarrow> calls = cs"
  by (induction cs arbitrary: calls) (auto simp: apsnd_def map_prod_def split: child_call.splits if_splits prod.splits)

definition closed_fds :: "child_call list \<Rightarrow> int list" where
  "closed_fds cs = concat (map (\<lambda>c. case c of CloseFd fd \<Rightarrow> [fd] | _ \<Rightarrow> []) cs)"

definition other_calls :: "child_call list \<Rightarrow> child_call list" where
  "other_calls cs = filter (\<lambda>c. case c of CloseFd _ \<Rightarrow> False | _ \<Rightarrow> True) cs"

lemma pre_exec_shape:
  "closed_fds (pre_exec_calls ns_fds root_fd) = ns_fds @ [root_fd]"
  "other_calls (pre_exec_calls ns_fds root_fd) = map SetNs ns_fds @ [Fchdir root_fd, Chroot ''.'', Chdir ''/'']"
  by (induction ns_fds) (simp_all add: pre_exec_calls_def closed_fds_def other_calls_def)

lemma in_container_table:
  assumes "fresh_opener (eo_open eo)"
  shows "snd (in_container eo body container t) = t"
proof -
  obtain r t1 where e: "enter_container eo container t = (r, t1)" by (cases "enter_container eo container t")
  note tab = enter_container_table[OF assms e]
  show ?thesis
  proof (cases r)
    case (Inr p)
    obtain ns_fds root_fd where p: "p = (ns_fds, root_fd)" by (cases p)
    then have t1: "t1 = rev (ns_fds @ [root_fd]) @ t" "distinct (ns_fds @ [root_fd])" "set (ns_fds @ [root_fd]) \<inter> set t = {}"
      using tab Inr by auto
    then show ?thesis using close_all_rev[of "ns_fds @ [root_fd]" t] by (simp add: in_container_def e Inr p close_all_snoc)
  qed (use tab in \<open>simp add: in_container_def e\<close>)
qed

text \<open>
  C28: Copying files leaks no descriptor: on every path of the copy handlers (no such container,
  a namespace or the root that cannot be opened at any position, a child that cannot be started
  or that runs) the guest's table of open descriptors is in the end what it was before; and a
  child that reaches \<open>tar\<close> has joined the five namespaces, in the order of their descriptors,
  before it changed its root, and has closed each inherited descriptor once.
\<close>

theorem cp_descriptors_balanced:
  assumes "fresh_opener (eo_open eo)"
  shows "snd (in_container eo body container t) = t \<and>
    (\<forall>ns_fds root_fd calls. fst (enter_container eo container t) = Inr (ns_fds, root_fd) \<longrightarrow>
      pre_exec ok ns_fds root_fd = (True, calls) \<longrightarrow>
        length ns_fds = 5 \<and> distinct (ns_fds @ [root_fd]) \<and> closed_fds calls = ns_fds @ [root_fd] \<and>
        other_calls calls = map SetNs ns_fds @ [Fchdir root_fd, Chroot ''.'', Chdir ''/''])"
proof (intro conjI allI impI)
  show "snd (in_container eo body container t) = t" by (rule in_container_table[OF assms])
  fix ns_fds root_fd calls
  assume "fst (enter_container eo container t) = Inr (ns_fds, root_fd)" and "pre_exec ok ns_fds root_fd = (True, calls)"
  then have calls: "calls = pre_exec_calls ns_fds root_fd" and
    enter: "enter_container eo container t = (Inr (ns_fds, root_fd), snd (enter_container eo container t))"
    by (auto simp: pre_exec_def dest: join_calls_all intro: prod_eqI)
  note tab = enter_container_table[OF assms enter]
  show "length ns_fds = 5" "distinct (ns_fds @ [root_fd])" using tab by simp_all
  show "closed_fds calls = ns_fds @ [root_fd]"
    "other_calls calls = map SetNs ns_fds @ [Fchdir root_fd, Chroot ''.'', Chdir ''/'']"
    by (simp_all add: calls pre_exec_shape)
qed

text \<open>A system that gives the number of open descriptors as the next one, and one container.\<close>

definition next_fd :: opener where
  "next_fd t _ = Inr (if t = [] then 0 else Max (set t) + 1)"

lemma fresh_next_fd: "fresh_opener next_fd"
proof -
  have "Max (set t) + 1 \<notin> set t" if "t \<noteq> []" for t :: "int list"
    using that Max_ge[of "set t" "Max (set t) + 1"] by auto
  then show ?thesis by (auto simp: fresh_opener_def next_fd_def)
qed

definition demo_enter :: enter_os where
  "demo_enter = \<lparr>eo_ps = Inr (''NAME STATUS PID'' @ [nl] @ ''box running 7'' @ [nl]), eo_parse_err = id, eo_read = (\<lambda>_. None),
     eo_open = next_fd\<rparr>"

theorem cp_descriptors_balanced_witness: "snd (in_container demo_enter (\<lambda>_ _. ()) ''box'' [0, 1, 2]) = [0, 1, 2]"
  using cp_descriptors_balanced[of demo_enter "\<lambda>_ _. ()" "''box''" "[0, 1, 2]" "\<lambda>_. True"]
  by (simp add: demo_enter_def fresh_next_fd)

section \<open>Which process\<close>

text \<open>The process found for a container is the one of the first row with its name; without such a
  row, or while it has no process, the copy is refused.\<close>

lemma pid_skip:
  assumes "split_ws l = [] \<or> hd (split_ws l) \<noteq> container"
  shows "pid_in_lines parse_err container (l # ls) = pid_in_lines parse_err container ls"
proof -
  have "\<not> (3 \<le> length (split_ws l) \<and> split_ws l ! 0 = container)" using assms by (cases "split_ws l") auto
  then show ?thesis by (simp only: pid_in_lines.simps Let_def if_False)
qed

lemma pid_of_row:
  assumes "list_all (\<lambda>l. split_ws l = [] \<or> hd (split_ws l) \<noteq> container) before"
    and "split_ws row = container # status # show_word pid # more_cols"
  shows "pid_in_lines parse_err container (before @ row # after) = Inr (pid :: u32)"
  using assms
proof (induction before)
  case Nil
  have "show_word pid \<noteq> ''-''" using show_nat_digits[of "unat pid"] by (auto simp: show_word_def is_digit_def)
  then show ?case using Nil by (simp add: codec_simps)
qed (simp add: pid_skip del: pid_in_lines.simps)

lemma pid_missing:
  assumes "list_all (\<lambda>l. split_ws l = [] \<or> hd (split_ws l) \<noteq> container) ls"
  shows "isl (pid_in_lines parse_err container ls)"
  using assms by (induction ls) (simp_all add: pid_skip del: pid_in_lines.simps(2))

lemma find_root_pid_child:
  assumes "read_file (''/proc/'' @ show_word pid @ ''/task/'' @ show_word pid @ ''/children'') = Some content"
    and "split_ws content = [show_word child]"
  shows "find_root_pid read_file pid = child"
  using assms by (simp add: find_root_pid_def codec_simps map_filter_simps)

end
