(* ===== verification/Guest_Kube.thy ===== *)
theory Guest_Kube
  imports File_Copy
begin

text \<open>
  The Kubernetes control plane in the machine (\<open>handle_kubernetes_start\<close>,
  \<open>handle_kubernetes_stop\<close> and \<open>handle_kubernetes_status\<close> in \<open>pelagos-guest/src/main.rs\<close>): three
  programs that are started when no process of their name runs, in the order of their
  dependencies, and told to stop in the reverse order. The table of processes is the state; a program
  that was told to stop stays in it until it has gone. Which files exist and whether a started
  program stays alive are parameters.
\<close>

section \<open>State and helpers\<close>

record started =
  st_name :: string
  st_args :: "string list"
  st_env :: "(string \<times> string) list"

text \<open>The processes by name, those of them that have been sent a signal to end, and what was started.\<close>

record kube_state =
  ks_procs :: "string list"
  ks_dying :: "string list"
  ks_started :: "started list"

text \<open>What the system answers. \<open>ko_stays\<close>: the program could be started and is found under its name;
  \<open>ko_probes\<close>: the results of the connection attempts before the deadline.\<close>

record kube_os =
  ko_exists :: "string \<Rightarrow> bool"
  ko_stays :: "started \<Rightarrow> bool"
  ko_probes :: "bool list"
  ko_pelagos_bin :: string

definition k8s_is_running :: "kube_state \<Rightarrow> string \<Rightarrow> bool" where
  "k8s_is_running ks name = (name \<in> set (ks_procs ks))"

definition k8s_find_bin :: "(string \<Rightarrow> bool) \<Rightarrow> string \<Rightarrow> string list \<Rightarrow> string" where
  "k8s_find_bin exists name dirs =
     (case find exists (map (\<lambda>dir. dir @ ''/'' @ name) dirs) of Some p \<Rightarrow> p | None \<Rightarrow> name)"

text \<open>\<open>setsid --fork bin args\<close> with nothing waited for.\<close>

definition spawn_setsid :: "kube_os \<Rightarrow> string \<Rightarrow> string \<Rightarrow> string list \<Rightarrow> (string \<times> string) list \<Rightarrow> kube_state \<Rightarrow> kube_state" where
  "spawn_setsid ko name bin args env ks =
     (let p = \<lparr>st_name = bin, st_args = args, st_env = env\<rparr> in
      ks\<lparr>ks_procs := (if ko_stays ko p then name # ks_procs ks else ks_procs ks), ks_started := ks_started ks @ [p]\<rparr>)"

text \<open>\<open>k8s_wait_for_port\<close>: whether the port answered before the deadline; the caller does not look.\<close>

fun k8s_wait_for_port :: "bool list \<Rightarrow> bool" where
  "k8s_wait_for_port [] = False"
| "k8s_wait_for_port (ok # probes) = (ok \<or> k8s_wait_for_port probes)"

definition data_dir :: string where "data_dir = ''/var/lib/rusternetes/cluster.db''"
definition TLS_CERT :: string where "TLS_CERT = ''/mnt/Projects/pelagos-mac/tls/server.crt''"
definition TLS_KEY :: string where "TLS_KEY = ''/mnt/Projects/pelagos-mac/tls/server.key''"
definition CONSOLE_DIR :: string where "CONSOLE_DIR = ''/mnt/Projects/rusternetes/console/dist''"

definition tls_args :: "(string \<Rightarrow> bool) \<Rightarrow> string list" where
  "tls_args exists =
     (if exists TLS_CERT \<and> exists TLS_KEY then [''--tls'', ''--tls-cert-file'', TLS_CERT, ''--tls-key-file'', TLS_KEY]
      else [''--tls'', ''--tls-self-signed'', ''--tls-san'', ''localhost,127.0.0.1''])"

section \<open>The handlers\<close>

definition say :: "string \<Rightarrow> guest_response" where
  "say s = GStream Stdout (s @ [nl])"

definition start_dockerd :: "kube_os \<Rightarrow> kube_state \<Rightarrow> guest_response list \<times> kube_state" where
  "start_dockerd ko ks =
     (let dockerd = k8s_find_bin (ko_exists ko) ''pelagos-dockerd'' [''/usr/local/bin'', ''/mnt/Projects/pelagos/target/debug''] in
      if k8s_is_running ks ''pelagos-dockerd'' then ([], ks)
      else ([say ''started pelagos-dockerd''],
            spawn_setsid ko ''pelagos-dockerd'' dockerd [''--pelagos-bin'', ko_pelagos_bin ko] [] ks))"

definition start_api_server :: "kube_os \<Rightarrow> kube_state \<Rightarrow> guest_response list \<times> kube_state" where
  "start_api_server ko ks =
     (let api_bin = k8s_find_bin (ko_exists ko) ''api-server'' [''/usr/local/bin'', ''/mnt/Projects/rusternetes/target/debug''] in
      if k8s_is_running ks ''api-server'' then ([], ks)
      else (let ks' = spawn_setsid ko ''api-server'' api_bin
                  ([''--storage-backend'', ''sqlite'', ''--data-dir'', data_dir, ''--skip-auth''] @ tls_args (ko_exists ko)
                   @ (if ko_exists ko CONSOLE_DIR then [''--console-dir'', CONSOLE_DIR] else [])) [] ks;
                answered = k8s_wait_for_port (ko_probes ko)
            in ([say ''started api-server, waiting for ready...'', say ''api-server ready''], ks')))"

definition start_kubelet :: "kube_os \<Rightarrow> kube_state \<Rightarrow> guest_response list \<times> kube_state" where
  "start_kubelet ko ks =
     (let kubelet_bin = k8s_find_bin (ko_exists ko) ''kubelet'' [''/usr/local/bin'', ''/mnt/Projects/rusternetes/target/debug''] in
      if k8s_is_running ks ''kubelet'' then ([], ks)
      else ([say ''started kubelet''],
            spawn_setsid ko ''kubelet'' kubelet_bin
              [''--node-name'', ''pelagos-node'', ''--storage-backend'', ''sqlite'', ''--data-dir'', data_dir, ''--network'', ''bridge'']
              [(''DOCKER_HOST'', ''unix:///var/run/pelagos-dockerd.sock''), (''RUST_MIN_STACK'', ''8388608'')] ks))"

definition handle_kubernetes_start :: "kube_os \<Rightarrow> kube_state \<Rightarrow> guest_response list \<times> kube_state" where
  "handle_kubernetes_start ko ks =
     (case start_dockerd ko ks of (r1, ks1) \<Rightarrow>
      case start_api_server ko ks1 of (r2, ks2) \<Rightarrow>
      case start_kubelet ko ks2 of (r3, ks3) \<Rightarrow> (r1 @ r2 @ r3 @ [GExit 0], ks3))"

text \<open>\<open>pkill -x\<close> sends a signal and does not wait: the process ends later, if it does.\<close>

definition pkill :: "string \<Rightarrow> kube_state \<Rightarrow> kube_state" where
  "pkill name ks = (if k8s_is_running ks name then ks\<lparr>ks_dying := List.insert name (ks_dying ks)\<rparr> else ks)"

definition process_gone :: "string \<Rightarrow> kube_state \<Rightarrow> kube_state" where
  "process_gone name ks =
     (if name \<in> set (ks_dying ks)
      then ks\<lparr>ks_procs := removeAll name (ks_procs ks), ks_dying := removeAll name (ks_dying ks)\<rparr> else ks)"

definition handle_kubernetes_stop :: "kube_state \<Rightarrow> guest_response list \<times> kube_state" where
  "handle_kubernetes_stop ks = ([GExit 0], fold pkill [''kubelet'', ''api-server'', ''pelagos-dockerd''] ks)"

text \<open>The three commands, as the connection handler dispatches them.\<close>

definition handle_kubernetes :: "kube_os \<Rightarrow> guest_command \<Rightarrow> kube_state \<Rightarrow> guest_response list \<times> kube_state" where
  "handle_kubernetes ko c ks =
     (case c of
        GKubernetesStatus \<Rightarrow> ([handle_kubernetes_status (k8s_is_running ks)], ks)
      | GKubernetesStart \<Rightarrow> handle_kubernetes_start ko ks
      | GKubernetesStop \<Rightarrow> handle_kubernetes_stop ks
      | _ \<Rightarrow> ([], ks))"

section \<open>The life of the control plane\<close>

lemmas start_defs = start_dockerd_def start_api_server_def start_kubelet_def spawn_setsid_def k8s_is_running_def Let_def

lemma start_one:
  assumes "\<And>p. ko_stays ko p"
  shows "ks_procs (snd (start_dockerd ko ks)) = List.insert ''pelagos-dockerd'' (ks_procs ks)"
    "ks_procs (snd (start_api_server ko ks)) = List.insert ''api-server'' (ks_procs ks)"
    "ks_procs (snd (start_kubelet ko ks)) = List.insert ''kubelet'' (ks_procs ks)"
  using assms by (simp_all add: start_defs List.insert_def)

lemma start_procs:
  assumes "\<And>p. ko_stays ko p"
  shows "ks_procs (snd (handle_kubernetes_start ko ks)) =
    List.insert ''kubelet'' (List.insert ''api-server'' (List.insert ''pelagos-dockerd'' (ks_procs ks)))"
  using start_one[OF assms] by (simp add: handle_kubernetes_start_def split_beta)

lemma start_dying: "ks_dying (snd (handle_kubernetes_start ko ks)) = ks_dying ks"
  by (simp add: handle_kubernetes_start_def start_defs split_beta)

lemma stop_procs:
  "ks_procs (snd (handle_kubernetes_stop ks)) = ks_procs ks"
  "set (ks_dying (snd (handle_kubernetes_stop ks))) =
     set (ks_dying ks) \<union> ({''kubelet'', ''api-server'', ''pelagos-dockerd''} \<inter> set (ks_procs ks))"
  by (auto simp: handle_kubernetes_stop_def pkill_def k8s_is_running_def)

text \<open>A program that runs is not started a second time: with all three running a start does
  nothing.\<close>

lemma start_again:
  "{''pelagos-dockerd'', ''api-server'', ''kubelet''} \<subseteq> set (ks_procs ks) \<Longrightarrow> handle_kubernetes_start ko ks = ([GExit 0], ks)"
  by (simp add: handle_kubernetes_start_def start_defs)

text \<open>A history: commands one after the other, and between them processes that were told to stop going
  away. (Each name is looked up once in a start, and the other two programs do not matter for it, so
  a process that goes while a start is under way goes, for this name, before or after the start.)\<close>

datatype kube_event = Command guest_command | Gone string

fun kube_step :: "kube_os \<Rightarrow> kube_event \<Rightarrow> kube_state \<Rightarrow> kube_state" where
  "kube_step ko (Command c) ks = snd (handle_kubernetes ko c ks)"
| "kube_step ko (Gone name) ks = process_gone name ks"

text \<open>Whether the control plane should run after a history: what the last start or stop asked for. In a
  calm history every start finds the programs that were told to stop gone.\<close>

fun wanted :: "bool \<Rightarrow> kube_event list \<Rightarrow> bool" where
  "wanted b [] = b"
| "wanted b (Command GKubernetesStart # es) = wanted True es"
| "wanted b (Command GKubernetesStop # es) = wanted False es"
| "wanted b (_ # es) = wanted b es"

fun calm :: "kube_os \<Rightarrow> kube_event list \<Rightarrow> kube_state \<Rightarrow> bool" where
  "calm ko [] ks = True"
| "calm ko (ev # es) ks = ((ev = Command GKubernetesStart \<longrightarrow> ks_dying ks = []) \<and> calm ko es (kube_step ko ev ks))"

definition control_plane :: "kube_state \<Rightarrow> bool" where
  "control_plane ks = (k8s_is_running ks ''api-server'' \<and> k8s_is_running ks ''kubelet'')"

text \<open>The control plane runs and has not been told to stop.\<close>

definition up :: "kube_state \<Rightarrow> bool" where
  "up ks = (\<forall>n \<in> {''api-server'', ''kubelet''}. n \<in> set (ks_procs ks) \<and> n \<notin> set (ks_dying ks))"

lemma other_command: "c \<noteq> GKubernetesStart \<Longrightarrow> c \<noteq> GKubernetesStop \<Longrightarrow> kube_step ko (Command c) ks = ks"
  by (simp add: handle_kubernetes_def split: guest_command.split)

lemma wanted_other: "c \<noteq> GKubernetesStart \<Longrightarrow> c \<noteq> GKubernetesStop \<Longrightarrow> wanted b (Command c # es) = wanted b es"
  by (cases c) simp_all

lemma up_step:
  assumes "\<And>p. ko_stays ko p"
  shows "ks_dying ks = [] \<Longrightarrow> up (kube_step ko (Command GKubernetesStart) ks)"
    "\<not> up (kube_step ko (Command GKubernetesStop) ks)"
    "up (kube_step ko (Gone name) ks) = up ks"
  using assms by (auto simp: up_def handle_kubernetes_def start_procs start_dying stop_procs process_gone_def)

lemma up_wanted:
  assumes "\<And>p. ko_stays ko p"
  shows "calm ko es ks \<Longrightarrow> up (fold (kube_step ko) es ks) = wanted (up ks) es"
proof (induction es arbitrary: ks)
  case (Cons ev es)
  then have "up (kube_step ko ev ks) = wanted (up ks) [ev]"
    using up_step[OF assms, where ks = ks] other_command[of _ ko ks]
    by (cases ev; cases "ev = Command GKubernetesStart"; cases "ev = Command GKubernetesStop")
      (auto simp: wanted_other simp del: kube_step.simps)
  moreover have "wanted b (ev # es) = wanted (wanted b [ev]) es" for b by (cases ev; cases "ev = Command GKubernetesStart"; cases "ev = Command GKubernetesStop") (auto simp: wanted_other)
  ultimately show ?case using Cons by simp
qed simp

lemma distinct_step:
  assumes "distinct (ks_procs ks)"
  shows "distinct (ks_procs (kube_step ko ev ks))"
proof (cases ev)
  case (Command c)
  have "distinct (ks_procs (snd (handle_kubernetes_start ko ks)))"
    using assms by (auto simp: handle_kubernetes_start_def start_defs)
  then show ?thesis using assms by (auto simp: Command handle_kubernetes_def stop_procs split: guest_command.split)
qed (use assms in \<open>simp add: process_gone_def distinct_removeAll\<close>)

definition steady_os :: kube_os where
  "steady_os = \<lparr>ko_exists = (\<lambda>_. False), ko_stays = (\<lambda>_. True), ko_probes = [], ko_pelagos_bin = ''pelagos''\<rparr>"

text \<open>
  C23: When started programs stay alive until they are told to stop, and every start comes after the
  programs that were told to stop have gone, then after any sequence of Kubernetes commands, once no
  program is about to go, the status command on the host prints what the last start or stop asked
  for. No program runs twice, in any history.
\<close>

theorem kube_status_follows:
  assumes "\<And>p. ko_stays ko p" and "calm ko es ks" and "distinct (ks_procs ks)" and "ks_dying ks = []"
    and "ks_dying (fold (kube_step ko) es ks) = []"
    and "text_line to_json from_json (ser_response (handle_kubernetes_status (k8s_is_running (fold (kube_step ko) es ks))))"
  shows "kubernetes_status_command from_json
      (concat (map (send_response to_json) (fst (handle_kubernetes ko GKubernetesStatus (fold (kube_step ko) es ks))))) =
    ((if wanted (control_plane ks) es then ''running'' else ''stopped'') @ [nl], 0) \<and>
    (\<forall>es'. distinct (ks_procs (fold (kube_step ko) es' ks)))"
proof -
  have calm_up: "up ks' = control_plane ks'" if "ks_dying ks' = []" for ks'
    using that by (simp add: up_def control_plane_def k8s_is_running_def)
  have "control_plane (fold (kube_step ko) es ks) = wanted (control_plane ks) es"
    using up_wanted[OF assms(1,2)] calm_up[OF assms(4)] calm_up[OF assms(5)] by simp
  moreover have "distinct (ks_procs (fold (kube_step ko) es' ks))" for es'
    using assms(3) by (induction es' arbitrary: ks) (simp_all add: distinct_step)
  ultimately show ?thesis
    using one_reply[OF assms(6)]
    by (simp add: handle_kubernetes_def kubernetes_status_command_def handle_kubernetes_status_def control_plane_def)
qed

definition restart_history :: "kube_event list" where
  "restart_history = [Command GKubernetesStart, Command GKubernetesStop, Gone ''kubelet'', Gone ''api-server'', Gone ''pelagos-dockerd'',
     Command GKubernetesStart]"

theorem kube_status_follows_witness:
  "kubernetes_status_command unsized_text
      (concat (map (send_response sized_text) (fst (handle_kubernetes steady_os GKubernetesStatus
        (fold (kube_step steady_os) restart_history \<lparr>ks_procs = [''init''], ks_dying = [], ks_started = []\<rparr>))))) =
    (''running'' @ [nl], 0)"
proof -
  let ?ks = "\<lparr>ks_procs = [''init''], ks_dying = [], ks_started = []\<rparr>"
  have "calm steady_os restart_history ?ks" "ks_dying (fold (kube_step steady_os) restart_history ?ks) = []"
    by (simp_all add: restart_history_def handle_kubernetes_def handle_kubernetes_start_def handle_kubernetes_stop_def start_defs pkill_def
        process_gone_def steady_os_def)
  then show ?thesis
    using kube_status_follows[of steady_os restart_history ?ks sized_text unsized_text]
    by (simp add: steady_os_def restart_history_def handle_kubernetes_status_def text_line_def json_line_sized outer_def sized_text_def put_str_def)
qed

text \<open>The condition on the starts is needed: a start right after a stop finds the three programs, which are
  about to go, and starts nothing; when they have gone, nothing runs although a start came last.\<close>

lemma stop_start_race:
  assumes "ks_procs ks = [''kubelet'', ''api-server'', ''pelagos-dockerd'']" and "ks_dying ks = []"
    and "es = [Command GKubernetesStop, Command GKubernetesStart]"
    and "es' = [Gone ''kubelet'', Gone ''api-server'', Gone ''pelagos-dockerd'']"
  shows "control_plane (fold (kube_step ko) es ks) \<and> \<not> control_plane (fold (kube_step ko) (es @ es') ks) \<and>
    ks_started (fold (kube_step ko) (es @ es') ks) = ks_started ks \<and> wanted b (es @ es')"
  using assms by (simp add: control_plane_def handle_kubernetes_def handle_kubernetes_start_def handle_kubernetes_stop_def start_defs pkill_def
      process_gone_def)

text \<open>The message that the server is ready does not depend on whether its port ever answered, nor
  on whether the program runs.\<close>

lemma ready_regardless:
  "\<not> k8s_is_running ks ''api-server'' \<Longrightarrow>
   fst (start_api_server ko ks) = [say ''started api-server, waiting for ready...'', say ''api-server ready'']"
  by (simp add: start_api_server_def Let_def)

end
