(* ===== verification/Port_Proxy.thy ===== *)
theory Port_Proxy
  imports Port_Daemon
begin

text \<open>
  The listeners behind the port forwards (\<open>PortProxy\<close>, \<open>port_proxy_loop\<close> and \<open>relay_tcp\<close> in
  \<open>pelagos-mac/src/daemon.rs\<close>). A forward starts a thread, which binds the port on its own time and
  gives up when the system refuses it, and then takes connections one after the other; dropping
  the handle of a forward sets a flag and connects to the port, so that a thread that listens there
  looks at its flag. The daemon with its threads, its clients and the other programs of the host
  is a step relation; it refines the daemon of theory \<open>Port_Daemon\<close>, whose port state knows only the handles.
\<close>

section \<open>State\<close>

datatype phase = Starting | Listening | Ended

record listener =
  l_port :: u16
  l_target :: u16
  l_shutdown :: bool
  l_phase :: phase
  l_pending :: nat

text \<open>The threads in the order in which they were started, each with the number of connections that wait
  to be taken, and the maps of the daemon; a handle is the index of its thread. \<open>dn_refused\<close> are the ports the
  system does not let the daemon bind, because another program holds them or for any other reason.\<close>

record daemon_net =
  dn_listeners :: "listener list"
  dn_handle :: "u16 \<Rightarrow> nat option"
  dn_active :: "u16 \<Rightarrow> u16 option"
  dn_projects :: "string \<Rightarrow> u16 list option"
  dn_refused :: "u16 set"

definition net_new :: daemon_net where
  "net_new = \<lparr>dn_listeners = [], dn_handle = \<lambda>_. None, dn_active = \<lambda>_. None, dn_projects = \<lambda>_. None, dn_refused = {}\<rparr>"

text \<open>What \<open>Port_Daemon\<close> sees of it.\<close>

definition net_abs :: "daemon_net \<Rightarrow> port_state" where
  "net_abs n = \<lparr>active = dn_active n, compose_projects = dn_projects n,
     proxies = (\<lambda>p. map_option (\<lambda>i. l_target (dn_listeners n ! i)) (dn_handle n p))\<rparr>"

section \<open>Operations under the lock\<close>

definition proxy_start :: "u16 \<Rightarrow> u16 \<Rightarrow> daemon_net \<Rightarrow> nat \<times> daemon_net" where
  "proxy_start hp cp n =
     (length (dn_listeners n),
      n\<lparr>dn_listeners := dn_listeners n @ [\<lparr>l_port = hp, l_target = cp, l_shutdown = False, l_phase = Starting, l_pending = 0\<rparr>]\<rparr>)"

text \<open>A connection to a port waits at the thread that listens there; without one it is refused.\<close>

definition knock :: "u16 \<Rightarrow> listener \<Rightarrow> listener" where
  "knock p l = (if l_phase l = Listening \<and> l_port l = p then l\<lparr>l_pending := Suc (l_pending l)\<rparr> else l)"

definition incoming :: "u16 \<Rightarrow> daemon_net \<Rightarrow> daemon_net" where
  "incoming p n = n\<lparr>dn_listeners := map (knock p) (dn_listeners n)\<rparr>"

definition proxy_drop :: "nat \<Rightarrow> daemon_net \<Rightarrow> daemon_net" where
  "proxy_drop i n = incoming (l_port (dn_listeners n ! i))
     (n\<lparr>dn_listeners := (dn_listeners n)[i := (dn_listeners n ! i)\<lparr>l_shutdown := True\<rparr>]\<rparr>)"

text \<open>Inserting a handle drops the one it replaces.\<close>

definition insert_proxy :: "u16 \<Rightarrow> nat \<Rightarrow> daemon_net \<Rightarrow> daemon_net" where
  "insert_proxy hp i n =
     (case dn_handle n hp of None \<Rightarrow> n | Some old \<Rightarrow> proxy_drop old n)\<lparr>dn_handle := (dn_handle n)(hp := Some i)\<rparr>"

definition remove_proxy :: "u16 \<Rightarrow> daemon_net \<Rightarrow> daemon_net" where
  "remove_proxy hp n =
     (case dn_handle n hp of None \<Rightarrow> n | Some old \<Rightarrow> (proxy_drop old n)\<lparr>dn_handle := (dn_handle n)(hp := None)\<rparr>)"

definition net_add :: "u16 \<Rightarrow> u16 \<Rightarrow> daemon_net \<Rightarrow> daemon_net" where
  "net_add hp cp n =
     (case proxy_start hp cp n of (i, n1) \<Rightarrow>
        (let n2 = insert_proxy hp i n1 in n2\<lparr>dn_active := (dn_active n2)(hp := Some cp)\<rparr>))"

definition net_drop_active :: "u16 \<Rightarrow> daemon_net \<Rightarrow> daemon_net" where
  "net_drop_active hp n = n\<lparr>dn_active := (dn_active n)(hp := None)\<rparr>"

definition net_cmd :: "daemon_cmd \<Rightarrow> daemon_net \<Rightarrow> daemon_response \<times> daemon_net" where
  "net_cmd cmd n =
     (case cmd of
        RegisterPort hp cp \<Rightarrow>
          (case dn_active n hp of
             None \<Rightarrow> (DOk, net_add hp cp n)
           | Some existing \<Rightarrow>
               if existing = cp then (DOk, n)
               else (DErr (''port '' @ show_word hp @ '' is already registered to container port '' @ show_word existing), n))
      | UnregisterPort hp \<Rightarrow>
          (DOk, if dn_active n hp \<noteq> None then remove_proxy hp (net_drop_active hp n) else n)
      | TrackComposeProject project ports \<Rightarrow> (DOk, n\<lparr>dn_projects := (dn_projects n)(project := Some ports)\<rparr>)
      | UnregisterComposePorts project \<Rightarrow>
          (case dn_projects n project of
             None \<Rightarrow> (DOk, n)
           | Some ports \<Rightarrow> (DOk, fold net_drop_active ports (n\<lparr>dn_projects := (dn_projects n)(project := None)\<rparr>))))"

definition net_watch :: "watch_event \<Rightarrow> container_ports \<times> daemon_net \<Rightarrow> container_ports \<times> daemon_net" where
  "net_watch ev w =
     (case w of (m, n) \<Rightarrow>
        (case ev of
           Snapshot cs \<Rightarrow> (fold track_container cs (\<lambda>_. None), n)
         | ContainerStarted c \<Rightarrow> (track_container c m, n)
         | ContainerExited name \<Rightarrow>
             (case m name of
                None \<Rightarrow> (m, n)
              | Some ports \<Rightarrow> (m(name := None), fold net_drop_active (spec_ports ports) n))
         | Unknown \<Rightarrow> (m, n)))"

definition net_preregister :: "port_forward list \<Rightarrow> daemon_net" where
  "net_preregister pfs = fold (\<lambda>pf. net_add (host_port pf) (container_port pf)) pfs net_new"

section \<open>Threads\<close>

definition set_phase :: "nat \<Rightarrow> phase \<Rightarrow> daemon_net \<Rightarrow> daemon_net" where
  "set_phase i ph n = n\<lparr>dn_listeners := (dn_listeners n)[i := (dn_listeners n ! i)\<lparr>l_phase := ph\<rparr>]\<rparr>"

definition listening :: "daemon_net \<Rightarrow> u16 \<Rightarrow> nat \<Rightarrow> bool" where
  "listening n p i = (i < length (dn_listeners n) \<and> l_phase (dn_listeners n ! i) = Listening \<and> l_port (dn_listeners n ! i) = p)"

definition set_pending :: "nat \<Rightarrow> nat \<Rightarrow> daemon_net \<Rightarrow> daemon_net" where
  "set_pending i k n = n\<lparr>dn_listeners := (dn_listeners n)[i := (dn_listeners n ! i)\<lparr>l_pending := k\<rparr>]\<rparr>"

text \<open>A thread binds its port, or ends because the port is refused or another thread is bound to it. A
  listening thread takes one waiting connection after the other (an error of \<open>accept\<close> counts as one): it looks at
  its flag, and either hands the connection to \<open>relay_tcp\<close> or closes its socket and ends. Without a connection it is
  blocked, whatever its flag says.\<close>

inductive thread_step :: "daemon_net \<Rightarrow> daemon_net \<Rightarrow> bool" where
  Bind: "i < length (dn_listeners n) \<Longrightarrow> l_phase (dn_listeners n ! i) = Starting \<Longrightarrow> l_port (dn_listeners n ! i) \<notin> dn_refused n \<Longrightarrow>
    (\<forall>j. \<not> listening n (l_port (dn_listeners n ! i)) j) \<Longrightarrow> thread_step n (set_pending i 0 (set_phase i Listening n))"
| BindFails: "i < length (dn_listeners n) \<Longrightarrow> l_phase (dn_listeners n ! i) = Starting \<Longrightarrow>
    l_port (dn_listeners n ! i) \<in> dn_refused n \<or> listening n (l_port (dn_listeners n ! i)) j \<Longrightarrow> thread_step n (set_phase i Ended n)"
| Accept: "i < length (dn_listeners n) \<Longrightarrow> l_phase (dn_listeners n ! i) = Listening \<Longrightarrow> l_pending (dn_listeners n ! i) = Suc k \<Longrightarrow>
    \<not> l_shutdown (dn_listeners n ! i) \<Longrightarrow> thread_step n (set_pending i k n)"
| Stop: "i < length (dn_listeners n) \<Longrightarrow> l_phase (dn_listeners n ! i) = Listening \<Longrightarrow> l_pending (dn_listeners n ! i) = Suc k \<Longrightarrow>
    l_shutdown (dn_listeners n ! i) \<Longrightarrow> thread_step n (set_phase i Ended n)"

inductive net_step :: "container_ports \<times> daemon_net \<Rightarrow> container_ports \<times> daemon_net \<Rightarrow> bool" where
  Command: "net_step (m, n) (m, snd (net_cmd c n))"
| Watched: "net_step (m, n) (net_watch ev (m, n))"
| Thread: "thread_step n n' \<Longrightarrow> net_step (m, n) (m, n')"
| Client: "net_step (m, n) (m, incoming p n)"
| Refusals: "net_step (m, n) (m, n\<lparr>dn_refused := ps\<rparr>)"

section \<open>The invariant\<close>

definition net_ok :: "daemon_net \<Rightarrow> bool" where
  "net_ok n =
     ((\<forall>p i. dn_handle n p = Some i \<longrightarrow>
         i < length (dn_listeners n) \<and> l_port (dn_listeners n ! i) = p \<and> \<not> l_shutdown (dn_listeners n ! i)) \<and>
      (\<forall>i < length (dn_listeners n). \<not> l_shutdown (dn_listeners n ! i) \<longrightarrow>
         dn_handle n (l_port (dn_listeners n ! i)) = Some i) \<and>
      (\<forall>p i j. listening n p i \<longrightarrow> listening n p j \<longrightarrow> i = j))"

lemma net_okD:
  assumes "net_ok n"
  shows "dn_handle n p = Some i \<Longrightarrow> i < length (dn_listeners n) \<and> l_port (dn_listeners n ! i) = p \<and> \<not> l_shutdown (dn_listeners n ! i)"
    "i < length (dn_listeners n) \<Longrightarrow> \<not> l_shutdown (dn_listeners n ! i) \<Longrightarrow> dn_handle n (l_port (dn_listeners n ! i)) = Some i"
    "listening n p i \<Longrightarrow> listening n p j \<Longrightarrow> i = j"
  using assms by (auto simp: net_ok_def)

lemma net_okI:
  assumes "\<And>p i. dn_handle n p = Some i \<Longrightarrow>
      i < length (dn_listeners n) \<and> l_port (dn_listeners n ! i) = p \<and> \<not> l_shutdown (dn_listeners n ! i)"
    and "\<And>i. i < length (dn_listeners n) \<Longrightarrow> \<not> l_shutdown (dn_listeners n ! i) \<Longrightarrow> dn_handle n (l_port (dn_listeners n ! i)) = Some i"
    and "\<And>p i j. listening n p i \<Longrightarrow> listening n p j \<Longrightarrow> i = j"
  shows "net_ok n"
  unfolding net_ok_def using assms by blast

lemma net_ok_same:
  "net_ok n \<Longrightarrow> dn_listeners n' = dn_listeners n \<Longrightarrow> dn_handle n' = dn_handle n \<Longrightarrow> net_ok n'"
  by (simp add: net_ok_def listening_def)

lemma net_ok_new: "net_ok net_new"
  by (simp add: net_ok_def net_new_def listening_def)

lemma nth_update_self: "i < length xs \<Longrightarrow> xs[k := f (xs ! k)] ! i = (if i = k then f (xs ! i) else xs ! i)"
  by (cases "i = k") simp_all

lemma knock_fields [simp]:
  "l_port (knock p l) = l_port l" "l_target (knock p l) = l_target l" "l_shutdown (knock p l) = l_shutdown l" "l_phase (knock p l) = l_phase l"
  "l_pending (knock p l) = (if l_phase l = Listening \<and> l_port l = p then Suc (l_pending l) else l_pending l)"
  by (simp_all add: knock_def)

lemma drop_fields [simp]:
  "length (dn_listeners (proxy_drop k n)) = length (dn_listeners n)" "dn_handle (proxy_drop k n) = dn_handle n"
  "dn_active (proxy_drop k n) = dn_active n" "dn_projects (proxy_drop k n) = dn_projects n" "dn_refused (proxy_drop k n) = dn_refused n"
  "i < length (dn_listeners n) \<Longrightarrow> dn_listeners (proxy_drop k n) ! i =
     knock (l_port (dn_listeners n ! k)) ((dn_listeners n ! i)\<lparr>l_shutdown := l_shutdown (dn_listeners n ! i) \<or> i = k\<rparr>)"
  by (simp_all add: proxy_drop_def incoming_def nth_update_self)

lemma incoming_fields [simp]:
  "length (dn_listeners (incoming p n)) = length (dn_listeners n)" "dn_handle (incoming p n) = dn_handle n"
  "dn_active (incoming p n) = dn_active n" "dn_projects (incoming p n) = dn_projects n" "dn_refused (incoming p n) = dn_refused n"
  "i < length (dn_listeners n) \<Longrightarrow> dn_listeners (incoming p n) ! i = knock p (dn_listeners n ! i)"
  by (simp_all add: incoming_def)

lemma listening_incoming [simp]: "listening (incoming p n) q i = listening n q i"
  unfolding listening_def by (cases "i < length (dn_listeners n)") simp_all

lemma listening_drop: "listening (proxy_drop k n) p i = listening n p i"
  unfolding listening_def by (cases "i < length (dn_listeners n)") simp_all

lemma phase_fields [simp]:
  "length (dn_listeners (set_phase k ph n)) = length (dn_listeners n)" "dn_handle (set_phase k ph n) = dn_handle n"
  "dn_active (set_phase k ph n) = dn_active n" "dn_projects (set_phase k ph n) = dn_projects n" "dn_refused (set_phase k ph n) = dn_refused n"
  "i < length (dn_listeners n) \<Longrightarrow> dn_listeners (set_phase k ph n) ! i =
     (dn_listeners n ! i)\<lparr>l_phase := if i = k then ph else l_phase (dn_listeners n ! i)\<rparr>"
  by (simp_all add: set_phase_def nth_update_self)

lemma pending_fields [simp]:
  "length (dn_listeners (set_pending k p n)) = length (dn_listeners n)" "dn_handle (set_pending k p n) = dn_handle n"
  "dn_active (set_pending k p n) = dn_active n" "dn_projects (set_pending k p n) = dn_projects n" "dn_refused (set_pending k p n) = dn_refused n"
  "i < length (dn_listeners n) \<Longrightarrow> dn_listeners (set_pending k p n) ! i =
     (dn_listeners n ! i)\<lparr>l_pending := if i = k then p else l_pending (dn_listeners n ! i)\<rparr>"
  by (simp_all add: set_pending_def nth_update_self)

lemma listening_pending [simp]: "listening (set_pending k x n) p i = listening n p i"
  unfolding listening_def by (cases "i < length (dn_listeners n)") simp_all

lemma net_ok_pending: "net_ok n \<Longrightarrow> net_ok (set_pending k x n)"
  unfolding net_ok_def by simp

lemma net_ok_incoming: "net_ok n \<Longrightarrow> net_ok (incoming p n)"
  unfolding net_ok_def by simp

lemma net_ok_remove:
  assumes "net_ok n"
  shows "net_ok (remove_proxy hp n)"
proof (cases "dn_handle n hp")
  case (Some k)
  note k = net_okD(1)[OF assms Some]
  let ?n = "(proxy_drop k n)\<lparr>dn_handle := (dn_handle n)(hp := None)\<rparr>"
  have "dn_handle ?n p = Some i \<Longrightarrow>
      i < length (dn_listeners ?n) \<and> l_port (dn_listeners ?n ! i) = p \<and> \<not> l_shutdown (dn_listeners ?n ! i)" for p i
    using net_okD(1)[OF assms, of p i] k by (auto split: if_splits)
  moreover have "i < length (dn_listeners ?n) \<Longrightarrow> \<not> l_shutdown (dn_listeners ?n ! i) \<Longrightarrow>
      dn_handle ?n (l_port (dn_listeners ?n ! i)) = Some i" for i
    using net_okD(2)[OF assms, of i] Some by auto
  moreover have "listening ?n p i = listening n p i" for p i using listening_drop[of k n p i] by (simp add: listening_def)
  ultimately have "net_ok ?n" using net_okD(3)[OF assms] by (intro net_okI) blast+
  then show ?thesis using Some by (simp add: remove_proxy_def)
qed (use assms in \<open>simp add: remove_proxy_def\<close>)

lemma remove_fields [simp]:
  "length (dn_listeners (remove_proxy hp n)) = length (dn_listeners n)" "dn_handle (remove_proxy hp n) = (dn_handle n)(hp := None)"
  "dn_active (remove_proxy hp n) = dn_active n" "dn_projects (remove_proxy hp n) = dn_projects n" "dn_refused (remove_proxy hp n) = dn_refused n"
  by (auto simp: remove_proxy_def fun_eq_iff split: option.split)

lemma remove_nth:
  "i < length (dn_listeners n) \<Longrightarrow> dn_listeners (remove_proxy hp n) ! i =
     (case dn_handle n hp of None \<Rightarrow> dn_listeners n ! i
      | Some k \<Rightarrow> knock (l_port (dn_listeners n ! k)) ((dn_listeners n ! i)\<lparr>l_shutdown := l_shutdown (dn_listeners n ! i) \<or> i = k\<rparr>))"
  by (simp add: remove_proxy_def split: option.split)

text \<open>Adding a forward removes the old one and appends a thread.\<close>

abbreviation new_listener :: "u16 \<Rightarrow> u16 \<Rightarrow> listener" where
  "new_listener hp cp \<equiv> \<lparr>l_port = hp, l_target = cp, l_shutdown = False, l_phase = Starting, l_pending = 0\<rparr>"

lemma add_fields:
  assumes "net_ok n"
  shows "dn_listeners (net_add hp cp n) = dn_listeners (remove_proxy hp n) @ [new_listener hp cp]"
    "dn_handle (net_add hp cp n) = (dn_handle n)(hp := Some (length (dn_listeners n)))"
    "dn_active (net_add hp cp n) = (dn_active n)(hp := Some cp)" "dn_projects (net_add hp cp n) = dn_projects n"
    "dn_refused (net_add hp cp n) = dn_refused n"
proof -
  show "dn_listeners (net_add hp cp n) = dn_listeners (remove_proxy hp n) @ [new_listener hp cp]"
    using net_okD(1)[OF assms, of hp]
    by (auto simp: net_add_def proxy_start_def insert_proxy_def remove_proxy_def proxy_drop_def incoming_def knock_def nth_append
        list_update_append split: option.split)
qed (auto simp: net_add_def proxy_start_def insert_proxy_def split: option.split)

lemma net_ok_add:
  assumes "net_ok n"
  shows "net_ok (net_add hp cp n)"
proof -
  let ?r = "remove_proxy hp n"
  note ok = net_ok_remove[OF assms, of hp] and eq = add_fields[OF assms, of hp cp]
  have "listening (net_add hp cp n) p i = listening ?r p i" for p i
    by (cases "i < length (dn_listeners n)") (auto simp: listening_def eq nth_append)
  moreover have "dn_handle (net_add hp cp n) p = Some i \<Longrightarrow> i < length (dn_listeners (net_add hp cp n)) \<and>
      l_port (dn_listeners (net_add hp cp n) ! i) = p \<and> \<not> l_shutdown (dn_listeners (net_add hp cp n) ! i)" for p i
    using net_okD(1)[OF ok, of p i] by (auto simp: eq nth_append split: if_splits)
  moreover have "i < length (dn_listeners (net_add hp cp n)) \<Longrightarrow> \<not> l_shutdown (dn_listeners (net_add hp cp n) ! i) \<Longrightarrow>
      dn_handle (net_add hp cp n) (l_port (dn_listeners (net_add hp cp n) ! i)) = Some i" for i
    using net_okD(2)[OF ok, of i] by (auto simp: eq nth_append split: if_splits)
  ultimately show ?thesis using net_okD(3)[OF ok] by (intro net_okI) blast+
qed

lemma fold_net_drop_active:
  "fold net_drop_active ps n = n\<lparr>dn_active := (\<lambda>p. if p \<in> set ps then None else dn_active n p)\<rparr>"
  by (induction ps arbitrary: n) (auto simp: net_drop_active_def fun_eq_iff)

lemma net_ok_cmd: "net_ok n \<Longrightarrow> net_ok (snd (net_cmd c n))"
  by (cases c) (auto simp: net_cmd_def fold_net_drop_active intro!: net_ok_add net_ok_remove net_ok_same[of n]
      simp: net_drop_active_def split: option.split)

lemma net_ok_watch: "net_ok n \<Longrightarrow> net_ok (snd (net_watch ev (m, n)))"
  by (cases ev) (auto simp: net_watch_def fold_net_drop_active intro!: net_ok_same[of n] split: option.split)

lemma net_ok_phase:
  assumes "net_ok n" and "k < length (dn_listeners n)"
    and "ph = Listening \<Longrightarrow> \<forall>j. \<not> listening n (l_port (dn_listeners n ! k)) j"
  shows "net_ok (set_phase k ph n)"
proof -
  let ?n = "set_phase k ph n"
  have "listening ?n p i \<Longrightarrow> listening n p i \<or> (i = k \<and> p = l_port (dn_listeners n ! k) \<and> ph = Listening)" for p i
    using assms(2) by (cases "i < length (dn_listeners n)") (auto simp: listening_def split: if_splits)
  then have "\<forall>p i j. listening ?n p i \<longrightarrow> listening ?n p j \<longrightarrow> i = j" using assms(3) net_okD(3)[OF assms(1)] by metis
  then show ?thesis using assms(1) unfolding net_ok_def by auto
qed

lemma net_ok_thread: "thread_step n n' \<Longrightarrow> net_ok n \<Longrightarrow> net_ok n'"
  by (erule thread_step.cases) (auto intro!: net_ok_pending net_ok_phase)

section \<open>Refinement\<close>

lemma net_abs_add:
  assumes "net_ok n"
  shows "net_abs (net_add hp cp n) = add_forward hp cp (net_abs n)"
proof -
  have "l_target (dn_listeners (net_add hp cp n) ! i) = l_target (dn_listeners n ! i)" if "i < length (dn_listeners n)" for i
    using that by (simp add: add_fields[OF assms] nth_append remove_nth split: option.split)
  moreover have "l_target (dn_listeners (net_add hp cp n) ! length (dn_listeners n)) = cp"
    by (simp add: add_fields[OF assms] nth_append)
  ultimately show ?thesis using net_okD(1)[OF assms]
    by (auto simp: net_abs_def add_forward_def add_fields[OF assms] fun_eq_iff map_option_case split: option.split)
qed

lemma net_abs_remove:
  assumes "net_ok n"
  shows "net_abs (remove_proxy hp n) = (net_abs n)\<lparr>proxies := (proxies (net_abs n))(hp := None)\<rparr>"
proof (cases "dn_handle n hp")
  case None
  then show ?thesis by (simp add: remove_proxy_def net_abs_def fun_upd_idem)
next
  case (Some k)
  then show ?thesis using net_okD(1)[OF assms]
    by (auto simp: remove_proxy_def net_abs_def fun_eq_iff map_option_case split: option.split)
qed

lemma drop_active_eq: "drop_active hp ps = ps\<lparr>active := (active ps)(hp := None)\<rparr>"
  by (cases "active ps hp") (simp_all add: drop_active_def router_remove_def fun_upd_idem)

lemma net_abs_drops: "net_abs (fold net_drop_active ps n) = fold drop_active ps (net_abs n)"
  by (induction ps arbitrary: n) (simp_all add: drop_active_eq net_drop_active_def net_abs_def)

lemma net_cmd_refines:
  assumes "net_ok n"
  shows "handle_daemon_cmd c (net_abs n) = apsnd net_abs (net_cmd c n)"
proof (cases c)
  case (RegisterPort hp cp)
  then show ?thesis using net_abs_add[OF assms]
    by (auto simp: handle_daemon_cmd_def net_cmd_def net_abs_def split: option.split)
next
  case (UnregisterPort hp)
  have "net_ok (net_drop_active hp n)" using assms by (rule net_ok_same) (simp_all add: net_drop_active_def)
  from net_abs_remove[OF this, of hp] UnregisterPort show ?thesis
    by (auto simp: handle_daemon_cmd_def net_cmd_def net_abs_def net_drop_active_def)
next
  case (TrackComposeProject pr hps)
  then show ?thesis by (simp add: handle_daemon_cmd_def net_cmd_def net_abs_def)
next
  case (UnregisterComposePorts pr)
  have "net_abs (n\<lparr>dn_projects := (dn_projects n)(pr := None)\<rparr>) =
      (net_abs n)\<lparr>compose_projects := (compose_projects (net_abs n))(pr := None)\<rparr>" by (simp add: net_abs_def)
  moreover have "compose_projects (net_abs n) = dn_projects n" by (simp add: net_abs_def)
  ultimately show ?thesis using UnregisterComposePorts
    by (auto simp: handle_daemon_cmd_def net_cmd_def net_abs_drops split: option.split)
qed

lemma net_watch_refines: "watch_step ev (m, net_abs n) = apsnd net_abs (net_watch ev (m, n))"
  by (cases ev) (auto simp: watch_step_def net_watch_def net_abs_drops fold_drop_spec split: option.split)

lemma net_abs_phase: "net_ok n \<Longrightarrow> net_abs (set_phase k ph n) = net_abs n"
  using net_okD(1)[of n] by (auto simp: net_abs_def fun_eq_iff map_option_case split: option.split)

lemma net_abs_pending: "net_ok n \<Longrightarrow> net_abs (set_pending k x n) = net_abs n"
  using net_okD(1)[of n] by (auto simp: net_abs_def fun_eq_iff map_option_case split: option.split)

lemma net_abs_incoming: "net_ok n \<Longrightarrow> net_abs (incoming p n) = net_abs n"
  using net_okD(1)[of n] by (auto simp: net_abs_def fun_eq_iff map_option_case split: option.split)

lemma net_abs_thread: "thread_step n n' \<Longrightarrow> net_ok n \<Longrightarrow> net_abs n' = net_abs n"
  by (erule thread_step.cases) (simp_all add: net_abs_phase net_abs_pending net_ok_phase)

lemma net_preregister_refines: "net_ok (net_preregister pfs) \<and> net_abs (net_preregister pfs) = preregister pfs"
proof -
  have "net_ok n \<Longrightarrow> net_ok (fold (\<lambda>pf. net_add (host_port pf) (container_port pf)) pfs n) \<and>
      net_abs (fold (\<lambda>pf. net_add (host_port pf) (container_port pf)) pfs n) =
      fold (\<lambda>pf. add_forward (host_port pf) (container_port pf)) pfs (net_abs n)" for n
    by (induction pfs arbitrary: n) (simp_all add: net_ok_add net_abs_add)
  moreover have "net_abs net_new = port_state_new" by (simp add: net_abs_def net_new_def port_state_new_def)
  ultimately show ?thesis using net_ok_new by (simp add: net_preregister_def preregister_def)
qed

lemma net_step_refines:
  assumes "net_step (m, n) (m', n')" and "net_ok n"
  shows "net_ok n' \<and> (\<exists>evs. fold daemon_step evs (m, net_abs n) = (m', net_abs n'))"
  using assms(1)
proof cases
  case (Command c)
  then have "fold daemon_step [Cmd c] (m, net_abs n) = (m', net_abs n')"
    using net_cmd_refines[OF assms(2), of c] by (simp add: daemon_step_def apsnd_def map_prod_def split_beta)
  then show ?thesis using Command net_ok_cmd[OF assms(2)] by blast
next
  case (Watched ev)
  then have "fold daemon_step [Watch ev] (m, net_abs n) = (m', net_abs n')"
    using net_watch_refines[of ev m n] Watched[symmetric] by (simp add: daemon_step_def)
  then show ?thesis using net_ok_watch[OF assms(2), of ev m] Watched by (metis snd_conv)
next
  case Thread
  then have "fold daemon_step [] (m, net_abs n) = (m', net_abs n')" using net_abs_thread[OF _ assms(2)] by simp
  then show ?thesis using Thread net_ok_thread[OF _ assms(2)] by blast
next
  case (Client p)
  then have "fold daemon_step [] (m, net_abs n) = (m', net_abs n')" using net_abs_incoming[OF assms(2)] by simp
  then show ?thesis using Client net_ok_incoming[OF assms(2)] by blast
next
  case (Refusals ps)
  then have "fold daemon_step [] (m, net_abs n) = (m', net_abs n')" by (simp add: net_abs_def)
  moreover have "net_ok n'" using Refusals by (intro net_ok_same[OF assms(2)]) simp_all
  ultimately show ?thesis by blast
qed

text \<open>
  C8: The daemon with its listener threads refines the daemon that knows only the handles: for
  every interleaving of commands, container events, thread steps, clients that connect and ports
  the system refuses, the port state is one that
  the abstract daemon reaches, each active forward has the handle of a thread for its port with
  its target that has not been told to stop, and at most one thread listens on a port.
\<close>

theorem pp_refines:
  assumes "net_step\<^sup>*\<^sup>* (\<lambda>_. None, net_preregister pfs) (m, n)"
  shows "(\<exists>evs. fold daemon_step evs (\<lambda>_. None, preregister pfs) = (m, net_abs n)) \<and>
    (\<forall>hp cp. dn_active n hp = Some cp \<longrightarrow> (\<exists>i < length (dn_listeners n). dn_handle n hp = Some i \<and>
       l_port (dn_listeners n ! i) = hp \<and> l_target (dn_listeners n ! i) = cp \<and> \<not> l_shutdown (dn_listeners n ! i))) \<and>
    (\<forall>p i j. listening n p i \<longrightarrow> listening n p j \<longrightarrow> i = j)"
proof -
  have "net_ok n \<and> (\<exists>evs. fold daemon_step evs (\<lambda>_. None, preregister pfs) = (m, net_abs n))"
    using assms
  proof (induction rule: rtranclp_induct2)
    case refl
    have "fold daemon_step [] (\<lambda>_. None, preregister pfs) = (\<lambda>_. None, net_abs (net_preregister pfs))"
      by (simp add: net_preregister_refines)
    then show ?case using net_preregister_refines by blast
  next
    case (step m n m' n')
    then obtain e1 e2 where "fold daemon_step e1 (\<lambda>_. None, preregister pfs) = (m, net_abs n)"
        "fold daemon_step e2 (m, net_abs n) = (m', net_abs n')" "net_ok n'"
      using net_step_refines by blast
    then have "fold daemon_step (e1 @ e2) (\<lambda>_. None, preregister pfs) = (m', net_abs n')" by simp
    with \<open>net_ok n'\<close> show ?case by blast
  qed
  then obtain evs where ok: "net_ok n" and evs: "fold daemon_step evs (\<lambda>_. None, preregister pfs) = (m, net_abs n)" by blast
  have "\<exists>i < length (dn_listeners n). dn_handle n hp = Some i \<and> l_port (dn_listeners n ! i) = hp \<and>
      l_target (dn_listeners n ! i) = cp \<and> \<not> l_shutdown (dn_listeners n ! i)" if "dn_active n hp = Some cp" for hp cp
    using pd_active_has_listener[OF evs, of hp cp] that net_okD(1)[OF ok, of hp] by (auto simp: net_abs_def)
  then show ?thesis using evs net_okD(3)[OF ok] by blast
qed

lemma net_step_trace:
  "net_step\<^sup>*\<^sup>* w (m, n) \<Longrightarrow> net_step\<^sup>*\<^sup>* w (m, snd (net_cmd c n))"
  by (rule rtranclp.rtrancl_into_rtrancl) (auto intro: net_step.Command)

theorem pp_refines_witness:
  "dn_active (snd (net_cmd (RegisterPort 8080 80) (net_preregister []))) 8080 = Some 80 \<and>
   (\<exists>i. dn_handle (snd (net_cmd (RegisterPort 8080 80) (net_preregister []))) 8080 = Some i)"
proof -
  have "net_step\<^sup>*\<^sup>* (\<lambda>_. None, net_preregister []) (\<lambda>_. None, snd (net_cmd (RegisterPort 8080 80) (net_preregister [])))"
    by (rule net_step_trace) simp
  moreover have "dn_active (snd (net_cmd (RegisterPort 8080 80) (net_preregister []))) 8080 = Some 80"
    by (simp add: net_cmd_def net_preregister_def net_new_def net_add_def proxy_start_def insert_proxy_def)
  ultimately show ?thesis using pp_refines by blast
qed

section \<open>Every thread comes to rest\<close>

fun phase_weight :: "phase \<Rightarrow> nat" where
  "phase_weight Starting = 2" | "phase_weight Listening = 1" | "phase_weight Ended = 0"

definition weight :: "daemon_net \<Rightarrow> nat" where
  "weight n = sum_list (map (\<lambda>l. phase_weight (l_phase l) + l_pending l) (dn_listeners n))"

lemma sum_list_less:
  assumes "i < length xs" and "f y < (f (xs ! i) :: nat)"
  shows "sum_list (map f (xs[i := y])) < sum_list (map f xs)"
proof -
  have "sum_list (map f (xs[i := y])) = sum_list (map f xs) + f y - f (xs ! i)"
    using assms(1) by (simp add: map_update sum_list_update)
  then show ?thesis using elem_le_sum_list[of i "map f xs"] assms by simp
qed

lemma thread_step_weight: "thread_step n n' \<Longrightarrow> weight n' < weight n"
  by (erule thread_step.cases) (auto simp: weight_def set_phase_def set_pending_def intro!: sum_list_less)

definition quiet :: "daemon_net \<Rightarrow> bool" where
  "quiet n = (\<forall>i < length (dn_listeners n). l_phase (dn_listeners n ! i) = Ended \<or>
     (l_phase (dn_listeners n ! i) = Listening \<and> l_pending (dn_listeners n ! i) = 0))"

lemma quiet_iff: "quiet n \<longleftrightarrow> (\<forall>n'. \<not> thread_step n n')"
proof
  show "quiet n \<Longrightarrow> \<forall>n'. \<not> thread_step n n'" by (auto simp: quiet_def elim!: thread_step.cases)
next
  assume no: "\<forall>n'. \<not> thread_step n n'"
  show "quiet n" unfolding quiet_def
  proof (intro allI impI)
    fix i assume i: "i < length (dn_listeners n)"
    show "l_phase (dn_listeners n ! i) = Ended \<or> (l_phase (dn_listeners n ! i) = Listening \<and> l_pending (dn_listeners n ! i) = 0)"
    proof (cases "l_phase (dn_listeners n ! i)")
      case Starting
      then show ?thesis using no i thread_step.Bind[of i n] thread_step.BindFails[of i n] by blast
    next
      case Listening
      then show ?thesis using no i thread_step.Accept[of i n] thread_step.Stop[of i n] by (cases "l_pending (dn_listeners n ! i)") blast+
    qed simp
  qed
qed

lemma threads_rest: "\<exists>n'. thread_step\<^sup>*\<^sup>* n n' \<and> quiet n'"
proof (induction "weight n" arbitrary: n rule: less_induct)
  case less
  show ?case
  proof (cases "quiet n")
    case False
    then obtain n1 where n1: "thread_step n n1" by (auto simp: quiet_iff)
    with less[OF thread_step_weight[OF n1]] show ?thesis by (meson converse_rtranclp_into_rtranclp)
  qed blast
qed

section \<open>Who listens in the end\<close>

text \<open>The threads of a port other than \<open>i\<close> have ended, and \<open>i\<close> was not told to stop.\<close>

definition sole :: "u16 \<Rightarrow> u16 \<Rightarrow> nat \<Rightarrow> daemon_net \<Rightarrow> bool" where
  "sole hp cp i n = (i < length (dn_listeners n) \<and> l_port (dn_listeners n ! i) = hp \<and> l_target (dn_listeners n ! i) = cp \<and>
     \<not> l_shutdown (dn_listeners n ! i) \<and> l_phase (dn_listeners n ! i) \<noteq> Ended \<and> hp \<notin> dn_refused n \<and>
     (\<forall>j < length (dn_listeners n). l_port (dn_listeners n ! j) = hp \<longrightarrow> j \<noteq> i \<longrightarrow> l_phase (dn_listeners n ! j) = Ended))"

lemma sole_step:
  assumes "thread_step n n'" and "sole hp cp i n"
  shows "sole hp cp i n'"
  using assms(1)
proof cases
  case (BindFails k j)
  then have "k \<noteq> i" using assms(2) by (auto simp: sole_def listening_def)
  then show ?thesis using BindFails assms(2) by (auto simp: sole_def)
qed (use assms(2) in \<open>auto simp: sole_def\<close>)

lemma sole_steps: "thread_step\<^sup>*\<^sup>* n n' \<Longrightarrow> sole hp cp i n \<Longrightarrow> sole hp cp i n'"
  by (induction rule: rtranclp_induct) (auto intro: sole_step)

lemma sole_quiet:
  assumes "sole hp cp i n" and "quiet n"
  shows "listening n hp i \<and> l_target (dn_listeners n ! i) = cp \<and> \<not> l_shutdown (dn_listeners n ! i) \<and> (\<forall>j. listening n hp j \<longrightarrow> j = i)"
  using assms unfolding sole_def quiet_def listening_def by (metis phase.distinct(5))

definition none_left :: "u16 \<Rightarrow> daemon_net \<Rightarrow> bool" where
  "none_left hp n = (\<forall>i < length (dn_listeners n). l_port (dn_listeners n ! i) = hp \<longrightarrow> l_phase (dn_listeners n ! i) = Ended)"

lemma none_left_steps: "thread_step\<^sup>*\<^sup>* n n' \<Longrightarrow> none_left hp n \<Longrightarrow> none_left hp n'"
proof (induction rule: rtranclp_induct)
  case (step n' n'')
  from step(2) step(3)[OF step.prems] show ?case by cases (auto simp: none_left_def)
qed

text \<open>No thread listens on a port the system refuses.\<close>

definition unbound :: "u16 \<Rightarrow> daemon_net \<Rightarrow> bool" where
  "unbound hp n = (hp \<in> dn_refused n \<and> (\<forall>i < length (dn_listeners n). l_port (dn_listeners n ! i) = hp \<longrightarrow> l_phase (dn_listeners n ! i) \<noteq> Listening))"

lemma unbound_steps: "thread_step\<^sup>*\<^sup>* n n' \<Longrightarrow> unbound hp n \<Longrightarrow> unbound hp n'"
proof (induction rule: rtranclp_induct)
  case (step n' n'')
  from step(2) step(3)[OF step.prems] show ?case by cases (auto simp: unbound_def)
qed

lemma steps_active: "thread_step\<^sup>*\<^sup>* n n' \<Longrightarrow> dn_active n' = dn_active n"
  by (induction rule: rtranclp_induct) (auto elim: thread_step.cases)

lemma register_free: "dn_active n hp = None \<Longrightarrow> net_cmd (RegisterPort hp cp) n = (DOk, net_add hp cp n)"
  by (simp add: net_cmd_def)

text \<open>
  C9: A forward on a port whose earlier threads have ended, and which the system lets the daemon
  bind, is served: however the threads are scheduled, once they are at rest exactly one thread
  listens on the port, it relays to the container port of the forward and was not told to
  stop. On a port the system refuses, the thread ends: the forward is active but nobody listens.
\<close>

theorem pp_fresh_port_served:
  assumes "net_ok n" and "dn_active n hp = None" and "none_left hp n"
    and "thread_step\<^sup>*\<^sup>* (snd (net_cmd (RegisterPort hp cp) n)) n'" and "quiet n'"
  shows "if hp \<in> dn_refused n then dn_active n' hp = Some cp \<and> (\<forall>i. \<not> listening n' hp i)
    else \<exists>i. listening n' hp i \<and> l_target (dn_listeners n' ! i) = cp \<and> \<not> l_shutdown (dn_listeners n' ! i) \<and>
      (\<forall>j. listening n' hp j \<longrightarrow> j = i)"
proof -
  let ?i = "length (dn_listeners n)"
  have run: "thread_step\<^sup>*\<^sup>* (net_add hp cp n) n'" using assms(2,4) by (simp add: register_free)
  have "sole hp cp ?i (net_add hp cp n)" if "hp \<notin> dn_refused n"
    using that assms(3) by (auto simp: sole_def none_left_def add_fields[OF assms(1)] nth_append remove_nth less_Suc_eq split: option.split)
  then have "sole hp cp ?i n'" if "hp \<notin> dn_refused n" using that sole_steps[OF run] by blast
  moreover have "unbound hp (net_add hp cp n)" if "hp \<in> dn_refused n"
    using that assms(3) by (auto simp: unbound_def none_left_def add_fields[OF assms(1)] nth_append remove_nth less_Suc_eq split: option.split)
  then have "unbound hp n'" if "hp \<in> dn_refused n" using that unbound_steps[OF run] by blast
  moreover have "dn_active n' hp = Some cp" using steps_active[OF run] by (simp add: add_fields[OF assms(1)])
  moreover have "unbound hp n' \<Longrightarrow> \<forall>i. \<not> listening n' hp i" by (auto simp: unbound_def listening_def)
  ultimately show ?thesis using sole_quiet[OF _ assms(5)] by metis
qed

text \<open>A port whose thread has ended, and one whose container has ended while its thread listens.\<close>

definition demo_net :: "phase \<Rightarrow> daemon_net" where
  "demo_net ph = \<lparr>dn_listeners = [\<lparr>l_port = 8080, l_target = 80, l_shutdown = False, l_phase = ph, l_pending = 0\<rparr>],
     dn_handle = [8080 \<mapsto> 0], dn_active = \<lambda>_. None, dn_projects = \<lambda>_. None, dn_refused = {}\<rparr>"

lemma net_ok_demo: "net_ok (demo_net ph)"
  by (simp add: net_ok_def demo_net_def listening_def)

theorem pp_fresh_port_served_witness:
  "\<exists>n' i. thread_step\<^sup>*\<^sup>* (snd (net_cmd (RegisterPort 8080 81) (demo_net Ended))) n' \<and> listening n' 8080 i \<and>
     l_target (dn_listeners n' ! i) = 81"
proof -
  obtain n' where n': "thread_step\<^sup>*\<^sup>* (snd (net_cmd (RegisterPort 8080 81) (demo_net Ended))) n'" "quiet n'"
    using threads_rest by blast
  have "dn_active (demo_net Ended) 8080 = None" "none_left 8080 (demo_net Ended)"
    by (simp_all add: demo_net_def none_left_def)
  moreover have "8080 \<notin> dn_refused (demo_net Ended)" by (simp add: demo_net_def)
  ultimately show ?thesis using pp_fresh_port_served[OF net_ok_demo, of Ended 8080 81 n'] n' by auto
qed

text \<open>A thread that was told to stop while it listened has a connection to take or has ended.\<close>

definition stopping :: "nat \<Rightarrow> daemon_net \<Rightarrow> bool" where
  "stopping i n = (i < length (dn_listeners n) \<and> l_shutdown (dn_listeners n ! i) \<and>
     (l_phase (dn_listeners n ! i) = Ended \<or> l_phase (dn_listeners n ! i) = Listening \<and> 0 < l_pending (dn_listeners n ! i)))"

lemma stopping_step: "thread_step n n' \<Longrightarrow> stopping i n \<Longrightarrow> stopping i n'"
  by (erule thread_step.cases) (auto simp: stopping_def split: if_splits)

lemma stopping_steps: "thread_step\<^sup>*\<^sup>* n n' \<Longrightarrow> stopping i n \<Longrightarrow> stopping i n'"
  by (induction rule: rtranclp_induct) (auto intro: stopping_step)

lemma stopping_quiet: "stopping i n \<Longrightarrow> quiet n \<Longrightarrow> l_phase (dn_listeners n ! i) = Ended"
  unfolding stopping_def quiet_def by (metis less_irrefl)

text \<open>A thread that was told to stop before it was bound, alone on its port and with nothing to take.\<close>

definition unheard :: "u16 \<Rightarrow> nat \<Rightarrow> daemon_net \<Rightarrow> bool" where
  "unheard hp i n = (i < length (dn_listeners n) \<and> l_port (dn_listeners n ! i) = hp \<and> l_shutdown (dn_listeners n ! i) \<and> hp \<notin> dn_refused n \<and>
     (l_phase (dn_listeners n ! i) = Starting \<or> l_phase (dn_listeners n ! i) = Listening \<and> l_pending (dn_listeners n ! i) = 0) \<and>
     (\<forall>j < length (dn_listeners n). l_port (dn_listeners n ! j) = hp \<longrightarrow> j \<noteq> i \<longrightarrow> l_phase (dn_listeners n ! j) = Ended))"

lemma unheard_step: "thread_step n n' \<Longrightarrow> unheard hp i n \<Longrightarrow> unheard hp i n'"
proof (erule thread_step.cases, goal_cases)
  case (2 k n j)
  then have "k \<noteq> i" by (auto simp: unheard_def listening_def)
  with 2 show ?case by (auto simp: unheard_def)
qed (auto simp: unheard_def)

lemma unheard_steps: "thread_step\<^sup>*\<^sup>* n n' \<Longrightarrow> unheard hp i n \<Longrightarrow> unheard hp i n'"
  by (induction rule: rtranclp_induct) (auto intro: unheard_step)

lemma unregister_active: "dn_active n hp \<noteq> None \<Longrightarrow> snd (net_cmd (UnregisterPort hp) n) = remove_proxy hp (net_drop_active hp n)"
  by (simp add: net_cmd_def)

lemma drop_active_net_fields [simp]:
  "dn_listeners (net_drop_active hp n) = dn_listeners n" "dn_handle (net_drop_active hp n) = dn_handle n"
  "dn_refused (net_drop_active hp n) = dn_refused n"
  by (simp_all add: net_drop_active_def)

text \<open>
  C11: How the threads of forwards end. Between two connections of clients every run of thread steps
  is finite. A forward that is taken back while its thread listens needs nobody's help: once the
  threads are at rest the thread has ended. A forward taken back before its thread was bound is
  different: the wake-up finds no listener, so that the thread, alone on its port, then binds the
  port and holds it although it was told to stop, until the next connection to the port ends it.
\<close>

theorem pp_threads_end:
  assumes "net_ok n" and "dn_active n hp \<noteq> None" and "dn_handle n hp = Some i"
    and "thread_step\<^sup>*\<^sup>* (snd (net_cmd (UnregisterPort hp) n)) n'" and "quiet n'"
  shows "wfP (\<lambda>n' n. thread_step n n') \<and>
    (l_phase (dn_listeners n ! i) = Listening \<longrightarrow> l_phase (dn_listeners n' ! i) = Ended) \<and>
    (l_phase (dn_listeners n ! i) = Starting \<and> hp \<notin> dn_refused n \<and>
       (\<forall>j < length (dn_listeners n). l_port (dn_listeners n ! j) = hp \<longrightarrow> j \<noteq> i \<longrightarrow> l_phase (dn_listeners n ! j) = Ended) \<longrightarrow>
     listening n' hp i \<and> (\<forall>n''. thread_step\<^sup>*\<^sup>* (incoming hp n') n'' \<and> quiet n'' \<longrightarrow> l_phase (dn_listeners n'' ! i) = Ended))"
proof (intro conjI impI)
  have "{(n', n). thread_step n n'} \<subseteq> measure weight" by (auto dest: thread_step_weight)
  then show "wfP (\<lambda>n' n. thread_step n n')" unfolding wfp_def by (rule wf_subset[OF wf_measure])
next
  note i = net_okD(1)[OF assms(1,3)]
  let ?n = "remove_proxy hp (net_drop_active hp n)"
  have run: "thread_step\<^sup>*\<^sup>* ?n n'" using assms(2,4) by (simp add: unregister_active)
  {
    assume "l_phase (dn_listeners n ! i) = Listening"
    then have "stopping i ?n" using i assms(3) by (simp add: stopping_def remove_nth)
    then have "stopping i n'" by (rule stopping_steps[OF run])
    then show "l_phase (dn_listeners n' ! i) = Ended" by (rule stopping_quiet[OF _ assms(5)])
  }
  assume late: "l_phase (dn_listeners n ! i) = Starting \<and> hp \<notin> dn_refused n \<and>
    (\<forall>j < length (dn_listeners n). l_port (dn_listeners n ! j) = hp \<longrightarrow> j \<noteq> i \<longrightarrow> l_phase (dn_listeners n ! j) = Ended)"
  then have "unheard hp i ?n" using i assms(3) by (simp add: unheard_def remove_nth)
  then have u: "unheard hp i n'" by (rule unheard_steps[OF run])
  then show l: "listening n' hp i" using assms(5) by (auto simp: unheard_def listening_def quiet_def)
  have "stopping i (incoming hp n')" using u l by (auto simp: stopping_def unheard_def listening_def)
  then show "\<forall>n''. thread_step\<^sup>*\<^sup>* (incoming hp n') n'' \<and> quiet n'' \<longrightarrow> l_phase (dn_listeners n'' ! i) = Ended"
    using stopping_steps stopping_quiet by blast
qed

theorem pp_threads_end_witness:
  "\<exists>n'. thread_step\<^sup>*\<^sup>* (snd (net_cmd (UnregisterPort 8080) ((demo_net Starting)\<lparr>dn_active := [8080 \<mapsto> 80]\<rparr>))) n' \<and> listening n' 8080 0"
proof -
  let ?n = "(demo_net Starting)\<lparr>dn_active := [8080 \<mapsto> 80]\<rparr>"
  have "net_ok ?n" by (rule net_ok_same[OF net_ok_demo[of Starting]]) simp_all
  moreover obtain n' where "thread_step\<^sup>*\<^sup>* (snd (net_cmd (UnregisterPort 8080) ?n)) n'" "quiet n'" using threads_rest by blast
  ultimately show ?thesis using pp_threads_end[of ?n 8080 0 n'] by (auto simp: demo_net_def)
qed

text \<open>
  C10: A forward on a port whose old listener still runs can be lost. After the exit of a container
  the port is free for a new forward but the old thread still listens; then the new thread may
  try to bind before the old one, told to stop by the replacement of its handle, has closed its
  socket. The forward is then active for ever, but no thread will listen on its port.
\<close>

theorem pp_reregister_lost:
  assumes "net_ok n" and "dn_active n hp = None" and "dn_handle n hp = Some k" and "listening n hp k"
    and "\<forall>j < length (dn_listeners n). l_port (dn_listeners n ! j) = hp \<longrightarrow> j \<noteq> k \<longrightarrow> l_phase (dn_listeners n ! j) = Ended"
  shows "\<exists>n'. thread_step\<^sup>*\<^sup>* (snd (net_cmd (RegisterPort hp cp) n)) n' \<and> dn_active n' hp = Some cp \<and>
    (\<forall>n''. thread_step\<^sup>*\<^sup>* n' n'' \<longrightarrow> (\<forall>i. \<not> listening n'' hp i))"
proof -
  let ?i = "length (dn_listeners n)"
  let ?n1 = "net_add hp cp n"
  let ?n2 = "set_phase ?i Ended ?n1"
  let ?n3 = "set_phase k Ended ?n2"
  have k: "k < ?i" "l_port (dn_listeners n ! k) = hp" "l_phase (dn_listeners n ! k) = Listening"
    using assms(4) by (auto simp: listening_def)
  note add = add_fields[OF assms(1), of hp cp]
  have len: "length (dn_listeners ?n1) = Suc ?i" and handle: "dn_active ?n1 hp = Some cp" by (simp_all add: add)
  have old: "dn_listeners ?n1 ! j = knock hp ((dn_listeners n ! j)\<lparr>l_shutdown := l_shutdown (dn_listeners n ! j) \<or> j = k\<rparr>)" if "j < ?i" for j
    using that assms(3) k by (simp add: add nth_append remove_nth)
  have new: "l_port (dn_listeners ?n1 ! ?i) = hp" "l_phase (dn_listeners ?n1 ! ?i) = Starting" by (simp_all add: add nth_append)
  have "listening ?n1 hp k" using k old len by (simp add: listening_def)
  then have "thread_step ?n1 ?n2" using thread_step.BindFails[of ?i ?n1 k] new len by simp
  moreover have "thread_step ?n2 ?n3" using thread_step.Stop[of k ?n2] k old len by simp
  ultimately have run: "thread_step\<^sup>*\<^sup>* (snd (net_cmd (RegisterPort hp cp) n)) ?n3"
    using assms(2) by (simp add: register_free)
  have "none_left hp ?n3" unfolding none_left_def
  proof (intro allI impI)
    fix j assume "j < length (dn_listeners ?n3)" and p: "l_port (dn_listeners ?n3 ! j) = hp"
    then have "j < ?i \<or> j = ?i" using len by auto
    then show "l_phase (dn_listeners ?n3 ! j) = Ended" using p len k old[of j] assms(5) by (cases "j = k") auto
  qed
  then have "\<forall>n''. thread_step\<^sup>*\<^sup>* ?n3 n'' \<longrightarrow> (\<forall>i. \<not> listening n'' hp i)"
    using none_left_steps by (fastforce simp: none_left_def listening_def)
  moreover have "dn_active ?n3 hp = Some cp" using handle by simp
  ultimately show ?thesis using run by blast
qed

theorem pp_reregister_lost_witness:
  "\<exists>n'. thread_step\<^sup>*\<^sup>* (snd (net_cmd (RegisterPort 8080 81) (demo_net Listening))) n' \<and> dn_active n' 8080 = Some 81 \<and>
    (\<forall>n''. thread_step\<^sup>*\<^sup>* n' n'' \<longrightarrow> (\<forall>i. \<not> listening n'' 8080 i))"
  by (rule pp_reregister_lost[OF net_ok_demo, of _ _ 0]) (simp_all add: demo_net_def listening_def)

section \<open>A connection\<close>

text \<open>\<open>relay_tcp\<close>: what the client and the server receive. \<open>connect\<close> tells whether the container
  answered, \<open>clones\<close> whether the sockets could be duplicated; each direction is copied until its
  source ends or its destination refuses bytes (\<open>taken\<close> counts how many it accepts).\<close>

record tcp_side =
  ts_sends :: bytes
  ts_accepts :: nat

definition relay_tcp :: "bool \<Rightarrow> bool \<Rightarrow> tcp_side \<Rightarrow> tcp_side \<Rightarrow> bytes \<times> bytes" where
  "relay_tcp connect clones client server =
     (if connect \<and> clones then (take (ts_accepts client) (ts_sends server), take (ts_accepts server) (ts_sends client))
      else ([], []))"

text \<open>The accept loop of \<open>port_proxy_loop\<close>: for each connection whether the flag was set when it was
  taken, and the connection unless accepting failed; the result are the connections relayed.\<close>

fun port_proxy_loop :: "(bool \<times> 'c option) list \<Rightarrow> 'c list" where
  "port_proxy_loop [] = []"
| "port_proxy_loop ((shutdown, stream) # later) =
     (if shutdown then []
      else (case stream of Some client \<Rightarrow> [client] | None \<Rightarrow> []) @ port_proxy_loop later)"

text \<open>After the flag is set nothing is relayed any more, the connection that wakes the loop
  included.\<close>

lemma accept_loop_stops:
  "port_proxy_loop (map (Pair False) before @ (True, c) # after) = List.map_filter id before"
  by (induction before) (auto simp: map_filter_simps split: option.split)

end
