(* ===== verification/Host_Io.thy ===== *)
theory Host_Io
  imports Prelude "HOL-Library.State_Monad"
begin

text \<open>
  Code that talks to the operating system, as a state monad. The state is a pair: the
  program's own state and the history of what it asked of the system, oldest first. What the
  system answers is a parameter of the model, a function of the history so far and of the
  request, so that no assumption is made about repeated requests having the same answer.
  \<open>keeps P m\<close> says that an action keeps a property of the state and the history; the rules for
  it follow the structure of the code, so that an invariant of a handler is proved from the
  updates the handler makes.
\<close>

type_synonym ('s, 'e) world = "'s \<times> 'e list"
type_synonym ('s, 'e, 'a) io = "('s \<times> 'e list, 'a) state"

abbreviation ret :: "'a \<Rightarrow> ('s, 'e, 'a) io" where "ret \<equiv> State_Monad.return"

definition ask :: "('e list \<Rightarrow> 'a) \<Rightarrow> 'e \<Rightarrow> ('s, 'e, 'a) io" where
  "ask answer e = State (\<lambda>(s, h). (answer h, (s, h @ [e])))"

definition emit :: "'e \<Rightarrow> ('s, 'e, unit) io" where
  "emit e = ask (\<lambda>_. ()) e"

definition get_st :: "('s, 'e, 's) io" where
  "get_st = State (\<lambda>(s, h). (s, (s, h)))"

definition get_hist :: "('s, 'e, 'e list) io" where
  "get_hist = State (\<lambda>(s, h). (h, (s, h)))"

definition modify :: "('s \<Rightarrow> 's) \<Rightarrow> ('s, 'e, unit) io" where
  "modify f = State (\<lambda>(s, h). ((), (f s, h)))"

lemma run_prims [simp]:
  "run_state (ask answer e) (s, h) = (answer h, (s, h @ [e]))"
  "run_state (emit e) (s, h) = ((), (s, h @ [e]))"
  "run_state get_st (s, h) = (s, (s, h))"
  "run_state get_hist (s, h) = (h, (s, h))"
  "run_state (modify f) (s, h) = ((), (f s, h))"
  by (simp_all add: ask_def emit_def get_st_def get_hist_def modify_def)

text \<open>\<open>for x in xs { f(x); }\<close>\<close>

fun for_each :: "('a \<Rightarrow> ('s, 'e, unit) io) \<Rightarrow> 'a list \<Rightarrow> ('s, 'e, unit) io" where
  "for_each f [] = ret ()"
| "for_each f (x # xs) = do { f x; for_each f xs }"

section \<open>What \<open>Command::output\<close> returns\<close>

record cmd_output =
  success :: bool
  cmd_stdout :: string
  cmd_stderr :: string

text \<open>Left: the text of the \<open>io::Error\<close> when the program could not be started.\<close>

type_synonym cmd_result = "string + cmd_output"

section \<open>Properties an action keeps\<close>

definition keeps :: "('s \<Rightarrow> 'e list \<Rightarrow> bool) \<Rightarrow> ('s, 'e, 'a) io \<Rightarrow> bool" where
  "keeps P m = (\<forall>s h a s' h'. P s h \<longrightarrow> run_state m (s, h) = (a, s', h') \<longrightarrow> P s' h')"

named_theorems keeps_intros "rules that decompose keeps"

lemma keepsD: "keeps P m \<Longrightarrow> P s h \<Longrightarrow> run_state m (s, h) = (a, s', h') \<Longrightarrow> P s' h'"
  unfolding keeps_def by blast

lemma keeps_run: "keeps (\<lambda>s _. P s) m \<Longrightarrow> P (fst w) \<Longrightarrow> P (fst (snd (run_state m w)))"
  by (cases w; cases "run_state m w") (auto dest: keepsD)

lemma keeps_run2: "keeps (\<lambda>s h. P (s, h)) m \<Longrightarrow> P w \<Longrightarrow> P (snd (run_state m w))"
  by (cases w; cases "run_state m w") (auto dest: keepsD)

lemma keeps_prims [keeps_intros]:
  "keeps P (ret x)" "keeps P get_st" "keeps P get_hist"
  by (simp_all add: keeps_def)

lemma keeps_ask [keeps_intros]: "(\<And>s h. P s h \<Longrightarrow> P s (h @ [e])) \<Longrightarrow> keeps P (ask answer e)"
  by (simp add: keeps_def)

lemma keeps_emit [keeps_intros]: "(\<And>s h. P s h \<Longrightarrow> P s (h @ [e])) \<Longrightarrow> keeps P (emit e)"
  by (simp add: keeps_def)

lemma keeps_modify [keeps_intros]: "(\<And>s h. P s h \<Longrightarrow> P (f s) h) \<Longrightarrow> keeps P (modify f)"
  by (simp add: keeps_def)

lemma keeps_bind [keeps_intros]:
  assumes "keeps P m" and "\<And>x. keeps P (f x)"
  shows "keeps P (m \<bind> f)"
  unfolding keeps_def
proof (intro allI impI)
  fix s h a s' h' assume "P s h" and run: "run_state (m \<bind> f) (s, h) = (a, s', h')"
  obtain x s1 h1 where m: "run_state m (s, h) = (x, s1, h1)" by (rule prod_cases3)
  with run have "run_state (f x) (s1, h1) = (a, s', h')" by simp
  then show "P s' h'" using keepsD[OF assms(1) \<open>P s h\<close> m] keepsD[OF assms(2)] by blast
qed

lemma keeps_if [keeps_intros]:
  "(b \<Longrightarrow> keeps P m) \<Longrightarrow> (\<not> b \<Longrightarrow> keeps P n) \<Longrightarrow> keeps P (if b then m else n)"
  by simp

lemma keeps_sum [keeps_intros]:
  "(\<And>x. r = Inl x \<Longrightarrow> keeps P (f x)) \<Longrightarrow> (\<And>y. r = Inr y \<Longrightarrow> keeps P (g y)) \<Longrightarrow>
   keeps P (case r of Inl x \<Rightarrow> f x | Inr y \<Rightarrow> g y)"
  by (cases r) simp_all

lemma keeps_option [keeps_intros]:
  "(r = None \<Longrightarrow> keeps P m) \<Longrightarrow> (\<And>y. r = Some y \<Longrightarrow> keeps P (g y)) \<Longrightarrow>
   keeps P (case r of None \<Rightarrow> m | Some y \<Rightarrow> g y)"
  by (cases r) simp_all

lemma keeps_prod [keeps_intros]: "(\<And>a b. p = (a, b) \<Longrightarrow> keeps P (f a b)) \<Longrightarrow> keeps P (case p of (a, b) \<Rightarrow> f a b)"
  by (cases p) simp

lemma keeps_for_each [keeps_intros]:
  "(\<And>x. x \<in> set xs \<Longrightarrow> keeps P (f x)) \<Longrightarrow> keeps P (for_each f xs)"
  by (induction xs) (auto intro!: keeps_intros)

end
