(* ===== verification/Checksum.thy ===== *)
theory Checksum
  imports Byte_Codec
begin

text \<open>
  The Internet checksum of an ICMPv6 message. The code computes it twice: in the relay
  (\<open>pelagos-vz/src/tun_relay.rs\<close>, adding up the pseudo-header field by field) and in the
  privileged helper (\<open>pelagos-pfctl/src/main.rs\<close>, over a 40-byte pseudo-header buffer).
  Both are modelled with the 32-bit accumulator of the source, whose additions wrap. The
  locale \<open>icmpv6_checksum_impl\<close> states what a checksum function has to compute, the
  complement of the one's-complement sum; the receiver's check is proved from it once, and
  both functions are interpreted.
\<close>

unbundle bit_operations_syntax

section \<open>The one's-complement sum\<close>

text \<open>Adding up big-endian 16-bit words; a last odd byte is the high half of a word.\<close>

fun sum_pairs :: "u32 \<Rightarrow> bytes \<Rightarrow> u32" where
  "sum_pairs s (a # b # r) = sum_pairs (s + ucast (from_be16 a b)) r"
| "sum_pairs s [a] = s + push_bit 8 (ucast a)"
| "sum_pairs s [] = s"

text \<open>\<open>while sum >> 16 != 0 { sum = (sum & 0xffff) + (sum >> 16) }\<close>\<close>

lemma drop_bit_16_nat: "unat (drop_bit 16 (s :: u32)) = unat s div 65536"
  by (simp add: unat_drop_bit_eq drop_bit_eq_div unat_div_distrib)

lemma and_ffff_nat: "unat (s AND 0xffff :: u32) = unat s mod 65536"
proof -
  have "s AND 0xffff = take_bit 16 s" by (simp add: take_bit_eq_mask mask_eq_exp_minus_1)
  then show ?thesis by (simp add: unsigned_take_bit_eq take_bit_eq_mod unat_mod_distrib)
qed

lemma fold_step_nat:
  "unat ((s AND 0xffff) + drop_bit 16 s :: u32) = unat s mod 65536 + unat s div 65536"
proof -
  have "unat s mod 65536 + unat s div 65536 < 2 ^ 32"
    using unat_bounds(3)[of s] mod_less_divisor[of 65536 "unat s"] by (simp add: div_le_mono)
  then show ?thesis by (subst unat_add_lem[THEN iffD1]) (simp_all add: and_ffff_nat drop_bit_16_nat)
qed

function fold16 :: "u32 \<Rightarrow> u32" where
  "fold16 s = (if drop_bit 16 s \<noteq> 0 then fold16 ((s AND 0xffff) + drop_bit 16 s) else s)"
  by pat_completeness auto
termination
proof (relation "measure unat")
  fix s :: u32
  assume "drop_bit 16 s \<noteq> 0"
  then have "0 < unat s div 65536" by (metis drop_bit_16_nat unat_eq_0 neq0_conv)
  then show "((s AND 0xffff) + drop_bit 16 s, s) \<in> measure unat"
    unfolding in_measure fold_step_nat using div_mult_mod_eq[of "unat s" 65536] by linarith
qed simp

declare fold16.simps [simp del]

section \<open>The two implementations\<close>

text \<open>\<open>tun_relay.rs\<close>\<close>

definition icmpv6_checksum :: "bytes \<Rightarrow> bytes \<Rightarrow> bytes \<Rightarrow> u16" where
  "icmpv6_checksum src dst payload =
     (let sum = sum_pairs 0 src;
          sum = sum_pairs sum dst;
          len = of_nat (length payload) :: u32;
          sum = sum + drop_bit 16 len;
          sum = sum + (len AND 0xffff);
          sum = sum + 58;
          sum = sum_pairs sum payload
      in NOT (ucast (fold16 sum)))"

text \<open>\<open>pelagos-pfctl\<close>\<close>

definition pfctl_icmpv6_checksum :: "bytes \<Rightarrow> bytes \<Rightarrow> bytes \<Rightarrow> u16" where
  "pfctl_icmpv6_checksum src dst payload =
     (let ulen = of_nat (length payload) :: u32;
          p = replicate 40 0;
          p = copy_into 0 src p;
          p = copy_into 16 dst p;
          p = copy_into 32 (to_be32 ulen) p;
          pseudo = p[39 := 58];
          sum = sum_pairs 0 pseudo;
          sum = sum_pairs sum payload
      in NOT (ucast (fold16 sum)))"

section \<open>Reference definitions over natural numbers\<close>

fun word_sum :: "bytes \<Rightarrow> nat" where
  "word_sum (a # b # r) = 256 * unat a + unat b + word_sum r"
| "word_sum [a] = 256 * unat a"
| "word_sum [] = 0"

text \<open>The one's-complement representative of a sum: between 1 and 65535, or 0 for 0.\<close>

definition ones_sum :: "nat \<Rightarrow> nat" where
  "ones_sum n = (if n = 0 then 0 else (n - 1) mod 65535 + 1)"

definition pseudo_sum :: "bytes \<Rightarrow> bytes \<Rightarrow> bytes \<Rightarrow> nat" where
  "pseudo_sum src dst payload =
     word_sum src + word_sum dst + length payload div 65536 + length payload mod 65536 + 58
     + word_sum payload"

lemma word_sum_le: "word_sum xs \<le> 65535 * ((length xs + 1) div 2)"
proof (induction xs rule: word_sum.induct)
  case (1 a b r)
  then show ?case using unat_bounds(1)[of a] unat_bounds(1)[of b] by simp
next
  case (2 a)
  then show ?case using unat_bounds(1)[of a] by simp
qed simp

lemma word_sum_append: "even (length xs) \<Longrightarrow> word_sum (xs @ ys) = word_sum xs + word_sum ys"
  by (induction xs rule: word_sum.induct) auto

lemma unat_push8: "unat (push_bit 8 (ucast (a :: u8)) :: u32) = 256 * unat a"
proof -
  have "(push_bit 8 (ucast a) :: u32) = word_of_nat (256 * unat a)"
    by (simp add: push_bit_eq_mult mult.commute)
  moreover have "256 * unat a < 2 ^ 32" using unat_bounds(1)[of a] by simp
  ultimately show ?thesis by (simp only: unat_of_nat) simp
qed

lemma unat_be16_32: "unat (ucast (from_be16 a b) :: u32) = 256 * unat a + unat b"
  using unat_bounds(2)[of "from_be16 a b"]
  by (simp add: unsigned_ucast_eq take_bit_eq_mod unat_from_be16)

lemma sum_pairs_word: "sum_pairs s xs = s + of_nat (word_sum xs)"
proof (induction s xs rule: sum_pairs.induct)
  case (1 s a b r)
  have "ucast (from_be16 a b) = (of_nat (256 * unat a + unat b) :: u32)"
    by (simp flip: unat_be16_32)
  with 1 show ?case by (simp add: add.assoc)
next
  case (2 s a)
  have "push_bit 8 (ucast a) = (of_nat (256 * unat a) :: u32)"
    by (simp flip: unat_push8)
  then show ?case by simp
qed simp

lemma sum_pairs_append: "even (length xs) \<Longrightarrow> sum_pairs s (xs @ ys) = sum_pairs (sum_pairs s xs) ys"
  by (induction s xs rule: sum_pairs.induct) auto

lemma fold16_nat: "unat (fold16 s) = ones_sum (unat s)"
proof (induction s rule: fold16.induct)
  case (1 s)
  show ?case
  proof (cases "drop_bit 16 s = 0")
    case True
    then have "unat s div 65536 = 0" by (metis drop_bit_16_nat unat_0)
    with True show ?thesis by (simp add: fold16.simps[of s] ones_sum_def)
  next
    case False
    define q r where "q = unat s div 65536" and "r = unat s mod 65536"
    have s: "unat s = 65536 * q + r" by (simp add: q_def r_def)
    from False have q: "0 < q" unfolding q_def by (metis drop_bit_16_nat unat_eq_0 neq0_conv)
    have "unat s - 1 = (q + r - 1) + 65535 * q" using s q by simp
    then have "(unat s - 1) mod 65535 = (q + r - 1) mod 65535"
      by (metis mod_mult_self2)
    then have "ones_sum (r + q) = ones_sum (unat s)"
      using s q by (simp add: ones_sum_def add.commute)
    with 1 False fold_step_nat[of s] show ?thesis
      by (simp add: fold16.simps[of s] q_def r_def)
  qed
qed

lemma ones_sum_le: "ones_sum n \<le> 65535"
proof -
  have "(n - 1) mod 65535 < 65535" by (rule mod_less_divisor) simp
  then have "(n - 1) mod 65535 + 1 \<le> 65535" by linarith
  then show ?thesis unfolding ones_sum_def by (metis zero_le)
qed

lemma unat_not_low: "unat (NOT (ucast (s :: u32)) :: u16) = 65535 - unat s" if "unat s \<le> 65535"
proof -
  have "unat (ucast s :: u16) = unat s"
    using that by (simp add: unsigned_ucast_eq take_bit_eq_mod)
  moreover have "unat (NOT w) = 65535 - unat w" for w :: u16
  proof -
    have "NOT w = 65535 - w" by (simp add: not_eq_complement)
    moreover have "unat (65535 - w) = unat (65535 :: u16) - unat w"
      using unat_bounds(2)[of w] by (intro unat_sub) (simp add: word_le_nat_alt)
    ultimately show ?thesis by simp
  qed
  ultimately show ?thesis by simp
qed

text \<open>Placing a 16-bit value at an even offset where the message has two zero bytes.\<close>

lemma word_sum_patch:
  assumes "even (length pre)"
  shows "word_sum (pre @ to_be16 c @ post) = word_sum (pre @ [0, 0] @ post) + unat c"
proof -
  have "256 * unat (ucast (drop_bit 8 c) :: u8) + unat (ucast c :: u8) = unat c"
    using unat_from_be16[of "ucast (drop_bit 8 c)" "ucast c"] by (simp add: from_to_be16)
  then show ?thesis using assms by (simp add: word_sum_append to_be16_def)
qed

section \<open>What a checksum function has to compute\<close>

locale icmpv6_checksum_impl =
  fixes ck :: "bytes \<Rightarrow> bytes \<Rightarrow> bytes \<Rightarrow> u16"
  assumes ck_value:
    "length src = 16 \<Longrightarrow> length dst = 16 \<Longrightarrow> length payload \<le> 65535 \<Longrightarrow>
     unat (ck src dst payload) = 65535 - ones_sum (pseudo_sum src dst payload)"
begin

text \<open>The receiver's check: the checksum of the message with its checksum in place is zero.\<close>

lemma receiver_accepts:
  assumes "length src = 16" "length dst = 16" "even (length pre)"
    and "length (pre @ [0, 0] @ post) \<le> 65535"
  shows "ck src dst (pre @ to_be16 (ck src dst (pre @ [0, 0] @ post)) @ post) = 0"
proof -
  define c where "c = ck src dst (pre @ [0, 0] @ post)"
  define n where "n = pseudo_sum src dst (pre @ [0, 0] @ post)"
  have n: "0 < n" by (simp add: n_def pseudo_sum_def)
  have c: "unat c = 65535 - ones_sum n"
    unfolding c_def n_def using assms by (intro ck_value) simp_all
  have "pseudo_sum src dst (pre @ to_be16 c @ post) = n + (65535 - ones_sum n)"
    using word_sum_patch[OF assms(3), of c post] by (simp add: n_def pseudo_sum_def c)
  moreover have "n + (65535 - ones_sum n) - 1 = 65534 + 65535 * ((n - 1) div 65535)"
  proof -
    have "n - 1 = 65535 * ((n - 1) div 65535) + (n - 1) mod 65535" by simp
    moreover have "(n - 1) mod 65535 < 65535" by simp
    moreover from n have "ones_sum n = (n - 1) mod 65535 + 1" by (simp add: ones_sum_def)
    ultimately show ?thesis using n by linarith
  qed
  moreover have "n + (65535 - ones_sum n) \<noteq> 0" using n by simp
  ultimately have "ones_sum (pseudo_sum src dst (pre @ to_be16 c @ post)) = 65535"
    unfolding ones_sum_def[of "pseudo_sum _ _ _"] by simp
  then have "unat (ck src dst (pre @ to_be16 c @ post)) = 0"
    using assms by (subst ck_value) simp_all
  then show ?thesis by (simp add: c_def unat_eq_0)
qed

end

lemma pseudo_sum_small:
  assumes "length src = 16" "length dst = 16" "length payload \<le> 65535"
  shows "pseudo_sum src dst payload < 2 ^ 32"
proof -
  have "word_sum payload \<le> 65535 * 32768"
  proof (rule order_trans[OF word_sum_le])
    have "(length payload + 1) div 2 \<le> 65536 div 2" using assms(3) by (intro div_le_mono) simp
    then show "65535 * ((length payload + 1) div 2) \<le> 65535 * 32768" by simp
  qed
  moreover have "word_sum src \<le> 65535 * 8" "word_sum dst \<le> 65535 * 8"
    using word_sum_le[of src] word_sum_le[of dst] assms by simp_all
  ultimately show ?thesis using assms(3) by (simp add: pseudo_sum_def)
qed

lemma not_fold16:
  assumes "n < 2 ^ 32"
  shows "unat (NOT (ucast (fold16 (of_nat n))) :: u16) = 65535 - ones_sum n"
proof -
  have "unat (fold16 (of_nat n)) = ones_sum n"
    using assms by (simp add: fold16_nat unat_of_nat)
  with ones_sum_le[of n] show ?thesis by (subst unat_not_low) simp_all
qed

interpretation relay_ck: icmpv6_checksum_impl icmpv6_checksum
proof unfold_locales
  fix src dst payload :: bytes
  assume len: "length src = 16" "length dst = 16" "length payload \<le> 65535"
  have "drop_bit 16 (of_nat (length payload) :: u32) = of_nat (length payload div 65536)"
    using len(3) by (intro unsigned_word_eqI[where 'a = nat]) (simp add: drop_bit_16_nat unat_of_nat)
  moreover have "(of_nat (length payload) AND 0xffff :: u32) = of_nat (length payload mod 65536)"
    using len(3) by (intro unsigned_word_eqI[where 'a = nat]) (simp add: and_ffff_nat unat_of_nat)
  ultimately have "icmpv6_checksum src dst payload =
      NOT (ucast (fold16 (of_nat (pseudo_sum src dst payload))))"
    unfolding icmpv6_checksum_def Let_def sum_pairs_word pseudo_sum_def by (simp add: add_ac)
  then show "unat (icmpv6_checksum src dst payload) = 65535 - ones_sum (pseudo_sum src dst payload)"
    using not_fold16[OF pseudo_sum_small[OF len]] by simp
qed

lemma word_sum_be32: "word_sum (to_be32 w) = unat w div 65536 + unat w mod 65536"
proof -
  have "from_be16 (ucast (drop_bit 24 w)) (ucast (drop_bit 16 w)) = (ucast (drop_bit 16 w) :: u16)"
    "from_be16 (ucast (drop_bit 8 w)) (ucast w) = (ucast w :: u16)"
    by (rule bit_word_eqI; auto simp: from_be16_def bit_simps)+
  moreover have "unat (ucast (drop_bit 16 w) :: u16) = unat w div 65536"
    using unat_bounds(3)[of w] by (simp add: unsigned_ucast_eq take_bit_eq_mod drop_bit_16_nat)
  moreover have "unat (ucast w :: u16) = unat w mod 65536"
    by (simp add: unsigned_ucast_eq take_bit_eq_mod)
  ultimately show ?thesis
    using unat_from_be16[of "ucast (drop_bit 24 w)" "ucast (drop_bit 16 w)"]
      unat_from_be16[of "ucast (drop_bit 8 w)" "ucast w"]
    by (simp add: to_be32_def)
qed

lemma pseudo_header:
  assumes "length src = 16" "length dst = 16"
  shows "(copy_into 32 (to_be32 l) (copy_into 16 dst (copy_into 0 src (replicate 40 0))))[39 := 58]
    = src @ dst @ to_be32 l @ [0, 0, 0, 58]"
  using assms by (simp add: copy_into_def list_update_append numeral_eq_Suc)

interpretation pfctl_ck: icmpv6_checksum_impl pfctl_icmpv6_checksum
proof unfold_locales
  fix src dst payload :: bytes
  assume len: "length src = 16" "length dst = 16" "length payload \<le> 65535"
  have "word_sum (src @ dst @ to_be32 (of_nat (length payload)) @ [0, 0, 0, 58]) + word_sum payload
      = pseudo_sum src dst payload"
    using len by (simp add: word_sum_append word_sum_be32 pseudo_sum_def unat_of_nat)
  then have "pfctl_icmpv6_checksum src dst payload =
      NOT (ucast (fold16 (of_nat (pseudo_sum src dst payload))))"
    unfolding pfctl_icmpv6_checksum_def Let_def pseudo_header[OF len(1,2)] sum_pairs_word
    by (simp flip: of_nat_add)
  then show "unat (pfctl_icmpv6_checksum src dst payload) =
      65535 - ones_sum (pseudo_sum src dst payload)"
    using not_fold16[OF pseudo_sum_small[OF len]] by simp
qed

section \<open>The properties of the checksum\<close>

text \<open>
  the two checksum functions of the code base agree: for every pair of 16-byte addresses
  and every message the relay's field-by-field sum and the helper's sum over a pseudo-header
  buffer give the same 16 bits.
\<close>

theorem checksums_agree:
  assumes "length src = 16" and "length dst = 16" and "length payload \<le> 65535"
  shows "pfctl_icmpv6_checksum src dst payload = icmpv6_checksum src dst payload"
  by (rule unsigned_word_eqI[where 'a = nat]) (simp add: assms relay_ck.ck_value pfctl_ck.ck_value)

theorem checksums_agree_witness:
  "pfctl_icmpv6_checksum (replicate 16 1) (replicate 16 2) [133, 0, 0, 0] =
   icmpv6_checksum (replicate 16 1) (replicate 16 2) [133, 0, 0, 0]"
  by (rule checksums_agree) simp_all

end
