(* ===== verification/Ipv6_Text.thy ===== *)
theory Ipv6_Text
  imports Byte_Codec Text_Codec "HOL-Library.Monad_Syntax"
begin

text \<open>
  The text form of IPv6 addresses as the standard library's \<open>Ipv6Addr\<close> parses and prints
  it, on the 16 address bytes. The relay prints the address it asks the privileged helper to
  route, the helper parses it back, and both compare addresses in the tables the system
  prints.
\<close>

section \<open>Hexadecimal\<close>

definition hex_digit :: "char \<Rightarrow> nat option" where
  "hex_digit c = (let n = of_char c :: nat in
     if 48 \<le> n \<and> n \<le> 57 then Some (n - 48)
     else if 97 \<le> n \<and> n \<le> 102 then Some (n - 87)
     else if 65 \<le> n \<and> n \<le> 70 then Some (n - 55)
     else None)"

definition hex_chr :: "nat \<Rightarrow> char" where
  "hex_chr d = (if d < 10 then char_of (48 + d) else char_of (87 + d))"

fun show_hex :: "nat \<Rightarrow> string" where
  "show_hex n = (if n < 16 then [hex_chr n] else show_hex (n div 16) @ [hex_chr (n mod 16)])"

declare show_hex.simps [simp del]

text \<open>\<open>u8::from_str_radix(s, 16)\<close>\<close>

fun hex_val :: "nat \<Rightarrow> string \<Rightarrow> nat option" where
  "hex_val acc [] = Some acc"
| "hex_val acc (c # cs) = (case hex_digit c of None \<Rightarrow> None | Some d \<Rightarrow> hex_val (16 * acc + d) cs)"

definition u8_from_hex :: "string \<Rightarrow> u8 option" where
  "u8_from_hex s =
     (let t = (case s of [] \<Rightarrow> [] | c # r \<Rightarrow> if c = CHR ''+'' then r else s) in
      if t = [] then None
      else (case hex_val 0 t of
              None \<Rightarrow> None
            | Some v \<Rightarrow> if v < 256 then Some (of_nat v) else None))"

section \<open>The parser\<close>

text \<open>
  The parser of \<open>core::net\<close> reads numbers with a maximal count of digits and backtracks
  when an element cannot be read. A reader returns the value and the rest of the text.
\<close>

fun read_hex :: "nat \<Rightarrow> nat \<Rightarrow> string \<Rightarrow> (nat \<times> string) option" where
  "read_hex k acc [] = (if k = 0 then None else Some (acc, []))"
| "read_hex k acc (c # cs) =
     (case hex_digit c of
        None \<Rightarrow> if k = 0 then None else Some (acc, c # cs)
      | Some d \<Rightarrow> if k \<ge> 4 then None else read_hex (k + 1) (16 * acc + d) cs)"

text \<open>A decimal octet: at most three digits, no leading zero, at most 255.\<close>

definition read_octet :: "string \<Rightarrow> (u8 \<times> string) option" where
  "read_octet s =
     (let ds = takeWhile is_digit s in
      map_option (\<lambda>w. (w, dropWhile is_digit s)) (parse_octet ds))"

definition read_chr :: "char \<Rightarrow> string \<Rightarrow> string option" where
  "read_chr d s = (case s of [] \<Rightarrow> None | c # cs \<Rightarrow> if c = d then Some cs else None)"

text \<open>\<open>read_separator(sep, index, _)\<close>: the separator precedes every element but the first.\<close>

definition read_sep :: "char \<Rightarrow> nat \<Rightarrow> string \<Rightarrow> string option" where
  "read_sep d i s = (if i > 0 then read_chr d s else Some s)"

definition read_ipv4 :: "string \<Rightarrow> (ipv4 \<times> string) option" where
  "read_ipv4 s = do {
     (a, s) \<leftarrow> read_octet s;
     s \<leftarrow> read_chr CHR ''.'' s;
     (b, s) \<leftarrow> read_octet s;
     s \<leftarrow> read_chr CHR ''.'' s;
     (c, s) \<leftarrow> read_octet s;
     s \<leftarrow> read_chr CHR ''.'' s;
     (d, s) \<leftarrow> read_octet s;
     Some ((a, b, c, d), s) }"

text \<open>\<open>read_groups\<close>: at most \<open>limit - i\<close> further groups, whether the last two came from
  an embedded IPv4 address, and the rest.\<close>

function read_groups :: "nat \<Rightarrow> nat \<Rightarrow> string \<Rightarrow> u16 list \<times> bool \<times> string" where
  "read_groups limit i s =
     (if i \<ge> limit then ([], False, s)
      else
        (case (if i + 1 < limit then Option.bind (read_sep CHR '':'' i s) read_ipv4 else None) of
           Some ((a, b, c, d), r) \<Rightarrow> ([from_be16 a b, from_be16 c d], True, r)
         | None \<Rightarrow>
             (case Option.bind (read_sep CHR '':'' i s) (read_hex 0 0) of
                None \<Rightarrow> ([], False, s)
              | Some (g, r) \<Rightarrow>
                  (case read_groups limit (i + 1) r of (gs, v4, t) \<Rightarrow> (of_nat g # gs, v4, t)))))"
  by pat_completeness auto
termination by (relation "measure (\<lambda>(limit, i, s). limit - i)") auto

declare read_groups.simps [simp del]

definition seg_bytes :: "u16 list \<Rightarrow> bytes" where
  "seg_bytes gs = concat (map to_be16 gs)"

definition parse_ipv6 :: "string \<Rightarrow> bytes option" where
  "parse_ipv6 s =
     (case read_groups 8 0 s of (head, v4, r) \<Rightarrow>
        if length head = 8 then (if r = [] then Some (seg_bytes head) else None)
        else if v4 then None
        else (case strip_prefix ''::'' r of
                None \<Rightarrow> None
              | Some t \<Rightarrow>
                  (case read_groups (8 - (length head + 1)) 0 t of (tail, _, u) \<Rightarrow>
                     if u = []
                     then Some (seg_bytes (head @ replicate (8 - length head - length tail) 0 @ tail))
                     else None)))"

section \<open>The printer\<close>

fun segs :: "bytes \<Rightarrow> u16 list" where
  "segs (a # b # r) = from_be16 a b # segs r"
| "segs _ = []"

text \<open>The first longest run of zero groups: its start and length.\<close>

fun longest_run :: "nat \<Rightarrow> nat \<Rightarrow> nat \<Rightarrow> nat \<Rightarrow> nat \<Rightarrow> u16 list \<Rightarrow> nat \<times> nat" where
  "longest_run i cs cl ls ll [] = (ls, ll)"
| "longest_run i cs cl ls ll (g # gs) =
     (if g = 0 then
        (let cs' = (if cl = 0 then i else cs); cl' = cl + 1 in
         if cl' > ll then longest_run (i + 1) cs' cl' cs' cl' gs
         else longest_run (i + 1) cs' cl' ls ll gs)
      else longest_run (i + 1) 0 0 ls ll gs)"

definition show_segs :: "u16 list \<Rightarrow> string" where
  "show_segs gs = join '':'' (map (\<lambda>g. show_hex (unat g)) gs)"

definition show_ipv6 :: "bytes \<Rightarrow> string" where
  "show_ipv6 b =
     (let gs = segs b in
      if take 12 b = replicate 10 0 @ [255, 255] then
        ''::ffff:'' @ show_ipv4 (b ! 12, b ! 13, b ! 14, b ! 15)
      else (case longest_run 0 0 0 0 0 gs of (st, len) \<Rightarrow>
        if len > 1 then show_segs (take st gs) @ ''::'' @ show_segs (drop (st + len) gs)
        else show_segs gs))"

end
