(* ===== verification/Pfctl.thy ===== *)
theory Pfctl
  imports Host_Io Checksum Ipv6_Text "HOL-Library.AList" "HOL-Library.Multiset"
begin

text \<open>
  The privileged helper daemon \<open>pelagos-pfctl/src/main.rs\<close>. It runs as root, reads one
  request per connection, runs \<open>ifconfig\<close>, \<open>route\<close>, \<open>sysctl\<close> and \<open>pfctl\<close>, keeps the
  set of active utun relays, the port redirections and the routed addresses, and rebuilds
  the packet filter anchor from them. The commands it runs, the file it writes and the
  frames it injects are the events of the history; their results are the parameter \<open>os\<close>.
\<close>

section \<open>State, requests, responses\<close>

record utun_setup =
  egress_iface :: string
  ipv4_cidr :: string

record rdr_rule =
  proto :: string
  host_port :: u16
  vm_ip :: string
  vm_port :: u16

record daemon_state =
  active_utuns :: "(string \<times> utun_setup) list"
  rdr_rules :: "rdr_rule list"
  ipv6_aliases :: "(string \<times> string) list"

definition daemon_state_new :: daemon_state where
  "daemon_state_new = \<lparr>active_utuns = [], rdr_rules = [], ipv6_aliases = []\<rparr>"

datatype request =
    SetupUtun string string string string string
  | TeardownUtun string
  | AddRdr string u16 string u16
  | RemoveRdr string u16
  | CreateUtun
  | AssignUtunAlias string string

record response =
  resp_ok :: bool
  resp_error :: "string option"
  resp_active :: "bool option"

definition ok_resp :: response where
  "ok_resp = \<lparr>resp_ok = True, resp_error = None, resp_active = None\<rparr>"

definition err_resp :: "string \<Rightarrow> response" where
  "err_resp msg = \<lparr>resp_ok = False, resp_error = Some msg, resp_active = None\<rparr>"

section \<open>The system\<close>

datatype pf_event =
    Exec string "string list"
  | WriteFile string string
  | BpfOpen nat
  | BpfAttach int string
  | BpfClose int
  | BpfWrite int bytes
  | UtunSocket
  | UtunCtlInfo bytes
  | UtunConnect u32
  | UtunIfname
  | Reply string
  | ReplyWithFd string

text \<open>
  The answers of the system. An error is its text. \<open>iter_of\<close> is the order in which the
  hash map of active relays is iterated; the map is not changed between two iterations at
  the same point of the history.
\<close>

record os =
  output_of :: "pf_event list \<Rightarrow> string \<Rightarrow> string list \<Rightarrow> cmd_result"
  write_of :: "pf_event list \<Rightarrow> string \<Rightarrow> string \<Rightarrow> string option"
  bpf_open_of :: "pf_event list \<Rightarrow> nat \<Rightarrow> int option"
  bpf_attach_of :: "pf_event list \<Rightarrow> int \<Rightarrow> string \<Rightarrow> string option"
  bpf_write_of :: "pf_event list \<Rightarrow> int \<Rightarrow> bytes \<Rightarrow> string option"
  utun_socket_of :: "pf_event list \<Rightarrow> string option"
  utun_ctl_of :: "pf_event list \<Rightarrow> string + u32"
  utun_connect_of :: "pf_event list \<Rightarrow> u32 \<Rightarrow> string option"
  utun_ifname_of :: "pf_event list \<Rightarrow> string + (bytes \<times> nat)"
  iter_of :: "pf_event list \<Rightarrow> (string \<times> utun_setup) list \<Rightarrow> (string \<times> utun_setup) list"

type_synonym 'a pf = "(daemon_state, pf_event, 'a) io"

definition run_output :: "os \<Rightarrow> string \<Rightarrow> string list \<Rightarrow> cmd_result pf" where
  "run_output os prog args = ask (\<lambda>h. output_of os h prog args) (Exec prog args)"

section \<open>Command helpers\<close>

definition is_safe_iface :: "string \<Rightarrow> bool" where
  "is_safe_iface s =
     (s \<noteq> [] \<and> list_all (\<lambda>c. is_alnum c \<or> c = CHR ''-'' \<or> c = CHR ''_'') s)"

text \<open>How the helpers read the result of a command.\<close>

definition plain_status :: "string \<Rightarrow> cmd_result \<Rightarrow> string + unit" where
  "plain_status prog r =
     (case r of
        Inl e \<Rightarrow> Inl (''exec '' @ prog @ '': '' @ e)
      | Inr out \<Rightarrow> if success out then Inr () else Inl (cmd_stderr out))"

definition route_status :: "cmd_result \<Rightarrow> string + unit" where
  "route_status r =
     (case r of
        Inl e \<Rightarrow> Inl (''exec /sbin/route: '' @ e)
      | Inr out \<Rightarrow>
          if \<not> success out \<or> trim (cmd_stderr out) \<noteq> []
          then Inl (cmd_stderr out @ cmd_stdout out) else Inr ())"

definition run_pfctl :: "os \<Rightarrow> string list \<Rightarrow> (string + unit) pf" where
  "run_pfctl os args = do {
     r \<leftarrow> run_output os ''/sbin/pfctl'' args; ret (plain_status ''/sbin/pfctl'' r) }"

definition run_sysctl_set :: "os \<Rightarrow> string \<Rightarrow> string \<Rightarrow> (string + unit) pf" where
  "run_sysctl_set os key val = do {
     r \<leftarrow> run_output os ''/usr/sbin/sysctl'' [''-w'', key @ ''='' @ val];
     ret (plain_status ''/usr/sbin/sysctl'' r) }"

definition run_route :: "os \<Rightarrow> string list \<Rightarrow> (string + unit) pf" where
  "run_route os args = do { r \<leftarrow> run_output os ''/sbin/route'' args; ret (route_status r) }"

definition run_ifconfig :: "os \<Rightarrow> string list \<Rightarrow> (string + unit) pf" where
  "run_ifconfig os args = do {
     r \<leftarrow> run_output os ''/sbin/ifconfig'' args; ret (plain_status ''/sbin/ifconfig'' r) }"

section \<open>The packet filter anchor\<close>

definition ANCHOR_NAT :: string where "ANCHOR_NAT = ''com.apple/pelagos-nat''"
definition ANCHOR_FILE_NAT :: string where "ANCHOR_FILE_NAT = ''/etc/pf.anchors/pelagos-nat''"

definition nat_line :: "utun_setup \<Rightarrow> string" where
  "nat_line u = ''nat on '' @ egress_iface u @ '' inet from '' @ ipv4_cidr u @ '' to any -> (''
     @ egress_iface u @ '')''"

definition rdr_lo_line :: "rdr_rule \<Rightarrow> string" where
  "rdr_lo_line r = ''rdr pass on lo0 proto '' @ proto r @ '' from any to 127.0.0.1 port ''
     @ show_word (host_port r) @ '' -> '' @ vm_ip r @ '' port '' @ show_word (vm_port r)"

definition rdr_egress_line :: "string \<Rightarrow> rdr_rule \<Rightarrow> string" where
  "rdr_egress_line egress r = ''rdr pass on '' @ egress @ '' proto '' @ proto r
     @ '' from any to any port '' @ show_word (host_port r) @ '' -> '' @ vm_ip r @ '' port ''
     @ show_word (vm_port r)"

definition pass_line :: "utun_setup \<Rightarrow> string" where
  "pass_line u = ''pass quick inet from '' @ ipv4_cidr u @ '' to '' @ ipv4_cidr u"

text \<open>The rules, in the order the code appends them; every rule ends with a newline.\<close>

definition rdr_lines :: "utun_setup list \<Rightarrow> rdr_rule \<Rightarrow> string list" where
  "rdr_lines us r =
     rdr_lo_line r # (case us of [] \<Rightarrow> [] | u # _ \<Rightarrow> [rdr_egress_line (egress_iface u) r])"

definition anchor_lines :: "utun_setup list \<Rightarrow> rdr_rule list \<Rightarrow> string list" where
  "anchor_lines us rs = map nat_line us @ concat (map (rdr_lines us) rs) @ map pass_line us"

definition anchor_rules :: "utun_setup list \<Rightarrow> rdr_rule list \<Rightarrow> string" where
  "anchor_rules us rs = concat (map (\<lambda>l. l @ [nl]) (anchor_lines us rs))"

definition reload_nat_anchor :: "os \<Rightarrow> response pf" where
  "reload_nat_anchor os = do {
     st \<leftarrow> get_st;
     h \<leftarrow> get_hist;
     let rules = anchor_rules (map snd (iter_of os h (active_utuns st))) (rdr_rules st);
     if rules = [] then do {
       _ \<leftarrow> run_pfctl os [''-a'', ANCHOR_NAT, ''-F'', ''all''];
       ret ok_resp }
     else do {
       w \<leftarrow> ask (\<lambda>h. write_of os h ANCHOR_FILE_NAT rules) (WriteFile ANCHOR_FILE_NAT rules);
       case w of
         Some e \<Rightarrow> ret (err_resp (''write '' @ ANCHOR_FILE_NAT @ '': '' @ e))
       | None \<Rightarrow> do {
           r \<leftarrow> run_pfctl os [''-a'', ANCHOR_NAT, ''-f'', ANCHOR_FILE_NAT];
           case r of
             Inl e \<Rightarrow> ret (err_resp (''pfctl nat anchor: '' @ e))
           | Inr _ \<Rightarrow> ret ok_resp } } }"

section \<open>Relay set-up and tear-down\<close>

definition handle_setup_utun ::
  "os \<Rightarrow> string \<Rightarrow> string \<Rightarrow> string \<Rightarrow> string \<Rightarrow> string \<Rightarrow> response pf" where
  "handle_setup_utun os iface ipv4_addr ipv4_peer cidr egress =
     (if \<not> is_safe_iface iface \<or> \<not> is_safe_iface egress then ret (err_resp ''invalid interface name'')
      else do {
        _ \<leftarrow> run_route os [''delete'', ''-host'', ipv4_peer];
        r \<leftarrow> run_ifconfig os [iface, ''inet'', ipv4_addr, ipv4_peer, ''up''];
        case r of Inl e \<Rightarrow> ret (err_resp (''ifconfig inet: '' @ e)) | Inr _ \<Rightarrow> do {
        _ \<leftarrow> run_ifconfig os [iface, ''inet6'', ''fd00::1'', ''prefixlen'', ''128'', ''alias''];
        r4 \<leftarrow> run_sysctl_set os ''net.inet.ip.forwarding'' ''1'';
        case r4 of Inl e \<Rightarrow> ret (err_resp (''sysctl net.inet.ip.forwarding: '' @ e)) | Inr _ \<Rightarrow> do {
        r6 \<leftarrow> run_sysctl_set os ''net.inet6.ip6.forwarding'' ''1'';
        case r6 of Inl e \<Rightarrow> ret (err_resp (''sysctl net.inet6.ip6.forwarding: '' @ e)) | Inr _ \<Rightarrow> do {
        _ \<leftarrow> run_pfctl os [''-a'', ''com.apple.internet-sharing/network_isolation'', ''-t'',
                          ''network_isolation_table_v4'', ''-T'', ''delete'', cidr];
        modify (\<lambda>st. st\<lparr>active_utuns :=
          AList.update iface \<lparr>egress_iface = egress, ipv4_cidr = cidr\<rparr> (active_utuns st)\<rparr>);
        _ \<leftarrow> run_output os ''/sbin/pfctl'' [''-e''];
        resp \<leftarrow> reload_nat_anchor os;
        if \<not> resp_ok resp then ret resp else ret ok_resp } } } })"

definition handle_teardown_utun :: "os \<Rightarrow> string \<Rightarrow> response pf" where
  "handle_teardown_utun os iface = do {
     modify (\<lambda>st. st\<lparr>active_utuns := AList.delete iface (active_utuns st)\<rparr>);
     st \<leftarrow> get_st;
     let last_relay = (active_utuns st = []);
     (if last_relay then do {
        _ \<leftarrow> run_pfctl os [''-a'', ANCHOR_NAT, ''-F'', ''all''];
        _ \<leftarrow> run_sysctl_set os ''net.inet.ip.forwarding'' ''0'';
        _ \<leftarrow> run_sysctl_set os ''net.inet6.ip6.forwarding'' ''0'';
        modify (\<lambda>st. st\<lparr>rdr_rules := []\<rparr>) }
      else do { _ \<leftarrow> reload_nat_anchor os; ret () });
     for_each (\<lambda>(_, addr). do {
         _ \<leftarrow> run_route os [''delete'', ''-inet6'', ''-host'', addr]; ret () })
       (filter (\<lambda>(i, _). i = iface) (ipv6_aliases st));
     modify (\<lambda>st. st\<lparr>ipv6_aliases := filter (\<lambda>(i, _). i \<noteq> iface) (ipv6_aliases st)\<rparr>);
     _ \<leftarrow> run_ifconfig os [iface, ''inet6'', ''fd00::1'', ''-alias''];
     _ \<leftarrow> run_ifconfig os [iface, ''down''];
     ret ok_resp }"

section \<open>Port redirections\<close>

definition handle_add_rdr :: "os \<Rightarrow> string \<Rightarrow> u16 \<Rightarrow> string \<Rightarrow> u16 \<Rightarrow> response pf" where
  "handle_add_rdr os p hp ip vp =
     (if p \<noteq> ''tcp'' \<and> p \<noteq> ''udp'' then ret (err_resp (''invalid proto: '' @ debug_str p))
      else do {
        modify (\<lambda>st. st\<lparr>rdr_rules :=
          filter (\<lambda>r. \<not> (proto r = p \<and> host_port r = hp)) (rdr_rules st)\<rparr>);
        modify (\<lambda>st. st\<lparr>rdr_rules :=
          rdr_rules st @ [\<lparr>proto = p, host_port = hp, vm_ip = ip, vm_port = vp\<rparr>]\<rparr>);
        reload_nat_anchor os })"

definition handle_remove_rdr :: "os \<Rightarrow> string \<Rightarrow> u16 \<Rightarrow> response pf" where
  "handle_remove_rdr os p hp = do {
     modify (\<lambda>st. st\<lparr>rdr_rules :=
       filter (\<lambda>r. \<not> (proto r = p \<and> host_port r = hp)) (rdr_rules st)\<rparr>);
     reload_nat_anchor os }"

section \<open>Announcing an address on the egress link\<close>

definition mac_of_parts :: "u8 list \<Rightarrow> bytes option" where
  "mac_of_parts parts = (if length parts = 6 then Some parts else None)"

fun first_some :: "('a \<Rightarrow> 'b option) \<Rightarrow> 'a list \<Rightarrow> 'b option" where
  "first_some f [] = None"
| "first_some f (x # xs) = (case f x of Some y \<Rightarrow> Some y | None \<Rightarrow> first_some f xs)"

definition ether_of_line :: "string \<Rightarrow> bytes option" where
  "ether_of_line line =
     (case strip_prefix ''ether '' (trim line) of
        None \<Rightarrow> None
      | Some rest \<Rightarrow>
          (let mac_str = (case split_ws rest of [] \<Rightarrow> [] | w # _ \<Rightarrow> w)
           in mac_of_parts (List.map_filter u8_from_hex (split_chr CHR '':'' mac_str))))"

definition get_iface_mac :: "os \<Rightarrow> string \<Rightarrow> (string + bytes) pf" where
  "get_iface_mac os iface = do {
     r \<leftarrow> run_output os ''/sbin/ifconfig'' [iface];
     ret (case r of
            Inl e \<Rightarrow> Inl (''ifconfig '' @ iface @ '': '' @ e)
          | Inr out \<Rightarrow>
              (case first_some ether_of_line (str_lines (cmd_stdout out)) of
                 Some mac \<Rightarrow> Inr mac
               | None \<Rightarrow> Inl (''no MAC address found for '' @ iface))) }"

text \<open>\<open>open_bpf\<close>: the loop over the devices from number \<open>i\<close> on.\<close>

fun open_bpf_from :: "os \<Rightarrow> string \<Rightarrow> nat list \<Rightarrow> (string + int) pf" where
  "open_bpf_from os iface [] = ret (Inl (''no available /dev/bpf device for '' @ iface))"
| "open_bpf_from os iface (i # is) = do {
     fd \<leftarrow> ask (\<lambda>h. bpf_open_of os h i) (BpfOpen i);
     case fd of
       None \<Rightarrow> open_bpf_from os iface is
     | Some fd \<Rightarrow> do {
         r \<leftarrow> ask (\<lambda>h. bpf_attach_of os h fd (take 15 iface)) (BpfAttach fd (take 15 iface));
         case r of
           Some e \<Rightarrow> do {
             emit (BpfClose fd);
             ret (Inl (''BIOCSETIF /dev/bpf'' @ show_nat i @ '' '' @ iface @ '': '' @ e)) }
         | None \<Rightarrow> ret (Inr fd) } }"

definition open_bpf :: "os \<Rightarrow> string \<Rightarrow> (string + int) pf" where
  "open_bpf os iface = open_bpf_from os iface [0..<10]"

text \<open>Words before a zone suffix such as \<open>%en0\<close>.\<close>

definition strip_zone :: "string \<Rightarrow> string" where
  "strip_zone s = hd (split_chr CHR ''%'' s)"

definition gateway_of_line :: "string \<Rightarrow> string \<Rightarrow> bytes option" where
  "gateway_of_line egress line =
     (case split_ws line of
        dest # gw_raw # _ # iface # _ \<Rightarrow>
          if dest = ''default'' \<and> iface = egress then parse_ipv6 (strip_zone gw_raw) else None
      | _ \<Rightarrow> None)"

definition detect_ipv6_gateway :: "os \<Rightarrow> string \<Rightarrow> bytes option pf" where
  "detect_ipv6_gateway os egress = do {
     r \<leftarrow> run_output os ''/usr/sbin/netstat'' [''-rn'', ''-f'', ''inet6''];
     ret (case r of
            Inl _ \<Rightarrow> None
          | Inr out \<Rightarrow> first_some (gateway_of_line egress) (str_lines (cmd_stdout out))) }"

text \<open>
  A line of the neighbour table: skipped (\<open>None\<close>), or the end of the search with an
  address or, when an octet of a matching entry does not parse, without one.
\<close>

definition ndp_line :: "string \<Rightarrow> string \<Rightarrow> bytes option option" where
  "ndp_line target line =
     (case split_ws line of
        [] \<Rightarrow> None
      | entry_raw # flds \<Rightarrow>
          if strip_zone entry_raw \<noteq> target then None
          else (case flds of
                  [] \<Rightarrow> None
                | mac_str # _ \<Rightarrow>
                    if CHR '':'' \<notin> set mac_str then None
                    else (let parts = split_chr CHR '':'' mac_str in
                          if length parts \<noteq> 6 then None
                          else Some (those (map u8_from_hex parts)))))"

definition get_ndp_mac :: "os \<Rightarrow> bytes \<Rightarrow> bytes option pf" where
  "get_ndp_mac os addr = do {
     r \<leftarrow> run_output os ''/usr/sbin/ndp'' [''-an''];
     ret (case r of
            Inl _ \<Rightarrow> None
          | Inr out \<Rightarrow>
              (case first_some (ndp_line (show_ipv6 addr)) (str_lines (cmd_stdout out)) of
                 Some res \<Rightarrow> res
               | None \<Rightarrow> None)) }"

text \<open>\<open>icmp[2..4].copy_from_slice(&csum.to_be_bytes())\<close> and the common frame layout.\<close>

definition ndp_frame :: "bytes \<Rightarrow> bytes \<Rightarrow> bytes \<Rightarrow> bytes \<Rightarrow> bytes \<Rightarrow> bytes" where
  "ndp_frame dst_mac src_mac src dst icmp =
     (let f = replicate 86 0;
          f = copy_into 0 dst_mac f;
          f = copy_into 6 src_mac f;
          f = copy_into 12 [0x86, 0xdd] f;
          f = f[14 := 0x60];
          f = copy_into 18 (to_be16 32) f;
          f = f[20 := 58];
          f = f[21 := 255];
          f = copy_into 22 src f;
          f = copy_into 38 dst f
      in copy_into 54 icmp f)"

definition ndp_probe_ns :: "bytes \<Rightarrow> bytes \<Rightarrow> bytes \<Rightarrow> bytes \<Rightarrow> bytes" where
  "ndp_probe_ns en0_mac router_mac vm_gua router =
     (let icmp = replicate 32 0;
          icmp = icmp[0 := 135];
          icmp = copy_into 8 router icmp;
          icmp = icmp[24 := 1];
          icmp = icmp[25 := 1];
          icmp = copy_into 26 en0_mac icmp;
          csum = pfctl_icmpv6_checksum vm_gua router icmp;
          icmp = copy_into 2 (to_be16 csum) icmp
      in ndp_frame router_mac en0_mac vm_gua router icmp)"

definition gratuitous_na :: "bytes \<Rightarrow> bytes \<Rightarrow> bytes" where
  "gratuitous_na en0_mac vm_gua =
     (let all_nodes_mac = [0x33, 0x33, 0x00, 0x00, 0x00, 0x01];
          all_nodes_ip6 = [0xff, 0x02, 0, 0, 0, 0, 0, 0, 0, 0, 0, 0, 0, 0, 0, 0x01];
          icmp = replicate 32 0;
          icmp = icmp[0 := 136];
          icmp = icmp[1 := 0];
          icmp = icmp[4 := 0x20];
          icmp = copy_into 8 vm_gua icmp;
          icmp = icmp[24 := 2];
          icmp = icmp[25 := 1];
          icmp = copy_into 26 en0_mac icmp;
          csum = pfctl_icmpv6_checksum vm_gua all_nodes_ip6 icmp;
          icmp = copy_into 2 (to_be16 csum) icmp
      in ndp_frame all_nodes_mac en0_mac vm_gua all_nodes_ip6 icmp)"

definition send_ndp_probe_ns :: "os \<Rightarrow> int \<Rightarrow> bytes \<Rightarrow> bytes \<Rightarrow> bytes \<Rightarrow> bytes \<Rightarrow> (string + unit) pf" where
  "send_ndp_probe_ns os bpf_fd en0_mac router_mac vm_gua router = do {
     let frame = ndp_probe_ns en0_mac router_mac vm_gua router;
     r \<leftarrow> ask (\<lambda>h. bpf_write_of os h bpf_fd frame) (BpfWrite bpf_fd frame);
     ret (case r of Some e \<Rightarrow> Inl (''BPF write NS: '' @ e) | None \<Rightarrow> Inr ()) }"

definition send_gratuitous_na :: "os \<Rightarrow> int \<Rightarrow> bytes \<Rightarrow> bytes \<Rightarrow> (string + unit) pf" where
  "send_gratuitous_na os bpf_fd en0_mac vm_gua = do {
     let frame = gratuitous_na en0_mac vm_gua;
     r \<leftarrow> ask (\<lambda>h. bpf_write_of os h bpf_fd frame) (BpfWrite bpf_fd frame);
     ret (case r of Some e \<Rightarrow> Inl (''BPF write: '' @ e) | None \<Rightarrow> Inr ()) }"

text \<open>The part of \<open>handle_assign_utun_alias\<close> that announces the address; every failure in
  it is only logged.\<close>

definition announce_alias :: "os \<Rightarrow> string \<Rightarrow> bytes \<Rightarrow> unit pf" where
  "announce_alias os egress gua = do {
     m \<leftarrow> get_iface_mac os egress;
     case m of Inl _ \<Rightarrow> ret () | Inr mac \<Rightarrow> do {
     b \<leftarrow> open_bpf os egress;
     case b of Inl _ \<Rightarrow> ret () | Inr bpf_fd \<Rightarrow> do {
     _ \<leftarrow> send_gratuitous_na os bpf_fd mac gua;
     g \<leftarrow> detect_ipv6_gateway os egress;
     (case g of None \<Rightarrow> ret () | Some router \<Rightarrow> do {
        rm \<leftarrow> get_ndp_mac os router;
        case rm of None \<Rightarrow> ret () | Some router_mac \<Rightarrow> do {
          _ \<leftarrow> send_ndp_probe_ns os bpf_fd mac router_mac gua router; ret () } });
     emit (BpfClose bpf_fd) } } }"

definition handle_assign_utun_alias :: "os \<Rightarrow> string \<Rightarrow> string \<Rightarrow> response pf" where
  "handle_assign_utun_alias os iface addr =
     (if \<not> is_safe_iface iface then ret (err_resp ''invalid interface name'')
      else (case parse_ipv6 addr of
        None \<Rightarrow> ret (err_resp (''invalid IPv6 address: '' @ debug_str addr))
      | Some gua \<Rightarrow> do {
          r \<leftarrow> run_route os [''add'', ''-inet6'', ''-host'', addr, ''-interface'', iface];
          case r of
            Inl e \<Rightarrow> ret (err_resp (''route add -inet6 -host: '' @ e))
          | Inr _ \<Rightarrow> do {
              modify (\<lambda>st. st\<lparr>ipv6_aliases := ipv6_aliases st @ [(iface, addr)]\<rparr>);
              st \<leftarrow> get_st;
              (case map_of (active_utuns st) iface of
                 Some setup \<Rightarrow> announce_alias os (egress_iface setup) gua
               | None \<Rightarrow> ret ());
              ret ok_resp } }))"

section \<open>Creating a utun interface\<close>

text \<open>The control name with its terminating zero, as copied into \<open>ctl_name\<close>.\<close>

definition UTUN_CONTROL_NAME :: bytes where
  "UTUN_CONTROL_NAME = map of_char ''com.apple.net.utun_control'' @ [0]"

definition ifname_str :: "bytes \<Rightarrow> nat \<Rightarrow> string" where
  "ifname_str ifname optlen =
     (let name_len = (if 0 \<in> set ifname then length (takeWhile (\<lambda>b. b \<noteq> 0) ifname) else optlen)
      in map (\<lambda>b. char_of (unat b)) (take name_len ifname))"

definition create_utun_privileged :: "os \<Rightarrow> (string + string) pf" where
  "create_utun_privileged os = do {
     s \<leftarrow> ask (\<lambda>h. utun_socket_of os h) UtunSocket;
     case s of Some e \<Rightarrow> ret (Inl (''socket(PF_SYSTEM): '' @ e)) | None \<Rightarrow> do {
     c \<leftarrow> ask (\<lambda>h. utun_ctl_of os h) (UtunCtlInfo (UTUN_CONTROL_NAME @ replicate (96 - 27) 0));
     case c of Inl e \<Rightarrow> ret (Inl (''ioctl(CTLIOCGINFO): '' @ e)) | Inr ctl_id \<Rightarrow> do {
     k \<leftarrow> ask (\<lambda>h. utun_connect_of os h ctl_id) (UtunConnect ctl_id);
     case k of Some e \<Rightarrow> ret (Inl (''connect(utun): '' @ e)) | None \<Rightarrow> do {
     n \<leftarrow> ask (\<lambda>h. utun_ifname_of os h) UtunIfname;
     case n of
       Inl e \<Rightarrow> ret (Inl (''getsockopt(UTUN_OPT_IFNAME): '' @ e))
     | Inr (ifname, optlen) \<Rightarrow> ret (Inr (ifname_str ifname optlen)) } } } }"

definition handle_create_utun_with_fd :: "os \<Rightarrow> unit pf" where
  "handle_create_utun_with_fd os = do {
     r \<leftarrow> create_utun_privileged os;
     case r of
       Inl e \<Rightarrow> emit (Reply ([CHR 0x7B, CHR 0x22] @ ''ok'' @ [CHR 0x22] @ '':false,'' @ [CHR 0x22]
          @ ''error'' @ [CHR 0x22] @ '':'' @ [CHR 0x22] @ e @ [CHR 0x22, CHR 0x7D, nl]))
     | Inr iface \<Rightarrow> emit (ReplyWithFd ([CHR 0x7B, CHR 0x22] @ ''ok'' @ [CHR 0x22] @ '':true,'' @ [CHR 0x22]
          @ ''iface'' @ [CHR 0x22] @ '':'' @ [CHR 0x22] @ iface @ [CHR 0x22, CHR 0x7D, nl])) }"

section \<open>Connections\<close>

text \<open>
  The JSON library is a parameter: \<open>from_json\<close> parses a request or gives the text of the
  parse error, \<open>to_json\<close> prints a response, or fails.
\<close>

record json =
  from_json :: "string \<Rightarrow> string + request"
  to_json :: "response \<Rightarrow> string option"

definition write_resp :: "json \<Rightarrow> response \<Rightarrow> unit pf" where
  "write_resp j resp =
     (case to_json j resp of Some out \<Rightarrow> emit (Reply (out @ [nl])) | None \<Rightarrow> ret ())"

definition handle_request :: "os \<Rightarrow> request \<Rightarrow> response pf" where
  "handle_request os req =
     (case req of
        SetupUtun iface ipv4_addr ipv4_peer cidr egress \<Rightarrow>
          handle_setup_utun os iface ipv4_addr ipv4_peer cidr egress
      | TeardownUtun iface \<Rightarrow> handle_teardown_utun os iface
      | AddRdr p hp ip vp \<Rightarrow> handle_add_rdr os p hp ip vp
      | RemoveRdr p hp \<Rightarrow> handle_remove_rdr os p hp
      | AssignUtunAlias iface addr \<Rightarrow> handle_assign_utun_alias os iface addr
      | CreateUtun \<Rightarrow> ret ok_resp)"

text \<open>
  \<open>line\<close> is the request line, or \<open>None\<close> when reading it failed. \<open>create_utun\<close> is answered
  before the state is locked, so that the last branch above is never reached.
\<close>

definition pf_handle_connection :: "os \<Rightarrow> json \<Rightarrow> string option \<Rightarrow> unit pf" where
  "pf_handle_connection os j line =
     (case line of
        None \<Rightarrow> ret ()
      | Some l \<Rightarrow>
          (case from_json j (trim l) of
             Inl e \<Rightarrow> write_resp j (err_resp (''parse error: '' @ e))
           | Inr req \<Rightarrow>
               if req = CreateUtun then handle_create_utun_with_fd os
               else do { resp \<leftarrow> handle_request os req; write_resp j resp }))"

text \<open>The accept loop of \<open>main\<close>, one connection after the other; \<open>None\<close> is a failed accept.\<close>

definition serve_step :: "os \<Rightarrow> json \<Rightarrow> string option option \<Rightarrow> unit pf" where
  "serve_step os j conn = (case conn of None \<Rightarrow> ret () | Some line \<Rightarrow> pf_handle_connection os j line)"

definition serve :: "os \<Rightarrow> json \<Rightarrow> string option option list \<Rightarrow> daemon_state \<times> pf_event list" where
  "serve os j conns =
     fold (\<lambda>c w. snd (run_state (serve_step os j c) w)) conns (daemon_state_new, [])"

section \<open>The invariant of the daemon\<close>

definition rule_key :: "rdr_rule \<Rightarrow> string \<times> u16" where
  "rule_key r = (proto r, host_port r)"

definition pf_inv :: "daemon_state \<Rightarrow> bool" where
  "pf_inv st =
     (distinct (map fst (active_utuns st)) \<and>
      (\<forall>(i, u) \<in> set (active_utuns st). is_safe_iface i \<and> is_safe_iface (egress_iface u)) \<and>
      distinct (map rule_key (rdr_rules st)) \<and>
      (\<forall>r \<in> set (rdr_rules st). proto r = ''tcp'' \<or> proto r = ''udp'') \<and>
      (\<forall>(i, a) \<in> set (ipv6_aliases st). is_safe_iface i \<and> parse_ipv6 a \<noteq> None))"

lemma pf_inv_new: "pf_inv daemon_state_new"
  by (simp add: pf_inv_def daemon_state_new_def)

lemma set_alist_update: "set (AList.update k v al) \<subseteq> insert (k, v) (set al)"
  by (induction al) auto

lemma inv_insert_utun:
  assumes "pf_inv st" "is_safe_iface i" "is_safe_iface (egress_iface u)"
  shows "pf_inv (st\<lparr>active_utuns := AList.update i u (active_utuns st)\<rparr>)"
  using assms set_alist_update[of i u "active_utuns st"]
  by (auto simp: pf_inv_def distinct_update)

lemma inv_delete_utun:
  assumes "pf_inv st"
  shows "pf_inv (st\<lparr>active_utuns := AList.delete i (active_utuns st)\<rparr>)"
  using assms by (auto simp: pf_inv_def distinct_map_filter AList.delete_eq)

lemma inv_clear_rules: "pf_inv st \<Longrightarrow> pf_inv (st\<lparr>rdr_rules := []\<rparr>)"
  by (simp add: pf_inv_def)

lemma inv_filter_rules: "pf_inv st \<Longrightarrow> pf_inv (st\<lparr>rdr_rules := filter P (rdr_rules st)\<rparr>)"
  by (auto simp: pf_inv_def distinct_map_filter)

lemma inv_add_rule:
  assumes "pf_inv st" "proto r = ''tcp'' \<or> proto r = ''udp''" "rule_key r \<notin> rule_key ` set (rdr_rules st)"
  shows "pf_inv (st\<lparr>rdr_rules := rdr_rules st @ [r]\<rparr>)"
  using assms by (auto simp: pf_inv_def)

lemma inv_add_alias:
  assumes "pf_inv st" "is_safe_iface i" "parse_ipv6 a = Some g"
  shows "pf_inv (st\<lparr>ipv6_aliases := ipv6_aliases st @ [(i, a)]\<rparr>)"
  using assms by (auto simp: pf_inv_def)

lemma inv_filter_aliases: "pf_inv st \<Longrightarrow> pf_inv (st\<lparr>ipv6_aliases := filter P (ipv6_aliases st)\<rparr>)"
  by (auto simp: pf_inv_def)

lemmas pf_inv_updates = inv_insert_utun inv_delete_utun inv_clear_rules inv_filter_rules
  inv_add_alias inv_filter_aliases

text \<open>
  The helpers only talk to the system. They keep a property of state and history that the
  events they record keep; \<open>quiet e\<close> singles out the events that none of the packet filter,
  its anchor file and the forwarding switches depend on.
\<close>

definition quiet :: "pf_event \<Rightarrow> bool" where
  "quiet e = (case e of
     Exec prog args \<Rightarrow> prog \<noteq> ''/usr/sbin/sysctl'' \<and> (prog = ''/sbin/pfctl'' \<longrightarrow> take 2 args \<noteq> [''-a'', ANCHOR_NAT])
   | WriteFile _ _ \<Rightarrow> False
   | _ \<Rightarrow> True)"

abbreviation stable :: "(daemon_state \<Rightarrow> pf_event list \<Rightarrow> bool) \<Rightarrow> bool" where
  "stable P \<equiv> (\<forall>s h e. quiet e \<longrightarrow> P s h \<longrightarrow> P s (h @ [e]))"

lemma quiet_simps [simp]:
  "quiet (Exec prog args) = (prog \<noteq> ''/usr/sbin/sysctl'' \<and> (prog = ''/sbin/pfctl'' \<longrightarrow> take 2 args \<noteq> [''-a'', ANCHOR_NAT]))"
  "quiet (BpfOpen i)" "quiet (BpfAttach fd n)" "quiet (BpfClose fd)" "quiet (BpfWrite fd b)"
  "quiet UtunSocket" "quiet (UtunCtlInfo nm)" "quiet (UtunConnect c)" "quiet UtunIfname"
  "quiet (Reply s)" "quiet (ReplyWithFd s)" "\<not> quiet (WriteFile f t)"
  by (simp_all add: quiet_def)

lemma keeps_quiet:
  assumes "stable P"
  shows keeps_quiet_output: "quiet (Exec prog args) \<Longrightarrow> keeps P (run_output os prog args)"
    and keeps_quiet_route: "keeps P (run_route os args)"
    and keeps_quiet_ifconfig: "keeps P (run_ifconfig os args)"
    and keeps_quiet_ask: "quiet e \<Longrightarrow> keeps P (ask answer e)"
    and keeps_quiet_emit: "quiet e \<Longrightarrow> keeps P (emit e)"
  using assms unfolding run_output_def run_route_def run_ifconfig_def
  by (auto intro!: keeps_intros)

lemma keeps_open_bpf: "stable P \<Longrightarrow> keeps P (open_bpf_from os iface is)"
  by (induction "is") (auto intro!: keeps_intros)

lemma keeps_announce: "stable P \<Longrightarrow> keeps P (announce_alias os egress gua)"
  unfolding announce_alias_def get_iface_mac_def send_gratuitous_na_def detect_ipv6_gateway_def
    get_ndp_mac_def send_ndp_probe_ns_def open_bpf_def Let_def
  by (intro keeps_prims keeps_bind keeps_sum keeps_option keeps_quiet_output keeps_quiet_ask
      keeps_quiet_emit keeps_open_bpf) simp_all

lemma keeps_create_utun: "stable P \<Longrightarrow> keeps P (handle_create_utun_with_fd os)"
  unfolding handle_create_utun_with_fd_def create_utun_privileged_def
  by (intro keeps_prims keeps_bind keeps_sum keeps_option keeps_prod keeps_quiet_ask
      keeps_quiet_emit) simp_all

lemma keeps_write_resp: "stable P \<Longrightarrow> keeps P (write_resp j r)"
  unfolding write_resp_def by (intro keeps_prims keeps_option keeps_quiet_emit) simp_all

text \<open>A property of the state alone is kept by every command.\<close>

lemma keeps_commands [keeps_intros]:
  "keeps (\<lambda>s _. Q s) (run_output os prog args)"
  "keeps (\<lambda>s _. Q s) (run_pfctl os args)" "keeps (\<lambda>s _. Q s) (run_sysctl_set os k v)"
  "keeps (\<lambda>s _. Q s) (run_route os args)" "keeps (\<lambda>s _. Q s) (run_ifconfig os args)"
  "keeps (\<lambda>s _. Q s) (reload_nat_anchor os)"
  unfolding run_output_def run_pfctl_def run_sysctl_set_def run_route_def run_ifconfig_def
    reload_nat_anchor_def Let_def
  by (intro keeps_intros; assumption?)+

lemma setup_inv: "keeps (\<lambda>s _. pf_inv s) (handle_setup_utun os iface addr peer cidr egress)"
  unfolding handle_setup_utun_def by (intro keeps_intros) (auto intro: pf_inv_updates)

lemma teardown_inv: "keeps (\<lambda>s _. pf_inv s) (handle_teardown_utun os iface)"
  unfolding handle_teardown_utun_def Let_def
  by (intro keeps_intros) (auto intro: pf_inv_updates)

lemma add_rdr_inv: "keeps (\<lambda>s _. pf_inv s) (handle_add_rdr os p hp ip vp)"
proof -
  let ?r = "\<lparr>proto = p, host_port = hp, vm_ip = ip, vm_port = vp\<rparr>"
  let ?f = "\<lambda>st. st\<lparr>rdr_rules := filter (\<lambda>r. \<not> (proto r = p \<and> host_port r = hp)) (rdr_rules st)\<rparr>"
  let ?g = "\<lambda>st. st\<lparr>rdr_rules := rdr_rules st @ [?r]\<rparr>"
  have two: "modify ?f \<bind> (\<lambda>_. modify ?g \<bind> (\<lambda>_. m)) = modify (\<lambda>st. ?g (?f st)) \<bind> (\<lambda>_. m)" for m :: "response pf"
    by (rule state_ext) auto
  have "pf_inv (?g (?f st))" if "pf_inv st" "p = ''tcp'' \<or> p = ''udp''" for st
    by (rule inv_add_rule) (use that in \<open>auto simp: inv_filter_rules rule_key_def\<close>)
  then show ?thesis
    unfolding handle_add_rdr_def two by (intro keeps_intros) auto
qed

lemma remove_rdr_inv: "keeps (\<lambda>s _. pf_inv s) (handle_remove_rdr os p hp)"
  unfolding handle_remove_rdr_def by (intro keeps_intros) (auto intro: pf_inv_updates)

lemma assign_alias_inv: "keeps (\<lambda>s _. pf_inv s) (handle_assign_utun_alias os iface addr)"
  unfolding handle_assign_utun_alias_def
  by (intro keeps_intros keeps_announce) (auto intro: pf_inv_updates)

lemma handle_request_inv: "keeps (\<lambda>s _. pf_inv s) (handle_request os req)"
  by (cases req) (simp_all add: handle_request_def setup_inv teardown_inv add_rdr_inv remove_rdr_inv
      assign_alias_inv keeps_prims)

lemma serve_step_inv: "keeps (\<lambda>s _. pf_inv s) (serve_step os j conn)"
  unfolding serve_step_def pf_handle_connection_def
  by (intro keeps_intros handle_request_inv keeps_create_utun keeps_write_resp) simp_all

interpretation pf_daemon: invariant_machine
  "\<lambda>c w. snd (run_state (serve_step os j c) w)" "\<lambda>_. True" "\<lambda>w. pf_inv (fst w)" for os j
  by unfold_locales (rule keeps_run[OF serve_step_inv])

text \<open>C35: For every sequence of connections, whatever the system answers and whatever the
  request lines hold, the helper's state is well formed: one entry per active interface,
  interface names that are safe to put into a rule, at most one redirection per protocol and
  host port, only the protocols tcp and udp, and only addresses that parse.\<close>

theorem pf_serve_inv: "pf_inv (fst (serve os j conns))"
  unfolding serve_def
  by (rule pf_daemon.run_inv) (simp_all add: pf_inv_new list_all_iff)

section \<open>What the system holds\<close>

text \<open>
  The history read as the state it leaves in the system: the text of the anchor file, the
  rules loaded into the anchor, and the two forwarding switches. The commands are read as
  their manuals document them, \<open>pfctl -f\<close> loading the file as it is at that moment and
  \<open>-F all\<close> flushing the anchor.
\<close>

record pf_system =
  anchor_file :: string
  anchor_loaded :: string
  forwarding4 :: bool
  forwarding6 :: bool

definition sys_event :: "pf_event \<Rightarrow> pf_system \<Rightarrow> pf_system" where
  "sys_event e k =
     (case e of
        WriteFile f t \<Rightarrow> if f = ANCHOR_FILE_NAT then k\<lparr>anchor_file := t\<rparr> else k
      | Exec prog args \<Rightarrow>
          if prog = ''/sbin/pfctl'' then
            (if args = [''-a'', ANCHOR_NAT, ''-F'', ''all''] then k\<lparr>anchor_loaded := []\<rparr>
             else if args = [''-a'', ANCHOR_NAT, ''-f'', ANCHOR_FILE_NAT]
             then k\<lparr>anchor_loaded := anchor_file k\<rparr> else k)
          else if prog = ''/usr/sbin/sysctl'' then
            (if args = [''-w'', ''net.inet.ip.forwarding=1''] then k\<lparr>forwarding4 := True\<rparr>
             else if args = [''-w'', ''net.inet.ip.forwarding=0''] then k\<lparr>forwarding4 := False\<rparr>
             else if args = [''-w'', ''net.inet6.ip6.forwarding=1''] then k\<lparr>forwarding6 := True\<rparr>
             else if args = [''-w'', ''net.inet6.ip6.forwarding=0''] then k\<lparr>forwarding6 := False\<rparr>
             else k)
          else k
      | _ \<Rightarrow> k)"

definition system_of :: "pf_event list \<Rightarrow> pf_system" where
  "system_of h =
     fold sys_event h \<lparr>anchor_file = [], anchor_loaded = [], forwarding4 = False, forwarding6 = False\<rparr>"

lemma system_of_append [simp]: "system_of (h @ es) = fold sys_event es (system_of h)"
  by (simp add: system_of_def)

lemma sys_quiet [simp]: "quiet e \<Longrightarrow> sys_event e k = k"
  by (cases e) (auto simp: sys_event_def)

text \<open>The system carries out the commands: \<open>pfctl\<close> and \<open>sysctl\<close> succeed, the anchor file
  can be written, and the hash map is iterated in some order of its entries.\<close>

definition cooperative :: "os \<Rightarrow> bool" where
  "cooperative os =
     ((\<forall>h prog args. prog = ''/sbin/pfctl'' \<or> prog = ''/usr/sbin/sysctl'' \<longrightarrow>
         plain_status prog (output_of os h prog args) = Inr ()) \<and>
      (\<forall>h f t. write_of os h f t = None) \<and>
      (\<forall>h m. mset (iter_of os h m) = mset m))"

text \<open>Agreement of the system with the state: the loaded rules are those of the active relays
  (in some order) and of the redirections, and forwarding is on while a relay is active.\<close>

definition synced :: "daemon_state \<Rightarrow> pf_event list \<Rightarrow> bool" where
  "synced st h =
     ((\<exists>us. mset us = mset (map snd (active_utuns st)) \<and>
            anchor_loaded (system_of h) = anchor_rules us (rdr_rules st)) \<and>
      forwarding4 (system_of h) = (active_utuns st \<noteq> []) \<and>
      forwarding6 (system_of h) = (active_utuns st \<noteq> []))"

lemma synced_new: "synced daemon_state_new []"
  by (simp add: synced_def daemon_state_new_def system_of_def anchor_rules_def anchor_lines_def)

lemma synced_stable: "stable synced"
  by (simp add: synced_def)

lemma anchor_rules_Nil: "anchor_rules us rs = [] \<longleftrightarrow> us = [] \<and> rs = []"
  by (cases us; cases rs) (auto simp: anchor_rules_def anchor_lines_def rdr_lines_def)

lemma run_commands [simp]:
  "run_state (run_output os prog args) (s, h) = (output_of os h prog args, s, h @ [Exec prog args])"
  "run_state (run_pfctl os args) (s, h) =
     (plain_status ''/sbin/pfctl'' (output_of os h ''/sbin/pfctl'' args), s, h @ [Exec ''/sbin/pfctl'' args])"
  "run_state (run_sysctl_set os k v) (s, h) =
     (plain_status ''/usr/sbin/sysctl'' (output_of os h ''/usr/sbin/sysctl'' [''-w'', k @ ''='' @ v]), s,
      h @ [Exec ''/usr/sbin/sysctl'' [''-w'', k @ ''='' @ v]])"
  "run_state (run_route os args) (s, h) =
     (route_status (output_of os h ''/sbin/route'' args), s, h @ [Exec ''/sbin/route'' args])"
  "run_state (run_ifconfig os args) (s, h) =
     (plain_status ''/sbin/ifconfig'' (output_of os h ''/sbin/ifconfig'' args), s,
      h @ [Exec ''/sbin/ifconfig'' args])"
  by (simp_all add: run_output_def run_pfctl_def run_sysctl_set_def run_route_def run_ifconfig_def)

lemma cooperative_simps:
  assumes "cooperative os"
  shows "plain_status ''/sbin/pfctl'' (output_of os h ''/sbin/pfctl'' args) = Inr ()"
    and "plain_status ''/usr/sbin/sysctl'' (output_of os h ''/usr/sbin/sysctl'' args) = Inr ()"
    and "write_of os h f t = None" and "mset (iter_of os h m) = mset m"
  using assms by (simp_all add: cooperative_def)

text \<open>Reloading brings the anchor in line with the state and leaves the rest alone.\<close>

lemma reload_syncs:
  assumes "cooperative os" "forwarding4 (system_of h) = (active_utuns s \<noteq> [])"
    "forwarding6 (system_of h) = (active_utuns s \<noteq> [])"
  shows "\<exists>h'. run_state (reload_nat_anchor os) (s, h) = (ok_resp, s, h') \<and> synced s h'"
proof -
  define us where "us = map snd (iter_of os h (active_utuns s))"
  have us: "mset us = mset (map snd (active_utuns s))"
    unfolding us_def mset_map using cooperative_simps(4)[OF assms(1)] by simp
  let ?flush = "[Exec ''/sbin/pfctl'' [''-a'', ANCHOR_NAT, ''-F'', ''all'']]"
  let ?load = "[WriteFile ANCHOR_FILE_NAT (anchor_rules us (rdr_rules s)),
    Exec ''/sbin/pfctl'' [''-a'', ANCHOR_NAT, ''-f'', ANCHOR_FILE_NAT]]"
  have run: "run_state (reload_nat_anchor os) (s, h) =
      (ok_resp, s, h @ (if anchor_rules us (rdr_rules s) = [] then ?flush else ?load))"
    by (simp add: reload_nat_anchor_def us_def[symmetric] cooperative_simps[OF assms(1)] Let_def)
  have "anchor_loaded (system_of (h @ (if anchor_rules us (rdr_rules s) = [] then ?flush else ?load)))
      = anchor_rules us (rdr_rules s)"
    by (simp add: sys_event_def)
  then show ?thesis
    unfolding run using us assms(2,3) by (auto simp: synced_def sys_event_def)
qed

lemma reload_keeps_synced:
  assumes "cooperative os" "forwarding4 (system_of h) = (active_utuns s \<noteq> [])"
    "forwarding6 (system_of h) = (active_utuns s \<noteq> [])"
    "run_state (reload_nat_anchor os) (s, h) = (a, s', h')"
  shows "a = ok_resp \<and> s' = s \<and> synced s' h'"
  using reload_syncs[OF assms(1-3)] assms(4) by auto

lemma setup_synced:
  assumes "cooperative os"
  shows "keeps synced (handle_setup_utun os iface addr peer cidr egress)"
  unfolding keeps_def
proof (intro allI impI)
  fix s h a s' h'
  assume sync: "synced s h" and run: "run_state (handle_setup_utun os iface addr peer cidr egress) (s, h) = (a, s', h')"
  let ?s = "s\<lparr>active_utuns := AList.update iface \<lparr>egress_iface = egress, ipv4_cidr = cidr\<rparr> (active_utuns s)\<rparr>"
  have ne: "AList.update iface u al \<noteq> []" for u al by (cases al) auto
  show "synced s' h'"
  proof (cases "s' = s \<and> system_of h' = system_of h")
    case True
    then show ?thesis using sync by (simp add: synced_def)
  next
    case False
    then obtain g resp where "run_state (reload_nat_anchor os) (?s, g) = (resp, s', h')"
      "forwarding4 (system_of g)" "forwarding6 (system_of g)"
      using run by (auto simp: handle_setup_utun_def cooperative_simps[OF assms] sys_event_def
          split: if_splits sum.splits prod.splits)
    then show ?thesis using reload_keeps_synced[OF assms, of g ?s] ne by auto
  qed
qed

lemma run_for_each_route:
  "run_state (for_each (\<lambda>(_, addr). do { _ \<leftarrow> run_route os [''delete'', ''-inet6'', ''-host'', addr]; ret () }) xs)
     (s, h) = ((), s, h @ map (\<lambda>(_, addr). Exec ''/sbin/route'' [''delete'', ''-inet6'', ''-host'', addr]) xs)"
  by (induction xs arbitrary: h) auto

lemma fold_quiet: "list_all quiet es \<Longrightarrow> fold sys_event es k = k"
  by (induction es arbitrary: k) simp_all

lemma fold_routes [simp]:
  "fold sys_event (map (\<lambda>(_, addr). Exec ''/sbin/route'' [''delete'', ''-inet6'', ''-host'', addr]) xs) k = k"
  by (rule fold_quiet) (auto simp: list_all_iff)

lemma synced_aliases: "synced (st\<lparr>ipv6_aliases := al\<rparr>) h = synced st h"
  by (simp add: synced_def)

lemma teardown_synced:
  assumes "cooperative os"
  shows "keeps synced (handle_teardown_utun os iface)"
  unfolding keeps_def
proof (intro allI impI)
  fix s h a s' h'
  assume sync: "synced s h" and run: "run_state (handle_teardown_utun os iface) (s, h) = (a, s', h')"
  let ?s = "s\<lparr>active_utuns := AList.delete iface (active_utuns s)\<rparr>"
  show "synced s' h'"
  proof (cases "AList.delete iface (active_utuns s) = []")
    case True
    with run show ?thesis
      by (auto simp: handle_teardown_utun_def run_for_each_route synced_def sys_event_def
          anchor_rules_def anchor_lines_def)
  next
    case False
    then have "active_utuns s \<noteq> []" by auto
    with False sync obtain g where reload: "run_state (reload_nat_anchor os) (?s, h) = (ok_resp, ?s, g)"
      and g: "synced ?s g"
      using reload_syncs[OF assms, of h ?s] by (auto simp: synced_def)
    have "s' = ?s\<lparr>ipv6_aliases := filter (\<lambda>(i, _). i \<noteq> iface) (ipv6_aliases s)\<rparr>"
      "system_of h' = system_of g"
      using run False reload by (auto simp: handle_teardown_utun_def run_for_each_route)
    with g show ?thesis by (simp add: synced_def)
  qed
qed

lemma reload_after_rules:
  assumes "cooperative os" "synced s h"
    "run_state (reload_nat_anchor os) (s\<lparr>rdr_rules := rs\<rparr>, h) = (a, s', h')"
  shows "synced s' h'"
proof -
  have "forwarding4 (system_of h) = (active_utuns (s\<lparr>rdr_rules := rs\<rparr>) \<noteq> [])"
    "forwarding6 (system_of h) = (active_utuns (s\<lparr>rdr_rules := rs\<rparr>) \<noteq> [])"
    using assms(2) by (simp_all add: synced_def)
  from reload_keeps_synced[OF assms(1) this assms(3)] show ?thesis by blast
qed

lemma rdr_synced:
  assumes "cooperative os"
  shows "keeps synced (handle_add_rdr os p hp ip vp)" "keeps synced (handle_remove_rdr os p hp)"
  unfolding keeps_def handle_add_rdr_def handle_remove_rdr_def
  by (auto dest: reload_after_rules[OF assms] split: if_splits)

lemma alias_synced: "keeps synced (handle_assign_utun_alias os iface addr)"
  unfolding handle_assign_utun_alias_def
  by (intro keeps_intros keeps_announce keeps_quiet_route synced_stable) (simp_all add: synced_def)

lemma handle_request_synced:
  assumes "cooperative os"
  shows "keeps synced (handle_request os req)"
  by (cases req) (simp_all add: handle_request_def setup_synced teardown_synced rdr_synced
      alias_synced keeps_prims assms)

lemma serve_step_synced:
  assumes "cooperative os"
  shows "keeps synced (serve_step os j conn)"
  unfolding serve_step_def pf_handle_connection_def
  by (intro keeps_intros handle_request_synced keeps_create_utun keeps_write_resp synced_stable assms)

text \<open>The same machine with the agreement as its invariant, on a cooperative system.\<close>

interpretation pf_system_machine: invariant_machine
  "\<lambda>c w. snd (run_state (serve_step os j c) w)" "\<lambda>_. cooperative os"
  "\<lambda>w. synced (fst w) (snd w)" for os j
proof unfold_locales
  fix w :: "daemon_state \<times> pf_event list" and c :: "string option option"
  assume "synced (fst w) (snd w)" and "cooperative os"
  then show "synced (fst (snd (run_state (serve_step os j c) w))) (snd (snd (run_state (serve_step os j c) w)))"
    using keeps_run2[of "\<lambda>w. synced (fst w) (snd w)" "serve_step os j c" w] serve_step_synced by simp
qed

text \<open>C34: On a system that carries out the packet filter and sysctl commands and has no rules of the
  helper loaded and no forwarding when it starts, after every sequence of connections the rules loaded into the anchor are exactly the rules of the
  active relays and redirections in the helper's state, and both forwarding switches are on
  exactly when a relay is active. Failed \<open>ifconfig\<close> and \<open>route\<close> commands, refused requests
  and unreadable lines do not disturb this.\<close>

theorem pf_rules_in_sync:
  assumes "cooperative os" and "serve os j conns = (st, h)"
  shows "(\<exists>us. mset us = mset (map snd (active_utuns st)) \<and>
      anchor_loaded (system_of h) = anchor_rules us (rdr_rules st)) \<and>
    forwarding4 (system_of h) = (active_utuns st \<noteq> []) \<and>
    forwarding6 (system_of h) = (active_utuns st \<noteq> [])"
proof -
  have "synced (fst (serve os j conns)) (snd (serve os j conns))"
    unfolding serve_def
    by (rule pf_system_machine.run_inv) (simp_all add: synced_new assms(1) list_all_iff)
  with assms(2) have "synced st h" by simp
  then show ?thesis unfolding synced_def .
qed

text \<open>A concrete system and JSON library for the witnesses: every command succeeds silently and
  the hash map is iterated in insertion order; the request lines are names of requests.\<close>

definition demo_os :: os where
  "demo_os = \<lparr>output_of = \<lambda>_ _ _. Inr \<lparr>success = True, cmd_stdout = [], cmd_stderr = []\<rparr>,
     write_of = \<lambda>_ _ _. None, bpf_open_of = \<lambda>_ _. None, bpf_attach_of = \<lambda>_ _ _. None,
     bpf_write_of = \<lambda>_ _ _. None, utun_socket_of = \<lambda>_. None, utun_ctl_of = \<lambda>_. Inr 1,
     utun_connect_of = \<lambda>_ _. None, utun_ifname_of = \<lambda>_. Inr ([], 0), iter_of = \<lambda>_ m. m\<rparr>"

definition demo_json :: json where
  "demo_json = \<lparr>from_json = (\<lambda>l.
      if l = ''setup'' then Inr (SetupUtun ''utun5'' ''192.168.105.1'' ''192.168.105.2'' ''192.168.105.0/24'' ''en0'')
      else if l = ''ssh'' then Inr (AddRdr ''tcp'' 2222 ''192.168.105.2'' 22)
      else Inl l),
    to_json = (\<lambda>_. None)\<rparr>"

definition demo_setup :: utun_setup where
  "demo_setup = \<lparr>egress_iface = ''en0'', ipv4_cidr = ''192.168.105.0/24''\<rparr>"

definition demo_rule :: rdr_rule where
  "demo_rule = \<lparr>proto = ''tcp'', host_port = 2222, vm_ip = ''192.168.105.2'', vm_port = 22\<rparr>"

lemma demo_cooperative: "cooperative demo_os"
  by (simp add: cooperative_def demo_os_def plain_status_def)

lemma demo_safe: "is_safe_iface ''utun5''" "is_safe_iface ''en0''"
  by (simp_all add: is_safe_iface_def is_alnum_def)

lemma demo_requests:
  "from_json demo_json (trim ''setup'') =
     Inr (SetupUtun ''utun5'' ''192.168.105.1'' ''192.168.105.2'' ''192.168.105.0/24'' ''en0'')"
  "from_json demo_json (trim ''ssh'') = Inr (AddRdr ''tcp'' 2222 ''192.168.105.2'' 22)"
  "to_json demo_json r = None"
  by (simp_all add: demo_json_def trim_def trim_start_def trim_end_def is_ws_def)

lemma demo_answers:
  "route_status (output_of demo_os h prog args) = Inr ()"
  "plain_status prog (output_of demo_os h prog args) = Inr ()"
  "write_of demo_os h f t = None"
  by (simp_all add: demo_os_def route_status_def plain_status_def trim_def trim_start_def trim_end_def)

lemma demo_reload: "\<exists>h'. run_state (reload_nat_anchor demo_os) (s, h) = (ok_resp, s, h')"
  by (simp add: reload_nat_anchor_def demo_answers Let_def)

lemma demo_serve:
  "fst (serve demo_os demo_json [Some (Some ''setup''), Some (Some ''ssh'')]) =
     \<lparr>active_utuns = [(''utun5'', demo_setup)], rdr_rules = [demo_rule], ipv6_aliases = []\<rparr>"
proof -
  define s1 where "s1 = daemon_state_new\<lparr>active_utuns := [(''utun5'', demo_setup)]\<rparr>"
  define s2 where "s2 = s1\<lparr>rdr_rules := [demo_rule]\<rparr>"
  obtain g where g: "run_state (reload_nat_anchor demo_os) (s, h) = (ok_resp, s, g s h)" for s h
    using demo_reload by metis
  obtain h1 where 1: "run_state (serve_step demo_os demo_json (Some (Some ''setup''))) (daemon_state_new, []) = ((), s1, h1)"
    by (simp add: serve_step_def pf_handle_connection_def demo_requests handle_request_def handle_setup_utun_def
        demo_safe demo_answers write_resp_def s1_def demo_setup_def daemon_state_new_def g ok_resp_def)
  have "\<exists>h2. run_state (serve_step demo_os demo_json (Some (Some ''ssh''))) (s1, h1) = ((), s2, h2)"
    by (simp add: serve_step_def pf_handle_connection_def demo_requests handle_request_def handle_add_rdr_def
        write_resp_def s1_def s2_def demo_rule_def daemon_state_new_def g)
  with 1 show ?thesis
    by (auto simp: serve_def s1_def s2_def daemon_state_new_def)
qed

theorem pf_rules_in_sync_witness:
  "anchor_loaded (system_of (snd (serve demo_os demo_json [Some (Some ''setup''), Some (Some ''ssh'')])))
     = anchor_rules [demo_setup] [demo_rule]"
  using pf_rules_in_sync[OF demo_cooperative prod.collapse[symmetric],
      of demo_json "[Some (Some ''setup''), Some (Some ''ssh'')]"]
  unfolding demo_serve by auto

text \<open>A helper that is started again, with an empty state, on a system where a relay was active finds it out
  of step: it neither removes the rules nor resets the forwarding switches when it starts.\<close>

lemma restart_out_of_step: "synced st h \<Longrightarrow> active_utuns st \<noteq> [] \<Longrightarrow> \<not> synced daemon_state_new h"
  by (simp add: synced_def daemon_state_new_def)

section \<open>The sections of the anchor file\<close>

lemma str_lines_rules:
  "\<forall>l \<in> set ls. nl \<notin> set l \<and> cr \<notin> set l \<Longrightarrow> str_lines (concat (map (\<lambda>l. l @ [nl]) ls)) = ls"
proof (induction ls)
  case (Cons l ls)
  then have "str_lines (l @ [nl]) = [l]" by (intro str_lines_one) (auto dest: last_in_set)
  with Cons show ?case using str_lines_app[of l "concat (map (\<lambda>l. l @ [nl]) ls)"] by simp
qed (simp add: str_lines_def)

definition clean :: "string \<Rightarrow> bool" where
  "clean s = (nl \<notin> set s \<and> cr \<notin> set s)"

lemma clean_append [simp]: "clean (a @ b) = (clean a \<and> clean b)"
  by (auto simp: clean_def)

lemma clean_show_word [simp]: "clean (show_word (w :: u16))"
  using u16_text.enc_no_nl u16_text.enc_no_cr by (simp add: clean_def)

lemma clean_literals [simp]:
  "clean ''nat on ''" "clean '' inet from ''" "clean '' to any -> (''" "clean '')''" "clean '' port ''"
  "clean '' -> ''" "clean ''rdr pass on lo0 proto ''" "clean '' from any to 127.0.0.1 port ''"
  "clean ''rdr pass on ''" "clean '' proto ''" "clean '' from any to any port ''"
  "clean ''pass quick inet from ''" "clean '' to ''" "clean ''tcp''" "clean ''udp''"
  by (simp_all add: clean_def)

lemma clean_safe_iface: "is_safe_iface s \<Longrightarrow> clean s"
  by (auto simp: is_safe_iface_def clean_def list_all_iff is_alnum_def)

lemma clean_lines:
  "is_safe_iface (egress_iface u) \<Longrightarrow> clean (ipv4_cidr u) \<Longrightarrow> clean (nat_line u)"
  "clean (ipv4_cidr u) \<Longrightarrow> clean (pass_line u)"
  "clean (proto r) \<Longrightarrow> clean (vm_ip r) \<Longrightarrow> clean (rdr_lo_line r)"
  "is_safe_iface e \<Longrightarrow> clean (proto r) \<Longrightarrow> clean (vm_ip r) \<Longrightarrow> clean (rdr_egress_line e r)"
  by (simp_all only: nat_line_def pass_line_def rdr_lo_line_def rdr_egress_line_def clean_append
      clean_literals clean_show_word clean_safe_iface)

lemma starts_with_append [simp]: "starts_with (p @ s) p"
  by (simp add: starts_with_def)

lemma line_heads:
  "starts_with (nat_line u) ''nat on ''" "starts_with (pass_line u) ''pass quick inet from ''"
  "starts_with (rdr_egress_line e r) ''rdr pass on ''" "starts_with (rdr_lo_line r) ''rdr pass on ''"
  by (simp_all only: nat_line_def pass_line_def rdr_egress_line_def starts_with_append)
    (simp add: rdr_lo_line_def starts_with_def)

text \<open>The file that is loaded has, line by line, one \<open>nat\<close> rule per active relay, then
  for every redirection a rule on the loopback interface and, when a relay is active, one on
  its egress interface, and then one \<open>pass quick\<close> rule per relay: the translation rules
  precede the filter rules, as the packet filter requires. The subnets and machine addresses
  of the requests must not contain line breaks.\<close>

theorem pf_anchor_sections:
  assumes "\<forall>u \<in> set us. is_safe_iface (egress_iface u) \<and> clean (ipv4_cidr u)"
    and "\<forall>r \<in> set rs. (proto r = ''tcp'' \<or> proto r = ''udp'') \<and> clean (vm_ip r)"
  shows "\<exists>nats rdrs passes. str_lines (anchor_rules us rs) = nats @ rdrs @ passes \<and>
    length nats = length us \<and> length passes = length us \<and>
    length rdrs = (if us = [] then 1 else 2) * length rs \<and>
    (\<forall>l \<in> set nats. starts_with l ''nat on '') \<and>
    (\<forall>l \<in> set rdrs. starts_with l ''rdr pass on '') \<and>
    (\<forall>l \<in> set passes. starts_with l ''pass quick inet from '')"
proof -
  have "\<forall>l \<in> set (anchor_lines us rs). clean l"
    using assms by (cases us) (auto simp: anchor_lines_def rdr_lines_def clean_lines)
  then have "str_lines (anchor_rules us rs) = anchor_lines us rs"
    unfolding anchor_rules_def by (intro str_lines_rules) (simp add: clean_def)
  moreover have "length (concat (map (rdr_lines us) rs)) = (if us = [] then 1 else 2) * length rs"
    by (induction rs) (auto simp: rdr_lines_def split: list.splits)
  ultimately show ?thesis
    by (intro exI[of _ "map nat_line us"] exI[of _ "concat (map (rdr_lines us) rs)"]
        exI[of _ "map pass_line us"])
      (auto simp: anchor_lines_def rdr_lines_def line_heads split: list.splits)
qed

theorem pf_anchor_sections_witness:
  "\<exists>nats rdrs passes. str_lines (anchor_rules [demo_setup] [demo_rule]) = nats @ rdrs @ passes \<and>
    length nats = 1 \<and> length rdrs = 2 \<and> length passes = 1"
  using pf_anchor_sections[of "[demo_setup]" "[demo_rule]"]
  by (fastforce simp: demo_setup_def demo_rule_def clean_def is_safe_iface_def is_alnum_def)

text \<open>
  The hypothesis on line breaks is not established by the code: neither \<open>handle_add_rdr\<close>
  nor \<open>handle_setup_utun\<close> looks at \<open>vm_ip\<close> and \<open>ipv4_cidr\<close>, so that a request can put a
  rule of its own into the anchor.
\<close>

lemma pf_rule_injection:
  "\<exists>st h. run_state (handle_add_rdr demo_os ''tcp'' 80 (''10.0.0.1'' @ [nl] @ ''pass quick all #'') 80)
     (daemon_state_new, []) = (ok_resp, st, h) \<and>
     ''pass quick all # port 80'' \<in> set (str_lines (anchor_loaded (system_of h)))"
proof -
  have "let (r, st, h) = run_state (handle_add_rdr demo_os ''tcp'' 80 (''10.0.0.1'' @ [nl] @ ''pass quick all #'') 80)
     (daemon_state_new, []) in r = ok_resp \<and> ''pass quick all # port 80'' \<in> set (str_lines (anchor_loaded (system_of h)))"
    by code_simp
  then show ?thesis by (auto split: prod.splits)
qed

section \<open>The announcing frames\<close>

lemma ndp_frame_layout:
  assumes "length dm = 6" "length sm = 6" "length src = 16" "length dst = 16" "length icmp = 32"
  shows "ndp_frame dm sm src dst icmp =
    dm @ sm @ [0x86, 0xdd, 0x60, 0, 0, 0] @ to_be16 32 @ [58, 255] @ src @ dst @ icmp"
proof -
  have 1: "copy_into 6 sm (copy_into 0 dm (replicate 86 0)) = dm @ sm @ replicate 74 0"
    using assms by (simp add: copy_into_def)
  have "replicate 74 (0 :: u8) = [0, 0, 0, 0, 0, 0, 0, 0, 0, 0] @ replicate 64 0"
    by (simp add: numeral_eq_Suc)
  then have 2: "(copy_into 18 (to_be16 32) ((copy_into 12 [0x86, 0xdd] (dm @ sm @ replicate 74 0))[14 := 0x60]))
      [20 := 58, 21 := 255] = dm @ sm @ [0x86, 0xdd, 0x60, 0, 0, 0] @ to_be16 32 @ [58, 255] @ replicate 64 0"
    using assms by (simp only:) (simp add: copy_into_def list_update_append)
  show ?thesis
    unfolding ndp_frame_def Let_def 1 2 using assms by (simp add: copy_into_def)
qed

definition ndp_body :: "u8 \<Rightarrow> bytes \<Rightarrow> u8 \<Rightarrow> bytes \<Rightarrow> bytes" where
  "ndp_body flags target opt mac = [flags, 0, 0, 0] @ target @ [opt, 1] @ mac"

lemma probe_ns_layout:
  assumes "length mac = 6" "length rmac = 6" "length gua = 16" "length router = 16"
  shows "ndp_probe_ns mac rmac gua router =
    rmac @ mac @ [0x86, 0xdd, 0x60, 0, 0, 0] @ to_be16 32 @ [58, 255] @ gua @ router @ [135, 0]
    @ to_be16 (pfctl_icmpv6_checksum gua router ([135, 0] @ [0, 0] @ ndp_body 0 router 1 mac))
    @ ndp_body 0 router 1 mac"
proof -
  have "copy_into 26 mac ((copy_into 8 router ((replicate 32 0)[0 := 135]))[24 := 1, 25 := 1])
      = [135, 0] @ [0, 0] @ ndp_body 0 router 1 mac"
    using assms by (simp add: copy_into_def list_update_append numeral_eq_Suc ndp_body_def)
  then show ?thesis
    unfolding ndp_probe_ns_def Let_def using assms
    by (simp add: ndp_frame_layout ndp_body_def copy_into_def)
qed

abbreviation all_nodes :: bytes where
  "all_nodes \<equiv> [0xff, 0x02, 0, 0, 0, 0, 0, 0, 0, 0, 0, 0, 0, 0, 0, 0x01]"

lemma gratuitous_na_layout:
  assumes "length mac = 6" "length gua = 16"
  shows "gratuitous_na mac gua =
    [0x33, 0x33, 0, 0, 0, 1] @ mac @ [0x86, 0xdd, 0x60, 0, 0, 0] @ to_be16 32 @ [58, 255] @ gua
    @ all_nodes @ [136, 0]
    @ to_be16 (pfctl_icmpv6_checksum gua all_nodes ([136, 0] @ [0, 0] @ ndp_body 0x20 gua 2 mac))
    @ ndp_body 0x20 gua 2 mac"
proof -
  have "copy_into 26 mac ((copy_into 8 gua ((replicate 32 0)[0 := 136, 1 := 0, 4 := 0x20]))[24 := 2, 25 := 1])
      = [136, 0] @ [0, 0] @ ndp_body 0x20 gua 2 mac"
    using assms by (simp add: copy_into_def list_update_append numeral_eq_Suc ndp_body_def)
  then show ?thesis
    unfolding gratuitous_na_def Let_def using assms
    by (simp add: ndp_frame_layout ndp_body_def copy_into_def)
qed

text \<open>A well-formed neighbour discovery frame: 86 bytes, IPv6 with payload length 32, ICMPv6
  and hop limit 255, the given type, target and link-layer option, and a checksum that the
  receiver accepts.\<close>

definition ndp_frame_ok :: "u8 \<Rightarrow> bytes \<Rightarrow> bytes \<Rightarrow> bytes \<Rightarrow> bytes \<Rightarrow> bool" where
  "ndp_frame_ok ty src dst target f =
     (length f = 86 \<and> sub 12 22 f = [0x86, 0xdd, 0x60, 0, 0, 0, 0, 32, 58, 255] \<and>
      sub 22 38 f = src \<and> sub 38 54 f = dst \<and> f ! 54 = ty \<and> sub 62 78 f = target \<and>
      sub 80 86 f = sub 6 12 f \<and> icmpv6_checksum src dst (sub 54 86 f) = 0)"

lemma frame_okI:
  fixes ty fl opt :: u8
  assumes "length dm = 6" "length mac = 6" "length src = 16" "length dst = 16" "length target = 16"
  defines "ck \<equiv> pfctl_icmpv6_checksum src dst ([ty, 0] @ [0, 0] @ ndp_body fl target opt mac)"
  shows "ndp_frame_ok ty src dst target
    (dm @ mac @ [0x86, 0xdd, 0x60, 0, 0, 0] @ to_be16 32 @ [58, 255] @ src @ dst
     @ [ty, 0] @ to_be16 ck @ ndp_body fl target opt mac)"
proof -
  have b: "to_be16 32 = [0, 32]" by (simp add: to_be16_def)
  have len: "length (ndp_body fl target opt mac) = 28" using assms by (simp add: ndp_body_def)
  have "pfctl_icmpv6_checksum src dst ([ty, 0] @ to_be16 ck @ ndp_body fl target opt mac) = 0"
    unfolding ck_def using assms(1-5) len by (intro pfctl_ck.receiver_accepts) simp_all
  then have "icmpv6_checksum src dst ([ty, 0] @ to_be16 ck @ ndp_body fl target opt mac) = 0"
    using relay_ck.ck_value pfctl_ck.ck_value assms len
    by (simp add: unat_eq_0[symmetric] del: unat_eq_0)
  then show ?thesis
    using assms(1-5) len unfolding ndp_frame_ok_def b
    by (simp add: sub_def ndp_body_def nth_append)
qed

text \<open>The two frames the helper injects when an address is assigned are well formed: the
  unsolicited neighbour advertisement goes to all nodes, the probing solicitation only to the
  router, both carry the address as the source, the egress MAC address as the link-layer
  option, and a checksum that the relay's own checksum function accepts as well.\<close>

theorem pf_announce_frames_ok:
  assumes "length mac = 6" "length rmac = 6" "length gua = 16" "length router = 16"
  shows "ndp_frame_ok 136 gua all_nodes gua (gratuitous_na mac gua) \<and>
    take 6 (gratuitous_na mac gua) = [0x33, 0x33, 0, 0, 0, 1] \<and>
    ndp_frame_ok 135 gua router router (ndp_probe_ns mac rmac gua router) \<and>
    take 6 (ndp_probe_ns mac rmac gua router) = rmac"
proof -
  have "ndp_frame_ok 136 gua all_nodes gua (gratuitous_na mac gua)"
    unfolding gratuitous_na_layout[OF assms(1,3)] by (rule frame_okI) (simp_all add: assms)
  moreover have "ndp_frame_ok 135 gua router router (ndp_probe_ns mac rmac gua router)"
    unfolding probe_ns_layout[OF assms] by (rule frame_okI) (simp_all add: assms)
  ultimately show ?thesis
    by (simp add: gratuitous_na_layout[OF assms(1,3)] probe_ns_layout[OF assms] assms)
qed

theorem pf_announce_frames_ok_witness:
  "icmpv6_checksum (replicate 16 1) all_nodes
     (sub 54 86 (gratuitous_na [2, 0, 0, 0, 0, 7] (replicate 16 1))) = 0"
  using pf_announce_frames_ok[of "[2, 0, 0, 0, 0, 7]" "[2, 0, 0, 0, 0, 8]" "replicate 16 1" "replicate 16 2"]
  by (simp add: ndp_frame_ok_def)

section \<open>Tear-down\<close>

text \<open>Tearing down a relay always succeeds, whatever the commands return: the interface is
  forgotten, the other relays stay as they are, every route of an address of that interface
  is deleted and its record removed, the interface is brought down, and with the last relay
  all redirections are dropped.\<close>

lemma reload_extends: "keeps (\<lambda>_ g. length h \<le> length g) (reload_nat_anchor os)"
  unfolding reload_nat_anchor_def run_pfctl_def run_output_def Let_def
  by (intro keeps_bind keeps_prims keeps_if keeps_option keeps_sum keeps_prod; simp add: keeps_def)

lemma pf_teardown_complete:
  assumes "run_state (handle_teardown_utun os iface) (st, h) = (r, st', h')"
  shows "r = ok_resp \<and>
    map_of (active_utuns st') = (map_of (active_utuns st))(iface := None) \<and>
    ipv6_aliases st' = filter (\<lambda>(i, _). i \<noteq> iface) (ipv6_aliases st) \<and>
    rdr_rules st' = (if active_utuns st' = [] then [] else rdr_rules st) \<and>
    (\<forall>a. (iface, a) \<in> set (ipv6_aliases st) \<longrightarrow>
       Exec ''/sbin/route'' [''delete'', ''-inet6'', ''-host'', a] \<in> set (drop (length h) h')) \<and>
    last h' = Exec ''/sbin/ifconfig'' [iface, ''down'']"
proof -
  obtain resp h1 where "run_state (reload_nat_anchor os) (s, h) = (resp s, s, h1 s)" "length h \<le> length (h1 s)" for s
  proof -
    have "\<exists>resp h1. run_state (reload_nat_anchor os) (s, h) = (resp, s, h1) \<and> length h \<le> length h1" for s
      using keepsD[OF keeps_commands(6)[of "\<lambda>s'. s' = s"]] keepsD[OF reload_extends order_refl]
      by (cases "run_state (reload_nat_anchor os) (s, h)") auto
    then show thesis using that by metis
  qed
  note run = this
  have del: "(map_of (active_utuns st))(iface := None) = map_of (AList.delete iface (active_utuns st))"
    by (simp add: delete_conv' fun_upd_def)
  show ?thesis
    unfolding del using assms run
    by (cases "AList.delete iface (active_utuns st) = []")
      (auto simp: handle_teardown_utun_def run_for_each_route)
qed

lemma pf_teardown_complete_witness:
  "fst (run_state (handle_teardown_utun demo_os ''utun5'')
     (\<lparr>active_utuns = [(''utun5'', demo_setup)], rdr_rules = [demo_rule], ipv6_aliases = [(''utun5'', ''fd00::2'')]\<rparr>, []))
   = ok_resp"
proof -
  let ?w = "(\<lparr>active_utuns = [(''utun5'', demo_setup)], rdr_rules = [demo_rule],
    ipv6_aliases = [(''utun5'', ''fd00::2'')]\<rparr>, [])"
  obtain r st' h' where run: "run_state (handle_teardown_utun demo_os ''utun5'') ?w = (r, st', h')"
    by (rule prod_cases3)
  show ?thesis using pf_teardown_complete[OF run] run by simp
qed

end
