(* ===== verification/Tun_Relay.thy ===== *)
theory Tun_Relay
  imports Checksum Text_Codec "HOL-Library.Monad_Syntax"
begin

text \<open>
  The userspace network relay of \<open>pelagos-vz/src/tun_relay.rs\<close> between the Ethernet
  frames of the virtual machine and the IP packets of the host's utun interface: the frames
  it synthesises (ARP replies, neighbour advertisements, router advertisements), the state it
  keeps (the learned MAC address, the claimed global address) and the poll loop. Indexing a
  frame out of range would panic the relay thread, so frame processing is modelled with
  checked accesses and returns \<open>None\<close> for a panic.
\<close>

unbundle bit_operations_syntax

section \<open>Addresses\<close>

definition GATEWAY_MAC :: bytes where "GATEWAY_MAC = [0x02, 0x00, 0x00, 0x00, 0x00, 0x01]"
definition GATEWAY_IP6_LL :: bytes where
  "GATEWAY_IP6_LL = [0xfe, 0x80, 0, 0, 0, 0, 0, 0, 0, 0, 0, 0, 0, 0, 0, 1]"
definition GATEWAY_IP6_ULA :: bytes where
  "GATEWAY_IP6_ULA = [0xfd, 0x00, 0, 0, 0, 0, 0, 0, 0, 0, 0, 0, 0, 0, 0, 1]"
definition ALL_NODES_MAC :: bytes where "ALL_NODES_MAC = [0x33, 0x33, 0x00, 0x00, 0x00, 0x01]"
definition ALL_NODES_IP6 :: bytes where
  "ALL_NODES_IP6 = [0xff, 0x02, 0, 0, 0, 0, 0, 0, 0, 0, 0, 0, 0, 0, 0, 1]"
definition TUN_HDR_IPV4 :: bytes where "TUN_HDR_IPV4 = [0, 0, 0, 2]"
definition TUN_HDR_IPV6 :: bytes where "TUN_HDR_IPV6 = [0, 0, 0, 30]"

lemmas addr_defs = GATEWAY_MAC_def GATEWAY_IP6_LL_def GATEWAY_IP6_ULA_def ALL_NODES_MAC_def
  ALL_NODES_IP6_def TUN_HDR_IPV4_def TUN_HDR_IPV6_def

lemma addr_lengths [simp]:
  "length GATEWAY_MAC = 6" "length GATEWAY_IP6_LL = 16" "length GATEWAY_IP6_ULA = 16"
  "length ALL_NODES_MAC = 6" "length ALL_NODES_IP6 = 16" "length TUN_HDR_IPV4 = 4"
  "length TUN_HDR_IPV6 = 4"
  by (simp_all add: addr_defs)

text \<open>\<open>VmSubnet::from_guest_ip\<close>\<close>

record vm_subnet =
  host_ip4 :: ipv4
  guest_ip4 :: ipv4
  cidr :: string

fun from_guest_ip :: "ipv4 \<Rightarrow> vm_subnet" where
  "from_guest_ip (a, b, c, d) =
     \<lparr>host_ip4 = (a, b, c, 1), guest_ip4 = (a, b, c, d),
      cidr = show_word a @ ''.'' @ show_word b @ ''.'' @ show_word c @ ''.0/24''\<rparr>"

section \<open>Synthesised frames\<close>

definition build_arp_reply :: "bytes \<Rightarrow> bytes \<Rightarrow> bytes \<Rightarrow> bytes" where
  "build_arp_reply vm_mac vm_ip4 gateway_ip4 =
     (let f = replicate 42 0;
          f = copy_into 0 vm_mac f;
          f = copy_into 6 GATEWAY_MAC f;
          f = f[12 := 0x08, 13 := 0x06];
          f = f[14 := 0x00, 15 := 0x01, 16 := 0x08, 17 := 0x00, 18 := 6, 19 := 4];
          f = f[20 := 0x00, 21 := 0x02];
          f = copy_into 22 GATEWAY_MAC f;
          f = copy_into 28 gateway_ip4 f;
          f = copy_into 32 vm_mac f;
          f = copy_into 38 vm_ip4 f
      in f)"

text \<open>The checksum goes into bytes 2 and 3 of the ICMPv6 message.\<close>

definition put_checksum :: "u16 \<Rightarrow> bytes \<Rightarrow> bytes" where
  "put_checksum cksum icmp = icmp[2 := ucast (drop_bit 8 cksum), 3 := ucast (cksum AND 0xff)]"

definition build_ndp_na :: "bytes \<Rightarrow> bytes \<Rightarrow> bytes \<Rightarrow> bytes" where
  "build_ndp_na vm_mac target_ip6 dst_ip6 =
     (let src_ip6 = target_ip6;
          icmp = replicate 32 0;
          icmp = icmp[0 := 136, 1 := 0, 4 := 0x60];
          icmp = copy_into 8 target_ip6 icmp;
          icmp = icmp[24 := 2, 25 := 1];
          icmp = copy_into 26 GATEWAY_MAC icmp;
          cksum = icmpv6_checksum src_ip6 dst_ip6 icmp;
          icmp = put_checksum cksum icmp
      in vm_mac @ GATEWAY_MAC @ [0x86, 0xDD] @ [0x60, 0x00, 0x00, 0x00] @ to_be16 32
         @ [58, 255] @ src_ip6 @ dst_ip6 @ icmp)"

definition build_ra :: "bytes \<Rightarrow> bytes" where
  "build_ra gua_prefix =
     (let icmp = replicate 56 0;
          icmp = icmp[0 := 134, 4 := 64];
          icmp = copy_into 6 (to_be16 1800) icmp;
          icmp = icmp[16 := 3, 17 := 4, 18 := 64, 19 := 0xC0];
          icmp = copy_into 20 (to_be32 86400) icmp;
          icmp = copy_into 24 (to_be32 14400) icmp;
          icmp = copy_into 32 gua_prefix icmp;
          icmp = icmp[48 := 1, 49 := 1];
          icmp = copy_into 50 GATEWAY_MAC icmp;
          cksum = icmpv6_checksum GATEWAY_IP6_LL ALL_NODES_IP6 icmp;
          icmp = put_checksum cksum icmp
      in ALL_NODES_MAC @ GATEWAY_MAC @ [0x86, 0xDD] @ [0x60, 0x00, 0x00, 0x00] @ to_be16 56
         @ [58, 255] @ GATEWAY_IP6_LL @ ALL_NODES_IP6 @ icmp)"

section \<open>Relay state and effects\<close>

record relay_state =
  vm_mac :: "bytes option"
  gateway_ip4 :: bytes
  gua_prefix :: "bytes option"
  utun_iface :: string
  vm_gua :: "bytes option"

text \<open>
  What the relay does to the outside: \<open>send_to_avf\<close>, \<open>forward_to_utun\<close>, and the request
  to the helper to route an address to the utun interface (its text form is the standard
  library's rendering of the 16 bytes).
\<close>

datatype relay_effect = ToAvf bytes | ToUtun bytes | AssignAlias string bytes

definition is_icmpv6_type :: "u8 \<Rightarrow> bytes \<Rightarrow> bool option" where
  "is_icmpv6_type ty frame =
     (if length frame > 54 then do {
        a \<leftarrow> get_at frame 20;
        if a = 58 then do { b \<leftarrow> get_at frame 54; Some (b = ty) } else Some False }
      else Some False)"

definition is_icmpv6_rs :: "bytes \<Rightarrow> bool option" where
  "is_icmpv6_rs frame = is_icmpv6_type 133 frame"

definition is_ndp_ns :: "bytes \<Rightarrow> bool option" where
  "is_ndp_ns frame = is_icmpv6_type 135 frame"

definition handle_arp :: "bytes \<Rightarrow> relay_state \<Rightarrow> relay_effect list option" where
  "handle_arp frame st =
     (if length frame < 42 then Some []
      else do {
        op1 \<leftarrow> get_at frame 20;
        op2 \<leftarrow> get_at frame 21;
        if from_be16 op1 op2 \<noteq> 1 then Some []
        else do {
          target_ip \<leftarrow> get_range 38 42 frame;
          if target_ip \<noteq> gateway_ip4 st then Some []
          else do {
            mac \<leftarrow> (case vm_mac st of Some m \<Rightarrow> Some m | None \<Rightarrow> get_range 22 28 frame);
            sender_ip \<leftarrow> get_range 28 32 frame;
            Some [ToAvf (build_arp_reply mac sender_ip (gateway_ip4 st))] } } })"

definition handle_ndp_ns :: "bytes \<Rightarrow> relay_state \<Rightarrow> (bool \<times> relay_effect list) option" where
  "handle_ndp_ns frame st =
     (if length frame < 78 then Some (False, [])
      else do {
        target \<leftarrow> get_range 62 78 frame;
        if target \<noteq> GATEWAY_IP6_LL \<and> target \<noteq> GATEWAY_IP6_ULA then Some (False, [])
        else (case vm_mac st of
                None \<Rightarrow> Some (False, [])
              | Some mac \<Rightarrow> do {
                  ns_src_ip \<leftarrow> get_range 22 38 frame;
                  Some (True, [ToAvf (build_ndp_na mac target ns_src_ip)]) }) })"

definition handle_rs :: "relay_state \<Rightarrow> relay_effect list" where
  "handle_rs st = (case gua_prefix st of None \<Rightarrow> [] | Some p \<Rightarrow> [ToAvf (build_ra p)])"

text \<open>\<open>alias_ok iface addr\<close> is the helper's answer to the request.\<close>

definition maybe_assign_gua_alias ::
  "(string \<Rightarrow> bytes \<Rightarrow> bool) \<Rightarrow> bytes \<Rightarrow> relay_state \<Rightarrow> (relay_effect list \<times> relay_state) option" where
  "maybe_assign_gua_alias alias_ok frame st =
     (case vm_gua st of
        Some _ \<Rightarrow> Some ([], st)
      | None \<Rightarrow>
          (case gua_prefix st of
             None \<Rightarrow> Some ([], st)
           | Some p \<Rightarrow>
               if length frame < 38 then Some ([], st)
               else do {
                 src \<leftarrow> get_range 22 38 frame;
                 if src = replicate 16 0 \<or> take 8 src \<noteq> take 8 p then Some ([], st)
                 else Some ([AssignAlias (utun_iface st) src],
                            if alias_ok (utun_iface st) src then st\<lparr>vm_gua := Some src\<rparr> else st) }))"

text \<open>
  \<open>process_avf_frame\<close> in its two parts: learning the source address of the first frame,
  and the dispatch on the Ethernet type.
\<close>

definition learn_mac :: "bytes \<Rightarrow> relay_state \<Rightarrow> relay_state" where
  "learn_mac src_mac st = (if vm_mac st = None then st\<lparr>vm_mac := Some src_mac\<rparr> else st)"

definition dispatch_avf ::
  "(string \<Rightarrow> bytes \<Rightarrow> bool) \<Rightarrow> bytes \<Rightarrow> relay_state \<Rightarrow> (relay_effect list \<times> relay_state) option" where
  "dispatch_avf alias_ok frame st = do {
     e1 \<leftarrow> get_at frame 12;
     e2 \<leftarrow> get_at frame 13;
     let ethertype = from_be16 e1 e2;
     if ethertype = 0x0806 then do { es \<leftarrow> handle_arp frame st; Some (es, st) }
     else if ethertype = 0x0800 then do {
       payload \<leftarrow> get_range 14 (length frame) frame;
       Some ([ToUtun (TUN_HDR_IPV4 @ payload)], st) }
     else if ethertype = 0x86DD then do {
       rs \<leftarrow> is_icmpv6_rs frame;
       if rs then Some (handle_rs st, st)
       else do {
         ns \<leftarrow> is_ndp_ns frame;
         (consumed, es) \<leftarrow> (if ns then handle_ndp_ns frame st else Some (False, []));
         if consumed then Some (es, st)
         else do {
           (es', st') \<leftarrow> maybe_assign_gua_alias alias_ok frame st;
           payload \<leftarrow> get_range 14 (length frame) frame;
           Some (es @ es' @ [ToUtun (TUN_HDR_IPV6 @ payload)], st') } } }
     else Some ([], st) }"

definition process_avf_frame ::
  "(string \<Rightarrow> bytes \<Rightarrow> bool) \<Rightarrow> bytes \<Rightarrow> relay_state \<Rightarrow> (relay_effect list \<times> relay_state) option" where
  "process_avf_frame alias_ok frame st =
     (if length frame < 14 then Some ([], st)
      else do {
        src_mac \<leftarrow> get_range 6 12 frame;
        dispatch_avf alias_ok frame (learn_mac src_mac st) })"

definition from_be32_at :: "bytes \<Rightarrow> u32" where
  "from_be32_at p = from_be32 (p ! 0) (p ! 1) (p ! 2) (p ! 3)"

definition process_utun_packet :: "bytes \<Rightarrow> relay_state \<Rightarrow> relay_effect list option" where
  "process_utun_packet packet st =
     (if length packet < 5 then Some []
      else (case vm_mac st of
              None \<Rightarrow> Some []
            | Some mac \<Rightarrow> do {
                hdr \<leftarrow> get_range 0 4 packet;
                ip_payload \<leftarrow> get_range 4 (length packet) packet;
                let af = from_be32_at hdr;
                if af = 2 then Some [ToAvf (mac @ GATEWAY_MAC @ [0x08, 0x00] @ ip_payload)]
                else if af = 30 then Some [ToAvf (mac @ GATEWAY_MAC @ [0x86, 0xDD] @ ip_payload)]
                else Some [] }))"

section \<open>The poll loop\<close>

text \<open>
  One return of \<open>poll(2)\<close>: a failure (interrupted or not), or the frames and packets that
  the two drain loops read before they would block, the hang-up flags and the time.
\<close>

datatype poll_event =
    PollFailed bool
  | Polled "bytes list" bool "bytes list" bool nat

fun drain_avf :: "(string \<Rightarrow> bytes \<Rightarrow> bool) \<Rightarrow> bytes list \<Rightarrow> relay_state
    \<Rightarrow> (relay_effect list \<times> relay_state) option" where
  "drain_avf alias_ok [] st = Some ([], st)"
| "drain_avf alias_ok (f # fs) st = do {
     (es, st1) \<leftarrow> process_avf_frame alias_ok (take (65536 + 14) f) st;
     (es', st2) \<leftarrow> drain_avf alias_ok fs st1;
     Some (es @ es', st2) }"

fun drain_utun :: "bytes list \<Rightarrow> relay_state \<Rightarrow> relay_effect list option" where
  "drain_utun [] st = Some []"
| "drain_utun (p # ps) st = do {
     es \<leftarrow> process_utun_packet (take (65536 + 4) p) st;
     es' \<leftarrow> drain_utun ps st;
     Some (es @ es') }"

definition RA_INTERVAL :: nat where "RA_INTERVAL = 200 * 10 ^ 9"

text \<open>One iteration of \<open>run_relay\<close>: effects, state, time of the last periodic
  advertisement, and whether the loop goes on.\<close>

definition relay_iteration ::
  "(string \<Rightarrow> bytes \<Rightarrow> bool) \<Rightarrow> poll_event \<Rightarrow> relay_state \<Rightarrow> nat
    \<Rightarrow> (relay_effect list \<times> relay_state \<times> nat \<times> bool) option" where
  "relay_iteration alias_ok ev st last_ra =
     (case ev of
        PollFailed interrupted \<Rightarrow> Some ([], st, last_ra, interrupted)
      | Polled frames avf_closed packets utun_closed now \<Rightarrow> do {
          (es1, st1) \<leftarrow> drain_avf alias_ok frames st;
          if avf_closed then Some (es1, st1, last_ra, False)
          else do {
            es2 \<leftarrow> drain_utun packets st1;
            if utun_closed then Some (es1 @ es2, st1, last_ra, False)
            else if now - last_ra \<ge> RA_INTERVAL then
              Some (es1 @ es2 @ (case gua_prefix st1 of Some p \<Rightarrow> [ToAvf (build_ra p)] | None \<Rightarrow> []),
                    st1, now, True)
            else Some (es1 @ es2, st1, last_ra, True) } })"

fun relay_loop :: "(string \<Rightarrow> bytes \<Rightarrow> bool) \<Rightarrow> poll_event list \<Rightarrow> relay_state \<Rightarrow> nat
    \<Rightarrow> (relay_effect list \<times> relay_state) option" where
  "relay_loop alias_ok [] st last_ra = Some ([], st)"
| "relay_loop alias_ok (ev # evs) st last_ra = do {
     (es, st1, last1, goes_on) \<leftarrow> relay_iteration alias_ok ev st last_ra;
     if goes_on then do {
       (es', st2) \<leftarrow> relay_loop alias_ok evs st1 last1;
       Some (es @ es', st2) }
     else Some (es, st1) }"

definition init_relay :: "string \<Rightarrow> bytes \<Rightarrow> bytes option \<Rightarrow> relay_state" where
  "init_relay iface gw prefix =
     \<lparr>vm_mac = None, gateway_ip4 = gw, gua_prefix = prefix, utun_iface = iface, vm_gua = None\<rparr>"

definition run_relay :: "(string \<Rightarrow> bytes \<Rightarrow> bool) \<Rightarrow> string \<Rightarrow> bytes \<Rightarrow> bytes option \<Rightarrow> nat
    \<Rightarrow> poll_event list \<Rightarrow> (relay_effect list \<times> relay_state) option" where
  "run_relay alias_ok iface gw prefix start evs =
     relay_loop alias_ok evs (init_relay iface gw prefix) start"

section \<open>Layout of the synthesised frames\<close>

lemma arp_reply_layout [frame_simps]:
  assumes "length mac = 6" "length ip = 4" "length gw = 4"
  shows "build_arp_reply mac ip gw =
    mac @ GATEWAY_MAC @ [0x08, 0x06, 0x00, 0x01, 0x08, 0x00, 6, 4, 0x00, 0x02]
    @ GATEWAY_MAC @ gw @ mac @ ip"
proof -
  have eth: "copy_into 6 GATEWAY_MAC (copy_into 0 mac (replicate 42 0)) = mac @ GATEWAY_MAC @ replicate 30 0"
    using assms by (simp add: copy_into_def)
  have "(replicate 30 (0 :: u8)) = [0, 0, 0, 0, 0, 0, 0, 0, 0, 0] @ replicate 20 0"
    by (simp add: numeral_eq_Suc)
  then have hdr: "(mac @ GATEWAY_MAC @ replicate 30 0)[12 := 0x08, 13 := 0x06, 14 := 0x00, 15 := 0x01,
      16 := 0x08, 17 := 0x00, 18 := 6, 19 := 4, 20 := 0x00, 21 := 0x02] =
    mac @ GATEWAY_MAC @ [0x08, 0x06, 0x00, 0x01, 0x08, 0x00, 6, 4, 0x00, 0x02] @ replicate 20 0"
    using assms by (simp only:) (simp add: list_update_append)
  show ?thesis
    unfolding build_arp_reply_def Let_def eth hdr using assms by (simp add: copy_into_def)
qed

lemma put_checksum_split: "put_checksum c (a # b # x # y # post) = a # b # to_be16 c @ post"
proof -
  have "c AND 0xff = take_bit 8 c" by (simp add: take_bit_eq_mask mask_eq_exp_minus_1)
  then have "(ucast (c AND 0xff) :: u8) = ucast c" by (auto intro: bit_word_eqI simp: bit_simps)
  then show ?thesis by (simp add: put_checksum_def to_be16_def numeral_eq_Suc)
qed

definition na_body :: "bytes \<Rightarrow> bytes" where
  "na_body target = [0x60, 0, 0, 0] @ target @ [2, 1] @ GATEWAY_MAC"

lemma ndp_na_layout [frame_simps]:
  assumes "length target = 16"
  shows "build_ndp_na mac target dst =
    mac @ GATEWAY_MAC @ [0x86, 0xDD, 0x60, 0, 0, 0] @ to_be16 32 @ [58, 255] @ target @ dst
    @ [136, 0] @ to_be16 (icmpv6_checksum target dst ([136, 0] @ [0, 0] @ na_body target))
    @ na_body target"
proof -
  have "copy_into 26 GATEWAY_MAC
      ((copy_into 8 target ((replicate 32 0)[0 := 136, 1 := 0, 4 := 0x60]))[24 := 2, 25 := 1])
    = [136, 0] @ [0, 0] @ na_body target"
    using assms
    by (simp add: copy_into_def list_update_append numeral_eq_Suc na_body_def GATEWAY_MAC_def)
  then show ?thesis
    unfolding build_ndp_na_def Let_def by (simp add: put_checksum_split)
qed

definition ra_body :: "bytes \<Rightarrow> bytes" where
  "ra_body p = [64, 0] @ to_be16 1800 @ replicate 8 0 @ [3, 4, 64, 0xC0] @ to_be32 86400
     @ to_be32 14400 @ [0, 0, 0, 0] @ p @ [1, 1] @ GATEWAY_MAC"

lemma ra_layout [frame_simps]:
  assumes "length p = 16"
  shows "build_ra p =
    ALL_NODES_MAC @ GATEWAY_MAC @ [0x86, 0xDD, 0x60, 0, 0, 0] @ to_be16 56 @ [58, 255]
    @ GATEWAY_IP6_LL @ ALL_NODES_IP6
    @ [134, 0] @ to_be16 (icmpv6_checksum GATEWAY_IP6_LL ALL_NODES_IP6 ([134, 0] @ [0, 0] @ ra_body p))
    @ ra_body p"
proof -
  have 1: "copy_into 6 (to_be16 1800) ((replicate 56 0)[0 := 134, 4 := 64]) =
      [134, 0, 0, 0, 64, 0] @ to_be16 1800 @ replicate 48 0"
    by (simp add: copy_into_def numeral_eq_Suc)
  have 2: "([134, 0, 0, 0, 64, 0] @ to_be16 1800 @ replicate 48 0)[16 := 3, 17 := 4, 18 := 64, 19 := 0xC0]
      = [134, 0, 0, 0, 64, 0] @ to_be16 1800 @ replicate 8 0 @ [3, 4, 64, 0xC0] @ replicate 36 0"
    by (simp add: list_update_append numeral_eq_Suc)
  have 3: "copy_into 32 p (copy_into 24 (to_be32 14400) (copy_into 20 (to_be32 86400)
        ([134, 0, 0, 0, 64, 0] @ to_be16 1800 @ replicate 8 0 @ [3, 4, 64, 0xC0] @ replicate 36 0)))
      = [134, 0, 0, 0, 64, 0] @ to_be16 1800 @ replicate 8 0 @ [3, 4, 64, 0xC0] @ to_be32 86400
        @ to_be32 14400 @ [0, 0, 0, 0] @ p @ replicate 8 0"
    using assms by (simp add: copy_into_def) (simp add: numeral_eq_Suc)
  have 4: "copy_into 50 GATEWAY_MAC
        (([134, 0, 0, 0, 64, 0] @ to_be16 1800 @ replicate 8 0 @ [3, 4, 64, 0xC0] @ to_be32 86400
        @ to_be32 14400 @ [0, 0, 0, 0] @ p @ replicate 8 0)[48 := 1, 49 := 1])
      = 134 # 0 # 0 # 0 # ra_body p"
    using assms by (simp add: list_update_append copy_into_def ra_body_def numeral_eq_Suc)
  show ?thesis unfolding build_ra_def Let_def 1 2 3 4 by (simp add: put_checksum_split)
qed

section \<open>Frame processing never panics, and what it does to the state\<close>

lemma is_icmpv6_type_eq:
  "is_icmpv6_type ty f = Some (54 < length f \<and> f ! 20 = 58 \<and> f ! 54 = ty)"
  by (auto simp: is_icmpv6_type_def)

lemma handle_arp_total: "\<exists>es. handle_arp f st = Some es \<and> (\<forall>e\<in>set es. \<exists>b. e = ToAvf b)"
  by (cases "vm_mac st") (auto simp: handle_arp_def)

lemma handle_ndp_ns_total: "\<exists>c es. handle_ndp_ns f st = Some (c, es) \<and> (\<forall>e\<in>set es. \<exists>b. e = ToAvf b)"
  by (cases "vm_mac st") (auto simp: handle_ndp_ns_def)

text \<open>
  The address the machine may claim: a global address inside the advertised prefix, not the
  unspecified address of a duplicate-address probe.
\<close>

definition in_prefix :: "relay_state \<Rightarrow> bytes \<Rightarrow> bool" where
  "in_prefix st g = (\<exists>p. gua_prefix st = Some p \<and> take 8 g = take 8 p \<and> g \<noteq> replicate 16 0)"

definition granted :: "(string \<Rightarrow> bytes \<Rightarrow> bool) \<Rightarrow> relay_effect list \<Rightarrow> nat" where
  "granted alias_ok es =
     length (filter (\<lambda>e. case e of AssignAlias i a \<Rightarrow> alias_ok i a | _ \<Rightarrow> False) es)"

definition claimed :: "relay_state \<Rightarrow> nat" where
  "claimed st = (case vm_gua st of None \<Rightarrow> 0 | Some _ \<Rightarrow> 1)"

definition relay_rel :: "(string \<Rightarrow> bytes \<Rightarrow> bool) \<Rightarrow> relay_state \<Rightarrow> relay_effect list \<Rightarrow> relay_state \<Rightarrow> bool" where
  "relay_rel alias_ok st es st' =
     (gateway_ip4 st' = gateway_ip4 st \<and> gua_prefix st' = gua_prefix st \<and> utun_iface st' = utun_iface st \<and>
      (vm_mac st \<noteq> None \<longrightarrow> vm_mac st' = vm_mac st) \<and>
      (vm_gua st \<noteq> None \<longrightarrow> vm_gua st' = vm_gua st) \<and>
      granted alias_ok es + claimed st = claimed st' \<and>
      (\<forall>g. vm_gua st' = Some g \<longrightarrow> vm_gua st = Some g \<or> in_prefix st g))"

lemma relay_rel_trans:
  "relay_rel ok st es st1 \<Longrightarrow> relay_rel ok st1 es' st2 \<Longrightarrow> relay_rel ok st (es @ es') st2"
  by (fastforce simp: relay_rel_def granted_def in_prefix_def)

lemma granted_only_frames:
  "\<forall>e\<in>set es. (\<exists>b. e = ToAvf b) \<or> (\<exists>b. e = ToUtun b) \<Longrightarrow> granted ok es = 0"
  by (auto simp: granted_def filter_empty_conv split: relay_effect.splits)

lemma relay_rel_frames:
  assumes "\<forall>e\<in>set es. (\<exists>b. e = ToAvf b) \<or> (\<exists>b. e = ToUtun b)"
  shows "relay_rel ok st es st"
  using granted_only_frames[OF assms] by (simp add: relay_rel_def)

lemma relay_rel_learn: "relay_rel ok st [] (learn_mac m st)"
  by (auto simp: relay_rel_def granted_def claimed_def learn_mac_def)

lemma maybe_assign_total:
  "\<exists>es st'. maybe_assign_gua_alias ok f st = Some (es, st') \<and> relay_rel ok st es st' \<and>
     vm_mac st' = vm_mac st"
  by (auto simp: maybe_assign_gua_alias_def relay_rel_def granted_def claimed_def in_prefix_def
      split: option.split)

lemma handle_rs_frames: "\<forall>e\<in>set (handle_rs st). \<exists>b. e = ToAvf b"
  by (cases "gua_prefix st") (simp_all add: handle_rs_def)

lemma dispatch_avf_total:
  assumes "14 \<le> length f"
  shows "\<exists>es st'. dispatch_avf ok f st = Some (es, st') \<and> relay_rel ok st es st' \<and> vm_mac st' = vm_mac st"
proof -
  obtain es_a where arp: "handle_arp f st = Some es_a" "\<forall>e\<in>set es_a. \<exists>b. e = ToAvf b"
    using handle_arp_total by blast
  obtain c es_n where ndp: "handle_ndp_ns f st = Some (c, es_n)" "\<forall>e\<in>set es_n. \<exists>b. e = ToAvf b"
    using handle_ndp_ns_total by blast
  obtain es_m st_m where al: "maybe_assign_gua_alias ok f st = Some (es_m, st_m)"
      "relay_rel ok st es_m st_m" "vm_mac st_m = vm_mac st"
    using maybe_assign_total by blast
  have frames: "relay_rel ok st es_a st" "relay_rel ok st es_n st"
      "relay_rel ok st (handle_rs st) st" "relay_rel ok st [ToUtun x] st" "relay_rel ok st [] st"
      "relay_rel ok st_m [ToUtun x] st_m" for x
    using arp ndp handle_rs_frames[of st] by (auto intro!: relay_rel_frames)
  note forwarded = relay_rel_trans[OF al(2) frames(6)]
    relay_rel_trans[OF frames(2) relay_rel_trans[OF al(2) frames(6)]]
  show ?thesis
    unfolding dispatch_avf_def is_icmpv6_rs_def is_ndp_ns_def is_icmpv6_type_eq Let_def
    using assms arp(1) ndp(1) al(1,3) frames forwarded by simp
qed

lemma process_avf_frame_total:
  "\<exists>es st'. process_avf_frame ok f st = Some (es, st') \<and> relay_rel ok st es st' \<and>
     (14 \<le> length f \<longrightarrow> vm_mac st' = vm_mac (learn_mac (sub 6 12 f) st))"
proof (cases "length f < 14")
  case True
  then show ?thesis by (simp add: process_avf_frame_def relay_rel_frames)
next
  case False
  then show ?thesis
    using dispatch_avf_total[of f ok "learn_mac (sub 6 12 f) st"] relay_rel_trans[OF relay_rel_learn]
    by (fastforce simp: process_avf_frame_def)
qed

lemma process_utun_total:
  "\<exists>es. process_utun_packet p st = Some es \<and> (\<forall>e\<in>set es. \<exists>b. e = ToAvf b)"
  by (cases "vm_mac st") (simp_all add: process_utun_packet_def Let_def)

lemma drain_avf_total: "\<exists>es st'. drain_avf ok fs st = Some (es, st') \<and> relay_rel ok st es st'"
proof (induction fs arbitrary: st)
  case Nil
  show ?case by (simp add: relay_rel_frames)
next
  case (Cons f fs)
  obtain es st1 where 1: "process_avf_frame ok (take (65536 + 14) f) st = Some (es, st1)"
      "relay_rel ok st es st1"
    using process_avf_frame_total by blast
  obtain es' st2 where 2: "drain_avf ok fs st1 = Some (es', st2)" "relay_rel ok st1 es' st2"
    using Cons.IH by blast
  show ?case using 1 2 relay_rel_trans[OF 1(2) 2(2)] by simp
qed

lemma drain_utun_total: "\<exists>es. drain_utun ps st = Some es \<and> (\<forall>e\<in>set es. \<exists>b. e = ToAvf b)"
proof (induction ps)
  case (Cons p ps)
  obtain es where "process_utun_packet (take (65536 + 4) p) st = Some es" "\<forall>e\<in>set es. \<exists>b. e = ToAvf b"
    using process_utun_total by blast
  with Cons show ?case by auto
qed simp

lemma relay_iteration_total:
  "\<exists>es st' l go. relay_iteration ok ev st last_ra = Some (es, st', l, go) \<and> relay_rel ok st es st'"
proof (cases ev)
  case (PollFailed i)
  then show ?thesis by (simp add: relay_iteration_def relay_rel_frames)
next
  case (Polled fs ac ps uc now)
  obtain es1 st1 where 1: "drain_avf ok fs st = Some (es1, st1)" "relay_rel ok st es1 st1"
    using drain_avf_total by blast
  obtain es2 where 2: "drain_utun ps st1 = Some es2" "\<forall>e\<in>set es2. \<exists>b. e = ToAvf b"
    using drain_utun_total by blast
  have r2: "relay_rel ok st1 es2 st1" using 2 by (auto intro!: relay_rel_frames)
  have ra: "relay_rel ok st1 (case gua_prefix st1 of Some p \<Rightarrow> [ToAvf (build_ra p)] | None \<Rightarrow> []) st1"
    by (cases "gua_prefix st1") (simp_all add: relay_rel_frames)
  note r12 = relay_rel_trans[OF 1(2) r2]
  note r12a = relay_rel_trans[OF 1(2) relay_rel_trans[OF r2 ra]]
  show ?thesis using Polled 1 2 r12 r12a by (auto simp: relay_iteration_def)
qed

lemma relay_loop_total:
  "\<exists>es st'. relay_loop ok evs st l = Some (es, st') \<and> relay_rel ok st es st'"
proof (induction evs arbitrary: st l)
  case Nil
  show ?case by (simp add: relay_rel_frames)
next
  case (Cons ev evs)
  obtain es st1 l1 go where 1: "relay_iteration ok ev st l = Some (es, st1, l1, go)"
      "relay_rel ok st es st1"
    using relay_iteration_total by blast
  obtain es' st2 where 2: "relay_loop ok evs st1 l1 = Some (es', st2)" "relay_rel ok st1 es' st2"
    using Cons.IH by blast
  show ?case using 1 2 relay_rel_trans[OF 1(2) 2(2)] by simp
qed

section \<open>The properties of the relay\<close>

text \<open>
  C29: safety of the relay thread. Whatever frames and packets arrive, in whatever order and of
  whatever length, the relay never indexes a frame out of range; it asks the helper
  successfully for at most one address alias in its lifetime, the address it records lies in
  the advertised prefix and is not the unspecified address, and it keeps its configuration.
\<close>

theorem relay_run_safe:
  "\<exists>es st. run_relay alias_ok iface gw prefix start evs = Some (es, st) \<and>
     granted alias_ok es \<le> 1 \<and>
     gateway_ip4 st = gw \<and> utun_iface st = iface \<and> gua_prefix st = prefix \<and>
     (case vm_gua st of None \<Rightarrow> True
      | Some g \<Rightarrow> (case prefix of None \<Rightarrow> False
                   | Some p \<Rightarrow> take 8 g = take 8 p \<and> g \<noteq> replicate 16 0))"
proof -
  obtain es st where run: "run_relay alias_ok iface gw prefix start evs = Some (es, st)"
      and rel: "relay_rel alias_ok (init_relay iface gw prefix) es st"
    using relay_loop_total[of alias_ok evs "init_relay iface gw prefix" start]
    by (auto simp: run_relay_def)
  have "granted alias_ok es = claimed st" "claimed st \<le> 1"
    using rel by (auto simp: relay_rel_def init_relay_def claimed_def split: option.splits)
  then show ?thesis using run rel
    by (auto simp: relay_rel_def init_relay_def in_prefix_def split: option.splits)
qed

text \<open>
  the machine's MAC address is learned from its first frame of at least 14 bytes and every
  later frame leaves it unchanged, so packets from the host keep going to the same address.
\<close>

theorem relay_mac_learned_once:
  assumes "14 \<le> length frame" and "process_avf_frame alias_ok frame st = Some (es, st')"
  shows "vm_mac st' = (case vm_mac st of None \<Rightarrow> Some (sub 6 12 frame) | Some m \<Rightarrow> Some m)"
  using process_avf_frame_total[of alias_ok frame st] assms
  by (auto simp: learn_mac_def split: option.split)

theorem relay_mac_learned_once_witness:
  "vm_mac (snd (the (process_avf_frame (\<lambda>_ _. True)
      ([2, 0, 0, 0, 0, 1] @ [10, 11, 12, 13, 14, 15] @ [8, 0] @ [69])
      (init_relay ''utun10'' [192, 168, 105, 1] None)))) = Some [10, 11, 12, 13, 14, 15]"
proof -
  let ?f = "[2, 0, 0, 0, 0, 1] @ [10, 11, 12, 13, 14, 15] @ [8, 0] @ [69] :: bytes"
  let ?st = "init_relay ''utun10'' [192, 168, 105, 1] None"
  obtain es st' where p: "process_avf_frame (\<lambda>_ _. True) ?f ?st = Some (es, st')"
    using process_avf_frame_total by blast
  from relay_mac_learned_once[OF _ p] p show ?thesis
    by (simp add: init_relay_def sub_def)
qed

text \<open>
  C30: neighbour discovery for the gateway. A neighbour solicitation for one of the two gateway
  addresses is answered with exactly one advertisement and is not forwarded to the host; the
  answer is an 86-byte frame from the gateway to the machine's MAC address: an IPv6 packet of
  32 bytes of ICMPv6 with hop limit 255 from the address asked for to the asker, of type 136 and
  code 0 (neighbour advertisement) with the flags solicited and override, the address asked for
  as its target, and one option, the target link-layer address, holding the gateway's MAC address;
  its checksum is one the receiver accepts (it sums to zero).
\<close>

theorem relay_answers_ns:
  assumes "78 \<le> length frame" and "frame ! 12 = 0x86" and "frame ! 13 = 0xDD"
    and "frame ! 20 = 58" and "frame ! 54 = 135"
    and target: "sub 62 78 frame = GATEWAY_IP6_LL \<or> sub 62 78 frame = GATEWAY_IP6_ULA"
    and mac: "vm_mac st = Some mac" "length mac = 6"
  shows "\<exists>na. process_avf_frame alias_ok frame st = Some ([ToAvf na], st) \<and> length na = 86 \<and>
    sub 0 14 na = mac @ GATEWAY_MAC @ [0x86, 0xDD] \<and> sub 14 22 na = [0x60, 0, 0, 0, 0, 32, 58, 255] \<and>
    sub 22 38 na = sub 62 78 frame \<and> sub 38 54 na = sub 22 38 frame \<and>
    sub 54 56 na = [136, 0] \<and> sub 58 62 na = [0x60, 0, 0, 0] \<and> sub 62 78 na = sub 62 78 frame \<and>
    sub 78 86 na = [2, 1] @ GATEWAY_MAC \<and>
    icmpv6_checksum (sub 22 38 na) (sub 38 54 na) (sub 54 86 na) = 0"
proof -
  define t where "t = sub 62 78 frame"
  define src where "src = sub 22 38 frame"
  define na where "na = build_ndp_na mac t src"
  define ck where "ck = to_be16 (icmpv6_checksum t src ([136, 0] @ [0, 0] @ na_body t))"
  have len: "length t = 16" "length src = 16" using assms(1) by (simp_all add: t_def src_def)
  have "from_be16 0x86 0xDD = 0x86DD" by (simp add: from_be16_def)
  then have "process_avf_frame alias_ok frame st = Some ([ToAvf na], st)"
    using assms
    by (auto simp: process_avf_frame_def dispatch_avf_def learn_mac_def is_icmpv6_rs_def is_ndp_ns_def
        is_icmpv6_type_eq handle_ndp_ns_def na_def t_def src_def)
  moreover have layout: "na = (mac @ GATEWAY_MAC @ [0x86, 0xDD]) @ ([0x60, 0, 0, 0] @ to_be16 32 @ [58, 255])
      @ t @ src @ [136, 0] @ ck @ na_body t"
    unfolding na_def ck_def by (simp add: ndp_na_layout[OF len(1)])
  moreover have ckl: "length ck = 2" and "length (na_body t) = 28"
    using len by (simp_all add: ck_def na_body_def)
  moreover have "icmpv6_checksum t src ([136, 0] @ ck @ na_body t) = 0"
    unfolding ck_def using len by (intro relay_ck.receiver_accepts) (simp_all add: na_body_def)
  ultimately show ?thesis
    using len mac(2) unfolding t_def[symmetric] src_def[symmetric]
    by (intro exI[of _ na]) (simp add: sub_def nth_append to_be16_def na_body_def)
qed

text \<open>A solicitation for fe80::1 from fe80::2, sent by the machine 0a:0b:0c:0d:0e:0f.\<close>

definition sample_ns :: bytes where
  "sample_ns = [2, 0, 0, 0, 0, 1] @ [10, 11, 12, 13, 14, 15] @ [0x86, 0xDD] @ [0x60, 0, 0, 0, 0, 32, 58, 255]
     @ [0xfe, 0x80, 0, 0, 0, 0, 0, 0, 0, 0, 0, 0, 0, 0, 0, 2] @ GATEWAY_IP6_LL
     @ [135, 0, 0, 0, 0, 0, 0, 0] @ GATEWAY_IP6_LL @ [1, 1] @ [10, 11, 12, 13, 14, 15]"

definition sample_state :: relay_state where
  "sample_state = (init_relay ''utun10'' [192, 168, 105, 1] None)\<lparr>vm_mac := Some [10, 11, 12, 13, 14, 15]\<rparr>"

theorem relay_answers_ns_witness:
  "\<exists>na. process_avf_frame (\<lambda>_ _. True) sample_ns sample_state = Some ([ToAvf na], sample_state) \<and>
    length na = 86 \<and> sub 0 14 na = [10, 11, 12, 13, 14, 15] @ GATEWAY_MAC @ [0x86, 0xDD] \<and> sub 14 22 na = [0x60, 0, 0, 0, 0, 32, 58, 255] \<and>
    sub 22 38 na = sub 62 78 sample_ns \<and> sub 38 54 na = sub 22 38 sample_ns \<and>
    sub 54 56 na = [136, 0] \<and> sub 58 62 na = [0x60, 0, 0, 0] \<and> sub 62 78 na = sub 62 78 sample_ns \<and>
    sub 78 86 na = [2, 1] @ GATEWAY_MAC \<and>
    icmpv6_checksum (sub 22 38 na) (sub 38 54 na) (sub 54 86 na) = 0"
  by (rule relay_answers_ns)
     (simp_all add: sample_ns_def sample_state_def sub_def GATEWAY_IP6_LL_def)

text \<open>
  router discovery. A router solicitation is answered with exactly one advertisement for
  the configured prefix, or with nothing when there is none; it never reaches the host and
  never changes the address the relay has recorded for the machine.
\<close>

theorem relay_answers_rs:
  assumes "54 < length frame" and "frame ! 12 = 0x86" and "frame ! 13 = 0xDD"
    and "frame ! 20 = 58" and "frame ! 54 = 133"
  shows "\<exists>st'. process_avf_frame alias_ok frame st =
      Some (case gua_prefix st of None \<Rightarrow> [] | Some p \<Rightarrow> [ToAvf (build_ra p)], st') \<and>
    vm_gua st' = vm_gua st"
proof -
  have "from_be16 0x86 0xDD = 0x86DD" by (simp add: from_be16_def)
  then show ?thesis
    using assms
    by (simp add: process_avf_frame_def dispatch_avf_def learn_mac_def is_icmpv6_rs_def
        is_icmpv6_type_eq handle_rs_def)
qed

theorem relay_answers_rs_witness:
  "\<exists>st'. process_avf_frame (\<lambda>_ _. True) (sample_ns[54 := 133]) sample_state =
      Some (case gua_prefix sample_state of None \<Rightarrow> [] | Some p \<Rightarrow> [ToAvf (build_ra p)], st') \<and>
    vm_gua st' = vm_gua sample_state"
  by (rule relay_answers_rs) (simp_all add: sample_ns_def GATEWAY_IP6_LL_def)

text \<open>
  the router advertisement. For every prefix the frame has 110 bytes, announces exactly
  that prefix, comes from the link-local gateway with hop limit 255, and carries a checksum
  the receiver accepts.
\<close>

theorem ra_well_formed:
  assumes "length p = 16"
  shows "length (build_ra p) = 110 \<and> sub 86 102 (build_ra p) = p \<and> build_ra p ! 21 = 255 \<and>
    sub 22 38 (build_ra p) = GATEWAY_IP6_LL \<and>
    icmpv6_checksum GATEWAY_IP6_LL ALL_NODES_IP6 (sub 54 110 (build_ra p)) = 0"
proof -
  define ck where "ck = to_be16 (icmpv6_checksum GATEWAY_IP6_LL ALL_NODES_IP6 ([134, 0] @ [0, 0] @ ra_body p))"
  have layout: "build_ra p = (ALL_NODES_MAC @ GATEWAY_MAC @ [0x86, 0xDD, 0x60, 0, 0, 0] @ to_be16 56 @ [58, 255])
      @ GATEWAY_IP6_LL @ ALL_NODES_IP6 @ [134, 0] @ ck @ ra_body p"
    unfolding ck_def by (simp add: ra_layout[OF assms])
  have len: "length ck = 2" "length (ra_body p) = 52" using assms by (simp_all add: ck_def ra_body_def)
  have "icmpv6_checksum GATEWAY_IP6_LL ALL_NODES_IP6 ([134, 0] @ ck @ ra_body p) = 0"
    unfolding ck_def using len by (intro relay_ck.receiver_accepts) simp_all
  moreover have "sub 28 44 (ra_body p) = p" using assms by (simp add: ra_body_def sub_def)
  ultimately show ?thesis
    using len by (simp add: layout sub_def nth_append)
qed

theorem ra_well_formed_witness:
  "length (build_ra (replicate 16 32)) = 110"
  using ra_well_formed[of "replicate 16 32"] by simp

text \<open>
  address resolution. An ARP request for the gateway address is answered with one reply
  that gives the gateway's MAC address to the asking machine; a request for any other address
  gets no answer, and neither reaches the host.
\<close>

theorem relay_answers_arp:
  assumes "42 \<le> length frame" and "frame ! 12 = 0x08" and "frame ! 13 = 0x06"
    and "frame ! 20 = 0" and "frame ! 21 = 1"
    and mac: "vm_mac st = Some mac" "length mac = 6" and "length (gateway_ip4 st) = 4"
  shows "process_avf_frame alias_ok frame st =
    Some (if sub 38 42 frame = gateway_ip4 st then
            [ToAvf (mac @ GATEWAY_MAC @ [0x08, 0x06, 0x00, 0x01, 0x08, 0x00, 6, 4, 0x00, 0x02]
               @ GATEWAY_MAC @ gateway_ip4 st @ mac @ sub 28 32 frame)]
          else [], st)"
proof -
  have "from_be16 0x08 0x06 = 0x0806" "from_be16 0 1 = 1" by (simp_all add: from_be16_def)
  then show ?thesis
    using assms
    by (simp add: process_avf_frame_def dispatch_avf_def learn_mac_def handle_arp_def arp_reply_layout)
qed

theorem relay_answers_arp_witness:
  "process_avf_frame (\<lambda>_ _. True)
     ([255, 255, 255, 255, 255, 255] @ [10, 11, 12, 13, 14, 15] @ [8, 6] @ [0, 1, 8, 0, 6, 4, 0, 1]
      @ [10, 11, 12, 13, 14, 15] @ [192, 168, 105, 2] @ [0, 0, 0, 0, 0, 0] @ [192, 168, 105, 1])
     sample_state =
   Some ([ToAvf ([10, 11, 12, 13, 14, 15] @ GATEWAY_MAC @ [8, 6, 0, 1, 8, 0, 6, 4, 0, 2]
      @ GATEWAY_MAC @ [192, 168, 105, 1] @ [10, 11, 12, 13, 14, 15] @ [192, 168, 105, 2])], sample_state)"
  by (subst relay_answers_arp[where mac = "[10, 11, 12, 13, 14, 15]"])
     (simp_all add: sample_state_def init_relay_def sub_def)

text \<open>
  the two directions are inverse. An IP packet that leaves the utun interface reaches the
  machine as an Ethernet frame from the gateway, and the same frame coming from a machine is
  turned back into exactly the original utun packet.
\<close>

lemma relay_translations_inverse:
  assumes "ip \<noteq> []" and "vm_mac st = Some mac" and "length mac = 6"
  shows "\<exists>f. process_utun_packet (TUN_HDR_IPV4 @ ip) st = Some [ToAvf f] \<and>
    sub 0 12 f = mac @ GATEWAY_MAC \<and>
    process_avf_frame alias_ok f st = Some ([ToUtun (TUN_HDR_IPV4 @ ip)], st)"
proof -
  let ?f = "mac @ GATEWAY_MAC @ [0x08, 0x00] @ ip"
  have "from_be16 0x08 0x00 = 0x0800" by (simp add: from_be16_def)
  moreover have "?f ! 12 = 0x08" "?f ! 13 = 0x00" using assms(3) by (simp_all add: nth_append)
  moreover have "14 \<le> length ?f" "sub 14 (length ?f) ?f = ip" using assms(3) by (simp_all add: sub_def)
  ultimately have "process_avf_frame alias_ok ?f st = Some ([ToUtun (TUN_HDR_IPV4 @ ip)], st)"
    using assms(2) by (simp add: process_avf_frame_def dispatch_avf_def learn_mac_def)
  moreover have "process_utun_packet (TUN_HDR_IPV4 @ ip) st = Some [ToAvf ?f]"
    using assms by (simp add: process_utun_packet_def TUN_HDR_IPV4_def from_be32_at_def from_be32_def
        sub_def Suc_le_eq)
  ultimately show ?thesis using assms(3) by (intro exI[of _ ?f]) (simp add: sub_def)
qed

lemma relay_translations_inverse_witness:
  "\<exists>f. process_utun_packet (TUN_HDR_IPV4 @ [69, 0]) sample_state = Some [ToAvf f] \<and>
    sub 0 12 f = [10, 11, 12, 13, 14, 15] @ GATEWAY_MAC \<and>
    process_avf_frame (\<lambda>_ _. True) f sample_state = Some ([ToUtun (TUN_HDR_IPV4 @ [69, 0])], sample_state)"
  by (rule relay_translations_inverse) (simp_all add: sample_state_def)

text \<open>
  duplicate-address detection is left alone. A frame whose IPv6 source is the unspecified
  address never makes the relay request an alias and never changes the recorded address.
\<close>

theorem relay_ignores_dad_probe:
  assumes "sub 22 38 frame = replicate 16 0"
    and "process_avf_frame alias_ok frame st = Some (es, st')"
  shows "vm_gua st' = vm_gua st \<and> (\<forall>i a. AssignAlias i a \<notin> set es)"
proof (cases "14 \<le> length frame")
  case False
  with assms(2) show ?thesis by (auto simp: process_avf_frame_def)
next
  case True
  define st1 where "st1 = learn_mac (sub 6 12 frame) st"
  have gua: "vm_gua st1 = vm_gua st" by (simp add: st1_def learn_mac_def)
  obtain es_a where arp: "handle_arp frame st1 = Some es_a" "\<forall>e\<in>set es_a. \<exists>b. e = ToAvf b"
    using handle_arp_total by blast
  obtain c es_n where ndp: "handle_ndp_ns frame st1 = Some (c, es_n)" "\<forall>e\<in>set es_n. \<exists>b. e = ToAvf b"
    using handle_ndp_ns_total by blast
  have al: "maybe_assign_gua_alias alias_ok frame st1 = Some ([], st1)"
    using assms(1) by (auto simp: maybe_assign_gua_alias_def split: option.split)
  from assms(2) True have "dispatch_avf alias_ok frame st1 = Some (es, st')"
    by (simp add: process_avf_frame_def st1_def)
  then show ?thesis
    using True arp ndp al gua handle_rs_frames[of st1]
    unfolding dispatch_avf_def is_icmpv6_rs_def is_ndp_ns_def is_icmpv6_type_eq Let_def
    by (auto split: if_splits)
qed

theorem relay_ignores_dad_probe_witness:
  "vm_gua (snd (the (process_avf_frame (\<lambda>_ _. True) (copy_into 22 (replicate 16 0) sample_ns)
     (sample_state\<lparr>gua_prefix := Some (replicate 16 0)\<rparr>)))) = None"
proof -
  let ?f = "copy_into 22 (replicate 16 0) sample_ns"
  let ?st = "sample_state\<lparr>gua_prefix := Some (replicate 16 0)\<rparr>"
  obtain es st' where p: "process_avf_frame (\<lambda>_ _. True) ?f ?st = Some (es, st')"
    using process_avf_frame_total by blast
  moreover have "sub 22 38 ?f = replicate 16 0"
    by (simp add: copy_into_def sub_def sample_ns_def)
  ultimately show ?thesis
    using relay_ignores_dad_probe[of ?f "\<lambda>_ _. True" ?st es st']
    by (simp add: sample_state_def init_relay_def)
qed

end
