(* ===== verification/Ipv6_Codec.thy ===== *)
theory Ipv6_Codec
  imports Ipv6_Text
begin

text \<open>
  Printing an IPv6 address and parsing the text gives the address back, for every form the
  printer uses: plain groups, a run of zeros written as \<open>::\<close>, and an embedded IPv4 address. The
  relay prints the address it wants routed, the helper parses it.
\<close>

section \<open>Groups of hexadecimal digits\<close>

lemma hex_digit_chr [simp]: "d < 16 \<Longrightarrow> hex_digit (hex_chr d) = Some d"
  by (simp add: hex_digit_def hex_chr_def Let_def)

lemma hex_chr_apart: "d < 16 \<Longrightarrow> hex_chr d \<noteq> CHR '':''" "d < 16 \<Longrightarrow> hex_chr d \<noteq> CHR ''.''"
  using hex_digit_chr[of d] by (auto simp: hex_digit_def Let_def)

fun hex_digits :: "nat \<Rightarrow> nat list" where
  "hex_digits n = (if n < 16 then [n] else hex_digits (n div 16) @ [n mod 16])"

declare hex_digits.simps [simp del]

lemma show_hex_digits: "show_hex n = map hex_chr (hex_digits n)"
proof (induction n rule: show_hex.induct)
  case (1 n)
  then show ?case by (simp add: show_hex.simps[of n] hex_digits.simps[of n])
qed

lemma hex_digits_props:
  "list_all (\<lambda>d. d < 16) (hex_digits n)" "hex_digits n \<noteq> []" "fold (\<lambda>d a. 16 * a + d) (hex_digits n) 0 = n"
  by (induction n rule: hex_digits.induct) (subst hex_digits.simps; simp)+

lemma length_hex_digits: "n < 16 ^ k \<Longrightarrow> 0 < k \<Longrightarrow> length (hex_digits n) \<le> k"
proof (induction k arbitrary: n)
  case (Suc k)
  show ?case
  proof (cases "n < 16")
    case False
    then have "0 < k" "n div 16 < 16 ^ k" using Suc.prems by (cases k; simp)+
    with Suc.IH[of "n div 16"] show ?thesis by (subst hex_digits.simps) simp
  qed (simp add: hex_digits.simps)
qed simp

definition hex_stop :: "string \<Rightarrow> bool" where
  "hex_stop r = (case r of [] \<Rightarrow> True | c # _ \<Rightarrow> hex_digit c = None)"

lemma read_hex_digits:
  assumes "list_all (\<lambda>d. d < 16) ds" and "k + length ds \<le> 4" and "0 < k + length ds" and "hex_stop r"
  shows "read_hex k acc (map hex_chr ds @ r) = Some (fold (\<lambda>d a. 16 * a + d) ds acc, r)"
  using assms by (induction ds arbitrary: k acc) (auto simp: hex_stop_def split: list.splits)

lemma read_hex_show:
  assumes "hex_stop r"
  shows "read_hex 0 0 (show_hex (unat (g :: u16)) @ r) = Some (unat g, r)"
proof -
  have "unat g < 16 ^ 4" using unat_bounds(2)[of g] by simp
  then have "length (hex_digits (unat g)) \<le> 4" by (rule length_hex_digits) simp
  then show ?thesis
    using read_hex_digits[of "hex_digits (unat g)" 0 r 0] hex_digits_props[of "unat g"] assms
    by (simp add: show_hex_digits)
qed

lemma show_hex_no_dot: "CHR ''.'' \<notin> set (show_hex n)"
  using hex_digits_props(1)[of n] hex_chr_apart(2) by (fastforce simp: show_hex_digits list_all_iff)

lemma show_hex_head: "\<exists>d t. d < 16 \<and> show_hex n = hex_chr d # t"
  using hex_digits_props(1,2)[of n] by (cases "hex_digits n") (auto simp: show_hex_digits)

section \<open>Sequences of groups\<close>

text \<open>The groups after the first, each with its separator.\<close>

definition more_groups :: "u16 list \<Rightarrow> string" where
  "more_groups gs = concat (map (\<lambda>g. CHR '':'' # show_hex (unat g)) gs)"

lemma more_groups_simps [simp]:
  "more_groups [] = []" "more_groups (g # gs) = CHR '':'' # show_hex (unat g) @ more_groups gs"
  by (simp_all add: more_groups_def)

lemma show_segs_Cons: "show_segs (g # gs) = show_hex (unat g) @ more_groups gs"
  by (induction gs arbitrary: g) (simp_all add: show_segs_def join_def)

lemma show_segs_Nil [simp]: "show_segs [] = []"
  by (simp add: show_segs_def join_def)

lemma no_dot_groups: "CHR ''.'' \<notin> set (more_groups gs)" "CHR ''.'' \<notin> set (show_segs gs)"
proof -
  show "CHR ''.'' \<notin> set (more_groups gs)" by (induction gs) (auto simp: show_hex_no_dot)
  then show "CHR ''.'' \<notin> set (show_segs gs)"
    by (cases gs) (auto simp: show_segs_Cons show_hex_no_dot more_groups_def)
qed

lemma read_octet_rest: "read_octet s = Some (w, r) \<Longrightarrow> set r \<subseteq> set s"
  by (auto simp: read_octet_def Let_def dest: set_dropWhileD)

lemma read_ipv4_no_dot: "CHR ''.'' \<notin> set s \<Longrightarrow> read_ipv4 s = None"
proof -
  assume no: "CHR ''.'' \<notin> set s"
  show ?thesis
  proof (cases "read_octet s")
    case (Some p)
    then have "CHR ''.'' \<notin> set (snd p)" using no read_octet_rest[of s "fst p" "snd p"] by auto
    then have "read_chr CHR ''.'' (snd p) = None" by (auto simp: read_chr_def split: list.split)
    then show ?thesis using Some by (simp add: read_ipv4_def split_beta)
  qed (simp add: read_ipv4_def)
qed

text \<open>What may follow the groups: nothing, or the mark of a run of zeros.\<close>

definition group_end :: "string \<Rightarrow> bool" where
  "group_end r = (CHR ''.'' \<notin> set r \<and> (r = [] \<or> (\<exists>t. r = CHR '':'' # CHR '':'' # t)))"

lemma group_end_hex: "group_end r \<Longrightarrow> hex_stop (more_groups gs @ r)"
  by (cases gs) (auto simp: group_end_def hex_stop_def hex_digit_def Let_def)

lemma read_groups_end: "group_end r \<Longrightarrow> read_groups limit i r = ([], False, r)"
proof -
  assume r: "group_end r"
  then have none: "read_ipv4 r = None" "read_ipv4 (tl r) = None"
    by (auto simp: group_end_def intro!: read_ipv4_no_dot dest: list.set_sel(2)[rotated])
  have "Option.bind (read_sep CHR '':'' i r) read_ipv4 = None" "Option.bind (read_sep CHR '':'' i r) (read_hex 0 0) = None"
    using r none by (auto simp: group_end_def read_sep_def read_chr_def hex_digit_def Let_def)
  then show ?thesis by (subst read_groups.simps) simp
qed

lemma read_groups_more:
  assumes "group_end r" and "0 < i" and "i + length gs \<le> limit"
  shows "read_groups limit i (more_groups gs @ r) = (gs, False, r)"
  using assms(2,3)
proof (induction gs arbitrary: i)
  case (Cons g gs)
  have dot: "CHR ''.'' \<notin> set (show_hex (unat g) @ more_groups gs @ r)"
    using assms(1) by (simp add: show_hex_no_dot no_dot_groups group_end_def)
  have "read_groups limit (i + 1) (more_groups gs @ r) = (gs, False, r)" using Cons by simp
  then show ?case using Cons.prems
    by (subst read_groups.simps)
      (simp add: read_sep_def read_chr_def read_ipv4_no_dot[OF dot] read_hex_show[OF group_end_hex[OF assms(1)]])
qed (simp add: read_groups_end[OF assms(1)])

lemma read_groups_segs:
  assumes "group_end r" and "length gs \<le> limit"
  shows "read_groups limit 0 (show_segs gs @ r) = (gs, False, r)"
proof (cases gs)
  case (Cons g gs')
  have dot: "CHR ''.'' \<notin> set (show_hex (unat g) @ more_groups gs' @ r)"
    using assms(1) by (simp add: show_hex_no_dot no_dot_groups group_end_def)
  show ?thesis using assms(2) Cons read_groups_more[OF assms(1), of 1 gs' limit]
    by (subst read_groups.simps)
      (simp add: show_segs_Cons read_sep_def read_ipv4_no_dot[OF dot] read_hex_show[OF group_end_hex[OF assms(1)]])
qed (simp add: read_groups_end[OF assms(1)])

section \<open>The run of zeros\<close>

definition zero_at :: "u16 list \<Rightarrow> nat \<Rightarrow> nat \<Rightarrow> bool" where
  "zero_at gs st len = (st + len \<le> length gs \<and> take len (drop st gs) = replicate len 0)"

lemma zero_at_append: "zero_at p st len \<Longrightarrow> zero_at (p @ q) st len"
  by (auto simp: zero_at_def)

lemma zero_at_extend: "zero_at p st len \<Longrightarrow> st + len = length p \<Longrightarrow> zero_at (p @ [0]) st (Suc len)"
  by (auto simp: zero_at_def replicate_append_same[symmetric])

lemma longest_run_zero:
  assumes "zero_at p ls ll" and "cl = 0 \<or> zero_at p cs cl \<and> cs + cl = length p"
  shows "case longest_run (length p) cs cl ls ll gs of (st, len) \<Rightarrow> zero_at (p @ gs) st len"
  using assms
proof (induction gs arbitrary: p cs cl ls ll)
  case (Cons g gs)
  show ?case
  proof (cases "g = 0")
    case True
    let ?cs = "if cl = 0 then length p else cs"
    have "zero_at p ?cs cl \<and> ?cs + cl = length p" using Cons.prems(2) by (auto simp: zero_at_def)
    then have z: "zero_at (p @ [g]) ?cs (Suc cl)" "?cs + Suc cl = length (p @ [g])"
      using True zero_at_extend by auto
    show ?thesis
      using Cons.IH[of "p @ [g]" "?cs" "Suc cl" "Suc cl" "?cs"] Cons.IH[of "p @ [g]" ls ll "Suc cl" "?cs"]
        z zero_at_append[OF Cons.prems(1), of "[g]"] True
      by (auto simp: Let_def)
  next
    case False
    then show ?thesis using Cons.IH[of "p @ [g]" ls ll 0 0] zero_at_append[OF Cons.prems(1), of "[g]"] by simp
  qed
qed simp

lemma longest_run_split:
  assumes "longest_run 0 0 0 0 0 gs = (st, len)"
  shows "st + len \<le> length gs" "gs = take st gs @ replicate len 0 @ drop (st + len) gs"
proof -
  have "zero_at gs st len" using longest_run_zero[of "[]" 0 0 0 0 gs] assms by (simp add: zero_at_def)
  then have z: "st + len \<le> length gs" "take len (drop st gs) = replicate len 0" by (auto simp: zero_at_def)
  then show "st + len \<le> length gs" by simp
  have "gs = take st gs @ take len (drop st gs) @ drop len (drop st gs)"
    by (simp only: append_take_drop_id)
  then show "gs = take st gs @ replicate len 0 @ drop (st + len) gs"
    unfolding z(2) drop_drop by (simp add: add.commute)
qed

section \<open>The round trip\<close>

lemma seg_bytes_segs: "even (length b) \<Longrightarrow> seg_bytes (segs b) = b"
  by (induction b rule: segs.induct) (auto simp: seg_bytes_def to_be16_def from_be16_bytes)

lemma length_segs: "length (segs b) = length b div 2"
  by (induction b rule: segs.induct) auto

lemma read_octet_show:
  assumes "r = [] \<or> \<not> is_digit (hd r)"
  shows "read_octet (show_word (w :: u8) @ r) = Some (w, r)"
proof -
  have "list_all is_digit (show_word w)" by (simp add: show_word_def show_nat_digits)
  then have "takeWhile is_digit (show_word w @ r) = show_word w" "dropWhile is_digit (show_word w @ r) = r"
    using assms by (auto simp: list_all_iff takeWhile_append dropWhile_append intro: takeWhile_eq_Nil_iff[THEN iffD2]
        dropWhile_eq_self_iff[THEN iffD2])
  then show ?thesis by (simp add: read_octet_def parse_octet_show)
qed

lemma read_ipv4_show: "read_ipv4 (show_ipv4 ip) = Some (ip, [])"
  using read_octet_show[of "[]"]
  by (cases ip) (simp add: read_ipv4_def read_octet_show read_chr_def is_digit_def)

lemma groups_mapped:
  "read_groups 8 0 (''::ffff:'' @ show_ipv4 ip) = ([], False, ''::ffff:'' @ show_ipv4 ip)"
  by (subst read_groups.simps)
    (simp add: read_sep_def read_ipv4_def read_octet_def parse_octet_def is_digit_def hex_digit_def del: show_ipv4.simps)

lemma groups_embedded:
  "read_groups 7 0 (''ffff:'' @ show_ipv4 (a, b, c, d)) = ([65535, from_be16 a b, from_be16 c d], True, [])"
proof -
  let ?v = "show_ipv4 (a, b, c, d)"
  have "read_groups 7 (0 + 1) (CHR '':'' # ?v) = ([from_be16 a b, from_be16 c d], True, [])"
    by (subst read_groups.simps) (simp add: read_sep_def read_chr_def read_ipv4_show del: show_ipv4.simps)
  moreover have "read_hex 0 0 (''ffff:'' @ ?v) = Some (65535, CHR '':'' # ?v)"
    by (simp add: hex_digit_def del: show_ipv4.simps)
  moreover have "read_ipv4 (''ffff:'' @ ?v) = None"
    by (simp add: read_ipv4_def read_octet_def parse_octet_def is_digit_def del: show_ipv4.simps)
  ultimately show ?thesis by (subst read_groups.simps) (simp add: read_sep_def del: show_ipv4.simps)
qed

lemma parse_mapped: "parse_ipv6 (''::ffff:'' @ show_ipv4 (a, b, c, d)) = Some (replicate 10 0 @ [255, 255, a, b, c, d])"
proof -
  have zeros: "seg_bytes (replicate 5 0 @ gs) = replicate 10 0 @ seg_bytes gs" for gs
    by (simp add: seg_bytes_def to_be16_def numeral_eq_Suc)
  have "seg_bytes [65535, from_be16 a b, from_be16 c d] = [255, 255, a, b, c, d]"
    by (simp add: seg_bytes_def to_be16_def from_be16_bytes)
  moreover have "strip_prefix ''::'' (''::ffff:'' @ show_ipv4 (a, b, c, d)) = Some (''ffff:'' @ show_ipv4 (a, b, c, d))"
    by (simp del: show_ipv4.simps)
  ultimately show ?thesis
    unfolding parse_ipv6_def groups_mapped by (simp add: groups_embedded zeros del: show_ipv4.simps append.simps(2) replicate.simps)
qed

lemma parse_show_ipv6:
  assumes "length b = 16"
  shows "parse_ipv6 (show_ipv6 b) = Some b"
proof -
  let ?gs = "segs b"
  have gs: "length ?gs = 8" "seg_bytes ?gs = b" using assms by (simp_all add: length_segs seg_bytes_segs)
  obtain st len where run: "longest_run 0 0 0 0 0 ?gs = (st, len)" by (cases "longest_run 0 0 0 0 0 ?gs")
  note split = longest_run_split[OF run]
  show ?thesis
  proof (cases "take 12 b = replicate 10 0 @ [255, 255]")
    case True
    have "b = take 12 b @ drop 12 b" by simp
    also have "drop 12 b = [b ! 12, b ! 13, b ! 14, b ! 15]"
      using assms by (intro nth_equalityI) (auto simp: less_Suc_eq numeral_eq_Suc)
    finally have "b = replicate 10 0 @ [255, 255, b ! 12, b ! 13, b ! 14, b ! 15]" using True by simp
    then show ?thesis using True parse_mapped[of "b ! 12" "b ! 13" "b ! 14" "b ! 15"] by (simp add: show_ipv6_def)
  next
    case False
    show ?thesis
    proof (cases "len > 1")
      case True
      let ?tail = "drop (st + len) ?gs"
      have st: "st < 8" "length (take st ?gs) = st" "length ?tail = 8 - (st + len)" using split gs True by auto
      have "group_end (''::'' @ show_segs ?tail)" by (simp add: group_end_def no_dot_groups)
      then have "read_groups 8 0 (show_segs (take st ?gs) @ ''::'' @ show_segs ?tail) = (take st ?gs, False, ''::'' @ show_segs ?tail)"
        using read_groups_segs st by simp
      moreover have "read_groups (8 - (st + 1)) 0 (show_segs ?tail @ []) = (?tail, False, [])"
        using st True by (intro read_groups_segs) (auto simp: group_end_def)
      moreover have "take st ?gs @ replicate (8 - st - length ?tail) 0 @ ?tail = ?gs"
      proof -
        have "8 - st - length ?tail = len" using split gs by simp
        then show ?thesis using split(2) by simp
      qed
      ultimately show ?thesis using False True run st gs by (simp add: show_ipv6_def parse_ipv6_def Let_def)
    next
      case no: False
      have "read_groups 8 0 (show_segs ?gs @ []) = (?gs, False, [])"
        using gs by (intro read_groups_segs) (auto simp: group_end_def)
      then show ?thesis using False no run gs by (simp add: show_ipv6_def parse_ipv6_def Let_def)
    qed
  qed
qed

end
