(* ===== verification/Relay_Control.thy ===== *)
theory Relay_Control
  imports Pfctl Tun_Relay Ipv6_Codec File_Copy
begin

text \<open>
  The relay as a client of the privileged helper: starting a relay, its handle, and the requests
  it sends (\<open>start\<close>, \<open>TunRelayHandle\<close>, \<open>pfctl_create_utun\<close>, \<open>pfctl_send\<close> and the functions after it in
  \<open>pelagos-vz/src/tun_relay.rs\<close>; the port forwards of \<open>Vm\<close> in \<open>vm.rs\<close>). The helper at the other end is
  the model of \<open>pelagos-pfctl\<close> itself (theory \<open>Pfctl\<close>), with the wire format its types derive.
\<close>

section \<open>The wire format\<close>

type_synonym tree = Guest_Protocol.json

definition num16 :: "u16 \<Rightarrow> tree" where
  "num16 w = JNum (uint w)"

fun de_u16 :: "tree \<Rightarrow> u16 option" where
  "de_u16 (JNum n) = (if 0 \<le> n \<and> n < 2 ^ 16 then Some (word_of_int n) else None)"
| "de_u16 _ = None"

definition action :: "string \<Rightarrow> (string \<times> tree) list \<Rightarrow> tree" where
  "action a kvs = JObj ((''action'', JStr a) # kvs)"

text \<open>The \<open>Req\<close> structs of the relay; \<open>create_utun\<close> is written as a literal.\<close>

fun ser_pf_request :: "request \<Rightarrow> tree" where
  "ser_pf_request (SetupUtun iface addr peer net egress) =
     action ''setup_utun'' [(''iface'', JStr iface), (''ipv4_addr'', JStr addr), (''ipv4_peer'', JStr peer),
       (''ipv4_cidr'', JStr net), (''egress_iface'', JStr egress)]"
| "ser_pf_request (TeardownUtun iface) = action ''teardown_utun'' [(''iface'', JStr iface)]"
| "ser_pf_request (AddRdr p hp ip vp) =
     action ''add_rdr'' [(''proto'', JStr p), (''host_port'', num16 hp), (''vm_ip'', JStr ip), (''vm_port'', num16 vp)]"
| "ser_pf_request (RemoveRdr p hp) = action ''remove_rdr'' [(''proto'', JStr p), (''host_port'', num16 hp)]"
| "ser_pf_request CreateUtun = action ''create_utun'' []"
| "ser_pf_request (AssignUtunAlias iface addr) =
     action ''assign_utun_alias'' [(''iface'', JStr iface), (''addr'', JStr addr)]"

text \<open>The derived \<open>Deserialize\<close> of the helper's \<open>Request\<close>, tagged by \<open>action\<close>.\<close>

definition de_pf_request :: "tree \<Rightarrow> request option" where
  "de_pf_request j =
     (case j of
        JObj obj \<Rightarrow> do {
          a \<leftarrow> required ''action'' de_str obj;
          if a = ''setup_utun'' then do {
            iface \<leftarrow> required ''iface'' de_str obj; addr \<leftarrow> required ''ipv4_addr'' de_str obj;
            peer \<leftarrow> required ''ipv4_peer'' de_str obj; net \<leftarrow> required ''ipv4_cidr'' de_str obj;
            egress \<leftarrow> required ''egress_iface'' de_str obj;
            Some (SetupUtun iface addr peer net egress) }
          else if a = ''teardown_utun'' then do {
            iface \<leftarrow> required ''iface'' de_str obj; Some (TeardownUtun iface) }
          else if a = ''add_rdr'' then do {
            p \<leftarrow> required ''proto'' de_str obj; hp \<leftarrow> required ''host_port'' de_u16 obj;
            ip \<leftarrow> required ''vm_ip'' de_str obj; vp \<leftarrow> required ''vm_port'' de_u16 obj;
            Some (AddRdr p hp ip vp) }
          else if a = ''remove_rdr'' then do {
            p \<leftarrow> required ''proto'' de_str obj; hp \<leftarrow> required ''host_port'' de_u16 obj;
            Some (RemoveRdr p hp) }
          else if a = ''create_utun'' then Some CreateUtun
          else if a = ''assign_utun_alias'' then do {
            iface \<leftarrow> required ''iface'' de_str obj; addr \<leftarrow> required ''addr'' de_str obj;
            Some (AssignUtunAlias iface addr) }
          else None }
      | _ \<Rightarrow> None)"

definition ser_pf_response :: "response \<Rightarrow> tree" where
  "ser_pf_response r =
     JObj ([(''ok'', JBool (resp_ok r))] @ opt_field ''error'' (resp_error r)
       @ (case resp_active r of None \<Rightarrow> [] | Some b \<Rightarrow> [(''active'', JBool b)]))"

text \<open>The \<open>Resp\<close> structs of the relay: \<open>ok\<close>, \<open>error\<close>, and \<open>iface\<close> after \<open>create_utun\<close>.\<close>

definition de_reply :: "tree \<Rightarrow> (bool \<times> string option) option" where
  "de_reply j =
     (case j of
        JObj obj \<Rightarrow> do {
          b \<leftarrow> required ''ok'' de_bool obj; e \<leftarrow> defaulted ''error'' (de_opt de_str) None obj; Some (b, e) }
      | _ \<Rightarrow> None)"

definition de_create_reply :: "tree \<Rightarrow> (bool \<times> string option \<times> string option) option" where
  "de_create_reply j =
     (case j of
        JObj obj \<Rightarrow> do {
          b \<leftarrow> required ''ok'' de_bool obj; e \<leftarrow> defaulted ''error'' (de_opt de_str) None obj;
          i \<leftarrow> defaulted ''iface'' (de_opt de_str) None obj; Some (b, e, i) }
      | _ \<Rightarrow> None)"

lemma de_num16 [wire_simps]: "de_u16 (num16 w) = Some w"
  using unsigned_less[of w, where 'a = int] by (simp add: num16_def)

lemma de_ser_pf_request: "de_pf_request (ser_pf_request r) = Some r"
  by (cases r) (simp_all add: action_def de_pf_request_def wire_simps)

lemma de_ser_reply: "de_reply (ser_pf_response r) = Some (resp_ok r, resp_error r)"
  by (cases "resp_error r"; cases "resp_active r")
    (simp_all add: ser_pf_response_def de_reply_def opt_field_def de_opt_def wire_simps)

section \<open>Talking to the helper\<close>

type_synonym pf_world = "daemon_state \<times> pf_event list"

text \<open>The system under the helper, the JSON library (\<open>serde_json\<close>) on both sides with the text of its
  errors, and the errors of the connection, each of which may depend on what has happened at the helper so far.\<close>

record helper_link =
  hl_os :: os
  hl_print :: "tree \<Rightarrow> string"
  hl_parse :: "string \<Rightarrow> tree option"
  hl_parse_err :: "string \<Rightarrow> string"
  hl_connect :: "pf_event list \<Rightarrow> string option"
  hl_write :: "pf_event list \<Rightarrow> string option"
  hl_read :: "pf_event list \<Rightarrow> string option"

definition helper_json :: "helper_link \<Rightarrow> Pfctl.json" where
  "helper_json hl =
     \<lparr>from_json = (\<lambda>l. case Option.bind (hl_parse hl l) de_pf_request of None \<Rightarrow> Inl (hl_parse_err hl l) | Some r \<Rightarrow> Inr r),
      to_json = (\<lambda>r. Some (hl_print hl (ser_pf_response r)))\<rparr>"

text \<open>One connection to the helper: the events it causes there, and the helper afterwards.\<close>

definition helper_answer :: "helper_link \<Rightarrow> string \<Rightarrow> pf_world \<Rightarrow> pf_event list \<times> pf_world" where
  "helper_answer hl msg w =
     (let w' = snd (run_state (serve_step (hl_os hl) (helper_json hl) (Some (Some msg))) w)
      in (drop (length (snd w)) (snd w'), w'))"

fun reply_text :: "pf_event list \<Rightarrow> string" where
  "reply_text [] = []"
| "reply_text (pf_event.Reply t # es) = t @ reply_text es"
| "reply_text (ReplyWithFd t # es) = t @ reply_text es"
| "reply_text (_ # es) = reply_text es"

fun has_fd :: "pf_event \<Rightarrow> bool" where
  "has_fd (ReplyWithFd _) = True"
| "has_fd _ = False"

definition or_empty :: "string option \<Rightarrow> string" where
  "or_empty e = (case e of None \<Rightarrow> [] | Some m \<Rightarrow> m)"

definition pfctl_send :: "helper_link \<Rightarrow> string \<Rightarrow> pf_world \<Rightarrow> (string + unit) \<times> pf_world" where
  "pfctl_send hl json w =
     (case hl_connect hl (snd w) of Some e \<Rightarrow> (Inl (''pfctl connect: '' @ e), w) | None \<Rightarrow>
     (case hl_write hl (snd w) of Some e \<Rightarrow> (Inl (''pfctl write: '' @ e), w) | None \<Rightarrow>
     (case helper_answer hl (json @ [nl]) w of (evs, w') \<Rightarrow>
     (case hl_read hl (snd w') of Some e \<Rightarrow> (Inl (''pfctl read: '' @ e), w') | None \<Rightarrow>
       (let resp = trim (case read_line (reply_text evs) of None \<Rightarrow> [] | Some (l, _) \<Rightarrow> l) in
        case Option.bind (hl_parse hl resp) de_reply of
          None \<Rightarrow> (Inl (''pfctl parse: '' @ hl_parse_err hl resp), w')
        | Some (b, e) \<Rightarrow> (if b then Inr () else Inl (''pfctl: '' @ or_empty e), w'))))))"

definition send_request :: "helper_link \<Rightarrow> request \<Rightarrow> pf_world \<Rightarrow> (string + unit) \<times> pf_world" where
  "send_request hl r w = pfctl_send hl (hl_print hl (ser_pf_request r)) w"

definition pfctl_setup_utun :: "helper_link \<Rightarrow> string \<Rightarrow> string \<Rightarrow> vm_subnet \<Rightarrow> pf_world \<Rightarrow> (string + unit) \<times> pf_world" where
  "pfctl_setup_utun hl iface egress subnet w =
     send_request hl (SetupUtun iface (show_ipv4 (host_ip4 subnet)) (show_ipv4 (guest_ip4 subnet)) (cidr subnet) egress) w"

definition pfctl_teardown_utun :: "helper_link \<Rightarrow> string \<Rightarrow> pf_world \<Rightarrow> (string + unit) \<times> pf_world" where
  "pfctl_teardown_utun hl iface w = send_request hl (TeardownUtun iface) w"

definition pfctl_assign_utun_alias :: "helper_link \<Rightarrow> string \<Rightarrow> string \<Rightarrow> pf_world \<Rightarrow> (string + unit) \<times> pf_world" where
  "pfctl_assign_utun_alias hl iface addr w = send_request hl (AssignUtunAlias iface addr) w"

definition add_rdr :: "helper_link \<Rightarrow> string \<Rightarrow> u16 \<Rightarrow> string \<Rightarrow> u16 \<Rightarrow> pf_world \<Rightarrow> (string + unit) \<times> pf_world" where
  "add_rdr hl p hp ip vp w = send_request hl (AddRdr p hp ip vp) w"

definition remove_rdr :: "helper_link \<Rightarrow> string \<Rightarrow> u16 \<Rightarrow> pf_world \<Rightarrow> (string + unit) \<times> pf_world" where
  "remove_rdr hl p hp w = send_request hl (RemoveRdr p hp) w"

text \<open>The port forwards of a machine.\<close>

definition add_port_forward :: "helper_link \<Rightarrow> ipv4 \<Rightarrow> string \<Rightarrow> u16 \<Rightarrow> u16 \<Rightarrow> pf_world \<Rightarrow> (string + unit) \<times> pf_world" where
  "add_port_forward hl guest_ip p hp vp w = add_rdr hl p hp (show_ipv4 guest_ip) vp w"

definition remove_port_forward :: "helper_link \<Rightarrow> string \<Rightarrow> u16 \<Rightarrow> pf_world \<Rightarrow> (string + unit) \<times> pf_world" where
  "remove_port_forward hl p hp w = remove_rdr hl p hp w"

text \<open>\<open>pfctl_create_utun\<close>: a literal request; the reply comes in one message of at most 256 bytes with
  the descriptor beside it.\<close>

definition create_request :: string where
  "create_request = [CHR 0x7B, CHR 0x22] @ ''action'' @ [CHR 0x22] @ '':'' @ [CHR 0x22] @ ''create_utun'' @ [CHR 0x22, CHR 0x7D]"

definition trim_reply :: "string \<Rightarrow> string" where
  "trim_reply s = (let p = (\<lambda>c. c = nl \<or> c = cr \<or> c = CHR '' '') in rev (dropWhile p (rev (dropWhile p s))))"

definition pfctl_create_utun :: "helper_link \<Rightarrow> pf_world \<Rightarrow> (string + string) \<times> pf_world" where
  "pfctl_create_utun hl w =
     (case hl_connect hl (snd w) of Some e \<Rightarrow> (Inl (''pfctl connect: '' @ e), w) | None \<Rightarrow>
     (case hl_write hl (snd w) of Some e \<Rightarrow> (Inl (''pfctl write: '' @ e), w) | None \<Rightarrow>
     (case helper_answer hl (create_request @ [nl]) w of (evs, w') \<Rightarrow>
     (case hl_read hl (snd w') of Some e \<Rightarrow> (Inl (''pfctl recvmsg: '' @ e), w') | None \<Rightarrow>
       (if reply_text evs = [] then (Inl ''pfctl recvmsg: '', w')
        else (let json_str = trim_reply (take 256 (reply_text evs)) in
          case Option.bind (hl_parse hl json_str) de_create_reply of
            None \<Rightarrow> (Inl (''pfctl parse '' @ debug_str json_str @ '': '' @ hl_parse_err hl json_str), w')
          | Some (b, e, iface) \<Rightarrow>
              if \<not> b then (Inl (''pfctl create_utun: '' @ or_empty e), w')
              else (case iface of
                      None \<Rightarrow> (Inl ''pfctl: create_utun response missing iface'', w')
                    | Some i \<Rightarrow> if list_ex has_fd evs then (Inr i, w')
                                else (Inl ''pfctl: no SCM_RIGHTS fd in create_utun response'', w'))))))))"

section \<open>Starting and dropping a relay\<close>

definition egress_of_line :: "string \<Rightarrow> string option" where
  "egress_of_line line = map_option trim (strip_prefix ''interface:'' (trim line))"

definition detect_egress_iface :: "cmd_result \<Rightarrow> string option" where
  "detect_egress_iface route =
     (case route of Inl _ \<Rightarrow> None | Inr out \<Rightarrow> first_some egress_of_line (str_lines (cmd_stdout out)))"

fun gua_in_lines :: "string list \<Rightarrow> bytes option" where
  "gua_in_lines [] = None"
| "gua_in_lines (line # ls) =
     (case strip_prefix ''inet6 '' (trim line) of
        None \<Rightarrow> gua_in_lines ls
      | Some rest \<Rightarrow>
          (case split_ws (hd (split_chr CHR ''%'' rest)) of
             [] \<Rightarrow> None
           | addr_str # _ \<Rightarrow>
               (case parse_ipv6 addr_str of
                  None \<Rightarrow> gua_in_lines ls
                | Some b \<Rightarrow> if 0x20 \<le> b ! 0 \<and> b ! 0 \<le> 0x3f then Some (take 8 b @ replicate 8 0) else gua_in_lines ls)))"

definition detect_host_gua_prefix :: "cmd_result \<Rightarrow> bytes option" where
  "detect_host_gua_prefix ifconfig =
     (case ifconfig of Inl _ \<Rightarrow> None | Inr out \<Rightarrow> gua_in_lines (str_lines (cmd_stdout out)))"

text \<open>What the host answers: the error of \<open>socketpair\<close>, and the output of \<open>route\<close> and \<open>ifconfig\<close>.\<close>

record relay_host =
  rh_socketpair :: "string option"
  rh_route :: cmd_result
  rh_ifconfig :: "string \<Rightarrow> cmd_result"

fun ip_bytes :: "ipv4 \<Rightarrow> bytes" where
  "ip_bytes (a, b, c, d) = [a, b, c, d]"

text \<open>\<open>start\<close>: the relay thread with its first state is the result.\<close>

definition start_relay :: "helper_link \<Rightarrow> relay_host \<Rightarrow> vm_subnet \<Rightarrow> pf_world \<Rightarrow> (string + relay_state) \<times> pf_world" where
  "start_relay hl rh subnet w =
     (case rh_socketpair rh of Some e \<Rightarrow> (Inl e, w) | None \<Rightarrow>
     (case pfctl_create_utun hl w of
        (Inl e, w1) \<Rightarrow> (Inl e, w1)
      | (Inr iface, w1) \<Rightarrow>
          (case detect_egress_iface (rh_route rh) of
             None \<Rightarrow> (Inl ''could not detect default route interface'', w1)
           | Some egress \<Rightarrow>
               (case pfctl_setup_utun hl iface egress subnet w1 of
                  (Inl e, w2) \<Rightarrow> (Inl e, w2)
                | (Inr _, w2) \<Rightarrow>
                    (Inr (init_relay iface (ip_bytes (host_ip4 subnet)) (detect_host_gua_prefix (rh_ifconfig rh egress))), w2)))))"

text \<open>Dropping the handle: the error is only logged.\<close>

definition drop_relay :: "helper_link \<Rightarrow> string \<Rightarrow> pf_world \<Rightarrow> pf_world" where
  "drop_relay hl iface w = snd (pfctl_teardown_utun hl iface w)"

section \<open>A connection that works\<close>

text \<open>What is relied on of the JSON library: the text of a value is one line without white space at its
  ends that parses to the value, and the request written as a literal parses.\<close>

definition pf_lib :: "helper_link \<Rightarrow> bool" where
  "pf_lib hl = (hl_parse hl create_request = Some (ser_pf_request CreateUtun) \<and> (\<forall>j. hl_parse hl (hl_print hl j) = Some j \<and> hl_print hl j \<noteq> [] \<and> nl \<notin> set (hl_print hl j) \<and>
     \<not> is_ws (hd (hl_print hl j)) \<and> \<not> is_ws (last (hl_print hl j))))"

definition link_up :: "helper_link \<Rightarrow> bool" where
  "link_up hl = ((\<forall>h. hl_connect hl h = None \<and> hl_write hl h = None \<and> hl_read hl h = None) \<and> pf_lib hl)"

lemma pf_libD:
  assumes "pf_lib hl"
  shows "hl_parse hl (hl_print hl j) = Some j" "nl \<notin> set (hl_print hl j)" "trim (hl_print hl j @ [nl]) = hl_print hl j"
proof -
  have p: "hl_print hl j \<noteq> []" "\<not> is_ws (hd (hl_print hl j))" "\<not> is_ws (last (hl_print hl j))"
    using assms by (auto simp: pf_lib_def)
  have "is_ws nl" by (simp add: is_ws_def)
  with p have "dropWhile is_ws (hl_print hl j @ [nl]) = hl_print hl j @ [nl]"
    "rev (dropWhile is_ws (nl # rev (hl_print hl j))) = hl_print hl j"
    by (cases "hl_print hl j"; simp; fail) (cases "hl_print hl j" rule: rev_cases; use p \<open>is_ws nl\<close> in simp)
  then show "trim (hl_print hl j @ [nl]) = hl_print hl j" by (simp add: trim_def trim_start_def trim_end_def)
  show "hl_parse hl (hl_print hl j) = Some j" "nl \<notin> set (hl_print hl j)" using assms by (auto simp: pf_lib_def)
qed

text \<open>Only the connection handler replies: a request handler records no reply.\<close>

definition silent :: "pf_event list \<Rightarrow> pf_event list \<Rightarrow> bool" where
  "silent h g = (\<exists>es. g = h @ es \<and> (\<forall>as. reply_text (es @ as) = reply_text as))"

lemma silent_refl: "silent h h"
  by (auto simp: silent_def)

lemma silent_snoc: "silent h g \<Longrightarrow> (\<And>as. reply_text (e # as) = reply_text as) \<Longrightarrow> silent h (g @ [e])"
  by (auto simp: silent_def)

lemma silent_ask: "(\<And>as. reply_text (e # as) = reply_text as) \<Longrightarrow> keeps (\<lambda>_ g. silent h g) (ask answer e)"
  "(\<And>as. reply_text (e # as) = reply_text as) \<Longrightarrow> keeps (\<lambda>_ g. silent h g) (emit e)"
  by (auto intro!: keeps_intros silent_snoc)

lemma silent_commands:
  "keeps (\<lambda>_ g. silent h g) (run_output os prog args)" "keeps (\<lambda>_ g. silent h g) (run_pfctl os args)"
  "keeps (\<lambda>_ g. silent h g) (run_sysctl_set os k v)" "keeps (\<lambda>_ g. silent h g) (run_route os args)"
  "keeps (\<lambda>_ g. silent h g) (run_ifconfig os args)" "keeps (\<lambda>_ g. silent h g) (reload_nat_anchor os)"
  "keeps (\<lambda>_ g. silent h g) (modify f)"
proof -
  show a: "keeps (\<lambda>_ g. silent h g) (run_output os prog args)" for prog args
    unfolding run_output_def by (rule silent_ask) simp
  show "keeps (\<lambda>_ g. silent h g) (run_route os args)" "keeps (\<lambda>_ g. silent h g) (run_ifconfig os args)"
    "keeps (\<lambda>_ g. silent h g) (run_sysctl_set os k v)"
    unfolding run_route_def run_ifconfig_def run_sysctl_set_def by (intro keeps_bind keeps_prims a)+
  show b: "keeps (\<lambda>_ g. silent h g) (run_pfctl os args)" for args
    unfolding run_pfctl_def by (intro keeps_bind keeps_prims a)
  show "keeps (\<lambda>_ g. silent h g) (reload_nat_anchor os)"
    unfolding reload_nat_anchor_def Let_def
    by (intro keeps_bind keeps_prims keeps_if keeps_option keeps_sum b silent_ask) simp
  show "keeps (\<lambda>_ g. silent h g) (modify f)" by (rule keeps_modify)
qed

lemma silent_open_bpf: "keeps (\<lambda>_ g. silent h g) (open_bpf_from os iface is)"
  by (induction "is") (auto intro!: keeps_intros silent_ask)

lemma silent_announce: "keeps (\<lambda>_ g. silent h g) (announce_alias os egress gua)"
  unfolding announce_alias_def get_iface_mac_def send_gratuitous_na_def detect_ipv6_gateway_def
    get_ndp_mac_def send_ndp_probe_ns_def open_bpf_def Let_def
  by (intro keeps_prims keeps_bind keeps_sum keeps_option silent_commands silent_ask silent_open_bpf) simp_all

lemmas silent_rules = keeps_prims keeps_bind keeps_if keeps_sum keeps_option keeps_prod keeps_for_each silent_commands silent_announce

lemma silent_handlers:
  "keeps (\<lambda>_ g. silent h g) (handle_setup_utun os iface addr peer net egress)"
  "keeps (\<lambda>_ g. silent h g) (handle_teardown_utun os iface)"
  "keeps (\<lambda>_ g. silent h g) (handle_add_rdr os p hp ip vp)"
  "keeps (\<lambda>_ g. silent h g) (handle_remove_rdr os p hp)"
  "keeps (\<lambda>_ g. silent h g) (handle_assign_utun_alias os iface addr)"
  unfolding handle_setup_utun_def handle_teardown_utun_def handle_add_rdr_def handle_remove_rdr_def
    handle_assign_utun_alias_def Let_def
  by (intro silent_rules)+

lemma silent_request: "keeps (\<lambda>_ g. silent h g) (handle_request os r)"
  by (cases r) (simp_all add: handle_request_def silent_handlers keeps_prims)

lemma send_request_run:
  assumes "link_up hl" and "r \<noteq> CreateUtun" and "run_state (handle_request (hl_os hl) r) (st, h) = (resp, st', h')"
  shows "send_request hl r (st, h) =
    (if resp_ok resp then Inr () else Inl (''pfctl: '' @ or_empty (resp_error resp)),
     st', h' @ [pf_event.Reply (hl_print hl (ser_pf_response resp) @ [nl])])"
proof -
  have lib: "pf_lib hl" and up: "hl_connect hl h = None" "hl_write hl h = None" "hl_read hl h = None" for h
    using assms(1) by (auto simp: link_up_def)
  let ?reply = "hl_print hl (ser_pf_response resp) @ [nl]"
  have "run_state (serve_step (hl_os hl) (helper_json hl) (Some (Some (hl_print hl (ser_pf_request r) @ [nl])))) (st, h)
      = ((), st', h' @ [pf_event.Reply ?reply])"
    using assms(2,3) by (simp add: serve_step_def pf_handle_connection_def helper_json_def pf_libD[OF lib] de_ser_pf_request write_resp_def)
  moreover have "silent h h'" using keepsD[OF silent_request silent_refl assms(3)] .
  then have "reply_text (drop (length h) (h' @ [pf_event.Reply ?reply])) = ?reply" by (auto simp: silent_def)
  moreover have "read_line ?reply = Some (?reply, [])" using pf_libD(2)[OF lib] by (simp add: read_line_text)
  ultimately show ?thesis
    by (simp add: send_request_def pfctl_send_def helper_answer_def up pf_libD[OF lib] de_ser_reply Let_def)
qed

section \<open>The life of a relay\<close>

lemma trim_create: "trim (create_request @ [nl]) = create_request"
  by (simp add: create_request_def trim_def trim_start_def trim_end_def is_ws_def)

lemma create_world:
  assumes "link_up hl" and "pfctl_create_utun hl (st, h) = (res, st1, h1)"
  shows "st1 = st \<and> (synced st h \<longrightarrow> synced st h1)"
proof -
  have lit: "hl_parse hl create_request = Some (ser_pf_request CreateUtun)"
    and up: "hl_connect hl h = None" "hl_write hl h = None" "hl_read hl h = None" for h using assms(1) by (auto simp: link_up_def pf_lib_def)
  obtain a s1 g where run: "run_state (handle_create_utun_with_fd (hl_os hl)) (st, h) = (a, s1, g)" by (rule prod_cases3)
  have "s1 = st" using keepsD[OF keeps_create_utun[of "\<lambda>s _. s = st"] _ run] by simp
  moreover have "synced st h \<longrightarrow> synced s1 g" using keepsD[OF keeps_create_utun[OF synced_stable] _ run] by blast
  moreover have "(st1, h1) = (s1, g)"
    using assms(2) run lit up
    by (auto simp: pfctl_create_utun_def helper_answer_def serve_step_def pf_handle_connection_def helper_json_def trim_create
        de_ser_pf_request Let_def simp del: ser_pf_request.simps split: option.splits if_splits)
  ultimately show ?thesis by simp
qed

lemma reload_run:
  assumes "cooperative os"
  shows "\<exists>h'. run_state (reload_nat_anchor os) (s, h) = (ok_resp, s, h')"
  by (simp add: reload_nat_anchor_def cooperative_simps[OF assms] Let_def)

lemma setup_run:
  assumes "cooperative os" and "run_state (handle_setup_utun os iface addr peer net egress) (st, h) = (resp, st1, h1)"
  shows "if resp_ok resp
    then st1 = st\<lparr>active_utuns := AList.update iface \<lparr>egress_iface = egress, ipv4_cidr = net\<rparr> (active_utuns st)\<rparr>
    else st1 = st"
proof -
  obtain g where g: "run_state (reload_nat_anchor os) (s, h) = (ok_resp, s, g s h)" for s h
    using reload_run[OF assms(1)] by metis
  show ?thesis using assms(2)
    by (auto simp: handle_setup_utun_def cooperative_simps[OF assms(1)] g ok_resp_def err_resp_def split: if_splits sum.splits)
qed

lemma teardown_run:
  assumes "link_up hl" and "drop_relay hl iface (st, h) = (st', h')"
  shows "map_of (active_utuns st') = (map_of (active_utuns st))(iface := None)"
    "ipv6_aliases st' = filter (\<lambda>(i, _). i \<noteq> iface) (ipv6_aliases st)"
    "rdr_rules st' = (if active_utuns st' = [] then [] else rdr_rules st)"
    "\<forall>a. (iface, a) \<in> set (ipv6_aliases st) \<longrightarrow> Exec ''/sbin/route'' [''delete'', ''-inet6'', ''-host'', a] \<in> set (drop (length h) h')"
    "cooperative (hl_os hl) \<Longrightarrow> synced st h \<Longrightarrow> synced st' h'"
proof -
  obtain r s1 g where run: "run_state (handle_teardown_utun (hl_os hl) iface) (st, h) = (r, s1, g)" by (rule prod_cases3)
  have world: "st' = s1" "\<exists>t. h' = g @ [pf_event.Reply t]"
    using send_request_run[OF assms(1), of "TeardownUtun iface" st h r s1 g] run assms(2)
    by (auto simp: handle_request_def drop_relay_def pfctl_teardown_utun_def)
  note complete = pf_teardown_complete[OF run]
  show "map_of (active_utuns st') = (map_of (active_utuns st))(iface := None)"
    "ipv6_aliases st' = filter (\<lambda>(i, _). i \<noteq> iface) (ipv6_aliases st)"
    "rdr_rules st' = (if active_utuns st' = [] then [] else rdr_rules st)"
    "\<forall>a. (iface, a) \<in> set (ipv6_aliases st) \<longrightarrow> Exec ''/sbin/route'' [''delete'', ''-inet6'', ''-host'', a] \<in> set (drop (length h) h')"
    using complete world by auto
  assume "cooperative (hl_os hl)" "synced st h"
  then have "synced s1 g" using keepsD[OF teardown_synced _ run] by blast
  then show "synced st' h'" using world synced_stable by auto
qed

lemma start_relay_world:
  assumes "link_up hl" and "cooperative (hl_os hl)" and "synced st h"
    and "start_relay hl rh (from_guest_ip ip) (st, h) = (res, st1, h1)"
  shows "synced st1 h1 \<and> (case res of
      Inl _ \<Rightarrow> st1 = st
    | Inr rs \<Rightarrow>
        (\<exists>egress. detect_egress_iface (rh_route rh) = Some egress \<and>
           st1 = st\<lparr>active_utuns := AList.update (utun_iface rs)
             \<lparr>egress_iface = egress, ipv4_cidr = cidr (from_guest_ip ip)\<rparr> (active_utuns st)\<rparr>) \<and>
        gateway_ip4 rs = ip_bytes (host_ip4 (from_guest_ip ip)))"
proof (cases "rh_socketpair rh")
  case None
  obtain c s1 g1 where create: "pfctl_create_utun hl (st, h) = (c, s1, g1)" by (rule prod_cases3)
  have s1: "s1 = st" "synced st g1" using create_world[OF assms(1) create] assms(3) by auto
  show ?thesis
  proof (cases "c")
    case (Inr iface)
    show ?thesis
    proof (cases "detect_egress_iface (rh_route rh)")
      case (Some egress)
      let ?n = "from_guest_ip ip"
      let ?r = "SetupUtun iface (show_ipv4 (host_ip4 ?n)) (show_ipv4 (guest_ip4 ?n)) (cidr ?n) egress"
      obtain resp s2 g2 where run: "run_state (handle_request (hl_os hl) ?r) (st, g1) = (resp, s2, g2)" by (rule prod_cases3)
      then have ran: "run_state (handle_setup_utun (hl_os hl) iface (show_ipv4 (host_ip4 ?n)) (show_ipv4 (guest_ip4 ?n)) (cidr ?n) egress)
          (st, g1) = (resp, s2, g2)" by (simp add: handle_request_def)
      have sync: "synced s2 (g2 @ [pf_event.Reply t])" for t
        using keepsD[OF setup_synced[OF assms(2)] s1(2) ran] synced_stable by simp
      have world: "(st1, h1) = (s2, g2 @ [pf_event.Reply (hl_print hl (ser_pf_response resp) @ [nl])])"
        "res = (if resp_ok resp then Inr (init_relay iface (ip_bytes (host_ip4 ?n)) (detect_host_gua_prefix (rh_ifconfig rh egress)))
          else Inl (''pfctl: '' @ or_empty (resp_error resp)))"
        using send_request_run[OF assms(1) _ run] None create Inr Some s1 assms(4)
        by (auto simp: start_relay_def pfctl_setup_utun_def split: if_splits)
      show ?thesis using setup_run[OF assms(2) ran] sync world Some
        by (auto simp: init_relay_def update_conv' split: if_splits)
    qed (use None create Inr s1 assms(4) in \<open>auto simp: start_relay_def\<close>)
  qed (use None create s1 assms(4) in \<open>auto simp: start_relay_def\<close>)
qed (use assms(3,4) in \<open>auto simp: start_relay_def\<close>)

text \<open>
  C31: The network of a machine, from the start of its relay to its end, with the helper at the other
  side of the socket. On a system that carries out the packet filter commands, a relay that
  starts is recorded in the helper with the interface it got, the egress interface of the
  default route and the subnet of the machine, beside the relays that were there, and answers
  for the gateway of that subnet; a start that fails leaves the helper's state as it was, at
  whatever step it fails. In both cases the loaded rules and the forwarding switches agree with
  the state. Dropping the handle, whatever the helper has done for other relays or for this one
  in between, forgets exactly this relay and its aliases, deletes the route of each of them, keeps
  the other relays with their aliases, with the last relay also drops the redirections, and leaves
  the rules in agreement.
\<close>

theorem relay_lifecycle:
  assumes "link_up hl" and "cooperative (hl_os hl)" and "synced st h"
    and "start_relay hl rh (from_guest_ip ip) (st, h) = (res, st1, h1)"
  shows "synced st1 h1 \<and> (case res of
      Inl _ \<Rightarrow> st1 = st
    | Inr rs \<Rightarrow>
        (\<exists>egress. detect_egress_iface (rh_route rh) = Some egress \<and>
           st1 = st\<lparr>active_utuns := AList.update (utun_iface rs)
             \<lparr>egress_iface = egress, ipv4_cidr = cidr (from_guest_ip ip)\<rparr> (active_utuns st)\<rparr>) \<and>
        gateway_ip4 rs = ip_bytes (host_ip4 (from_guest_ip ip)) \<and>
        (\<forall>st' h' st2 h2. synced st' h' \<longrightarrow> drop_relay hl (utun_iface rs) (st', h') = (st2, h2) \<longrightarrow> synced st2 h2 \<and>
           map_of (active_utuns st2) = (map_of (active_utuns st'))(utun_iface rs := None) \<and>
           ipv6_aliases st2 = filter (\<lambda>(i, _). i \<noteq> utun_iface rs) (ipv6_aliases st') \<and>
           (\<forall>a. (utun_iface rs, a) \<in> set (ipv6_aliases st') \<longrightarrow>
              Exec ''/sbin/route'' [''delete'', ''-inet6'', ''-host'', a] \<in> set (drop (length h') h2)) \<and>
           rdr_rules st2 = (if active_utuns st2 = [] then [] else rdr_rules st')))"
proof (cases res)
  case (Inr rs)
  have "synced st2 h2 \<and> map_of (active_utuns st2) = (map_of (active_utuns st'))(utun_iface rs := None) \<and>
      ipv6_aliases st2 = filter (\<lambda>(i, _). i \<noteq> utun_iface rs) (ipv6_aliases st') \<and>
      (\<forall>a. (utun_iface rs, a) \<in> set (ipv6_aliases st') \<longrightarrow>
         Exec ''/sbin/route'' [''delete'', ''-inet6'', ''-host'', a] \<in> set (drop (length h') h2)) \<and>
      rdr_rules st2 = (if active_utuns st2 = [] then [] else rdr_rules st')"
    if "synced st' h'" "drop_relay hl (utun_iface rs) (st', h') = (st2, h2)" for st' h' st2 h2
    using teardown_run[OF assms(1) that(2)] assms(2) that(1) by blast
  then show ?thesis using start_relay_world[OF assms] unfolding Inr sum.case by blast
qed (use start_relay_world[OF assms] in auto)

text \<open>A concrete link: every command succeeds, and texts are written with two letters per byte.\<close>

definition create_reply :: "string \<Rightarrow> string" where
  "create_reply iface = [CHR 0x7B, CHR 0x22] @ ''ok'' @ [CHR 0x22] @ '':true,'' @ [CHR 0x22]
     @ ''iface'' @ [CHR 0x22] @ '':'' @ [CHR 0x22] @ iface @ [CHR 0x22, CHR 0x7D]"

definition demo_link :: helper_link where
  "demo_link = \<lparr>hl_os = demo_os\<lparr>utun_ifname_of := \<lambda>_. Inr (map of_char ''utun5'', 5)\<rparr>,
     hl_print = (\<lambda>j. letters (sized_text j)),
     hl_parse = (\<lambda>s. if s = create_request then Some (ser_pf_request CreateUtun)
        else if s = create_reply ''utun5'' then Some (JObj [(''ok'', JBool True), (''iface'', JStr ''utun5'')])
        else unsized_text (unletters s)),
     hl_parse_err = id, hl_connect = (\<lambda>_. None), hl_write = (\<lambda>_. None), hl_read = (\<lambda>_. None)\<rparr>"

definition demo_host :: relay_host where
  "demo_host = \<lparr>rh_socketpair = None, rh_route = Inr \<lparr>success = True, cmd_stdout = ''  interface: en0'', cmd_stderr = []\<rparr>,
     rh_ifconfig = (\<lambda>_. Inl [])\<rparr>"

lemma demo_link_up: "link_up demo_link"
proof -
  have ne: "letters (sized_text j) \<noteq> []" for j using sized_text_end[of j] by (cases "sized_text j") (auto simp: letters_def Let_def)
  have low: "97 \<le> (of_char c :: nat) \<and> (of_char c :: nat) < 113" if "c \<in> set (letters (sized_text j))" for c j
    using letters_lower that .
  have ws: "\<not> is_ws c" if "97 \<le> (of_char c :: nat) \<and> (of_char c :: nat) < 113" for c using that by (auto simp: is_ws_def Let_def)
  have "letters (sized_text j) \<noteq> create_request" "letters (sized_text j) \<noteq> create_reply i" for j i
    using low[of "CHR 0x22" j] by (auto simp: create_request_def create_reply_def)
  moreover have "nl \<notin> set (letters (sized_text j))" for j using low[of nl j] by auto
  moreover have "\<not> is_ws (hd (letters (sized_text j)))" "\<not> is_ws (last (letters (sized_text j)))" for j
    using ne[of j] ws low by (metis hd_in_set last_in_set)+
  ultimately show ?thesis using ne json_libD[OF json_lib_sized]
    by (simp add: link_up_def pf_lib_def demo_link_def unletters_letters)
qed

lemma demo_ifname: "ifname_str (map of_char ''utun5'') 5 = ''utun5''"
  by code_simp

lemma demo_reply: "trim_reply (take 256 (create_reply ''utun5'' @ [nl])) = create_reply ''utun5''"
  by (simp add: trim_reply_def create_reply_def Let_def)

lemma demo_parse:
  "hl_parse demo_link (create_reply ''utun5'') = Some (JObj [(''ok'', JBool True), (''iface'', JStr ''utun5'')])"
  "hl_parse demo_link create_request = Some (ser_pf_request CreateUtun)"
  by (simp_all add: demo_link_def create_reply_def create_request_def)

lemma demo_created:
  "\<exists>es. run_state (handle_create_utun_with_fd (hl_os demo_link)) (st, h) =
     ((), st, h @ es @ [ReplyWithFd (create_reply ''utun5'' @ [nl])]) \<and> reply_text es = []"
  by (rule exI[of _ "[UtunSocket, UtunCtlInfo (UTUN_CONTROL_NAME @ replicate (96 - 27) 0), UtunConnect 1, UtunIfname]"])
    (simp add: handle_create_utun_with_fd_def create_utun_privileged_def demo_link_def demo_os_def demo_ifname create_reply_def del: list.map)

lemma reply_text_append: "reply_text (a @ b) = reply_text a @ reply_text b"
  by (induction a rule: reply_text.induct) simp_all

lemma demo_create:
  "\<exists>h. pfctl_create_utun demo_link (st, []) = (Inr ''utun5'', st, h)"
proof -
  let ?reply = "create_reply ''utun5'' @ [nl]"
  obtain es where run: "run_state (handle_create_utun_with_fd (hl_os demo_link)) (st, []) = ((), st, es @ [ReplyWithFd ?reply])"
    and es: "reply_text es = []" using demo_created[of st "[]"] by auto
  have up: "hl_connect demo_link h = None" "hl_write demo_link h = None" "hl_read demo_link h = None" for h by (simp_all add: demo_link_def)
  have "helper_answer demo_link (create_request @ [nl]) (st, []) = (es @ [ReplyWithFd ?reply], st, es @ [ReplyWithFd ?reply])"
    by (simp add: helper_answer_def serve_step_def pf_handle_connection_def helper_json_def trim_create demo_parse de_ser_pf_request run
        del: ser_pf_request.simps)
  moreover have "reply_text (es @ [ReplyWithFd ?reply]) = ?reply" using es by (simp add: reply_text_append)
  moreover have "de_create_reply (JObj [(''ok'', JBool True), (''iface'', JStr ''utun5'')]) = Some (True, None, Some ''utun5'')"
    by (simp add: de_create_reply_def wire_simps de_opt_def)
  moreover have "?reply \<noteq> []" by simp
  ultimately show ?thesis by (simp add: pfctl_create_utun_def up demo_reply demo_parse Let_def del: append_is_Nil_conv take_append)
qed

lemma demo_egress: "detect_egress_iface (rh_route demo_host) = Some ''en0''"
  by (simp add: demo_host_def detect_egress_iface_def egress_of_line_def str_lines_def trim_def trim_start_def trim_end_def is_ws_def)

lemma demo_start:
  "\<exists>st h. start_relay demo_link demo_host (from_guest_ip (192, 168, 105, 2)) (daemon_state_new, []) =
     (Inr (init_relay ''utun5'' [192, 168, 105, 1] None), st, h)"
proof -
  obtain h where create: "pfctl_create_utun demo_link (daemon_state_new, []) = (Inr ''utun5'', daemon_state_new, h)"
    using demo_create by blast
  have os: "cooperative (hl_os demo_link)" by (simp add: demo_link_def cooperative_def demo_os_def plain_status_def)
  obtain g where g: "run_state (reload_nat_anchor (hl_os demo_link)) (s, h) = (ok_resp, s, g s h)" for s h
    using reload_run[OF os] by metis
  have ans: "route_status (output_of (hl_os demo_link) h prog args) = Inr ()" "plain_status prog (output_of (hl_os demo_link) h prog args) = Inr ()"
    for h prog args by (simp_all add: demo_link_def demo_os_def route_status_def plain_status_def trim_def trim_start_def trim_end_def)
  have "\<exists>s1 h1. run_state (handle_request (hl_os demo_link) (SetupUtun ''utun5'' a p c ''en0'')) (daemon_state_new, h) = (ok_resp, s1, h1)" for a p c
    by (simp add: handle_request_def handle_setup_utun_def demo_safe ans g ok_resp_def)
  then obtain s1 h1 where "run_state (handle_request (hl_os demo_link) (SetupUtun ''utun5'' (show_ipv4 (192, 168, 105, 1))
      (show_ipv4 (192, 168, 105, 2)) (cidr (from_guest_ip (192, 168, 105, 2))) ''en0'')) (daemon_state_new, h) = (ok_resp, s1, h1)" by blast
  then show ?thesis
    using send_request_run[OF demo_link_up] create demo_egress
    by (simp add: start_relay_def pfctl_setup_utun_def ok_resp_def demo_host_def detect_host_gua_prefix_def)
qed

theorem relay_lifecycle_witness:
  "\<exists>st1 h1 rs. start_relay demo_link demo_host (from_guest_ip (192, 168, 105, 2)) (daemon_state_new, []) = (Inr rs, st1, h1) \<and>
     map_of (active_utuns st1) ''utun5'' = Some \<lparr>egress_iface = ''en0'', ipv4_cidr = ''192.168.105.0/24''\<rparr> \<and>
     (\<forall>st2 h2. drop_relay demo_link ''utun5'' (st1, h1) = (st2, h2) \<longrightarrow> anchor_loaded (system_of h2) = [])"
proof -
  obtain st1 h1 where run: "start_relay demo_link demo_host (from_guest_ip (192, 168, 105, 2)) (daemon_state_new, []) =
     (Inr (init_relay ''utun5'' [192, 168, 105, 1] None), st1, h1)" using demo_start by blast
  have "cooperative (hl_os demo_link)" by (simp add: demo_link_def cooperative_def demo_os_def plain_status_def)
  note all = relay_lifecycle[OF demo_link_up this synced_new run]
  note forgets = all[unfolded sum.case, THEN conjunct2, THEN conjunct2, THEN conjunct2, rule_format]
  have sync: "synced st1 h1" using all by (rule conjunct1)
  have st1: "st1 = daemon_state_new\<lparr>active_utuns := [(''utun5'', \<lparr>egress_iface = ''en0'', ipv4_cidr = cidr (from_guest_ip (192, 168, 105, 2))\<rparr>)]\<rparr>"
    using all[unfolded sum.case, THEN conjunct2, THEN conjunct1] by (simp add: init_relay_def daemon_state_new_def demo_egress)
  have dropped: "synced st2 h2 \<and> map_of (active_utuns st2) = (map_of (active_utuns st1))(''utun5'' := None) \<and>
      rdr_rules st2 = (if active_utuns st2 = [] then [] else rdr_rules st1)"
    if "drop_relay demo_link ''utun5'' (st1, h1) = (st2, h2)" for st2 h2
    using forgets[OF sync] that by (simp add: init_relay_def)
  have "cidr (from_guest_ip (192, 168, 105, 2)) = ''192.168.105.0/24''" by code_simp
  moreover have "anchor_loaded (system_of h2) = []" if "drop_relay demo_link ''utun5'' (st1, h1) = (st2, h2)" for st2 h2
  proof -
    have "map_of (active_utuns st2) = (\<lambda>_. None)" using dropped[OF that] st1 by (auto simp: fun_upd_def)
    then have "active_utuns st2 = []" by (metis map_of_eq_empty_iff)
    then show ?thesis using dropped[OF that] by (auto simp: synced_def anchor_rules_Nil)
  qed
  ultimately show ?thesis using run st1 by simp
qed

section \<open>The address of the machine\<close>

lemma assign_run:
  assumes "is_safe_iface iface" and "parse_ipv6 addr = Some gua"
    and "route_status (output_of os h ''/sbin/route'' [''add'', ''-inet6'', ''-host'', addr, ''-interface'', iface]) = Inr ()"
    and "run_state (handle_assign_utun_alias os iface addr) (st, h) = (resp, st1, h1)"
  shows "resp = ok_resp \<and> st1 = st\<lparr>ipv6_aliases := ipv6_aliases st @ [(iface, addr)]\<rparr> \<and>
    (\<exists>es. h1 = h @ Exec ''/sbin/route'' [''add'', ''-inet6'', ''-host'', addr, ''-interface'', iface] # es)"
proof -
  let ?s = "st\<lparr>ipv6_aliases := ipv6_aliases st @ [(iface, addr)]\<rparr>"
  have extends: "run_state (announce_alias os egress gua) (?s, g) = (x, s', g') \<Longrightarrow> \<exists>es. g' = g @ es" for egress g x s' g'
    using keepsD[OF silent_announce silent_refl] by (fastforce simp: silent_def)
  have same: "run_state (announce_alias os egress gua) (?s, g) = (x, s', g') \<Longrightarrow> s' = ?s" for egress g x s' g'
    using keepsD[OF keeps_announce[of "\<lambda>s _. s = ?s"]] by blast
  show ?thesis using assms
    by (auto simp: handle_assign_utun_alias_def split: option.splits prod.splits dest: same extends)
qed

text \<open>
  C32: The address a machine chose reaches the routing table of the host: when the relay forwards the
  first packet whose source has the prefix of the host, it asks the helper to route the address
  it prints; the helper reads the text as the same 16 bytes, as its first command adds a host route
  for it to the relay's interface, and records it, the relay remembers it and asks no more; and
  when the relay is dropped the helper deletes the route of this address after that and keeps no
  alias of the interface.
\<close>

theorem alias_routed:
  assumes "link_up hl" and "is_safe_iface (utun_iface rs)" and "vm_gua rs = None" and "gua_prefix rs = Some p"
    and "get_range 22 38 frame = Some src" and "src \<noteq> replicate 16 0" and "take 8 src = take 8 p"
    and "route_status (output_of (hl_os hl) h ''/sbin/route''
       [''add'', ''-inet6'', ''-host'', show_ipv6 src, ''-interface'', utun_iface rs]) = Inr ()"
    and "pfctl_assign_utun_alias hl (utun_iface rs) (show_ipv6 src) (st, h) = (res, st1, h1)"
    and "drop_relay hl (utun_iface rs) (st1, h1) = (st2, h2)"
  shows "res = Inr () \<and> st1 = st\<lparr>ipv6_aliases := ipv6_aliases st @ [(utun_iface rs, show_ipv6 src)]\<rparr> \<and>
    parse_ipv6 (show_ipv6 src) = Some src \<and>
    (\<exists>es. h1 = h @ Exec ''/sbin/route'' [''add'', ''-inet6'', ''-host'', show_ipv6 src, ''-interface'', utun_iface rs] # es) \<and>
    maybe_assign_gua_alias (\<lambda>i a. fst (pfctl_assign_utun_alias hl i (show_ipv6 a) (st, h)) = Inr ()) frame rs =
      Some ([AssignAlias (utun_iface rs) src], rs\<lparr>vm_gua := Some src\<rparr>) \<and>
    maybe_assign_gua_alias ok frame' (rs\<lparr>vm_gua := Some src\<rparr>) = Some ([], rs\<lparr>vm_gua := Some src\<rparr>) \<and>
    Exec ''/sbin/route'' [''delete'', ''-inet6'', ''-host'', show_ipv6 src] \<in> set (drop (length h1) h2) \<and>
    (\<forall>a. (utun_iface rs, a) \<notin> set (ipv6_aliases st2))"
proof -
  have len: "38 \<le> length frame" "length src = 16" using assms(5) by (auto simp: get_range_def split: if_splits)
  then have parse: "parse_ipv6 (show_ipv6 src) = Some src" by (intro parse_show_ipv6)
  let ?r = "AssignUtunAlias (utun_iface rs) (show_ipv6 src)"
  obtain resp s1 g where run: "run_state (handle_request (hl_os hl) ?r) (st, h) = (resp, s1, g)" by (rule prod_cases3)
  then have s1: "resp = ok_resp" "s1 = st\<lparr>ipv6_aliases := ipv6_aliases st @ [(utun_iface rs, show_ipv6 src)]\<rparr>"
    "\<exists>es. g = h @ Exec ''/sbin/route'' [''add'', ''-inet6'', ''-host'', show_ipv6 src, ''-interface'', utun_iface rs] # es"
    using assign_run[OF assms(2) parse assms(8)] by (auto simp: handle_request_def)
  have sent: "res = Inr ()" "st1 = s1" "\<exists>t. h1 = g @ [pf_event.Reply t]" using send_request_run[OF assms(1) _ run] assms(9) s1
    by (auto simp: pfctl_assign_utun_alias_def ok_resp_def)
  have "maybe_assign_gua_alias (\<lambda>i a. fst (pfctl_assign_utun_alias hl i (show_ipv6 a) (st, h)) = Inr ()) frame rs =
      Some ([AssignAlias (utun_iface rs) src], rs\<lparr>vm_gua := Some src\<rparr>)"
    using assms(3-7,9) len sent by (simp add: maybe_assign_gua_alias_def)
  then show ?thesis
    using sent s1 parse teardown_run(2,4)[OF assms(1,10)] by (auto simp: maybe_assign_gua_alias_def)
qed

theorem alias_routed_witness:
  "\<exists>st1 h1. pfctl_assign_utun_alias demo_link ''utun5'' (show_ipv6 (0x20 # replicate 15 1)) (daemon_state_new, []) = (Inr (), st1, h1) \<and>
     hd h1 = Exec ''/sbin/route'' [''add'', ''-inet6'', ''-host'', show_ipv6 (0x20 # replicate 15 1), ''-interface'', ''utun5''] \<and>
     ipv6_aliases st1 = [(''utun5'', show_ipv6 (0x20 # replicate 15 1))] \<and> parse_ipv6 (show_ipv6 (0x20 # replicate 15 1)) = Some (0x20 # replicate 15 1)"
proof -
  let ?src = "0x20 # replicate 15 (1 :: u8)"
  let ?rs = "init_relay ''utun5'' [192, 168, 105, 1] (Some (0x20 # replicate 7 1 @ replicate 8 0))"
  obtain res st1 h1 where run: "pfctl_assign_utun_alias demo_link (utun_iface ?rs) (show_ipv6 ?src) (daemon_state_new, []) = (res, st1, h1)"
    by (rule prod_cases3)
  obtain st2 h2 where dropped: "drop_relay demo_link (utun_iface ?rs) (st1, h1) = (st2, h2)" by (cases "drop_relay demo_link (utun_iface ?rs) (st1, h1)")
  have "route_status (output_of (hl_os demo_link) [] ''/sbin/route'' args) = Inr ()" for args
    by (simp add: demo_link_def demo_os_def route_status_def trim_def trim_start_def trim_end_def)
  moreover have "get_range 22 38 (replicate 22 0 @ ?src) = Some ?src" by (simp add: get_range_def sub_def)
  moreover have "?src \<noteq> replicate 16 0" by (simp add: numeral_eq_Suc)
  ultimately show ?thesis
    using alias_routed[OF demo_link_up, of ?rs "0x20 # replicate 7 1 @ replicate 8 0" "replicate 22 0 @ ?src" ?src "[]" daemon_state_new res st1 h1
        st2 h2 "\<lambda>_ _. True" "[]"] run dropped demo_safe
    by (auto simp: init_relay_def daemon_state_new_def)
qed

section \<open>Port forwards of a machine\<close>

lemma rdr_run:
  assumes "link_up hl" and "cooperative (hl_os hl)"
  shows "p = ''tcp'' \<or> p = ''udp'' \<Longrightarrow> \<exists>h1. add_port_forward hl ip p hp vp (st, h) =
      (Inr (), st\<lparr>rdr_rules := filter (\<lambda>r. \<not> (proto r = p \<and> rdr_rule.host_port r = hp)) (rdr_rules st)
         @ [\<lparr>proto = p, rdr_rule.host_port = hp, rdr_rule.vm_ip = show_ipv4 ip, vm_port = vp\<rparr>]\<rparr>, h1)"
    and "\<exists>h1. remove_port_forward hl p hp (st, h) =
      (Inr (), st\<lparr>rdr_rules := filter (\<lambda>r. \<not> (proto r = p \<and> rdr_rule.host_port r = hp)) (rdr_rules st)\<rparr>, h1)"
proof -
  obtain g where g: "run_state (reload_nat_anchor (hl_os hl)) (s, h) = (ok_resp, s, g s h)" for s h
    using reload_run[OF assms(2)] by metis
  let ?f = "filter (\<lambda>r. \<not> (proto r = p \<and> rdr_rule.host_port r = hp)) (rdr_rules st)"
  have "run_state (handle_request (hl_os hl) (RemoveRdr p hp)) (st, h) = (ok_resp, st\<lparr>rdr_rules := ?f\<rparr>, g (st\<lparr>rdr_rules := ?f\<rparr>) h)"
    by (simp add: handle_request_def handle_remove_rdr_def g)
  from send_request_run[OF assms(1) _ this]
  show "\<exists>h1. remove_port_forward hl p hp (st, h) = (Inr (), st\<lparr>rdr_rules := ?f\<rparr>, h1)"
    by (simp add: remove_port_forward_def remove_rdr_def ok_resp_def)
  let ?s = "st\<lparr>rdr_rules := ?f @ [\<lparr>proto = p, rdr_rule.host_port = hp, rdr_rule.vm_ip = show_ipv4 ip, vm_port = vp\<rparr>]\<rparr>"
  assume "p = ''tcp'' \<or> p = ''udp''"
  then have "run_state (handle_request (hl_os hl) (AddRdr p hp (show_ipv4 ip) vp)) (st, h) = (ok_resp, ?s, g ?s h)"
    by (auto simp: handle_request_def handle_add_rdr_def g)
  from send_request_run[OF assms(1) _ this]
  show "\<exists>h1. add_port_forward hl ip p hp vp (st, h) = (Inr (), ?s, h1)"
    by (simp add: add_port_forward_def add_rdr_def ok_resp_def)
qed

text \<open>When the rules cannot be written, the helper refuses the set-up but keeps the relay in its state; the
  relay's start fails before there is a handle whose end would tear it down.\<close>

lemma refused_relay_stays:
  assumes "is_safe_iface iface" and "is_safe_iface egress"
    and "\<And>h prog args. plain_status prog (output_of os h prog args) = Inr ()" and "\<And>h f t. write_of os h f t = Some e"
    and "\<And>h m. iter_of os h m = m" and "run_state (handle_setup_utun os iface addr peer net egress) (st, h) = (resp, st1, h1)"
  shows "\<not> resp_ok resp \<and> map_of (active_utuns st1) iface = Some \<lparr>egress_iface = egress, ipv4_cidr = net\<rparr>"
proof -
  have ne: "map snd (AList.update iface u al) \<noteq> []" for u :: utun_setup and al by (cases al) auto
  show ?thesis using assms
    by (auto simp: handle_setup_utun_def reload_nat_anchor_def anchor_rules_Nil ne err_resp_def Let_def update_conv' split: sum.splits if_splits)
qed

end
