(* ===== verification/Daemon_Loop.thy ===== *)
theory Daemon_Loop
  imports Relay_Control State_Dir
begin

text \<open>
  The daemon process after its start-up (\<open>run\<close> in \<open>pelagos-mac/src/daemon.rs\<close>): the accept loop with its
  check for a removed binary, and the shutdown with the reference counts that decide whether
  the machine's relay is torn down.
\<close>

section \<open>The accept loop\<close>

text \<open>One round: whether the binary exists (\<open>None\<close>: unknown), whether the signal handler has set the
  flag before it is tested, and the connection accepted.\<close>

record 'c loop_round =
  lr_exe :: "bool option"
  lr_sigterm :: bool
  lr_conn :: "'c option"

text \<open>The connections handed to threads, and the tick at which the shutdown begins.\<close>

fun daemon_loop :: "u32 \<Rightarrow> 'c loop_round list \<Rightarrow> 'c list \<times> u32 option" where
  "daemon_loop tick [] = ([], None)"
| "daemon_loop tick (r # rs) =
     (let tick' = tick + 1;
          binary_gone = (tick' mod 30 = 0 \<and> lr_exe r = Some False)
      in if binary_gone \<or> lr_sigterm r then ([], Some tick')
         else apfst (append (case lr_conn r of None \<Rightarrow> [] | Some c \<Rightarrow> [c])) (daemon_loop tick' rs))"

section \<open>Shutdown\<close>

text \<open>The strong counts of \<open>Arc<Vm>\<close> and \<open>Arc<PortRouter>\<close>, and the connection threads: each holds the
  router until it ends and the machine until it has connected to the guest.\<close>

record arcs =
  vm_refs :: nat
  router_refs :: nat
  conns :: "bool list"

text \<open>The counts when the accept loop starts: of the machine main, the router and the watcher hold one, of
  the router main and the watcher.\<close>

definition arcs_serving :: arcs where
  "arcs_serving = \<lparr>vm_refs = 3, router_refs = 2, conns = []\<rparr>"

inductive conn_step :: "arcs \<Rightarrow> arcs \<Rightarrow> bool" where
  Accept: "conn_step r (r\<lparr>vm_refs := vm_refs r + 1, router_refs := router_refs r + 1, conns := conns r @ [True]\<rparr>)"
| Connected: "i < length (conns r) \<Longrightarrow> conns r ! i \<Longrightarrow>
    conn_step r (r\<lparr>vm_refs := vm_refs r - 1, conns := (conns r)[i := False]\<rparr>)"
| Ended: "i < length (conns r) \<Longrightarrow>
    conn_step r (r\<lparr>vm_refs := vm_refs r - (if conns r ! i then 1 else 0), router_refs := router_refs r - 1,
      conns := take i (conns r) @ drop (Suc i) (conns r)\<rparr>)"

text \<open>\<open>drop(router)\<close>, \<open>drop(vm)\<close>: the last reference to the router drops the machine it holds, the last
  reference to the machine drops its relay handle.\<close>

definition drop_router :: "arcs \<Rightarrow> arcs" where
  "drop_router r = (let r' = r\<lparr>router_refs := router_refs r - 1\<rparr> in
     if router_refs r' = 0 then r'\<lparr>vm_refs := vm_refs r' - 1\<rparr> else r')"

definition drop_vm :: "helper_link \<Rightarrow> string \<Rightarrow> arcs \<Rightarrow> pf_world \<Rightarrow> arcs \<times> pf_world" where
  "drop_vm hl iface r w =
     (let r' = r\<lparr>vm_refs := vm_refs r - 1\<rparr> in (r', if vm_refs r' = 0 then drop_relay hl iface w else w))"

definition shutdown :: "helper_link \<Rightarrow> string \<Rightarrow> state_dir \<Rightarrow> arcs \<Rightarrow> pf_world \<Rightarrow> fs \<Rightarrow> pf_world \<times> fs" where
  "shutdown hl iface sd r w f = (snd (drop_vm hl iface (drop_router r) w), clear_state sd f)"

section \<open>The loop notices a removed binary\<close>

lemma unat_of_nat32: "n < 2 ^ 32 \<Longrightarrow> unat (of_nat n :: u32) = n"
  by (simp add: unat_of_nat take_bit_eq_mod)

lemma unat_numeral_30: "unat (30 :: u32) = 30"
  by simp

lemma tick_multiple: "\<exists>k < 30. (t + 1 + of_nat k :: u32) mod 30 = 0"
proof (cases "unat t + 30 < 2 ^ 32")
  case True
  define k where "k = 29 - unat t mod 30"
  have "k < 30" by (simp add: k_def)
  have lt: "unat t + 1 + k < 2 ^ 32" using True \<open>k < 30\<close> by simp
  have "(t + 1 + of_nat k :: u32) = of_nat (unat t + 1 + k)" by simp
  then have "unat (t + 1 + of_nat k :: u32) = unat t + 1 + k" using lt by (simp only: unat_of_nat32)
  moreover have "(unat t + 1 + k) mod 30 = 0"
  proof -
    have "unat t + 1 + k = 30 * (unat t div 30) + 30" using div_mult_mod_eq[of "unat t" 30] mod_less_divisor[of 30 "unat t"] unfolding k_def by linarith
    then show ?thesis by simp
  qed
  ultimately have "unat ((t + 1 + of_nat k :: u32) mod 30) = 0" by (simp only: unat_mod unat_numeral_30)
  then have "(t + 1 + of_nat k :: u32) mod 30 = 0" by (rule unat_eq_0[THEN iffD1])
  with \<open>k < 30\<close> show ?thesis by (intro exI[of _ k] conjI)
next
  case False
  define k where "k = 2 ^ 32 - 1 - unat t"
  have "unat t < 2 ^ 32" using unsigned_less[of t, where 'a = nat] by simp
  then have "k < 30" "unat t + 1 + k = 2 ^ 32" using False by (auto simp: k_def)
  have "(t + 1 + of_nat k :: u32) = of_nat (unat t + 1 + k)" by simp
  also have "\<dots> = 0" unfolding \<open>unat t + 1 + k = 2 ^ 32\<close> by simp
  finally have "(t + 1 + of_nat k :: u32) mod 30 = 0" by simp
  with \<open>k < 30\<close> show ?thesis by (intro exI[of _ k] conjI)
qed

lemma loop_ends:
  assumes "k < length rs" and "(t + 1 + of_nat k :: u32) mod 30 = 0" and "lr_exe (rs ! k) = Some False"
  shows "snd (daemon_loop t rs) \<noteq> None"
  using assms
proof (induction rs arbitrary: t k)
  case (Cons r rs)
  show ?case
  proof (cases k)
    case (Suc j)
    then have "(t + 1 + 1 + of_nat j) mod 30 = 0" using Cons.prems(2) by (simp add: algebra_simps)
    then show ?thesis using Cons.IH[of j "t + 1"] Cons.prems Suc by (simp add: Let_def)
  qed (use Cons.prems in \<open>simp add: Let_def\<close>)
qed simp

text \<open>
  C13: The daemon does not outlive its binary and does not stop without a reason: whatever the value of its
  32-bit tick counter, the overflow included, when the binary is gone for 30 rounds of the
  accept loop (each at most a second and one connection long) the shutdown has begun; a signal
  begins it in the round in which the flag is tested; and as long as neither happens every
  accepted connection is handed to a thread.
\<close>

theorem loop_shuts_down:
  "(length rs \<ge> 30 \<longrightarrow> (\<forall>r \<in> set rs. lr_exe r = Some False) \<longrightarrow> snd (daemon_loop t rs) \<noteq> None) \<and>
   (lr_sigterm r \<longrightarrow> daemon_loop t (r # rs) = ([], Some (t + 1))) \<and>
   ((\<forall>r \<in> set rs. lr_exe r \<noteq> Some False \<and> \<not> lr_sigterm r) \<longrightarrow> daemon_loop t rs = (List.map_filter lr_conn rs, None))"
proof (intro conjI impI)
  assume "length rs \<ge> 30" and gone: "\<forall>r \<in> set rs. lr_exe r = Some False"
  from tick_multiple[of t] show "snd (daemon_loop t rs) \<noteq> None"
  proof (elim exE conjE)
    fix k :: nat
    assume k: "k < 30" and m: "(t + 1 + of_nat k :: u32) mod 30 = 0"
    have "k < length rs" using k \<open>length rs \<ge> 30\<close> by simp
    moreover from this have "lr_exe (rs ! k) = Some False" using gone nth_mem by blast
    ultimately show ?thesis using m by (intro loop_ends[of k])
  qed
next
  show "lr_sigterm r \<Longrightarrow> daemon_loop t (r # rs) = ([], Some (t + 1))" by (simp add: Let_def)
next
  show "\<forall>r \<in> set rs. lr_exe r \<noteq> Some False \<and> \<not> lr_sigterm r \<Longrightarrow> daemon_loop t rs = (List.map_filter lr_conn rs, None)"
    by (induction rs arbitrary: t) (auto simp: Let_def List.map_filter_simps split: option.split)
qed

theorem loop_shuts_down_witness:
  "snd (daemon_loop 4294967290 (replicate 30 \<lparr>lr_exe = Some False, lr_sigterm = False, lr_conn = Some ()\<rparr>)) \<noteq> None"
proof -
  let ?rs = "replicate 30 \<lparr>lr_exe = Some False, lr_sigterm = False, lr_conn = Some ()\<rparr>"
  have "30 \<le> length ?rs" "\<forall>r \<in> set ?rs. lr_exe r = Some False" by simp_all
  then show ?thesis using loop_shuts_down[of ?rs 4294967290] by blast
qed

section \<open>The relay outlives the daemon\<close>

lemma holders_split:
  assumes "i < length bs"
  shows "length (filter id bs) = length (filter id (take i bs)) + (if bs ! i then 1 else 0) + length (filter id (drop (Suc i) bs))"
    "length (filter id (bs[i := False])) = length (filter id (take i bs)) + length (filter id (drop (Suc i) bs))"
proof -
  have "length (filter id bs) = length (filter id (take i bs @ bs ! i # drop (Suc i) bs))" using assms by (simp add: id_take_nth_drop[symmetric])
  then show "length (filter id bs) = length (filter id (take i bs)) + (if bs ! i then 1 else 0) + length (filter id (drop (Suc i) bs))" by simp
  show "length (filter id (bs[i := False])) = length (filter id (take i bs)) + length (filter id (drop (Suc i) bs))"
    using assms by (simp add: upd_conv_take_nth_drop)
qed

definition arcs_ok :: "arcs \<Rightarrow> bool" where
  "arcs_ok r = (vm_refs r = 3 + length (filter id (conns r)) \<and> router_refs r = 2 + length (conns r))"

lemma conn_step_ok: "conn_step r r' \<Longrightarrow> arcs_ok r \<Longrightarrow> arcs_ok r'"
  by (induction rule: conn_step.induct) (auto simp: arcs_ok_def holders_split)

lemma conn_steps_ok: "conn_step\<^sup>*\<^sup>* arcs_serving r \<Longrightarrow> arcs_ok r"
proof (induction rule: rtranclp_induct)
  case base
  show ?case by (simp add: arcs_ok_def arcs_serving_def)
qed (rule conn_step_ok)

text \<open>
  C14: The shutdown of the daemon never tears down the network of the machine. The watcher thread holds a
  reference to the machine and one to the router for ever, so that in every state of the
  connection threads, the one without connections included, the references dropped by main are
  not the last: the relay's handle is not dropped, no request reaches the helper, and its relay,
  its rules and the forwarding switches stay; only the files of the profile are removed.
\<close>

theorem shutdown_keeps_relay:
  assumes "conn_step\<^sup>*\<^sup>* arcs_serving r"
  shows "shutdown hl iface sd r w f = (w, clear_state sd f) \<and> vm_refs (fst (drop_vm hl iface (drop_router r) w)) \<ge> 2"
  using conn_steps_ok[OF assms] by (simp add: shutdown_def drop_vm_def drop_router_def arcs_ok_def Let_def)

theorem shutdown_keeps_relay_witness:
  "shutdown demo_link ''utun5'' demo_sd arcs_serving (daemon_state_new\<lparr>active_utuns := [(''utun5'', demo_setup)]\<rparr>, []) demo_fs =
     ((daemon_state_new\<lparr>active_utuns := [(''utun5'', demo_setup)]\<rparr>, []), clear_state demo_sd demo_fs)"
  using shutdown_keeps_relay[of arcs_serving demo_link "''utun5''" demo_sd _ demo_fs] by blast

end
