(* ===== verification/Daemon_Life.thy ===== *)
theory Daemon_Life
  imports Daemon_Args Daemon_Loop
begin

text \<open>
  The start-up of the daemon process (\<open>run\<close> in \<open>pelagos-mac/src/daemon.rs\<close>) step by step, with the files
  other commands look at in the meantime (\<open>ensure_running\<close>, and \<open>vm_stop\<close>, \<open>vm_status\<close> in \<open>main.rs\<close>).
\<close>

section \<open>Start-up\<close>

text \<open>Where the start-up is. Every phase is left by one step, between two of which other processes
  run.\<close>

datatype boot_phase = Begun | Checked | Cleared | Booted | SockBound | ConsoleBound | PidWritten | MountsWritten | Serving
  | BootFailed

text \<open>What the system answers: signal 0, whether the machine starts, and the JSON printer.\<close>

record boot_os =
  bo_kill0 :: "int \<Rightarrow> bool"
  bo_vm :: "vm_config \<Rightarrow> bool"
  bo_mounts :: "virtiofs_share list \<Rightarrow> string + string"
  bo_disks :: "string list \<Rightarrow> string + string"

text \<open>\<open>UnixListener::bind\<close>: the path must not exist. A socket is a file that cannot be read as text.\<close>

definition bind_socket :: "string \<Rightarrow> fs \<Rightarrow> (io_err + unit) \<times> fs" where
  "bind_socket p f =
     (case files f p of
        Some _ \<Rightarrow> (Inl (OtherErr ''Address already in use''), f)
      | None \<Rightarrow>
          (case write_err f p of
             Some e \<Rightarrow> (Inl (OtherErr e), f)
           | None \<Rightarrow> (Inr (), f\<lparr>files := (files f)(p := Some (Inl ''socket''))\<rparr>)))"

definition boot_step :: "boot_os \<Rightarrow> env \<Rightarrow> daemon_args \<Rightarrow> state_dir \<Rightarrow> u32 \<Rightarrow> boot_phase \<times> fs \<Rightarrow> boot_phase \<times> fs" where
  "boot_step bo e a sd pid w =
     (case w of (ph, f) \<Rightarrow>
       (case ph of
          Begun \<Rightarrow> (if is_daemon_alive (bo_kill0 bo) f sd then BootFailed else Checked, f)
        | Checked \<Rightarrow> (Cleared, clear_state sd f)
        | Cleared \<Rightarrow> (case build_vm_config e f a of Inl _ \<Rightarrow> BootFailed | Inr c \<Rightarrow> if bo_vm bo c then Booted else BootFailed, f)
        | Booted \<Rightarrow> (case bind_socket (sock_file sd) f of (Inl _, f') \<Rightarrow> (BootFailed, f') | (Inr _, f') \<Rightarrow> (SockBound, f'))
        | SockBound \<Rightarrow>
            (case bind_socket (console_sock_file sd) f of (Inl _, f') \<Rightarrow> (BootFailed, f') | (Inr _, f') \<Rightarrow> (ConsoleBound, f'))
        | ConsoleBound \<Rightarrow> (PidWritten, snd (write_pid sd pid f))
        | PidWritten \<Rightarrow> (MountsWritten, snd (write_mounts (bo_mounts bo) sd (da_shares a) f))
        | MountsWritten \<Rightarrow> (Serving, snd (write_extra_disks (bo_disks bo) sd (da_extra_disks a) f))
        | Serving \<Rightarrow> (Serving, f)
        | BootFailed \<Rightarrow> (BootFailed, f)))"

definition boot :: "nat \<Rightarrow> boot_os \<Rightarrow> env \<Rightarrow> daemon_args \<Rightarrow> state_dir \<Rightarrow> u32 \<Rightarrow> boot_phase \<times> fs \<Rightarrow> boot_phase \<times> fs" where
  "boot k bo e a sd pid w = (boot_step bo e a sd pid ^^ k) w"

text \<open>The end of \<open>ensure_running\<close>: the file system at each poll for the socket, until the deadline.\<close>

fun wait_for_socket :: "state_dir \<Rightarrow> fs list \<Rightarrow> io_err + unit" where
  "wait_for_socket sd [] = Inl (OtherErr ''daemon did not start within 60s'')"
| "wait_for_socket sd (f # fs) = (if files f (sock_file sd) \<noteq> None then Inr () else wait_for_socket sd fs)"

text \<open>\<open>vm_status\<close> and \<open>vm_stop\<close>: the printed text, the exit code, and the signal sent. The second takes
  the file system at each poll until the deadline; with no process left it returns early.\<close>

definition vm_status :: "(int \<Rightarrow> bool) \<Rightarrow> state_dir \<Rightarrow> fs \<Rightarrow> string \<times> nat" where
  "vm_status kill0 sd f =
     (case running_pid kill0 f sd of
        None \<Rightarrow> (''stopped'', 1)
      | Some pid \<Rightarrow> (''running (pid '' @ show_word pid @ '')'', 0))"

fun stop_wait :: "state_dir \<Rightarrow> ((int \<Rightarrow> bool) \<times> fs) list \<Rightarrow> bool" where
  "stop_wait sd [] = False"
| "stop_wait sd ((kill0, f) # polls) = (running_pid kill0 f sd = None \<or> stop_wait sd polls)"

definition vm_stop :: "(int \<Rightarrow> bool) \<Rightarrow> state_dir \<Rightarrow> fs \<Rightarrow> ((int \<Rightarrow> bool) \<times> fs) list \<Rightarrow> string \<times> u32 option \<times> bool" where
  "vm_stop kill0 sd f polls =
     (case running_pid kill0 f sd of
        None \<Rightarrow> (''no VM running'', None, True)
      | Some pid \<Rightarrow> (''sent SIGTERM to daemon (pid '' @ show_word pid @ '')'', Some pid, stop_wait sd polls))"

section \<open>The files of a profile\<close>

definition sd_in :: "string \<Rightarrow> state_dir" where
  "sd_in d = \<lparr>pid_file = d @ ''/vm.pid'', sock_file = d @ ''/vm.sock'', console_sock_file = d @ ''/console.sock'',
     mounts_file = d @ ''/vm.mounts'', ports_file = d @ ''/vm.ports'', extra_disks_file = d @ ''/vm.extra_disks''\<rparr>"

lemma tmp_names:
  "with_extension (d @ ''/vm.pid'') ''pid.tmp'' = d @ ''/vm.pid.tmp''"
  "with_extension (d @ ''/vm.mounts'') ''mounts.tmp'' = d @ ''/vm.mounts.tmp''"
  "with_extension (d @ ''/vm.extra_disks'') ''extra_disks.tmp'' = d @ ''/vm.extra_disks.tmp''"
  by (simp_all add: with_extension_def parent_part_def file_stem_def file_name_def)

lemma profile_dir_shape:
  assumes "profile_dir e p = Inr d" and "valid_profile p"
  shows "d \<noteq> []" "last d \<noteq> CHR ''/''"
proof -
  obtain b where b: "pelagos_base e = Inr b" using assms(1) by (auto simp: profile_dir_def split: sum.splits)
  have rel: "path_join (path_join b ''profiles'') p = b @ ''/profiles/'' @ p"
    using base_shape[OF b] valid_relative[OF assms(2)] by (simp add: path_join_def starts_with_def)
  show "d \<noteq> []" "last d \<noteq> CHR ''/''"
    using assms b base_shape[OF b] valid_relative[OF assms(2)] by (auto simp: profile_dir_def rel split: if_splits)
qed

lemma open_profile_sd:
  assumes "open_profile e p f = (Inr sd, f')" and "valid_profile p"
  shows "\<exists>d. profile_dir e p = Inr d \<and> sd = sd_in d \<and> path_join d ''vm.conf'' = d @ ''/vm.conf''"
proof -
  obtain d where d: "profile_dir e p = Inr d" using assms(1) by (auto simp: open_profile_def split: sum.splits)
  note shape = profile_dir_shape[OF d assms(2)]
  have "path_join d n = d @ ''/'' @ n" if "\<not> starts_with n ''/''" for n using path_join_rel[OF shape that] .
  then have "sd = sd_in d" "path_join d ''vm.conf'' = d @ ''/vm.conf''"
    using assms(1) d by (auto simp: open_profile_def sd_in_def starts_with_def split: prod.splits sum.splits)
  then show ?thesis using d by blast
qed

definition writable :: "fs \<Rightarrow> bool" where
  "writable f = (\<forall>p. write_err f p = None)"

text \<open>The start-up as a relation between the file systems at its ends, step by step: what each phase adds
  to the files of a cleared profile.\<close>

lemma clear_files:
  "files (clear_state (sd_in d) f) = (files f)(d @ ''/vm.pid'' := None, d @ ''/vm.sock'' := None, d @ ''/console.sock'' := None,
     d @ ''/vm.mounts'' := None, d @ ''/vm.ports'' := None, d @ ''/vm.extra_disks'' := None)"
  "write_err (clear_state sd f) = write_err f" "listing (clear_state sd f) = listing f"
  by (simp_all add: clear_state_def remove_file_def sd_in_def)

lemma write_tmp_files:
  assumes "writable f" and "with_extension p x = t" and "t \<noteq> p"
  shows "write_via_tmp p x c f = (Inr (), f\<lparr>files := (files f)(t := None, p := Some (Inr c))\<rparr>)"
  using assms by (simp add: write_via_tmp_def write_file_def rename_file_def writable_def Let_def)

lemma write_files:
  assumes "writable f"
  shows "write_pid (sd_in d) pid f = (Inr (), f\<lparr>files := (files f)(d @ ''/vm.pid.tmp'' := None, d @ ''/vm.pid'' := Some (Inr (show_word pid)))\<rparr>)"
    "tj m = Inr s \<Longrightarrow> write_mounts tj (sd_in d) m f =
       (Inr (), f\<lparr>files := (files f)(d @ ''/vm.mounts.tmp'' := None, d @ ''/vm.mounts'' := Some (Inr s))\<rparr>)"
    "dj ds = Inr s \<Longrightarrow> write_extra_disks dj (sd_in d) ds f =
       (Inr (), f\<lparr>files := (files f)(d @ ''/vm.extra_disks.tmp'' := None, d @ ''/vm.extra_disks'' := Some (Inr s))\<rparr>)"
  by (simp_all add: write_pid_def write_mounts_def write_extra_disks_def sd_in_def write_tmp_files[OF assms] tmp_names)

lemma boot_Suc: "boot (Suc k) bo e a sd pid w = boot k bo e a sd pid (boot_step bo e a sd pid w)"
  by (simp add: boot_def funpow_swap1)

lemma boot_0 [simp]: "boot 0 bo e a sd pid w = w"
  by (simp add: boot_def)

lemma sd_in_fields [simp]:
  "pid_file (sd_in d) = d @ ''/vm.pid''" "sock_file (sd_in d) = d @ ''/vm.sock''"
  "console_sock_file (sd_in d) = d @ ''/console.sock''" "mounts_file (sd_in d) = d @ ''/vm.mounts''"
  "extra_disks_file (sd_in d) = d @ ''/vm.extra_disks''"
  by (simp_all add: sd_in_def)

definition set_files :: "(string \<Rightarrow> (string + string) option) \<Rightarrow> fs \<Rightarrow> fs" where
  "set_files g f = f\<lparr>files := g\<rparr>"

lemma set_files_simps [simp]:
  "files (set_files g f) = g" "write_err (set_files g f) = write_err f" "listing (set_files g f) = listing f"
  "set_files g (set_files g' f) = set_files g f" "writable (set_files g f) = writable f"
  by (simp_all add: set_files_def writable_def)

lemma fold_set_files: "f\<lparr>files := g\<rparr> = set_files g f"
  by (simp add: set_files_def)

text \<open>The files of the profile after clearing, and after each of the later steps.\<close>

definition cleared :: "string \<Rightarrow> fs \<Rightarrow> string \<Rightarrow> (string + string) option" where
  "cleared d f = files (clear_state (sd_in d) f)"

lemma clear_state_set: "clear_state (sd_in d) f = set_files (cleared d f) f"
  by (simp add: cleared_def clear_state_def remove_file_def fold_set_files)

lemma cleared_None [simp]:
  "cleared d f (d @ ''/vm.pid'') = None" "cleared d f (d @ ''/vm.sock'') = None" "cleared d f (d @ ''/console.sock'') = None"
  "cleared d f (d @ ''/vm.mounts'') = None" "cleared d f (d @ ''/vm.extra_disks'') = None"
  by (simp_all add: cleared_def clear_files)

lemma boot_steps:
  assumes "writable f"
  shows "boot_step bo e a (sd_in d) pid (Checked, f) = (Cleared, set_files (cleared d f) f)"
    "build_vm_config e f a = Inr c \<Longrightarrow> bo_vm bo c \<Longrightarrow> boot_step bo e a (sd_in d) pid (Cleared, f) = (Booted, f)"
    "files f (d @ ''/vm.sock'') = None \<Longrightarrow> boot_step bo e a (sd_in d) pid (Booted, f) =
       (SockBound, set_files ((files f)(d @ ''/vm.sock'' := Some (Inl ''socket''))) f)"
    "files f (d @ ''/console.sock'') = None \<Longrightarrow> boot_step bo e a (sd_in d) pid (SockBound, f) =
       (ConsoleBound, set_files ((files f)(d @ ''/console.sock'' := Some (Inl ''socket''))) f)"
    "boot_step bo e a (sd_in d) pid (ConsoleBound, f) =
       (PidWritten, set_files ((files f)(d @ ''/vm.pid.tmp'' := None, d @ ''/vm.pid'' := Some (Inr (show_word pid)))) f)"
    "bo_mounts bo (da_shares a) = Inr ms \<Longrightarrow> boot_step bo e a (sd_in d) pid (PidWritten, f) =
       (MountsWritten, set_files ((files f)(d @ ''/vm.mounts.tmp'' := None, d @ ''/vm.mounts'' := Some (Inr ms))) f)"
    "bo_disks bo (da_extra_disks a) = Inr ds \<Longrightarrow> boot_step bo e a (sd_in d) pid (MountsWritten, f) =
       (Serving, set_files ((files f)(d @ ''/vm.extra_disks.tmp'' := None, d @ ''/vm.extra_disks'' := Some (Inr ds))) f)"
  using assms by (simp_all add: boot_step_def bind_socket_def writable_def clear_state_set write_files fold_set_files)

definition boot_files :: "string \<Rightarrow> u32 \<Rightarrow> string \<Rightarrow> string \<Rightarrow> nat \<Rightarrow> fs \<Rightarrow> string \<Rightarrow> (string + string) option" where
  "boot_files d pid ms ds k f =
     (let g0 = cleared d f;
          g1 = g0(d @ ''/vm.sock'' := Some (Inl ''socket''));
          g2 = g1(d @ ''/console.sock'' := Some (Inl ''socket''));
          g3 = g2(d @ ''/vm.pid.tmp'' := None, d @ ''/vm.pid'' := Some (Inr (show_word pid)));
          g4 = g3(d @ ''/vm.mounts.tmp'' := None, d @ ''/vm.mounts'' := Some (Inr ms));
          g5 = g4(d @ ''/vm.extra_disks.tmp'' := None, d @ ''/vm.extra_disks'' := Some (Inr ds))
      in [g0, g1, g2, g3, g4, g5] ! k)"

text \<open>What the start-up needs to come through: a writable disk, a machine that starts, and printable
  configurations.\<close>

definition boots :: "boot_os \<Rightarrow> env \<Rightarrow> daemon_args \<Rightarrow> string \<Rightarrow> string \<Rightarrow> string \<Rightarrow> fs \<Rightarrow> bool" where
  "boots bo e a d ms ds f =
     (writable f \<and> (\<exists>c. build_vm_config e (set_files (cleared d f) f) a = Inr c \<and> bo_vm bo c) \<and>
      bo_mounts bo (da_shares a) = Inr ms \<and> bo_disks bo (da_extra_disks a) = Inr ds)"

lemma boot_progress:
  assumes "boots bo e a d ms ds f"
  shows "boot 3 bo e a (sd_in d) pid (Checked, f) = (SockBound, set_files (boot_files d pid ms ds 1 f) f)"
    "boot 4 bo e a (sd_in d) pid (Checked, f) = (ConsoleBound, set_files (boot_files d pid ms ds 2 f) f)"
    "boot 5 bo e a (sd_in d) pid (Checked, f) = (PidWritten, set_files (boot_files d pid ms ds 3 f) f)"
    "boot 7 bo e a (sd_in d) pid (Checked, f) = (Serving, set_files (boot_files d pid ms ds 5 f) f)"
  using assms
  by (auto simp: numeral_eq_Suc boot_Suc boot_steps boots_def boot_files_def Let_def)

section \<open>What other commands see\<close>

lemma open_profile_again:
  "open_profile e p f = (Inr sd, f) \<Longrightarrow> open_profile e p (set_files g f) = (Inr sd, set_files g f)"
  by (cases f) (auto simp: open_profile_def create_profile_dir_def set_files_def Let_def split: sum.splits option.splits if_splits)

lemma load_conf_again:
  assumes "profile_dir e p = Inr d" and "path_join d ''vm.conf'' = d @ ''/vm.conf''" and "g (d @ ''/vm.conf'') = files f (d @ ''/vm.conf'')"
  shows "load_conf e (set_files g f) p = load_conf e f p"
  using assms by (simp add: load_conf_def load_path_def read_to_string_def)

lemma boot_files_at:
  "boot_files d pid ms ds 5 f (d @ ''/vm.pid'') = Some (Inr (show_word pid))" "boot_files d pid ms ds 5 f (d @ ''/vm.sock'') = Some (Inl ''socket'')"
  "boot_files d pid ms ds 5 f (d @ ''/vm.mounts'') = Some (Inr ms)" "boot_files d pid ms ds 5 f (d @ ''/vm.extra_disks'') = Some (Inr ds)"
  "boot_files d pid ms ds 3 f (d @ ''/vm.pid'') = Some (Inr (show_word pid))" "boot_files d pid ms ds 3 f (d @ ''/vm.mounts'') = None"
  "boot_files d pid ms ds 1 f (d @ ''/vm.sock'') = Some (Inl ''socket'')" "boot_files d pid ms ds 1 f (d @ ''/vm.pid'') = None"
  "boot_files d pid ms ds 2 f (d @ ''/vm.sock'') = Some (Inl ''socket'')" "boot_files d pid ms ds 2 f (d @ ''/vm.pid'') = None"
  by (simp_all add: boot_files_def Let_def)

lemma cleared_conf: "cleared d f (d @ ''/vm.conf'') = files f (d @ ''/vm.conf'')"
  by (simp add: cleared_def clear_files)

lemma boot_files_conf:
  "k \<in> {1, 2, 3, 5} \<Longrightarrow> boot_files d pid ms ds k f (d @ ''/vm.conf'') = files f (d @ ''/vm.conf'')"
  by (elim insertE) (simp_all add: boot_files_def Let_def cleared_conf)

text \<open>A profile whose directory exists and whose address is allocated.\<close>

definition profile_ready :: "env \<Rightarrow> string \<Rightarrow> string \<Rightarrow> fs \<Rightarrow> bool" where
  "profile_ready e p d f =
     (valid_profile p \<and> profile_dir e p = Inr d \<and> open_profile e p f = (Inr (sd_in d), f) \<and>
      (\<exists>conf ip. load_conf e f p = Inr conf \<and> vm_profile_config.vm_ip conf = Some ip))"

lemma profile_ready_conf: "profile_ready e p d f \<Longrightarrow> path_join d ''vm.conf'' = d @ ''/vm.conf''"
  using open_profile_sd[of e p f "sd_in d" f] by (auto simp: profile_ready_def)

lemma profile_ready_again:
  assumes "profile_ready e p d f" and "g (d @ ''/vm.conf'') = files f (d @ ''/vm.conf'')"
  shows "profile_ready e p d (set_files g f)"
  using assms load_conf_again[of e p d g f] profile_ready_conf[OF assms(1)] open_profile_again
  by (auto simp: profile_ready_def)

lemma ensure_decides:
  assumes "profile_ready e (da_profile a) d f"
  shows "ensure_running mj dj kill0 (Inr ()) e a f =
    (if is_daemon_alive kill0 f (sd_in d) then
       (case read_mounts mj f (sd_in d) of
          Inl x \<Rightarrow> (RunErr x, f)
        | Inr running_mounts \<Rightarrow>
            if running_mounts \<noteq> da_shares a then
              (RunErr (OtherErr ''daemon is running with different mount configuration; run 'pelagos vm stop' first, then retry''), f)
            else (case read_extra_disks dj f (sd_in d) of
                    Inl x \<Rightarrow> (RunErr x, f)
                  | Inr running_extra \<Rightarrow>
                      if running_extra \<noteq> da_extra_disks a then
                        (RunErr (OtherErr ''daemon is running with different extra-disk configuration; run 'pelagos vm stop' first, then retry''), f)
                      else (AlreadyRunning, f)))
     else (SpawnDaemon (daemon_subprocess_args a), clear_state (sd_in d) f))"
  using assms by (auto simp: profile_ready_def ensure_running_def ensure_vm_ip_def)

lemma boot_from_begun:
  "\<not> is_daemon_alive (bo_kill0 bo) f sd \<Longrightarrow> boot (Suc k) bo e a sd pid (Begun, f) = boot k bo e a sd pid (Checked, f)"
  by (simp add: boot_Suc boot_step_def)

text \<open>
  C12: A daemon that has finished its start-up is recognised by every later command: its socket is there,
  its status is shown with its number, a command that needs the same shares and disks uses it,
  and one that needs others is refused, without a change of any file; no second daemon is
  started. Once it has shut down the status is stopped and the next command starts a new one.
\<close>

theorem daemon_recognised:
  assumes "profile_ready e p d f" and "da_profile a = p" and "da_profile a' = p" and "boots bo e a d ms ds f"
    and "mj ms = Inr (da_shares a)" and "dj ds = Inr (da_extra_disks a)"
    and "\<not> is_daemon_alive (bo_kill0 bo) f (sd_in d)" and "kill0 (sint pid)"
    and "boot 8 bo e a (sd_in d) pid (Begun, f) = (ph, f')"
  shows "ph = Serving \<and> wait_for_socket (sd_in d) [f'] = Inr () \<and>
    vm_status kill0 (sd_in d) f' = (''running (pid '' @ show_word pid @ '')'', 0) \<and>
    ensure_running mj dj kill0 (Inr ()) e a' f' =
      (if da_shares a' \<noteq> da_shares a
       then RunErr (OtherErr ''daemon is running with different mount configuration; run 'pelagos vm stop' first, then retry'')
       else if da_extra_disks a' \<noteq> da_extra_disks a
       then RunErr (OtherErr ''daemon is running with different extra-disk configuration; run 'pelagos vm stop' first, then retry'')
       else AlreadyRunning, f') \<and>
    fst (vm_status kill0 (sd_in d) (snd (shutdown hl iface (sd_in d) r w f'))) = ''stopped'' \<and>
    fst (ensure_running mj dj kill0 (Inr ()) e a' (snd (shutdown hl iface (sd_in d) r w f'))) = SpawnDaemon (daemon_subprocess_args a')"
proof -
  have run: "ph = Serving" "f' = set_files (boot_files d pid ms ds 5 f) f"
    using boot_progress(4)[OF assms(4), of pid] boot_from_begun[OF assms(7), of 7] assms(9) by (simp_all add: numeral_eq_Suc)
  have g: "files f' (d @ ''/vm.pid'') = Some (Inr (show_word pid))" "files f' (d @ ''/vm.sock'') \<noteq> None"
    "files f' (d @ ''/vm.mounts'') = Some (Inr ms)" "files f' (d @ ''/vm.extra_disks'') = Some (Inr ds)"
    unfolding run by (simp_all add: boot_files_at)
  have pid: "running_pid kill0 f' (sd_in d) = Some pid"
    using assms(8) g by (simp add: running_pid_def read_to_string_def u32_text.trim_enc u32_text.dec_enc)
  have ready: "profile_ready e (da_profile a') d f'"
    unfolding run using profile_ready_again[OF assms(1)] boot_files_conf[of 5] assms(3) by simp
  have gone: "running_pid kill0 (clear_state (sd_in d) f') (sd_in d) = None"
    by (simp add: clear_state_set running_pid_def read_to_string_def)
  have "profile_ready e (da_profile a') d (clear_state (sd_in d) f')"
    unfolding clear_state_set by (rule profile_ready_again[OF ready]) (simp add: cleared_def clear_files)
  from ensure_decides[OF this, of mj dj kill0] ensure_decides[OF ready, of mj dj kill0]
  show ?thesis using run g pid gone assms(5,6)
    by (simp add: vm_status_def is_daemon_alive_def read_mounts_def read_extra_disks_def read_to_string_def shutdown_def)
qed

text \<open>
  While the daemon starts there is a window in which other commands go wrong. After the socket is bound
  and before its number is written, the command that started the daemon is told that it is
  ready, but any other command takes the daemon for dead: it removes the socket and starts a
  second daemon. After the number is written and before the shares are, a command that needs
  shares is refused because of a different configuration, even if it needs the same ones.
\<close>

lemma boot_window:
  assumes "profile_ready e p d f" and "da_profile a' = p" and "boots bo e a d ms ds f" and "\<not> is_daemon_alive (bo_kill0 bo) f (sd_in d)"
    and "k = 4 \<or> k = 5" and "boot k bo e a (sd_in d) pid (Begun, f) = (ph, f1)" and "boot 6 bo e a (sd_in d) pid (Begun, f) = (ph2, f2)"
    and "kill0 (sint pid)" and "da_shares a' \<noteq> []"
  shows "wait_for_socket (sd_in d) [f1] = Inr () \<and>
    fst (ensure_running mj dj kill0 (Inr ()) e a' f1) = SpawnDaemon (daemon_subprocess_args a') \<and>
    files (snd (ensure_running mj dj kill0 (Inr ()) e a' f1)) (sock_file (sd_in d)) = None \<and>
    fst (ensure_running mj dj kill0 (Inr ()) e a' f2) =
      RunErr (OtherErr ''daemon is running with different mount configuration; run 'pelagos vm stop' first, then retry'')"
proof -
  define j where "j = (if k = 4 then 1 else 2 :: nat)"
  have f1: "f1 = set_files (boot_files d pid ms ds j f) f" "j \<in> {1, 2, 3, 5}"
    using boot_progress(1,2)[OF assms(3), of pid] boot_from_begun[OF assms(4), of 3] boot_from_begun[OF assms(4), of 4] assms(5,6)
    by (auto simp: j_def numeral_eq_Suc)
  have f2: "f2 = set_files (boot_files d pid ms ds 3 f) f"
    using boot_progress(3)[OF assms(3), of pid] boot_from_begun[OF assms(4), of 5] assms(7) by (simp add: numeral_eq_Suc)
  have g1: "files f1 (d @ ''/vm.sock'') \<noteq> None" "files f1 (d @ ''/vm.pid'') = None"
    unfolding f1 j_def by (simp_all add: boot_files_at[unfolded One_nat_def])
  have g2: "files f2 (d @ ''/vm.pid'') = Some (Inr (show_word pid))" "files f2 (d @ ''/vm.mounts'') = None"
    unfolding f2 by (simp_all add: boot_files_at)
  have ready: "profile_ready e (da_profile a') d f1"
    unfolding f1(1) assms(2) by (rule profile_ready_again[OF assms(1)]) (rule boot_files_conf[OF f1(2)])
  have ready2: "profile_ready e (da_profile a') d f2"
    unfolding f2 assms(2) by (rule profile_ready_again[OF assms(1)]) (simp add: boot_files_conf)
  have "running_pid kill0 f1 (sd_in d) = None" "running_pid kill0 f2 (sd_in d) = Some pid"
    using g1 g2 assms(8) by (simp_all add: running_pid_def read_to_string_def u32_text.trim_enc u32_text.dec_enc)
  then show ?thesis
    using g1 g2 assms(9) ensure_decides[OF ready, of mj dj kill0] ensure_decides[OF ready2, of mj dj kill0]
    by (auto simp: is_daemon_alive_def read_mounts_def read_to_string_def clear_state_set)
qed

section \<open>Two daemons\<close>

text \<open>Two daemons of one profile that start at the same time; a schedule says which makes the next step.\<close>

fun race :: "boot_os \<Rightarrow> env \<Rightarrow> state_dir \<Rightarrow> daemon_args \<times> u32 \<Rightarrow> daemon_args \<times> u32 \<Rightarrow> bool list
    \<Rightarrow> boot_phase \<times> boot_phase \<times> fs \<Rightarrow> boot_phase \<times> boot_phase \<times> fs" where
  "race bo e sd d1 d2 [] w = w"
| "race bo e sd d1 d2 (first # sched) (p1, p2, f) =
     race bo e sd d1 d2 sched
       (if first then (case boot_step bo e (fst d1) sd (snd d1) (p1, f) of (p, f') \<Rightarrow> (p, p2, f'))
        else (case boot_step bo e (fst d2) sd (snd d2) (p2, f) of (p, f') \<Rightarrow> (p1, p, f')))"

lemma race_append: "race bo e sd d1 d2 (s @ t) w = race bo e sd d1 d2 t (race bo e sd d1 d2 s w)"
proof (induction s arbitrary: w)
  case (Cons x s)
  then show ?case by (cases w) (simp split: prod.split)
qed simp

lemma race_alone:
  "race bo e sd d1 d2 (replicate k True) (p1, p2, f) = (case boot k bo e (fst d1) sd (snd d1) (p1, f) of (p, f') \<Rightarrow> (p, p2, f'))"
  "race bo e sd d1 d2 (replicate k False) (p1, p2, f) = (case boot k bo e (fst d2) sd (snd d2) (p2, f) of (p, f') \<Rightarrow> (p1, p, f'))"
proof -
  show "race bo e sd d1 d2 (replicate k True) (p1, p2, f) = (case boot k bo e (fst d1) sd (snd d1) (p1, f) of (p, f') \<Rightarrow> (p, p2, f'))"
    by (induction k arbitrary: p1 f) (simp_all add: boot_Suc split: prod.split)
  show "race bo e sd d1 d2 (replicate k False) (p1, p2, f) = (case boot k bo e (fst d2) sd (snd d2) (p2, f) of (p, f') \<Rightarrow> (p1, p, f'))"
  proof (induction k arbitrary: p2 f)
    case (Suc k)
    then show ?case by (cases "boot_step bo e (fst d2) sd (snd d2) (p2, f)") (simp add: boot_Suc)
  qed simp
qed

lemma boots_again:
  assumes "profile_ready e p d f" and "da_profile a = p" and "boots bo e a d ms ds f" and "g (d @ ''/vm.conf'') = files f (d @ ''/vm.conf'')"
  shows "boots bo e a d ms ds (set_files g f)"
proof -
  have "load_conf e (set_files (cleared d (set_files g f)) f) p = load_conf e f p" "load_conf e (set_files (cleared d f) f) p = load_conf e f p"
    using load_conf_again[of e p d _ f] profile_ready_conf[OF assms(1)] assms(1,4) by (simp_all add: profile_ready_def cleared_def clear_files)
  then show ?thesis using assms(2,3) by (simp add: boots_def build_vm_config_def)
qed

text \<open>
  The guard against two daemons does not exclude them: two daemons that both look for the other before
  either has written its number can both come up, the second having removed the files of the
  first; the first serves a socket that has no name any more, and status and stop only know the
  second.
\<close>

lemma two_daemons:
  assumes "profile_ready e p d f" and "da_profile a1 = p" and "da_profile a2 = p"
    and "boots bo e a1 d ms1 ds1 f" and "boots bo e a2 d ms2 ds2 f" and "\<not> is_daemon_alive (bo_kill0 bo) f (sd_in d)" and "kill0 (sint pid2)"
  shows "\<exists>sched f'. race bo e (sd_in d) (a1, pid1) (a2, pid2) sched (Begun, Begun, f) = (Serving, Serving, f') \<and>
    vm_status kill0 (sd_in d) f' = (''running (pid '' @ show_word pid2 @ '')'', 0)"
proof -
  let ?f1 = "set_files (boot_files d pid1 ms1 ds1 5 f) f"
  let ?f2 = "set_files (boot_files d pid2 ms2 ds2 5 ?f1) f"
  let ?sched = "[True, False] @ replicate 7 True @ replicate 7 False"
  have "boots bo e a2 d ms2 ds2 ?f1" by (rule boots_again[OF assms(1,3,5)]) (simp add: boot_files_conf)
  from boot_progress(4)[OF this, of pid2]
  have last: "boot 7 bo e a2 (sd_in d) pid2 (Checked, ?f1) = (Serving, ?f2)" by simp
  have check: "boot_step bo e a (sd_in d) pid (Begun, f) = (Checked, f)" for a pid using assms(6) by (simp add: boot_step_def)
  have "race bo e (sd_in d) (a1, pid1) (a2, pid2) [True, False] (Begun, Begun, f) = (Checked, Checked, f)" by (simp add: check)
  then have "race bo e (sd_in d) (a1, pid1) (a2, pid2) ?sched (Begun, Begun, f) = (Serving, Serving, ?f2)"
    unfolding race_append by (simp only: race_alone fst_conv snd_conv boot_progress(4)[OF assms(4), of pid1] last prod.case)
  moreover have "files ?f2 (d @ ''/vm.pid'') = Some (Inr (show_word pid2))" by (simp add: boot_files_at)
  then have "running_pid kill0 ?f2 (sd_in d) = Some pid2"
    using assms(7) by (simp add: running_pid_def read_to_string_def u32_text.trim_enc u32_text.dec_enc)
  then have "vm_status kill0 (sd_in d) ?f2 = (''running (pid '' @ show_word pid2 @ '')'', 0)" by (simp add: vm_status_def)
  ultimately show ?thesis by (intro exI[of _ ?sched] exI[of _ ?f2] conjI)
qed

section \<open>An example\<close>

text \<open>The default profile with its address allocated, on a system where everything succeeds.\<close>

definition conf_fs :: fs where
  "conf_fs = demo_fs\<lparr>files := [''/x/pelagos/vm.conf'' \<mapsto> Inr (conf_line_of_ip (192, 168, 105, 2))]\<rparr>"

definition share_args :: daemon_args where
  "share_args = demo_args\<lparr>da_profile := ''default'', da_shares :=
     [\<lparr>share_host = ''/h'', share_tag = ''share0'', share_ro = False, share_path = ''/c''\<rparr>]\<rparr>"

definition demo_boot :: boot_os where
  "demo_boot = \<lparr>bo_kill0 = \<lambda>_. False, bo_vm = \<lambda>_. True, bo_mounts = \<lambda>_. Inr ''m'', bo_disks = \<lambda>_. Inr ''d''\<rparr>"

lemma build_vm_config_ok: "\<exists>c. build_vm_config e f a = Inr c"
proof -
  have shares: "fold (\<lambda>s b. b\<lparr>b_shares := b_shares b @ [(share_host s, share_tag s, share_ro s)]\<rparr>) ss b =
      b\<lparr>b_shares := b_shares b @ map (\<lambda>s. (share_host s, share_tag s, share_ro s)) ss\<rparr>" for ss b
    by (induction ss arbitrary: b) simp_all
  have disks: "fold (\<lambda>d b. b\<lparr>b_extra_disks := b_extra_disks b @ [d]\<rparr>) ds b = b\<lparr>b_extra_disks := b_extra_disks b @ ds\<rparr>" for ds b
    by (induction ds arbitrary: b) simp_all
  show ?thesis unfolding build_vm_config_def Let_def shares disks
    by (cases "da_initrd a") (simp_all add: builder_new_def build_config_def)
qed

lemma demo_ready: "profile_ready demo_env ''default'' ''/x/pelagos'' conf_fs"
proof -
  have dir: "profile_dir demo_env ''default'' = Inr ''/x/pelagos''" using demo_base by (simp add: profile_dir_def)
  have "parse_conf (conf_line_of_ip (192, 168, 105, 2)) = (parse_conf [])\<lparr>vm_profile_config.vm_ip := Some (192, 168, 105, 2)\<rparr>"
    using parse_conf_append[of "[]" "(192, 168, 105, 2)"] by (simp add: line_ended_def)
  then have "load_conf demo_env conf_fs ''default'' = Inr ((parse_conf [])\<lparr>vm_profile_config.vm_ip := Some (192, 168, 105, 2)\<rparr>)"
    using dir by (simp add: load_conf_def load_path_def read_to_string_def conf_fs_def path_join_def starts_with_def)
  moreover have "open_profile demo_env ''default'' conf_fs = (Inr (sd_in ''/x/pelagos''), conf_fs)"
    using dir by (simp add: open_profile_def create_profile_dir_def conf_fs_def demo_fs_def path_join_def starts_with_def sd_in_def)
  ultimately show ?thesis using dir by (simp add: profile_ready_def valid_profile_def)
qed

lemma demo_boots:
  "boots demo_boot demo_env share_args ''/x/pelagos'' ''m'' ''d'' conf_fs" "\<not> is_daemon_alive (bo_kill0 demo_boot) conf_fs (sd_in ''/x/pelagos'')"
  using build_vm_config_ok
  by (auto simp: boots_def demo_boot_def conf_fs_def demo_fs_def writable_def is_daemon_alive_def running_pid_def read_to_string_def)

lemma share_args_fields: "da_profile share_args = ''default''" "da_shares share_args \<noteq> []"
  by (simp_all add: share_args_def)

theorem daemon_recognised_witness:
  "fst (ensure_running (\<lambda>_. Inr (da_shares share_args)) (\<lambda>_. Inr (da_extra_disks share_args)) (\<lambda>_. True) (Inr ()) demo_env share_args
     (snd (boot 8 demo_boot demo_env share_args (sd_in ''/x/pelagos'') 42 (Begun, conf_fs)))) = AlreadyRunning"
proof -
  obtain ph f' where run: "boot 8 demo_boot demo_env share_args (sd_in ''/x/pelagos'') 42 (Begun, conf_fs) = (ph, f')"
    by (cases "boot 8 demo_boot demo_env share_args (sd_in ''/x/pelagos'') 42 (Begun, conf_fs)")
  from daemon_recognised[OF demo_ready share_args_fields(1) share_args_fields(1) demo_boots(1) _ _ demo_boots(2) _ run,
      of "\<lambda>_. Inr (da_shares share_args)" "\<lambda>_. Inr (da_extra_disks share_args)" "\<lambda>_. True"]
  show ?thesis unfolding run by simp
qed

lemma boot_window_witness:
  "fst (ensure_running (\<lambda>_. Inr []) (\<lambda>_. Inr []) (\<lambda>_. True) (Inr ()) demo_env share_args
     (snd (boot 4 demo_boot demo_env share_args (sd_in ''/x/pelagos'') 42 (Begun, conf_fs)))) = SpawnDaemon (daemon_subprocess_args share_args)"
proof -
  obtain p1 f1 where r1: "boot 4 demo_boot demo_env share_args (sd_in ''/x/pelagos'') 42 (Begun, conf_fs) = (p1, f1)"
    by (cases "boot 4 demo_boot demo_env share_args (sd_in ''/x/pelagos'') 42 (Begun, conf_fs)")
  obtain p2 f2 where r2: "boot 6 demo_boot demo_env share_args (sd_in ''/x/pelagos'') 42 (Begun, conf_fs) = (p2, f2)"
    by (cases "boot 6 demo_boot demo_env share_args (sd_in ''/x/pelagos'') 42 (Begun, conf_fs)")
  from boot_window[OF demo_ready share_args_fields(1) demo_boots _ r1 r2 _ share_args_fields(2), of "\<lambda>_. True" "\<lambda>_. Inr []" "\<lambda>_. Inr []"]
  show ?thesis unfolding r1 by simp
qed

lemma two_daemons_witness:
  "\<exists>sched f'. race demo_boot demo_env (sd_in ''/x/pelagos'') (share_args, 41) (share_args, 42) sched (Begun, Begun, conf_fs) = (Serving, Serving, f')"
  using two_daemons[OF demo_ready share_args_fields(1) share_args_fields(1) demo_boots(1) demo_boots(1) demo_boots(2), of "\<lambda>_. True" 42 41] by blast

end
