(* ===== verification/Cli_Main.thy ===== *)
theory Cli_Main
  imports Daemon_Life Run_Command Guest_Exec Guest_Kube
begin

text \<open>
  The command line of the host: the subcommands of \<open>pelagos\<close> and \<open>main\<close> in \<open>pelagos-mac/src/main.rs\<close>.
  What \<open>main\<close> decides is a plan: it ends at once with an exit code, or it performs one activity, a
  conversation with the guest or a program, whose exit code is that of the command. Parsing of the
  command line is the business of the library \<open>clap\<close>.
\<close>

section \<open>Subcommands\<close>

datatype container_commands = ContainerPrune

datatype kubernetes_cmd = KubeStatus | KubeStart | KubeStop

datatype compose_subcmd =
    ComposeUp string "string option" bool
  | ComposeDown string "string option" bool
  | ComposePs string "string option"
  | ComposeLogs string "string option" bool "string option"

datatype image_cmd =
    ImageLs bool
  | ImagePull string
  | ImageRm string
  | ImageTag string string
  | ImageInspect string
  | ImageLogin string "string option" bool
  | ImageLogout string

datatype vm_commands =
    VmStart
  | VmStop
  | VmStatus
  | VmShell
  | VmConsole
  | VmSsh "string list"
  | VmLs
  | VmInit "string option" bool

datatype commands =
    CmdRun run_opts
  | CmdExec string "string list" bool "string option" "string option"
  | CmdPs bool bool
  | CmdLogs string bool
  | CmdInspect string
  | CmdContainer container_commands
  | CmdStart string bool "string list"
  | CmdStop string
  | CmdRestart string u64
  | CmdRm string bool
  | CmdPing
  | CmdVersion
  | CmdSubscribe
  | CmdBuild string string "string list" bool "string option" string
  | CmdImage image_cmd
  | CmdVolume string "string option"
  | CmdNetwork string "string list"
  | CmdCompose compose_subcmd
  | CmdCp string string
  | CmdVm vm_commands
  | CmdKubernetes kubernetes_cmd
  | CmdVmDaemonInternal
  | CmdSshRelayProxy u16

section \<open>Activities and the system\<close>

text \<open>What is done on a connection to the guest, and the other things a command can turn into.\<close>

datatype activity =
    Passthrough host_command
  | Session host_command bool
  | BuildImage string string "string list" bool string
  | InspectImage string
  | LoginImage string "string option" bool
  | CopyFrom string string string
  | CopyTo string string string
  | AskKubernetes
  | AskPing
  | AskVersion
  | Watch
  | AttachConsole string bool
  | RunSsh "string list"
  | PingSsh
  | RelaySsh u16
  | ListProfiles
  | RunDaemon daemon_args

text \<open>The files of the host and the ports of the daemon.\<close>

type_synonym cli_world = "fs \<times> port_state"

text \<open>The system: environment, files that exist, the directory of the binary, the time, the JSON library,
  signal 0, the result of installing the helper, the terminals, the current directory, connecting
  to a socket, and starting a daemon until its socket appears; what \<open>vm init\<close> needs; the processes and
  files at each poll of \<open>vm stop\<close>; and how an activity is performed.\<close>

record main_os =
  mo_env :: env
  mo_exists :: "string \<Rightarrow> bool"
  mo_bin :: "string option"
  mo_now :: nat
  mo_mounts :: "string \<Rightarrow> string + virtiofs_share list"
  mo_disks :: "string \<Rightarrow> string + string list"
  mo_kill0 :: "int \<Rightarrow> bool"
  mo_blessed :: "string + unit"
  mo_stdout_tty :: bool
  mo_stdin_tty :: bool
  mo_cwd :: "string option"
  mo_getenv :: "string \<Rightarrow> string option"
  mo_connect :: "string \<Rightarrow> fs \<Rightarrow> bool"
  mo_spawn :: "daemon_args \<Rightarrow> cli_world \<Rightarrow> (io_err + unit) \<times> cli_world"
  mo_canon :: "string \<Rightarrow> string + string"
  mo_stopped :: "fs \<Rightarrow> fs"
  mo_polls :: "fs \<Rightarrow> ((int \<Rightarrow> bool) \<times> fs) list"
  mo_version :: string
  mo_perform :: "activity \<Rightarrow> cli_world \<Rightarrow> (string \<times> u32) \<times> cli_world"

text \<open>A plan: the text printed and the exit code, or an activity after some text.\<close>

datatype plan = Finish string u32 | Perform string activity

type_synonym planned = "plan \<times> cli_world"

section \<open>Reaching the daemon\<close>

definition main_args :: "main_os \<Rightarrow> cli \<Rightarrow> fs \<Rightarrow> daemon_args option" where
  "main_args os c f = daemon_args_from_cli (mo_env os) f (mo_exists os) (mo_bin os) (mo_now os) c"

definition ensured :: "main_os \<Rightarrow> daemon_args \<Rightarrow> cli_world \<Rightarrow> bool \<times> cli_world" where
  "ensured os a w =
     (case w of (f, ps) \<Rightarrow>
       (case ensure_running (mo_mounts os) (mo_disks os) (mo_kill0 os) (mo_blessed os) (mo_env os) a f of
          (RunErr _, f1) \<Rightarrow> (False, f1, ps)
        | (AlreadyRunning, f1) \<Rightarrow> (True, f1, ps)
        | (SpawnDaemon _, f1) \<Rightarrow>
            (case mo_spawn os a (f1, ps) of (Inl _, w') \<Rightarrow> (False, w') | (Inr _, w') \<Rightarrow> (True, w'))))"

text \<open>\<open>daemon_args_from_cli\<close> and \<open>ensure_running\<close> with their exits.\<close>

definition with_daemon :: "main_os \<Rightarrow> cli \<Rightarrow> (daemon_args \<Rightarrow> cli_world \<Rightarrow> planned) \<Rightarrow> cli_world \<Rightarrow> planned" where
  "with_daemon os c k w =
     (case main_args os c (fst w) of
        None \<Rightarrow> (Finish [] 1, w)
      | Some a \<Rightarrow> (case ensured os a w of (False, w1) \<Rightarrow> (Finish [] 1, w1) | (True, w1) \<Rightarrow> k a w1))"

definition connect_or_exit :: "main_os \<Rightarrow> string \<Rightarrow> activity \<Rightarrow> cli_world \<Rightarrow> planned" where
  "connect_or_exit os profile act w =
     (case w of (f, ps) \<Rightarrow>
       (case open_profile (mo_env os) profile f of
          (Inl _, f1) \<Rightarrow> (Finish [] 1, f1, ps)
        | (Inr sd, f1) \<Rightarrow> (if mo_connect os (sock_file sd) f1 then Perform [] act else Finish [] 1, f1, ps)))"

definition on_machine :: "main_os \<Rightarrow> cli \<Rightarrow> activity \<Rightarrow> cli_world \<Rightarrow> planned" where
  "on_machine os c act = with_daemon os c (\<lambda>_. connect_or_exit os (cli_profile c) act)"

text \<open>\<open>open_profile\<close> and \<open>is_daemon_alive\<close>; \<open>None\<close>: the state directory cannot be opened.\<close>

definition daemon_state_of :: "main_os \<Rightarrow> string \<Rightarrow> fs \<Rightarrow> bool option \<times> fs" where
  "daemon_state_of os profile f =
     (case open_profile (mo_env os) profile f of
        (Inl _, f1) \<Rightarrow> (None, f1)
      | (Inr sd, f1) \<Rightarrow> (Some (is_daemon_alive (mo_kill0 os) f1 sd), f1))"

section \<open>The subcommands\<close>

definition main_run :: "main_os \<Rightarrow> cli \<Rightarrow> run_opts \<Rightarrow> cli_world \<Rightarrow> planned" where
  "main_run os c r =
     with_daemon os c (\<lambda>a (f, ps).
       case register_ports (cli_ports c) ps of
         (Inl _, ps1) \<Rightarrow> (Finish [] 1, f, ps1)
       | (Inr _, ps1) \<Rightarrow>
           (let msg = run_message (mo_env os) (mo_stdout_tty os) c a r in
            connect_or_exit os (cli_profile c)
              (if ro_interactive r \<or> ro_tty r then Session msg (ro_tty r \<or> mo_stdout_tty os) else Passthrough msg) (f, ps1)))"

definition main_subscribe :: "main_os \<Rightarrow> cli \<Rightarrow> cli_world \<Rightarrow> planned" where
  "main_subscribe os c w =
     (case w of (f, ps) \<Rightarrow>
       (case daemon_state_of os (cli_profile c) f of
          (Some True, f1) \<Rightarrow> connect_or_exit os (cli_profile c) Watch (f1, ps)
        | (_, f1) \<Rightarrow> (Finish [] 0, f1, ps)))"

definition main_kubernetes :: "main_os \<Rightarrow> cli \<Rightarrow> kubernetes_cmd \<Rightarrow> cli_world \<Rightarrow> planned" where
  "main_kubernetes os c k =
     connect_or_exit os (cli_profile c)
       (case k of KubeStatus \<Rightarrow> AskKubernetes | KubeStart \<Rightarrow> Passthrough HKubernetesStart | KubeStop \<Rightarrow> Passthrough HKubernetesStop)"

definition main_ping :: "main_os \<Rightarrow> cli \<Rightarrow> cli_world \<Rightarrow> planned" where
  "main_ping os c =
     with_daemon os c (\<lambda>_ (f, ps).
       if ping_mode (case load_conf (mo_env os) f (cli_profile c) of Inl _ \<Rightarrow> config_default | Inr cfg \<Rightarrow> cfg) = Ssh
       then (Perform [] PingSsh, f, ps)
       else connect_or_exit os (cli_profile c) AskPing (f, ps))"

text \<open>\<open>version\<close>: \<open>daemon::connect\<close> is tried without an exit.\<close>

definition main_version :: "main_os \<Rightarrow> cli \<Rightarrow> cli_world \<Rightarrow> planned" where
  "main_version os c w =
     (case w of (f, ps) \<Rightarrow>
       (let line = ''pelagos-mac  '' @ mo_version os @ [nl] in
        case daemon_state_of os (cli_profile c) f of
          (Some True, f1) \<Rightarrow>
            (case connect_or_exit os (cli_profile c) AskVersion (f1, ps) of
               (Perform _ act, w1) \<Rightarrow> (Perform line act, w1)
             | (Finish _ _, w1) \<Rightarrow> (Finish line 0, w1))
        | (_, f1) \<Rightarrow> (Finish line 0, f1, ps)))"

definition main_ps :: "main_os \<Rightarrow> cli \<Rightarrow> bool \<Rightarrow> bool \<Rightarrow> cli_world \<Rightarrow> planned" where
  "main_ps os c all_containers json w =
     (case w of (f, ps) \<Rightarrow>
       (case daemon_state_of os (cli_profile c) f of
          (None, f1) \<Rightarrow> (Finish [] 1, f1, ps)
        | (Some False, f1) \<Rightarrow> (Finish [] 0, f1, ps)
        | (Some True, f1) \<Rightarrow> connect_or_exit os (cli_profile c) (Passthrough (HPs all_containers json)) (f1, ps)))"

definition main_start :: "main_os \<Rightarrow> cli \<Rightarrow> string \<Rightarrow> bool \<Rightarrow> string list \<Rightarrow> cli_world \<Rightarrow> planned" where
  "main_start os c name interactive cmd_override =
     (let guest_cmd = HStart name interactive cmd_override in
      on_machine os c (if interactive then Session guest_cmd (mo_stdout_tty os) else Passthrough guest_cmd))"

definition main_image :: "main_os \<Rightarrow> cli \<Rightarrow> image_cmd \<Rightarrow> cli_world \<Rightarrow> planned" where
  "main_image os c i =
     on_machine os c
       (case i of
          ImageLs json \<Rightarrow> Passthrough (HImageLs json)
        | ImagePull r \<Rightarrow> Passthrough (HImagePull r)
        | ImageRm r \<Rightarrow> Passthrough (HImageRm r)
        | ImageTag s t \<Rightarrow> Passthrough (HImageTag s t)
        | ImageInspect r \<Rightarrow> InspectImage r
        | ImageLogin registry username password_stdin \<Rightarrow> LoginImage registry username password_stdin
        | ImageLogout registry \<Rightarrow> Passthrough (HImageLogout registry))"

text \<open>Without a daemon \<open>volume\<close> and \<open>network\<close> answer themselves; \<open>name\<close> is what \<open>create\<close> prints.\<close>

definition without_daemon :: "string \<Rightarrow> string option \<Rightarrow> plan" where
  "without_daemon sb name =
     (if sb = ''ls'' then Finish [] 0
      else if sb = ''create'' then Finish (case name of Some n \<Rightarrow> n @ [nl] | None \<Rightarrow> []) 0
      else if sb = ''rm'' then Finish [] 0
      else Finish [] 1)"

definition main_resource :: "main_os \<Rightarrow> cli \<Rightarrow> string \<Rightarrow> string option \<Rightarrow> host_command \<Rightarrow> cli_world \<Rightarrow> planned" where
  "main_resource os c sb name cmd w =
     (case w of (f, ps) \<Rightarrow>
       (case daemon_state_of os (cli_profile c) f of
          (None, f1) \<Rightarrow> (Finish [] 1, f1, ps)
        | (Some False, f1) \<Rightarrow> (without_daemon sb name, f1, ps)
        | (Some True, f1) \<Rightarrow> on_machine os c (Passthrough cmd) (f1, ps)))"

definition main_volume :: "main_os \<Rightarrow> cli \<Rightarrow> string \<Rightarrow> string option \<Rightarrow> cli_world \<Rightarrow> planned" where
  "main_volume os c sb name = main_resource os c sb name (HVolume sb name)"

definition main_network :: "main_os \<Rightarrow> cli \<Rightarrow> string \<Rightarrow> string list \<Rightarrow> cli_world \<Rightarrow> planned" where
  "main_network os c sb args = main_resource os c sb (if args = [] then None else Some (last args)) (HNetwork sb args)"

definition compose_args :: "compose_subcmd \<Rightarrow> string \<times> string option \<times> string \<times> string list" where
  "compose_args s =
     (case s of
        ComposeUp file project foreground \<Rightarrow> (file, project, ''up'', if foreground then [''--foreground''] else [])
      | ComposeDown file project remove_volumes \<Rightarrow> (file, project, ''down'', if remove_volumes then [''--volumes''] else [])
      | ComposePs file project \<Rightarrow> (file, project, ''ps'', [])
      | ComposeLogs file project follow service \<Rightarrow>
          (file, project, ''logs'', (if follow then [''--follow''] else []) @ (case service of Some x \<Rightarrow> [x] | None \<Rightarrow> [])))"

definition compose_file :: "main_os \<Rightarrow> compose_subcmd \<Rightarrow> string" where
  "compose_file os s =
     (let file = fst (compose_args s) in
      if is_absolute file then file else path_join (case mo_cwd os of Some d \<Rightarrow> d | None \<Rightarrow> ''.'') file)"

definition compose_project :: "main_os \<Rightarrow> compose_subcmd \<Rightarrow> string" where
  "compose_project os s = compose_project_name (compose_file os s) (fst (snd (compose_args s)))"

text \<open>One of the iteration orders of the collected variables.\<close>

definition compose_env :: "(string \<Rightarrow> string option) \<Rightarrow> string option \<Rightarrow> host_env" where
  "compose_env getenv content =
     (case content of
        None \<Rightarrow> []
      | Some s \<Rightarrow> List.map_filter (\<lambda>n. map_option (Pair n) (getenv n)) (remdups (env_names s)))"

definition main_compose :: "main_os \<Rightarrow> cli \<Rightarrow> compose_subcmd \<Rightarrow> cli_world \<Rightarrow> planned" where
  "main_compose os c s w =
     (let abs_file = compose_file os s; (_, project, sb, extra) = compose_args s; name = compose_project os s in
      case compose_paths (get_or (home_dir (mo_env os)) []) abs_file of
        None \<Rightarrow> (Finish [] 1, w)
      | Some (vm_file, working_dir) \<Rightarrow>
          with_daemon os c (\<lambda>_ (f, ps).
            case register_compose (cli_ports c) [] ps of
              (Inl _, ps1) \<Rightarrow> (Finish [] 1, f, ps1)
            | (Inr registered, ps1) \<Rightarrow>
                (let ps2 = (if registered = [] then ps1 else snd (send_daemon_cmd (TrackComposeProject name registered) ps1));
                     env = compose_env (mo_getenv os) (case read_to_string f abs_file of Inl _ \<Rightarrow> None | Inr t \<Rightarrow> Some t)
                 in connect_or_exit os (cli_profile c) (Passthrough (HCompose sb vm_file working_dir project extra env)) (f, ps2))) w)"

text \<open>\<open>cp\<close> connects before it looks at its arguments.\<close>

definition main_cp :: "main_os \<Rightarrow> cli \<Rightarrow> string \<Rightarrow> string \<Rightarrow> cli_world \<Rightarrow> planned" where
  "main_cp os c src dst w =
     (case (parse_container_path src, parse_container_path dst) of
        (Some (container, path), _) \<Rightarrow> on_machine os c (CopyFrom container path dst) w
      | (None, Some (container, path)) \<Rightarrow> on_machine os c (CopyTo src container path) w
      | (None, None) \<Rightarrow> (Finish [] 1, snd (on_machine os c (CopyTo src [] dst) w)))"

definition main_console :: "main_os \<Rightarrow> cli \<Rightarrow> cli_world \<Rightarrow> planned" where
  "main_console os c =
     with_daemon os c (\<lambda>_ (f, ps).
       case open_profile (mo_env os) (cli_profile c) f of
         (Inl _, f1) \<Rightarrow> (Finish [] 1, f1, ps)
       | (Inr sd, f1) \<Rightarrow>
           (if files f1 (console_sock_file sd) = None then Finish [] 1
            else if \<not> mo_connect os (console_sock_file sd) f1 then Finish [] 1
            else Perform [] (AttachConsole (console_sock_file sd) (mo_stdin_tty os)), f1, ps))"

text \<open>The arguments of \<open>ssh\<close>.\<close>

definition ssh_args :: "string \<Rightarrow> ipv4 \<Rightarrow> string list \<Rightarrow> string list" where
  "ssh_args key ip extra =
     [''-i'', key, ''-o'', ''StrictHostKeyChecking=no'', ''-o'', ''UserKnownHostsFile=/dev/null'', ''-o'', ''LogLevel=ERROR'',
      ''-o'', ''ControlMaster=no'', ''root@'' @ show_ipv4 ip] @ extra"

definition main_ssh :: "main_os \<Rightarrow> cli \<Rightarrow> string list \<Rightarrow> cli_world \<Rightarrow> planned" where
  "main_ssh os c extra w =
     (case w of (f, ps) \<Rightarrow>
       (let go = (\<lambda>(f1, ps1).
          case global_ssh_key_file (mo_env os) of
            Inl _ \<Rightarrow> (Finish [] 1, f1, ps1)
          | Inr key \<Rightarrow>
              if files f1 key = None then (Finish [] 1, f1, ps1)
              else (Perform [] (RunSsh (ssh_args key
                 (get_or (case load_conf (mo_env os) f1 (cli_profile c) of Inl _ \<Rightarrow> None | Inr cfg \<Rightarrow> vm_profile_config.vm_ip cfg)
                    DEFAULT_GUEST_IP) extra)), f1, ps1))
        in case daemon_state_of os (cli_profile c) f of
             (None, f1) \<Rightarrow> (Finish [] 1, f1, ps)
           | (Some True, f1) \<Rightarrow> go (f1, ps)
           | (Some False, f1) \<Rightarrow> with_daemon os c (\<lambda>_. go) (f1, ps)))"

text \<open>The commands on the machine itself. \<open>vm stop\<close> and \<open>vm status\<close> open the state directory first.\<close>

definition main_vm :: "main_os \<Rightarrow> cli \<Rightarrow> vm_commands \<Rightarrow> cli_world \<Rightarrow> planned" where
  "main_vm os c v w =
     (case w of (f, ps) \<Rightarrow>
       (case v of
          VmStart \<Rightarrow> with_daemon os c (\<lambda>_ w1. (Finish (''running'' @ [nl]) 0, w1)) w
        | VmStop \<Rightarrow>
            (case open_profile (mo_env os) (cli_profile c) f of
               (Inl _, f1) \<Rightarrow> (Finish [] 1, f1, ps)
             | (Inr sd, f1) \<Rightarrow> (Finish (fst (vm_stop (mo_kill0 os) sd f1 (mo_polls os f1)) @ [nl]) 0, f1, ps))
        | VmStatus \<Rightarrow>
            (case open_profile (mo_env os) (cli_profile c) f of
               (Inl _, f1) \<Rightarrow> (Finish [] 1, f1, ps)
             | (Inr sd, f1) \<Rightarrow> (case vm_status (mo_kill0 os) sd f1 of (line, code) \<Rightarrow> (Finish (line @ [nl]) (of_nat code), f1, ps)))
        | VmLs \<Rightarrow> (Perform [] ListProfiles, w)
        | VmInit vm_data force \<Rightarrow>
            (case vm_init (mo_env os) (mo_kill0 os) (mo_canon os) (mo_bin os) (mo_stopped os) (cli_profile c) vm_data force f of
               (r, f1) \<Rightarrow> (Finish [] (case r of Inl _ \<Rightarrow> 1 | Inr _ \<Rightarrow> 0), f1, ps))
        | VmShell \<Rightarrow> on_machine os c (Session (HShell (mo_stdout_tty os)) (mo_stdout_tty os)) w
        | VmConsole \<Rightarrow> main_console os c w
        | VmSsh extra \<Rightarrow> main_ssh os c extra w))"

text \<open>The commands that only need a machine; the user of \<open>exec\<close> and the target of \<open>build\<close> are not used.\<close>

definition main_exec :: "main_os \<Rightarrow> cli \<Rightarrow> string \<Rightarrow> string list \<Rightarrow> bool \<Rightarrow> string option \<Rightarrow> cli_world \<Rightarrow> planned" where [simp]:
  "main_exec os c container args tty workdir =
     (let tty' = (tty \<or> mo_stdout_tty os) in on_machine os c (Session (HExecInto container args [] tty' workdir) tty'))"

definition main_logs :: "main_os \<Rightarrow> cli \<Rightarrow> string \<Rightarrow> bool \<Rightarrow> cli_world \<Rightarrow> planned" where [simp]:
  "main_logs os c name follow = on_machine os c (Passthrough (HLogs name follow))"

definition main_inspect :: "main_os \<Rightarrow> cli \<Rightarrow> string \<Rightarrow> cli_world \<Rightarrow> planned" where [simp]:
  "main_inspect os c name = on_machine os c (Passthrough (HContainerInspect name))"

definition main_container :: "main_os \<Rightarrow> cli \<Rightarrow> container_commands \<Rightarrow> cli_world \<Rightarrow> planned" where [simp]:
  "main_container os c sb = (case sb of ContainerPrune \<Rightarrow> on_machine os c (Passthrough HContainerPrune))"

definition main_stop :: "main_os \<Rightarrow> cli \<Rightarrow> string \<Rightarrow> cli_world \<Rightarrow> planned" where [simp]:
  "main_stop os c name = on_machine os c (Passthrough (HStop name))"

definition main_restart :: "main_os \<Rightarrow> cli \<Rightarrow> string \<Rightarrow> u64 \<Rightarrow> cli_world \<Rightarrow> planned" where [simp]:
  "main_restart os c name time = on_machine os c (Passthrough (HRestart name time))"

definition main_rm :: "main_os \<Rightarrow> cli \<Rightarrow> string \<Rightarrow> bool \<Rightarrow> cli_world \<Rightarrow> planned" where [simp]:
  "main_rm os c name force = on_machine os c (Passthrough (HRm name force))"

definition main_build :: "main_os \<Rightarrow> cli \<Rightarrow> string \<Rightarrow> string \<Rightarrow> string list \<Rightarrow> bool \<Rightarrow> string \<Rightarrow> cli_world \<Rightarrow> planned" where [simp]:
  "main_build os c t dockerfile build_args no_cache context_dir = on_machine os c (BuildImage t dockerfile build_args no_cache context_dir)"

definition main_plan :: "main_os \<Rightarrow> cli \<Rightarrow> commands \<Rightarrow> cli_world \<Rightarrow> planned" where
  "main_plan os c cmd w =
     (case cmd of
        CmdVmDaemonInternal \<Rightarrow>
          (case main_args os c (fst w) of None \<Rightarrow> (Finish [] 1, w) | Some a \<Rightarrow> (Perform [] (RunDaemon a), w))
      | CmdSshRelayProxy port \<Rightarrow> (Perform [] (RelaySsh port), w)
      | CmdVm v \<Rightarrow> main_vm os c v w
      | CmdRun r \<Rightarrow> main_run os c r w
      | CmdExec container args tty user workdir \<Rightarrow>
          main_exec os c container args tty workdir w
      | CmdSubscribe \<Rightarrow> main_subscribe os c w
      | CmdKubernetes k \<Rightarrow> main_kubernetes os c k w
      | CmdPing \<Rightarrow> main_ping os c w
      | CmdVersion \<Rightarrow> main_version os c w
      | CmdPs all_containers json \<Rightarrow> main_ps os c all_containers json w
      | CmdLogs name follow \<Rightarrow> main_logs os c name follow w
      | CmdInspect name \<Rightarrow> main_inspect os c name w
      | CmdContainer sb \<Rightarrow> main_container os c sb w
      | CmdStart name interactive cmd_override \<Rightarrow> main_start os c name interactive cmd_override w
      | CmdStop name \<Rightarrow> main_stop os c name w
      | CmdRestart name time \<Rightarrow> main_restart os c name time w
      | CmdRm name force \<Rightarrow> main_rm os c name force w
      | CmdBuild t file build_args no_cache target context_dir \<Rightarrow> main_build os c t file build_args no_cache context_dir w
      | CmdImage i \<Rightarrow> main_image os c i w
      | CmdVolume sb name \<Rightarrow> main_volume os c sb name w
      | CmdNetwork sb args \<Rightarrow> main_network os c sb args w
      | CmdCompose s \<Rightarrow> main_compose os c s w
      | CmdCp src dst \<Rightarrow> main_cp os c src dst w)"

text \<open>What follows the activity: a \<open>run\<close> in the foreground and every \<open>compose\<close> command give their ports back.\<close>

definition main_after :: "main_os \<Rightarrow> cli \<Rightarrow> commands \<Rightarrow> port_state \<Rightarrow> port_state" where
  "main_after os c cmd ps =
     (case cmd of
        CmdRun r \<Rightarrow> if ro_interactive r \<or> ro_tty r \<or> ro_detach r then ps else unregister_ports (cli_ports c) ps
      | CmdCompose s \<Rightarrow> snd (send_daemon_cmd (UnregisterComposePorts (compose_project os s)) ps)
      | _ \<Rightarrow> ps)"

text \<open>\<open>main\<close>: what is printed and the exit code. After \<open>version\<close> and \<open>subscribe\<close> the exit code is 0.\<close>

definition main_cli :: "main_os \<Rightarrow> cli \<Rightarrow> commands \<Rightarrow> cli_world \<Rightarrow> (string \<times> u32) \<times> cli_world" where
  "main_cli os c cmd w =
     (case main_plan os c cmd w of
        (Finish out code, w1) \<Rightarrow> ((out, code), w1)
      | (Perform out act, w1) \<Rightarrow>
          (case mo_perform os act w1 of
             ((out', code), f2, ps2) \<Rightarrow>
               ((out @ out', if act = AskVersion \<or> act = Watch then 0 else code), f2, main_after os c cmd ps2)))"

section \<open>Commands and connections agree\<close>

lemma connect_performs: "connect_or_exit os p act w = (Perform out a, w1) \<Longrightarrow> a = act \<and> out = []"
  by (auto simp: connect_or_exit_def split: prod.splits sum.splits if_splits)

lemma with_daemon_performs:
  "with_daemon os c k w = (Perform out act, w1) \<Longrightarrow> \<exists>a w'. k a w' = (Perform out act, w1)"
  by (auto simp: with_daemon_def split: option.splits prod.splits bool.splits)

lemma on_machine_performs: "on_machine os c act w = (Perform out a, w1) \<Longrightarrow> a = act \<and> out = []"
  unfolding on_machine_def using with_daemon_performs connect_performs by blast

lemmas performs = connect_performs on_machine_performs

text \<open>Replies after which the host returns: the last one is an exit code or an error.\<close>

definition closes :: "guest_response list \<Rightarrow> bool" where
  "closes rs = (rs \<noteq> [] \<and> (case last rs of GExit _ \<Rightarrow> True | GError _ \<Rightarrow> True | _ \<Rightarrow> False))"

lemma closes_append [simp]: "closes (xs @ [GExit c])" "closes rs \<Longrightarrow> closes (xs @ rs)" "closes [GError e]" "closes [GExit c]" "closes (x # xs @ [GExit c])" "closes (xs @ [y, GExit c])"
  by (auto simp: closes_def)

lemma closes_stream: "closes (spawn_and_stream r)"
  by (cases r) (auto simp: spawn_and_stream_def)

lemma closes_detached: "closes (run_detached r)"
  by (cases r) (auto simp: run_detached_def Let_def)

lemma closes_pull: "pull_attempts pull n k err = (False, rs) \<Longrightarrow> closes rs"
  by (induction pull n k err arbitrary: rs rule: pull_attempts.induct) (auto simp: Let_def split: sum.splits prod.splits if_splits)

lemma closes_run: "closes (run_container os img args env mounts name detach labels publish network dns)"
  by (auto simp: run_container_def pull_image_def Let_def closes_stream closes_detached split: prod.splits bool.splits if_splits
      dest: closes_pull)

lemma closes_kubernetes: "g = GKubernetesStart \<or> g = GKubernetesStop \<Longrightarrow> closes (fst (handle_kubernetes ko g ks))"
  by (auto simp: handle_kubernetes_def handle_kubernetes_start_def handle_kubernetes_stop_def say_def closes_def split: prod.splits)

text \<open>The commands the guest answers with lines, keeping the connection.\<close>

definition line_command :: "guest_command \<Rightarrow> bool" where
  "line_command g = (\<not> ends_connection g \<and>
     (stream_cmd g \<noteq> None \<or> g \<in> {GContainerPrune, GKubernetesStart, GKubernetesStop} \<or>
      (case g of GRun _ _ _ _ _ _ _ _ _ _ \<Rightarrow> True | _ \<Rightarrow> False)))"

lemma line_command_closes:
  assumes "line_command g"
  shows "closes (handle_command gos (\<lambda>k. fst (handle_kubernetes ko k ks)) g)"
  using assms closes_kubernetes[of g ko ks]
  by (cases g) (auto simp: line_command_def handle_command_def container_prune_def closes_stream closes_run split: prod.split)

text \<open>The kind of conversation the guest holds for an activity of a command; a terminal is asked for with
  \<open>-t\<close>.\<close>

definition tty_asked :: "commands \<Rightarrow> bool" where
  "tty_asked cmd = (case cmd of CmdRun r \<Rightarrow> ro_tty r | CmdExec _ _ tty _ _ \<Rightarrow> tty | _ \<Rightarrow> False)"

definition well_spoken :: "main_os \<Rightarrow> commands \<Rightarrow> activity \<Rightarrow> bool" where
  "well_spoken os cmd act =
     (case act of
        Passthrough h \<Rightarrow> line_command (as_guest h)
      | Session h tty \<Rightarrow>
          tty = (tty_asked cmd \<or> mo_stdout_tty os) \<and>
          (case as_guest h of
             GExec _ _ _ t _ _ _ _ _ _ \<Rightarrow> t = tty
           | GExecInto _ _ _ t _ \<Rightarrow> t = tty
           | GShell t \<Rightarrow> t = tty
           | GStart _ interactive _ \<Rightarrow> interactive
           | _ \<Rightarrow> False)
      | _ \<Rightarrow> True)"

lemma plan_well_spoken:
  assumes "main_plan os c cmd w = (Perform out act, w1)"
  shows "well_spoken os cmd act"
proof (cases cmd)
  case (CmdRun r)
  then show ?thesis using assms
    by (auto simp: main_plan_def main_run_def run_message_def well_spoken_def tty_asked_def line_command_def Let_def
        dest!: with_daemon_performs connect_performs split: prod.splits sum.splits if_splits)
next
  case (CmdVm v)
  then show ?thesis using assms
    by (cases v) (auto simp: main_plan_def main_vm_def main_console_def main_ssh_def well_spoken_def tty_asked_def line_command_def Let_def
        dest!: with_daemon_performs performs split: prod.splits sum.splits if_splits option.splits bool.splits)
next
  case (CmdImage i)
  then show ?thesis using assms
    by (cases i) (auto simp: main_plan_def main_image_def well_spoken_def tty_asked_def line_command_def dest!: performs)
next
  case (CmdCompose s)
  then show ?thesis using assms
    by (auto simp: main_plan_def main_compose_def well_spoken_def tty_asked_def line_command_def Let_def
        dest!: with_daemon_performs connect_performs split: prod.splits sum.splits if_splits option.splits)
next
  case (CmdKubernetes k)
  then show ?thesis using assms
    by (cases k) (auto simp: main_plan_def main_kubernetes_def well_spoken_def tty_asked_def line_command_def dest!: performs)
next
  case (CmdVolume sb name)
  then show ?thesis using assms
    by (auto simp: main_plan_def main_volume_def main_resource_def without_daemon_def well_spoken_def tty_asked_def line_command_def
        dest!: performs split: prod.splits option.splits bool.splits if_splits)
next
  case (CmdNetwork sb args)
  then show ?thesis using assms
    by (auto simp: main_plan_def main_network_def main_resource_def without_daemon_def well_spoken_def tty_asked_def line_command_def
        dest!: performs split: prod.splits option.splits bool.splits if_splits)
next
  case CmdPing
  then show ?thesis using assms
    by (auto simp: main_plan_def main_ping_def well_spoken_def tty_asked_def dest!: with_daemon_performs performs split: prod.splits if_splits)
qed (use assms in \<open>auto simp: main_plan_def main_subscribe_def main_version_def main_ps_def main_start_def main_cp_def
    well_spoken_def tty_asked_def line_command_def Let_def dest!: performs split: container_commands.splits prod.splits option.splits bool.splits plan.splits if_splits\<close>)

section \<open>Commands that never start a machine\<close>

fun never_boots :: "commands \<Rightarrow> bool" where
  "never_boots (CmdVm v) = (case v of VmStop \<Rightarrow> True | VmStatus \<Rightarrow> True | VmLs \<Rightarrow> True | VmInit _ _ \<Rightarrow> True | _ \<Rightarrow> False)"
| "never_boots CmdSubscribe = True"
| "never_boots (CmdKubernetes _) = True"
| "never_boots CmdVersion = True"
| "never_boots (CmdPs _ _) = True"
| "never_boots (CmdVolume _ _) = True"
| "never_boots (CmdNetwork _ _) = True"
| "never_boots CmdVmDaemonInternal = True"
| "never_boots (CmdSshRelayProxy _) = True"
| "never_boots _ = False"

lemma ensure_vm_ip_keeps:
  "ensure_vm_ip e p f = (r, g) \<Longrightarrow> profile_dir e p = Inr d \<Longrightarrow> q \<noteq> path_join d ''vm.conf'' \<Longrightarrow> files g q = files f q"
  by (auto simp: ensure_vm_ip_def append_vm_ip_to_conf_def create_profile_dir_def append_file_def Let_def
      split: sum.splits option.splits if_splits prod.splits)

lemma open_profile_twice: "open_profile e p f = (Inr sd, g) \<Longrightarrow> open_profile e p g = (Inr sd, g)"
  by (auto simp: open_profile_def create_profile_dir_def Let_def split: sum.splits option.splits if_splits prod.splits)

lemma ensure_alive:
  assumes "open_profile e (da_profile a) f = (Inr sd, f1)" and "is_daemon_alive kill0 f1 sd"
  shows "\<exists>x f2. ensure_running mj dj kill0 b e a f1 = (x, f2) \<and> (\<forall>args. x \<noteq> SpawnDaemon args)"
proof -
  obtain d where d: "profile_dir e (da_profile a) = Inr d" "pid_file sd = path_join d ''vm.pid''"
    using assms(1) by (auto simp: open_profile_def split: sum.splits prod.splits)
  have ne: "path_join d ''vm.pid'' \<noteq> path_join d ''vm.conf''" by (simp add: path_join_def starts_with_def)
  obtain r g where ip: "ensure_vm_ip e (da_profile a) f1 = (r, g)" by (rule prod.exhaust)
  have "files g (pid_file sd) = files f1 (pid_file sd)" using ensure_vm_ip_keeps[OF ip d(1), of "pid_file sd"] ne d(2) by simp
  then have "is_daemon_alive kill0 g sd" using assms(2) by (simp add: is_daemon_alive_def running_pid_def read_to_string_def)
  then show ?thesis using open_profile_twice[OF assms(1)] ip
    by (auto simp: ensure_running_def split: sum.splits if_splits prod.splits)
qed

lemma main_args_profile: "main_args os c f = Some a \<Longrightarrow> da_profile a = cli_profile c"
  by (auto simp: main_args_def daemon_args_from_cli_def Let_def split: option.splits)

lemma no_spawn:
  "main_args (os\<lparr>mo_spawn := s\<rparr>) = main_args os" "connect_or_exit (os\<lparr>mo_spawn := s\<rparr>) = connect_or_exit os"
  "daemon_state_of (os\<lparr>mo_spawn := s\<rparr>) = daemon_state_of os" "main_after (os\<lparr>mo_spawn := s\<rparr>) = main_after os"
  by (auto simp: fun_eq_iff main_args_def connect_or_exit_def daemon_state_of_def main_after_def compose_project_def compose_file_def Let_def
      split: commands.split prod.split sum.split option.split)

lemma on_machine_alive:
  assumes "open_profile (mo_env os) (cli_profile c) f = (Inr sd, f1)" and "is_daemon_alive (mo_kill0 os) f1 sd"
  shows "on_machine (os\<lparr>mo_spawn := s\<rparr>) c act (f1, ps) = on_machine os c act (f1, ps)"
proof (cases "main_args os c f1")
  case (Some a)
  have "\<exists>x f2. ensure_running (mo_mounts os) (mo_disks os) (mo_kill0 os) (mo_blessed os) (mo_env os) a f1 = (x, f2) \<and>
      (\<forall>args. x \<noteq> SpawnDaemon args)"
    using ensure_alive[of "mo_env os" a f sd f1 "mo_kill0 os"] main_args_profile[OF Some] assms by simp
  then show ?thesis using Some
    by (auto simp: on_machine_def with_daemon_def ensured_def no_spawn split: running_outcome.splits)
qed (simp add: on_machine_def with_daemon_def no_spawn)

lemma main_resource_spawn: "main_resource (os\<lparr>mo_spawn := s\<rparr>) c sb name cmd w = main_resource os c sb name cmd w"
proof (cases w)
  case (Pair f ps)
  obtain r f1 where o: "open_profile (mo_env os) (cli_profile c) f = (r, f1)" by (rule prod.exhaust)
  show ?thesis
  proof (cases r)
    case (Inr sd)
    then show ?thesis using o Pair on_machine_alive[of os c f sd f1 s "Passthrough cmd" ps]
      by (cases "is_daemon_alive (mo_kill0 os) f1 sd") (simp_all add: main_resource_def no_spawn daemon_state_of_def)
  qed (use o Pair in \<open>simp add: main_resource_def no_spawn daemon_state_of_def\<close>)
qed


text \<open>
  C4: The commands that only look at the state of things never start a machine: \<open>vm stop\<close>, \<open>status\<close>, \<open>ls\<close> and \<open>init\<close>,
  \<open>subscribe\<close>, \<open>kubernetes\<close>, \<open>version\<close>, \<open>ps\<close>, and \<open>volume\<close> and \<open>network\<close>, which check for a daemon first, do the same
  whatever starting a daemon would do.
\<close>

theorem cli_never_boots:
  assumes "never_boots cmd"
  shows "main_cli (os\<lparr>mo_spawn := s\<rparr>) c cmd w = main_cli os c cmd w"
proof -
  have "main_plan (os\<lparr>mo_spawn := s\<rparr>) c cmd w = main_plan os c cmd w"
  proof (cases cmd)
    case (CmdVm v)
    then show ?thesis using assms by (cases v) (auto simp: main_plan_def main_vm_def split: prod.split sum.split)
  qed (use assms in \<open>auto simp: main_plan_def main_subscribe_def main_kubernetes_def main_version_def main_ps_def main_volume_def
      main_network_def main_resource_spawn no_spawn Let_def split: prod.split option.split bool.split\<close>)
  then show ?thesis by (simp add: main_cli_def no_spawn split: prod.split plan.split)
qed

text \<open>The ports around a \<open>run\<close> are those of \<open>run_ports\<close>, provided the activity itself does not change them.\<close>

lemma cli_run_ports:
  assumes "main_plan os c (CmdRun r) w = (Perform out act, f1, ps1)" and "mo_perform os act (f1, ps1) = (res, f2, ps1)"
  shows "\<exists>ps. snd (snd (main_cli os c (CmdRun r) w)) = snd (run_ports r (cli_ports c) ps) \<and> fst (register_ports (cli_ports c) ps) = Inr ()"
proof -
  obtain a f0 ps0 where k: "(case register_ports (cli_ports c) ps0 of
      (Inl _, ps1) \<Rightarrow> (Finish [] 1, f0, ps1)
    | (Inr _, ps1) \<Rightarrow> let msg = run_message (mo_env os) (mo_stdout_tty os) c a r in
        connect_or_exit os (cli_profile c)
          (if ro_interactive r \<or> ro_tty r then Session msg (ro_tty r \<or> mo_stdout_tty os) else Passthrough msg) (f0, ps1))
      = (Perform out act, f1, ps1)"
    using assms(1) by (auto simp: main_plan_def main_run_def dest!: with_daemon_performs)
  then have reg: "register_ports (cli_ports c) ps0 = (Inr (), ps1)"
    by (auto simp: connect_or_exit_def Let_def split: prod.splits sum.splits if_splits)
  obtain o' code where res: "res = (o', code)" by (cases res)
  show ?thesis using reg assms res by (auto simp: main_cli_def main_after_def run_ports_def intro!: exI[of _ ps0])
qed

text \<open>Without a daemon creating a volume reports success although nothing is created, and creating
  a network prints its last argument, be it the value of an option.\<close>

lemma create_without_daemon:
  assumes "daemon_state_of os (cli_profile c) f = (Some False, f1)"
  shows "main_cli os c (CmdVolume ''create'' (Some n)) (f, ps) = ((n @ [nl], 0), f1, ps)"
    "main_cli os c (CmdNetwork ''create'' [n, ''--subnet'', s]) (f, ps) = ((s @ [nl], 0), f1, ps)"
  using assms by (simp_all add: main_cli_def main_plan_def main_volume_def main_network_def main_resource_def without_daemon_def)

section \<open>Examples\<close>

definition demo_main :: main_os where
  "demo_main = \<lparr>mo_env = demo_env, mo_exists = \<lambda>_. True, mo_bin = None, mo_now = 0, mo_mounts = \<lambda>_. Inl [], mo_disks = \<lambda>_. Inl [],
     mo_kill0 = \<lambda>_. True, mo_blessed = Inr (), mo_stdout_tty = True, mo_stdin_tty = True, mo_cwd = None, mo_getenv = \<lambda>_. None,
     mo_connect = \<lambda>_ _. True, mo_spawn = \<lambda>_ w. (Inr (), w), mo_canon = Inl, mo_stopped = id, mo_polls = \<lambda>_. [],
     mo_version = [], mo_perform = \<lambda>_ w. (([], 0), w)\<rparr>"

lemma demo_opened: "open_profile demo_env (cli_profile demo_cli) conf_fs = (Inr (sd_in ''/x/pelagos''), conf_fs)"
  using demo_ready by (simp add: profile_ready_def demo_cli_def)


theorem cli_never_boots_witness:
  "main_cli (demo_main\<lparr>mo_spawn := \<lambda>_ w. (Inl (OtherErr []), w)\<rparr>) demo_cli (CmdVolume ''create'' (Some ''v'')) (conf_fs, port_state_new) =
     ((''v'' @ [nl], 0), conf_fs, port_state_new)"
proof -
  have "daemon_state_of demo_main (cli_profile demo_cli) conf_fs = (Some False, conf_fs)"
    using demo_opened by (simp add: daemon_state_of_def demo_main_def is_daemon_alive_def running_pid_def read_to_string_def conf_fs_def sd_in_def)
  then show ?thesis
    using cli_never_boots[of "CmdVolume ''create'' (Some ''v'')" "\<lambda>_ w. (Inl (OtherErr []), w)" demo_main demo_cli "(conf_fs, port_state_new)"]
      create_without_daemon(1) by simp
qed

end
