(* ===== verification/Docker_Main.thy ===== *)
theory Docker_Main
  imports Docker_Build Cli_Main
begin

text \<open>
  The command line of the Docker shim: its subcommands, \<open>main\<close>, and the commands with fixed answers
  (\<open>pelagos-docker/src/main.rs\<close>). The shim works by running \<open>pelagos\<close>; the last part compares the command
  lines it makes with the subcommands \<open>pelagos\<close> has (theory \<open>Cli_Main\<close>).
\<close>

section \<open>Subcommands\<close>

text \<open>Options of \<open>docker run\<close> that are accepted and ignored.\<close>

record run_ignored =
  ri_rm :: bool
  ri_attach :: "string list"
  ri_sig_proxy :: "string option"
  ri_workdir :: "string option"
  ri_user :: "string option"
  ri_network :: "string option"
  ri_init :: bool
  ri_label_file :: "string list"

datatype docker_cmd =
    DkPull string bool
  | DkRun docker_run run_ignored
  | DkEvents "string option" "string list"
  | DkExec bool bool "string list" "string option" "string option" "string option" "string list"
  | DkStart "string list" bool bool
  | DkStop string
  | DkRm bool string
  | DkPs bool bool "string list" "string option"
  | DkLogs bool string
  | DkInspect "string option" "string list"
  | DkVersion "string option"
  | DkInfo "string option"
  | DkBuild string string "string list" bool "string option" string
  | DkBuildx "string list"
  | DkVolume string "string option" bool
  | DkNetwork string "string option" bool
  | DkCp string string
  | DkPort string
  | DkContext string "string list"

section \<open>Fixed answers\<close>

definition cmd_version :: tree where
  "cmd_version = JObj
     [(''Client'', JObj [(''Version'', JStr ''20.10.0''), (''ApiVersion'', JStr ''1.41''), (''Os'', JStr ''darwin''), (''Arch'', JStr ''arm64''),
        (''GoVersion'', JStr ''go1.21.0''), (''GitCommit'', JStr ''pelagos''), (''BuildTime'', JStr ''2025-01-01T00:00:00.000000000+00:00'')]),
      (''Server'', JObj [(''Engine'', JObj [(''Version'', JStr ''20.10.0''), (''ApiVersion'', JStr ''1.41''), (''MinAPIVersion'', JStr ''1.12''),
        (''GitCommit'', JStr ''pelagos''), (''GoVersion'', JStr ''go1.21.0''), (''Os'', JStr ''linux''), (''Arch'', JStr ''arm64''),
        (''BuildTime'', JStr ''2025-01-01T00:00:00.000000000+00:00'')])])]"

definition cmd_version_with_format :: "json_text \<Rightarrow> string option \<Rightarrow> string" where
  "cmd_version_with_format js format =
     (case format of
        Some fmt \<Rightarrow>
          if str_contains ''Server.Version'' fmt \<or> str_contains ''server.version'' fmt then ''20.10.0'' else to_text js cmd_version
      | None \<Rightarrow> to_text js cmd_version)"

definition cmd_info :: tree where
  "cmd_info = JObj
     [(''ID'', JStr ''pelagos''), (''ServerVersion'', JStr ''20.10.0''), (''OperatingSystem'', JStr ''Alpine Linux (VM)''),
      (''OSType'', JStr ''linux''), (''Architecture'', JStr ''aarch64''), (''NCPU'', JNum 1), (''MemTotal'', JNum 1073741824),
      (''Containers'', JNum 0), (''ContainersRunning'', JNum 0), (''ContainersPaused'', JNum 0), (''ContainersStopped'', JNum 0),
      (''Images'', JNum 0), (''DockerRootDir'', JStr ''/var/lib/docker''), (''HttpProxy'', JStr []), (''HttpsProxy'', JStr []),
      (''NoProxy'', JStr []), (''Labels'', JArr []), (''ExperimentalBuild'', JBool False),
      (''RegistryConfig'', JObj [(''AllowNondistributableArtifactsCIDRs'', JArr []), (''AllowNondistributableArtifactsHostnames'', JArr []),
         (''InsecureRegistryCIDRs'', JArr []), (''IndexConfigs'', JObj []), (''Mirrors'', JArr [])])]"

definition cmd_context :: "json_text \<Rightarrow> string \<Rightarrow> string list" where
  "cmd_context js sb =
     (if sb = ''ls'' then
        [to_text js (JObj [(''Current'', JBool True), (''Description'', JStr ''pelagos VM''), (''DockerEndpoint'', JStr []),
           (''Error'', JStr []), (''Name'', JStr ''default''), (''StackOrchestrator'', JStr [])])]
      else if sb = ''show'' then [''default'']
      else [])"

section \<open>Listing\<close>

definition ser_ps_row :: "ps_entry \<Rightarrow> tree" where
  "ser_ps_row en = JObj [(''Id'', JStr (pe_name en)), (''Names'', JStr (pe_name en)), (''Image'', JStr (pe_image en)),
     (''Status'', JStr (pe_status en)), (''State'', JStr (pe_status en))]"

definition ps_table_row :: "string \<Rightarrow> string \<Rightarrow> string \<Rightarrow> string" where
  "ps_table_row name status img =
     name @ replicate (30 - length name) CHR '' '' @ '' '' @ status @ replicate (12 - length status) CHR '' '' @ '' '' @ img"

definition cmd_ps :: "shim_sys \<Rightarrow> config \<Rightarrow> json_text \<Rightarrow> bool \<Rightarrow> bool \<Rightarrow> string list \<Rightarrow> string option
    \<Rightarrow> (u32 \<times> string list) \<times> shim_event list" where
  "cmd_ps sys cfg js all_containers is_quiet filters format =
     (case ps_entries sys cfg all_containers filters of
        (None, evs) \<Rightarrow> ((1, []), evs)
      | (Some entries, evs) \<Rightarrow>
          ((0, if is_quiet then map pe_name entries
              else if (case format of Some fm \<Rightarrow> str_contains ''json'' fm \<or> fm = ''{{json .}}'' | None \<Rightarrow> False)
              then map (\<lambda>en. to_text js (ser_ps_row en)) entries
              else if entries \<noteq> []
              then ps_table_row ''NAMES'' ''STATUS'' ''IMAGE'' # map (\<lambda>en. ps_table_row (pe_name en) (pe_status en) (pe_image en)) entries
              else []), evs))"

section \<open>The entry point\<close>

text \<open>What is printed: lines, the documents of \<open>inspect\<close>, or events.\<close>

datatype docker_out = Lines "string list" | Documents inspected | EventLog "start_event list"

text \<open>What a command depends on: programs, configuration, JSON library, environment, the iteration order of
  hash maps, the clock in milliseconds, seconds and for events, and the rounds of \<open>events\<close> until it is
  killed.\<close>

record docker_world =
  dw_sys :: shim_sys
  dw_host :: host
  dw_js :: json_text
  dw_env :: env
  dw_order :: map_order
  dw_millis :: nat
  dw_secs :: nat
  dw_clock :: "nat \<Rightarrow> u64"
  dw_rounds :: "shim_sys list"

definition docker_command :: "docker_world \<Rightarrow> config \<Rightarrow> docker_cmd \<Rightarrow> fs \<Rightarrow> docker_out \<times> u32 \<times> shim_event list \<times> fs" where
  "docker_command dw cfg cmd f =
     (let sys = dw_sys dw; js = dw_js dw; e = dw_env dw; plain = (\<lambda>(code, evs). (Lines [], code, evs, f));
          stateful = (\<lambda>(code, evs, f'). (Lines [], code, evs, f')) in
      case cmd of
        DkPull img is_quiet \<Rightarrow> plain (cmd_pull sys cfg img)
      | DkRun o' _ \<Rightarrow> stateful (cmd_run sys cfg js e (dw_millis dw) (dw_secs dw) o' f)
      | DkExec interactive tty env user workdir detach_keys name_and_args \<Rightarrow> plain (cmd_exec sys cfg tty user workdir env name_and_args)
      | DkStart names _ _ \<Rightarrow> plain (cmd_start sys cfg names)
      | DkStop name \<Rightarrow> stateful (cmd_stop sys cfg js e name f)
      | DkRm force name \<Rightarrow> stateful (cmd_rm sys cfg js e force name f)
      | DkPs all_containers is_quiet filters format \<Rightarrow>
          (case cmd_ps sys cfg js all_containers is_quiet filters format of ((code, ls), evs) \<Rightarrow> (Lines ls, code, evs, f))
      | DkLogs follow name \<Rightarrow> plain (cmd_logs sys cfg follow name)
      | DkInspect inspect_type names \<Rightarrow>
          (case cmd_inspect sys cfg js e inspect_type names f of ((code, docs), evs) \<Rightarrow> (Documents docs, code, evs, f))
      | DkVersion format \<Rightarrow> (Lines [cmd_version_with_format js format], 0, [], f)
      | DkInfo _ \<Rightarrow> (Lines [to_text js cmd_info], 0, [], f)
      | DkEvents _ _ \<Rightarrow> (case cmd_events (dw_clock dw) cfg (dw_rounds dw) of (written, evs) \<Rightarrow> (EventLog written, 0, evs, f))
      | DkBuild t file build_args no_cache target context_dir \<Rightarrow>
          stateful (cmd_build sys cfg (dw_order dw) (dw_millis dw) t file build_args no_cache context_dir f)
      | DkBuildx _ \<Rightarrow> (Lines [], 1, [], f)
      | DkVolume sb name is_quiet \<Rightarrow> (case cmd_volume sys cfg sb name is_quiet of (code, ls, evs) \<Rightarrow> (Lines ls, code, evs, f))
      | DkNetwork sb name _ \<Rightarrow> plain (cmd_network sys cfg sb name)
      | DkCp src dst \<Rightarrow> plain (cmd_cp sys cfg src dst)
      | DkContext sb _ \<Rightarrow> (Lines (cmd_context js sb), 0, [], f)
      | DkPort name \<Rightarrow> (case cmd_port js e name f of (code, ls) \<Rightarrow> (Lines ls, code, [], f)))"

definition docker_main :: "docker_world \<Rightarrow> string list \<Rightarrow> docker_cmd \<Rightarrow> fs \<Rightarrow> docker_out \<times> u32 \<times> shim_event list \<times> fs" where
  "docker_main dw argv cmd f =
     (if argv = [''-v''] then (Lines [''Docker version 20.10.0, build pelagos''], 0, [], f)
      else (case load_config (dw_host dw) of
              Inl _ \<Rightarrow> (Lines [], 1, [], f)
            | Inr cfg \<Rightarrow> docker_command dw cfg cmd f))"

section \<open>The interface between the two programs\<close>

text \<open>The name of a subcommand of \<open>pelagos\<close> as \<open>clap\<close> derives it from the constructor.\<close>

fun subcommand_name :: "commands \<Rightarrow> string" where
  "subcommand_name (CmdRun _) = ''run''"
| "subcommand_name (CmdExec _ _ _ _ _) = ''exec''"
| "subcommand_name (CmdPs _ _) = ''ps''"
| "subcommand_name (CmdLogs _ _) = ''logs''"
| "subcommand_name (CmdInspect _) = ''inspect''"
| "subcommand_name (CmdContainer _) = ''container''"
| "subcommand_name (CmdStart _ _ _) = ''start''"
| "subcommand_name (CmdStop _) = ''stop''"
| "subcommand_name (CmdRestart _ _) = ''restart''"
| "subcommand_name (CmdRm _ _) = ''rm''"
| "subcommand_name CmdPing = ''ping''"
| "subcommand_name CmdVersion = ''version''"
| "subcommand_name CmdSubscribe = ''subscribe''"
| "subcommand_name (CmdBuild _ _ _ _ _ _) = ''build''"
| "subcommand_name (CmdImage _) = ''image''"
| "subcommand_name (CmdVolume _ _) = ''volume''"
| "subcommand_name (CmdNetwork _ _) = ''network''"
| "subcommand_name (CmdCompose _) = ''compose''"
| "subcommand_name (CmdCp _ _) = ''cp''"
| "subcommand_name (CmdVm _) = ''vm''"
| "subcommand_name (CmdKubernetes _) = ''kubernetes''"
| "subcommand_name CmdVmDaemonInternal = ''vm-daemon-internal''"
| "subcommand_name (CmdSshRelayProxy _) = ''ssh-relay-proxy''"

definition is_subcommand :: "string \<Rightarrow> bool" where
  "is_subcommand w = (\<exists>c. subcommand_name c = w)"

lemma known_subcommands [simp]:
  "is_subcommand ''run''" "is_subcommand ''exec''" "is_subcommand ''logs''" "is_subcommand ''start''" "is_subcommand ''stop''"
  "is_subcommand ''rm''" "is_subcommand ''build''" "is_subcommand ''volume''" "is_subcommand ''network''" "is_subcommand ''cp''"
  "is_subcommand ''ps''" "is_subcommand ''inspect''"
  unfolding is_subcommand_def
  by (metis subcommand_name.simps(1)) (metis subcommand_name.simps(2), metis subcommand_name.simps(4), metis subcommand_name.simps(7),
    metis subcommand_name.simps(8), metis subcommand_name.simps(10), metis subcommand_name.simps(14), metis subcommand_name.simps(16),
    metis subcommand_name.simps(17), metis subcommand_name.simps(19), metis subcommand_name.simps(3), metis subcommand_name.simps(5))

lemma no_port_proxy: "\<not> is_subcommand ''port-proxy''"
proof -
  have "subcommand_name c \<noteq> ''port-proxy''" for c by (cases c) simp_all
  then show ?thesis by (simp add: is_subcommand_def)
qed

text \<open>A step of the shim that \<open>pelagos\<close> can parse, as far as its first word tells.\<close>

fun understood :: "config \<Rightarrow> shim_event \<Rightarrow> bool" where
  "understood cfg (Ran a) = (a \<noteq> [] \<and> is_subcommand (hd a))"
| "understood cfg (SpawnedProxy a pid) =
     (\<exists>w ws. a = pelagos_prefix_args cfg @ w # ws \<and> is_subcommand w)"
| "understood cfg _ = True"

fun is_proxy :: "shim_event \<Rightarrow> bool" where
  "is_proxy (SpawnedProxy _ _) = True"
| "is_proxy _ = False"

text \<open>The same, with the proxies being exactly the commands of \<open>proxy_args\<close>.\<close>

fun well_made :: "config \<Rightarrow> shim_event \<Rightarrow> bool" where
  "well_made cfg (Ran a) = (a \<noteq> [] \<and> is_subcommand (hd a))"
| "well_made cfg (SpawnedProxy a pid) = (\<exists>ps. a = proxy_args cfg ps)"
| "well_made cfg _ = True"

lemma well_made_understood: "well_made cfg ev \<Longrightarrow> understood cfg ev \<longleftrightarrow> \<not> is_proxy ev"
  using no_port_proxy by (cases ev) (auto simp: proxy_args_def)

lemma well_made_reads:
  "list_all (well_made cfg) (snd (pelagos_container_inspect_json sys cfg name))"
  "list_all (well_made cfg) (snd (pelagos_container_labels sys cfg name))"
  "list_all (well_made cfg) (snd (ps_entries sys cfg all_containers filters))"
  "list_all (well_made cfg) (snd (inspect_one sys cfg sm cache ens name))"
proof -
  show i: "list_all (well_made cfg) (snd (pelagos_container_inspect_json sys cfg name))" for name
    by (simp add: pelagos_container_inspect_json_def Let_def)
  show l: "list_all (well_made cfg) (snd (pelagos_container_labels sys cfg name))" for name
    using i[of name] by (simp add: pelagos_container_labels_def)
  show "list_all (well_made cfg) (snd (ps_entries sys cfg all_containers filters))"
    using l by (simp add: ps_entries_def run_pelagos_def list_all_iff Let_def split: sum.split prod.split)
  show "list_all (well_made cfg) (snd (inspect_one sys cfg sm cache ens name))"
    using i[of name] by (auto simp: inspect_one_def split: option.split prod.split)
qed

lemma well_made_ps: "list_all (well_made cfg) (snd (cmd_ps sys cfg js all_containers is_quiet filters format))"
  using well_made_reads(3)[of cfg sys all_containers filters] by (auto simp: cmd_ps_def split: option.splits prod.splits)

lemma well_made_inspect_container: "list_all (well_made cfg) (snd (cmd_inspect_container sys cfg js e names f))"
  using well_made_reads(4) by (fastforce simp: cmd_inspect_container_def run_pelagos_def list_all_iff Let_def split: sum.split prod.split)

lemma well_made_inspect: "list_all (well_made cfg) (snd (cmd_inspect sys cfg js e ty names f))"
  using well_made_inspect_container[of cfg sys js e names f] by (simp add: cmd_inspect_def run_pelagos_def Let_def)

lemma well_made_events: "list_all (well_made cfg) (snd (cmd_events clock cfg rounds))"
proof -
  have entry: "list_all (well_made cfg) (snd (snd (event_entry clock cfg sys en st)))" if "list_all (well_made cfg) (snd (snd st))" for sys en st
    using that well_made_reads(2)[of cfg sys "pe_name en"] by (auto simp: event_entry_def split: prod.splits)
  have entries: "list_all (well_made cfg) (snd (snd (fold (event_entry clock cfg sys) ens st)))" if "list_all (well_made cfg) (snd (snd st))" for sys ens st
    using that by (induction ens arbitrary: st) (simp_all add: entry)
  have round: "list_all (well_made cfg) (snd (snd (event_round clock cfg sys st)))" if "list_all (well_made cfg) (snd (snd st))" for sys st
    using that by (cases st) (auto simp: event_round_def run_pelagos_def intro!: entries split: sum.splits)
  have "list_all (well_made cfg) (snd (snd (fold (event_round clock cfg) rounds st)))" if "list_all (well_made cfg) (snd (snd st))" for st
    using that by (induction rounds arbitrary: st) (simp_all add: round)
  from this[of "({}, [], [])"] show ?thesis by (simp add: cmd_events_def)
qed

lemma well_made_parts:
  "list_all (well_made cfg) (kill_proxy_for_container js e name f)"
  "list_all (well_made cfg) (snd (pull_probe sys cfg probe img))"
  "list_all (well_made cfg) (snd (pull_images sys cfg imgs))"
proof -
  show "list_all (well_made cfg) (kill_proxy_for_container js e name f)"
    by (simp add: kill_proxy_for_container_def split: option.split)
  show p: "list_all (well_made cfg) (snd (pull_probe sys cfg probe img))" for probe img
    by (simp add: pull_probe_def run_pelagos_def split: sum.split prod.split)
  show "list_all (well_made cfg) (snd (pull_images sys cfg imgs))"
  proof (induction imgs)
    case (Cons img imgs)
    then show ?case using p[of "probe_name img" img] by (auto simp: pull_image_probe_def Let_def split: prod.splits)
  qed simp
qed

lemma well_made_build:
  assumes "cmd_build sys cfg order millis t file build_args no_cache context_dir f = (code, evs, f')"
  shows "list_all (well_made cfg) evs"
proof -
  obtain r f1 where pre: "preprocess_dockerfile_args order millis (build_file context_dir file) build_args f = (r, f1)" by (rule prod.exhaust)
  obtain rc es where pull: "pull_base_images sys cfg order (get_or r (build_file context_dir file)) build_args f1 = (rc, es)" by (rule prod.exhaust)
  have "list_all (well_made cfg) es"
    using pull well_made_parts(3)[of cfg sys] by (auto simp: pull_base_images_def split: sum.splits)
       (metis snd_conv)+
  then show ?thesis using assms pre pull by (auto simp: cmd_build_def build_sub_args_def Let_def split: if_splits)
qed

lemma well_made_command:
  assumes "docker_command dw cfg cmd f = (out, code, evs, f')"
  shows "list_all (well_made cfg) evs"
proof (cases cmd)
  case (DkRun r ig)
  then show ?thesis using assms
    by (auto simp: docker_command_def cmd_run_def run_sub_args_def Let_def split: list.splits option.splits if_splits)
next
  case (DkBuild t fl build_args no_cache target context_dir)
  then show ?thesis using assms well_made_build
    by (auto simp: docker_command_def Let_def split: prod.splits)
next
  case (DkPull img q)
  then show ?thesis using assms well_made_parts(2)[of cfg "dw_sys dw" "''pelagos-docker-pull-probe''" img]
    by (auto simp: docker_command_def cmd_pull_def Let_def split: prod.splits)
next
  case (DkStop name)
  then show ?thesis using assms well_made_parts(1)[of cfg "dw_js dw" "dw_env dw" name f]
    by (auto simp: docker_command_def cmd_stop_def Let_def)
next
  case (DkRm force name)
  then show ?thesis using assms well_made_parts(1)[of cfg "dw_js dw" "dw_env dw" name f]
    by (auto simp: docker_command_def cmd_rm_def Let_def)
next
  case (DkExec i tty env user workdir dk na)
  then show ?thesis using assms
    by (auto simp: docker_command_def cmd_exec_def exec_sub_args_def passthrough_def Let_def split: list.splits)
next
  case (DkVolume sb name q)
  then show ?thesis using assms
    by (auto simp: docker_command_def cmd_volume_def run_pelagos_def Let_def split: sum.splits if_splits prod.splits)
next
  case (DkPs all_containers q filters format)
  then show ?thesis using assms well_made_ps[of cfg "dw_sys dw" "dw_js dw" all_containers q filters format]
    by (simp add: docker_command_def Let_def split: prod.splits)
next
  case (DkInspect ty names)
  then show ?thesis using assms well_made_inspect[of cfg "dw_sys dw" "dw_js dw" "dw_env dw" ty names f]
    by (simp add: docker_command_def Let_def split: prod.splits)
next
  case (DkEvents a b)
  then show ?thesis using assms well_made_events[of cfg "dw_clock dw" "dw_rounds dw"]
    by (simp add: docker_command_def Let_def split: prod.splits)
qed (use assms in \<open>auto simp: docker_command_def cmd_start_def cmd_logs_def cmd_cp_def cmd_network_def network_args_def passthrough_def
    list_all_iff Let_def split: prod.splits if_splits\<close>)

text \<open>
  C20: The two programs fit together, except for one command: whatever Docker command is given, every run of
  \<open>pelagos\<close> the shim makes starts with a subcommand \<open>pelagos\<close> has; but a port proxy is always started with a
  word that is not one, so that \<open>pelagos\<close> refuses its arguments and no port is ever forwarded by it.
\<close>

theorem docker_speaks_pelagos:
  assumes "docker_main dw argv cmd f = (out, code, evs, f')" and "load_config (dw_host dw) = Inr cfg" and "ev \<in> set evs"
  shows "understood cfg ev \<longleftrightarrow> \<not> is_proxy ev"
proof -
  have "evs = [] \<or> docker_command dw cfg cmd f = (out, code, evs, f')"
    using assms(1,2) by (auto simp: docker_main_def split: if_splits)
  then have "well_made cfg ev" using assms(3) well_made_command by (fastforce simp: list_all_iff)
  then show ?thesis by (rule well_made_understood)
qed

text \<open>A container with a published port, on a machine with the artifacts of a build tree.\<close>

definition demo_tree :: host where
  "demo_tree = \<lparr>h_var = (\<lambda>_. None), h_exists = (\<lambda>_. True), h_is_file = (\<lambda>_. True), h_read = (\<lambda>_. None), h_exe_dir = Some ''bin''\<rparr>"

definition demo_world :: docker_world where
  "demo_world = \<lparr>dw_sys = demo_sys, dw_host = demo_tree, dw_js = demo_js, dw_env = demo_home, dw_order = (\<lambda>m. m), dw_millis = 0,
     dw_secs = 0, dw_clock = (\<lambda>_. 0), dw_rounds = []\<rparr>"

definition demo_ignored :: run_ignored where
  "demo_ignored = \<lparr>ri_rm = False, ri_attach = [], ri_sig_proxy = None, ri_workdir = None, ri_user = None, ri_network = None,
     ri_init = False, ri_label_file = []\<rparr>"

definition demo_dev :: config where
  "demo_dev = artifacts_in demo_tree (path_join ''bin'' ''pelagos'') ''out''"

lemma demo_tree_config: "load_config demo_tree = Inr demo_dev"
proof -
  have "from_file demo_tree = None" "from_env demo_tree = None" "from_path_sibling demo_tree = None"
    by (simp_all add: from_file_def from_env_def from_path_sibling_def find_pelagos_dir_def find_pelagos_on_path_def config_file_path_def
        demo_tree_def)
  moreover have "from_dev_out demo_tree = Some demo_dev"
    by (simp add: from_dev_out_def complete_def demo_dev_def Let_def) (simp add: demo_tree_def)
  ultimately show ?thesis by (simp add: load_config_def)
qed

theorem docker_speaks_pelagos_witness:
  "\<exists>out code evs f'. docker_main demo_world [''run'', ''-d'', ''-p'', ''80:80''] (DkRun demo_run demo_ignored) demo_fs = (out, code, evs, f') \<and>
     SpawnedProxy (proxy_args demo_dev [''80:80'']) 77 \<in> set evs \<and>
     \<not> understood demo_dev (SpawnedProxy (proxy_args demo_dev [''80:80'']) 77)"
proof -
  obtain out code evs f' where r: "docker_main demo_world [''run'', ''-d'', ''-p'', ''80:80''] (DkRun demo_run demo_ignored) demo_fs = (out, code, evs, f')"
    by (rule prod_cases4)
  have cfg: "load_config (dw_host demo_world) = Inr demo_dev" using demo_tree_config by (simp add: demo_world_def)
  have ev: "SpawnedProxy (proxy_args demo_dev [''80:80'']) 77 \<in> set evs"
    using r cfg by (auto simp: docker_main_def docker_command_def cmd_run_def demo_world_def demo_run_def demo_sys_def proxy_child_def
        run_inherited_def run_name_def get_or_def Let_def)
  show ?thesis using r ev docker_speaks_pelagos[OF r cfg ev] by auto
qed

end
