(* ===== verification/Console.thy ===== *)
theory Console
  imports Prelude
begin

text \<open>
  The serial console relay of \<open>pelagos-mac/src/daemon.rs\<close>: the ring buffer that keeps the
  recent output of the virtual machine, the loop that drains the console while no client is
  attached and replays the buffer to a client that connects, and the session that proxies
  between a client and the console. What a bounded history has to provide is the locale
  \<open>bounded_history\<close>; the ring buffer is interpreted in it, and the replay of the relay loop
  rests on the facts of the locale.
\<close>

section \<open>Bounded histories\<close>

definition lastn :: "nat \<Rightarrow> 'a list \<Rightarrow> 'a list" where
  "lastn n xs = drop (length xs - n) xs"

lemma lastn_short [simp]: "length xs \<le> n \<Longrightarrow> lastn n xs = xs"
  by (simp add: lastn_def)

lemma length_lastn [simp]: "length (lastn n xs) = min n (length xs)"
  by (simp add: lastn_def)

lemma lastn_append_lastn: "lastn n (lastn n xs @ ys) = lastn n (xs @ ys)"
proof (cases "length xs \<le> n")
  case False
  then have xs: "xs = take (length xs - n) xs @ lastn n xs" by (simp add: lastn_def)
  have "drop (length xs + length ys - n) (xs @ ys) = drop (length ys) (lastn n xs @ ys)"
    using False by (subst xs) (simp add: drop_append del: append_take_drop_id)
  then show ?thesis using False by (simp add: lastn_def min_def)
qed simp

lemma lastn_long: "n \<le> length ys \<Longrightarrow> lastn n (xs @ ys) = lastn n ys"
  by (simp add: lastn_def)

locale bounded_history =
  fixes empty :: "'b" and push :: "'a list \<Rightarrow> 'b \<Rightarrow> 'b" and contents :: "'b \<Rightarrow> 'a list"
    and ok :: "'b \<Rightarrow> bool" and cap :: nat
  assumes empty_ok: "ok empty" and contents_empty: "contents empty = []"
    and push_ok: "ok r \<Longrightarrow> ok (push d r)"
    and contents_push: "ok r \<Longrightarrow> contents (push d r) = lastn cap (contents r @ d)"
begin

lemma fold_ok: "ok r \<Longrightarrow> ok (fold push ds r)"
  by (induction ds arbitrary: r) (simp_all add: push_ok)

lemma contents_fold:
  "ok r \<Longrightarrow> length (contents r) \<le> cap \<Longrightarrow> contents (fold push ds r) = lastn cap (contents r @ concat ds)"
proof (induction ds arbitrary: r)
  case (Cons d ds)
  have "contents (fold push ds (push d r)) = lastn cap (contents (push d r) @ concat ds)"
    using Cons.prems by (intro Cons.IH) (simp_all add: push_ok contents_push)
  then show ?case using Cons.prems by (simp add: contents_push lastn_append_lastn)
qed simp

lemma contents_history: "contents (fold push ds empty) = lastn cap (concat ds)"
  using contents_fold[OF empty_ok] by (simp add: contents_empty)

end

section \<open>The ring buffer\<close>

record ring =
  ring_buf :: bytes
  ring_head :: nat
  ring_len :: nat

definition ring_new :: "nat \<Rightarrow> ring" where
  "ring_new capacity = \<lparr>ring_buf = replicate capacity 0, ring_head = 0, ring_len = 0\<rparr>"

text \<open>The body of the loop of \<open>push_slice\<close>.\<close>

definition push_byte :: "u8 \<Rightarrow> ring \<Rightarrow> ring" where
  "push_byte b r =
     (let cap = length (ring_buf r);
          tail = (ring_head r + ring_len r) mod cap;
          r = r\<lparr>ring_buf := (ring_buf r)[tail := b]\<rparr>
      in if ring_len r < cap then r\<lparr>ring_len := ring_len r + 1\<rparr>
         else r\<lparr>ring_head := (ring_head r + 1) mod cap\<rparr>)"

definition push_slice :: "bytes \<Rightarrow> ring \<Rightarrow> ring" where
  "push_slice data r =
     (let cap = length (ring_buf r);
          data = (if length data > cap then drop (length data - cap) data else data)
      in fold push_byte data r)"

definition ring_contents :: "ring \<Rightarrow> bytes" where
  "ring_contents r =
     map (\<lambda>i. ring_buf r ! ((ring_head r + i) mod length (ring_buf r))) [0..<ring_len r]"

text \<open>The writes of \<open>replay_to_fd\<close>, in order.\<close>

definition replay_to_fd :: "ring \<Rightarrow> bytes list" where
  "replay_to_fd r =
     (if ring_len r = 0 then []
      else
        (let cap = length (ring_buf r);
             first_end = ring_head r + ring_len r
         in if first_end \<le> cap then [sub (ring_head r) first_end (ring_buf r)]
            else (let first_len = cap - ring_head r;
                      second_len = ring_len r - first_len
                  in [drop (ring_head r) (ring_buf r), take second_len (ring_buf r)])))"

definition ring_ok :: "nat \<Rightarrow> ring \<Rightarrow> bool" where
  "ring_ok cap r =
     (length (ring_buf r) = cap \<and> ring_len r \<le> cap \<and> (0 < cap \<longrightarrow> ring_head r < cap))"

lemma ring_ok_new: "ring_ok cap (ring_new cap)"
  by (simp add: ring_ok_def ring_new_def)

lemma ring_contents_new: "ring_contents (ring_new cap) = []"
  by (simp add: ring_contents_def ring_new_def)

lemma length_ring_contents [simp]: "length (ring_contents r) = ring_len r"
  by (simp add: ring_contents_def)

lemma push_byte_ok: "ring_ok cap r \<Longrightarrow> 0 < cap \<Longrightarrow> ring_ok cap (push_byte b r)"
  by (auto simp: ring_ok_def push_byte_def Let_def)

lemma mod_neq_offset: "i < (l::nat) \<Longrightarrow> l < cap \<Longrightarrow> (h + l) mod cap \<noteq> (h + i) mod cap"
  using mod_eq_dvd_iff_nat[of "h + i" "h + l" cap] nat_dvd_not_less[of "l - i" cap] by fastforce

lemma push_byte_contents:
  assumes "ring_ok cap r" "0 < cap"
  shows "ring_contents (push_byte b r) = lastn cap (ring_contents r @ [b])"
proof (cases "ring_len r < cap")
  case True
  have len: "length (ring_buf r) = cap" using assms by (simp add: ring_ok_def)
  have "ring_contents (push_byte b r) = ring_contents r @ [b]"
    using True len mod_neq_offset[OF _ True] assms(2)
    by (intro nth_equalityI) (auto simp: ring_contents_def push_byte_def Let_def nth_append less_Suc_eq)
  then show ?thesis using True by simp
next
  case False
  then have full: "ring_len r = cap" "length (ring_buf r) = cap" using assms by (auto simp: ring_ok_def)
  have shift: "(Suc (ring_head r) mod cap + i) mod cap = Suc (ring_head r + i) mod cap" for i
    by (metis add_Suc mod_add_left_eq)
  have hd0: "ring_head r mod cap = ring_head r" using assms by (simp add: ring_ok_def)
  have "ring_contents (push_byte b r) = tl (ring_contents r) @ [b]"
  proof (rule nth_equalityI)
    show "length (ring_contents (push_byte b r)) = length (tl (ring_contents r) @ [b])"
      using full assms(2) by (simp add: push_byte_def Let_def)
  next
    fix i assume "i < length (ring_contents (push_byte b r))"
    then have i: "i < cap" using full by (simp add: push_byte_def Let_def)
    show "ring_contents (push_byte b r) ! i = (tl (ring_contents r) @ [b]) ! i"
    proof (cases "Suc i < cap")
      case True
      then have "Suc (ring_head r + i) mod cap \<noteq> ring_head r"
        using mod_neq_offset[of 0 "Suc i" cap "ring_head r"] hd0 by simp
      then show ?thesis
        using True full assms(2) hd0 less_diff_conv[of i cap 1]
        by (simp add: ring_contents_def push_byte_def Let_def shift nth_append nth_tl)
    next
      case False
      then have "Suc (ring_head r + i) = ring_head r + cap" using i by simp
      then have "Suc (ring_head r + i) mod cap = ring_head r" using hd0 by (metis mod_add_self2)
      then show ?thesis
        using False i full assms hd0 less_diff_conv[of i cap 1]
        by (simp add: ring_contents_def push_byte_def Let_def shift nth_append ring_ok_def)
    qed
  qed
  then show ?thesis using full assms(2) by (simp add: lastn_def drop_Suc)
qed

lemma push_bytes:
  "ring_ok cap r \<Longrightarrow> 0 < cap \<Longrightarrow>
   ring_ok cap (fold push_byte d r) \<and> ring_contents (fold push_byte d r) = lastn cap (ring_contents r @ d)"
proof (induction d arbitrary: r)
  case (Cons b d)
  then show ?case
    by (simp add: push_byte_ok push_byte_contents lastn_append_lastn)
qed (simp add: ring_ok_def)

lemma push_slice_ok:
  assumes "ring_ok cap r" "0 < cap"
  shows "ring_ok cap (push_slice d r)" "ring_contents (push_slice d r) = lastn cap (ring_contents r @ d)"
proof -
  have cap: "length (ring_buf r) = cap" using assms by (simp add: ring_ok_def)
  show "ring_ok cap (push_slice d r)" using push_bytes[OF assms] by (simp add: push_slice_def Let_def)
  show "ring_contents (push_slice d r) = lastn cap (ring_contents r @ d)"
    using push_bytes[OF assms] lastn_long[of cap "drop (length d - cap) d" "ring_contents r"]
      lastn_long[of cap d "ring_contents r"]
    by (auto simp: push_slice_def Let_def cap lastn_def[of cap d])
qed

lemma replay_contents:
  assumes "ring_ok cap r" "0 < cap"
  shows "concat (replay_to_fd r) = ring_contents r"
proof -
  have ok: "length (ring_buf r) = cap" "ring_len r \<le> cap" "ring_head r < cap"
    using assms by (simp_all add: ring_ok_def)
  show ?thesis
  proof (cases "ring_head r + ring_len r \<le> cap")
    case True
    then show ?thesis
      using ok by (intro nth_equalityI) (auto simp: replay_to_fd_def ring_contents_def sub_def Let_def)
  next
    case False
    then have "ring_len r \<noteq> 0" using ok by auto
    have wrap: "(ring_head r + i) mod cap = ring_head r + i - cap" if "cap \<le> ring_head r + i" "i < ring_len r" for i
      using that ok by (subst mod_if) (simp add: mod_if)
    show ?thesis
      using False ok \<open>ring_len r \<noteq> 0\<close> wrap
      by (intro nth_equalityI)
        (auto simp: replay_to_fd_def ring_contents_def Let_def nth_append add.commute)
  qed
qed

text \<open>The capacity the relay uses.\<close>

definition CONSOLE_CAP :: nat where "CONSOLE_CAP = 256 * 1024"

lemma cap_pos: "0 < CONSOLE_CAP"
  by (simp add: CONSOLE_CAP_def)

interpretation console_ring: bounded_history "ring_new CONSOLE_CAP" push_slice ring_contents
  "ring_ok CONSOLE_CAP" CONSOLE_CAP
  by unfold_locales (simp_all add: cap_pos ring_ok_new push_slice_ok ring_contents_new)

section \<open>A console session\<close>

text \<open>
  One return of \<open>poll(2)\<close> in \<open>proxy_console\<close>: what was read from the client and from the
  console when they were readable (an empty read is the end of the stream or an error), the
  hang-up flags, and whether writing to the client succeeded. \<open>None\<close> is a failed poll.
\<close>

record session_poll =
  client_in :: "bytes option"
  client_hup :: bool
  relay_in :: "bytes option"
  relay_hup :: bool
  client_write_ok :: bool

datatype relayed = ToVm bytes | ToClient bytes

fun proxy_console_loop :: "session_poll option list \<Rightarrow> relayed list" where
  "proxy_console_loop [] = []"
| "proxy_console_loop (None # ps) = []"
| "proxy_console_loop (Some p # ps) =
     (if client_in p = Some [] then []
      else
        (let up = (case client_in p of Some d \<Rightarrow> [ToVm d] | None \<Rightarrow> []) in
         if client_hup p then up
         else if relay_in p = Some [] then up
         else
           (let down = (case relay_in p of Some d \<Rightarrow> [ToClient d] | None \<Rightarrow> []) in
            if relay_in p \<noteq> None \<and> \<not> client_write_ok p then up
            else if relay_hup p then up @ down
            else up @ down @ proxy_console_loop ps)))"

definition proxy_console :: "bool \<Rightarrow> session_poll option list \<Rightarrow> relayed list" where
  "proxy_console dup_ok ps = (if \<not> dup_ok then [] else proxy_console_loop ps)"

section \<open>The relay loop\<close>

text \<open>
  One return of \<open>poll(2)\<close> in \<open>console_relay_loop\<close>. A waiting client is served before the
  console is drained, and for the whole of its session.
\<close>

datatype console_event =
    ConsoleInterrupted
  | ConsolePollError
  | ClientAccepted bool "session_poll option list"
  | AcceptFailed
  | Drained bytes
  | NothingReady

text \<open>What a client is sent first (the replay) and what its session relays.\<close>

type_synonym client_log = "bytes list \<times> relayed list"

fun console_relay_loop :: "console_event list \<Rightarrow> ring \<Rightarrow> client_log list \<times> ring" where
  "console_relay_loop [] r = ([], r)"
| "console_relay_loop (ev # evs) r =
     (case ev of
        ConsoleInterrupted \<Rightarrow> console_relay_loop evs r
      | ConsolePollError \<Rightarrow> ([], r)
      | ClientAccepted dup_ok session \<Rightarrow>
          (let log = (replay_to_fd r, proxy_console dup_ok session)
           in case console_relay_loop evs r of (logs, r') \<Rightarrow> (log # logs, r'))
      | AcceptFailed \<Rightarrow> console_relay_loop evs r
      | Drained data \<Rightarrow>
          console_relay_loop evs (if data \<noteq> [] then push_slice (take 4096 data) r else r)
      | NothingReady \<Rightarrow> console_relay_loop evs r)"

definition run_console :: "console_event list \<Rightarrow> client_log list \<times> ring" where
  "run_console evs = console_relay_loop evs (ring_new CONSOLE_CAP)"

text \<open>The console output drained while no client was attached.\<close>

fun drained :: "console_event list \<Rightarrow> bytes" where
  "drained [] = []"
| "drained (Drained d # evs) = take 4096 d @ drained evs"
| "drained (_ # evs) = drained evs"

lemma relay_loop_client:
  assumes "ConsolePollError \<notin> set evs" "ring_ok CONSOLE_CAP r"
  shows "\<exists>logs r'. console_relay_loop (evs @ ClientAccepted d s # evs') r =
      (logs @ (replay_to_fd r', proxy_console d s) # fst (console_relay_loop evs' r'),
       snd (console_relay_loop evs' r')) \<and>
    ring_ok CONSOLE_CAP r' \<and>
    ring_contents r' = lastn CONSOLE_CAP (ring_contents r @ drained evs)"
  using assms
proof (induction evs arbitrary: r)
  case Nil
  then show ?case
    by (intro exI[of _ "[]"] exI[of _ r]) (simp add: split_beta ring_ok_def)
next
  case (Cons ev evs)
  show ?case
  proof (cases "\<exists>x. ev = Drained x \<and> x \<noteq> []")
    case True
    then obtain x where x: "ev = Drained x" "x \<noteq> []" by blast
    have ok: "ring_ok CONSOLE_CAP (push_slice (take 4096 x) r)"
      "ring_contents (push_slice (take 4096 x) r) = lastn CONSOLE_CAP (ring_contents r @ take 4096 x)"
      using push_slice_ok[OF Cons.prems(2) cap_pos] by simp_all
    show ?thesis
      using Cons.IH[OF _ ok(1)] Cons.prems x ok(2) by (simp add: lastn_append_lastn)
  next
    case False
    from Cons.prems have "ConsolePollError \<notin> set evs" by simp
    from Cons.IH[OF this Cons.prems(2)] obtain logs r' where
      IH: "console_relay_loop (evs @ ClientAccepted d s # evs') r =
          (logs @ (replay_to_fd r', proxy_console d s) # fst (console_relay_loop evs' r'),
           snd (console_relay_loop evs' r'))"
        "ring_ok CONSOLE_CAP r'" "ring_contents r' = lastn CONSOLE_CAP (ring_contents r @ drained evs)"
      by blast
    show ?thesis
    proof (cases ev)
      case (ClientAccepted d' s')
      then show ?thesis using IH
        by (intro exI[of _ "(replay_to_fd r, proxy_console d' s') # logs"] exI[of _ r']) simp
    qed (use IH False Cons.prems in \<open>auto intro!: exI[of _ logs] exI[of _ r']\<close>)
  qed
qed

text \<open>C37: A client that connects to the console is first sent, in order, exactly the last
  256 KiB of all console output that was drained before, whatever clients came and went in
  between (everything, when less was drained); then its own session is proxied.\<close>

theorem con_replay_history:
  assumes "ConsolePollError \<notin> set evs"
  shows "\<exists>logs replay later. fst (run_console (evs @ ClientAccepted d s # evs')) =
      logs @ (replay, proxy_console d s) # later \<and>
    concat replay = lastn (256 * 1024) (drained evs)"
proof -
  obtain logs r' where r': "console_relay_loop (evs @ ClientAccepted d s # evs') (ring_new CONSOLE_CAP) =
      (logs @ (replay_to_fd r', proxy_console d s) # fst (console_relay_loop evs' r'),
       snd (console_relay_loop evs' r'))"
    "ring_ok CONSOLE_CAP r'" "ring_contents r' = lastn CONSOLE_CAP (drained evs)"
    using relay_loop_client[OF assms ring_ok_new, of d s evs'] by (auto simp: ring_contents_new)
  then have "concat (replay_to_fd r') = lastn (256 * 1024) (drained evs)"
    using replay_contents[OF r'(2) cap_pos] by (simp add: CONSOLE_CAP_def)
  with r'(1) show ?thesis unfolding run_console_def by auto
qed

theorem con_replay_history_witness:
  "concat (fst (hd (fst (run_console [Drained [72, 105], AcceptFailed, ClientAccepted True []])))) = [72, 105]"
  using con_replay_history[of "[Drained [72, 105], AcceptFailed]" True "[]" "[]"]
  by (auto simp: run_console_def split_beta Cons_eq_append_conv)

text \<open>The ring buffer is exactly a bounded history: after any sequence of writes, in
  pieces of any size, the bytes it replays are the last ones of everything written, and its
  indices stay within the buffer.\<close>

lemma con_ring_bounded_history:
  "ring_ok CONSOLE_CAP (fold push_slice ds (ring_new CONSOLE_CAP)) \<and>
   concat (replay_to_fd (fold push_slice ds (ring_new CONSOLE_CAP))) = lastn CONSOLE_CAP (concat ds)"
  using console_ring.fold_ok[OF ring_ok_new] replay_contents[OF _ cap_pos] console_ring.contents_history
  by simp

section \<open>What a session relays\<close>

definition sent_up :: "session_poll option list \<Rightarrow> bytes" where
  "sent_up ps = concat (map (\<lambda>p. case p of Some q \<Rightarrow> (case client_in q of Some d \<Rightarrow> d | None \<Rightarrow> []) | None \<Rightarrow> []) ps)"

definition sent_down :: "session_poll option list \<Rightarrow> bytes" where
  "sent_down ps = concat (map (\<lambda>p. case p of Some q \<Rightarrow> (case relay_in q of Some d \<Rightarrow> d | None \<Rightarrow> []) | None \<Rightarrow> []) ps)"

definition to_vm :: "relayed list \<Rightarrow> bytes" where
  "to_vm rs = concat (map (\<lambda>r. case r of ToVm d \<Rightarrow> d | ToClient _ \<Rightarrow> []) rs)"

definition to_client :: "relayed list \<Rightarrow> bytes" where
  "to_client rs = concat (map (\<lambda>r. case r of ToClient d \<Rightarrow> d | ToVm _ \<Rightarrow> []) rs)"

text \<open>A poll after which the session goes on.\<close>

definition goes_on :: "session_poll option \<Rightarrow> bool" where
  "goes_on p = (case p of None \<Rightarrow> False | Some q \<Rightarrow>
     client_in q \<noteq> Some [] \<and> \<not> client_hup q \<and> relay_in q \<noteq> Some [] \<and>
     (relay_in q \<noteq> None \<longrightarrow> client_write_ok q) \<and> \<not> relay_hup q)"

lemma proxy_loop_goes_on:
  "goes_on p \<Longrightarrow> to_vm (proxy_console_loop (p # ps)) = sent_up [p] @ to_vm (proxy_console_loop ps) \<and>
    to_client (proxy_console_loop (p # ps)) = sent_down [p] @ to_client (proxy_console_loop ps)"
  by (cases p) (auto simp: goes_on_def to_vm_def to_client_def sent_up_def sent_down_def Let_def split: option.splits)

lemma proxy_loop_stops:
  "\<not> goes_on p \<Longrightarrow> \<exists>x y. sent_up [p] = to_vm (proxy_console_loop (p # ps)) @ x \<and>
    sent_down [p] = to_client (proxy_console_loop (p # ps)) @ y"
  by (cases p) (auto simp: goes_on_def to_vm_def to_client_def sent_up_def sent_down_def Let_def split: option.splits)

text \<open>In every console session the machine receives a prefix of what the client sent and
  the client a prefix of what the console printed, nothing reordered or duplicated; and
  everything as long as no side closes and no write fails.\<close>

theorem con_session_prefix:
  "(\<exists>x y. sent_up ps = to_vm (proxy_console d ps) @ x \<and> sent_down ps = to_client (proxy_console d ps) @ y) \<and>
   (d \<and> list_all goes_on ps \<longrightarrow>
      to_vm (proxy_console d ps) = sent_up ps \<and> to_client (proxy_console d ps) = sent_down ps)"
proof -
  have cons_split: "sent_up (p # ps) = sent_up [p] @ sent_up ps" "sent_down (p # ps) = sent_down [p] @ sent_down ps" for p ps
    by (simp_all add: sent_up_def sent_down_def)
  have pre: "\<exists>x y. sent_up ps = to_vm (proxy_console_loop ps) @ x \<and> sent_down ps = to_client (proxy_console_loop ps) @ y" for ps
  proof (induction ps)
    case (Cons p ps)
    show ?case
    proof (cases "goes_on p")
      case True
      with Cons show ?thesis using proxy_loop_goes_on[OF True, of ps] by (auto simp: cons_split[of p ps])
    next
      case False
      from proxy_loop_stops[OF this, of ps] show ?thesis by (auto simp: cons_split[of p ps])
    qed
  qed (simp add: to_vm_def to_client_def)
  have all: "list_all goes_on ps \<Longrightarrow>
      to_vm (proxy_console_loop ps) = sent_up ps \<and> to_client (proxy_console_loop ps) = sent_down ps" for ps
  proof (induction ps)
    case (Cons p ps)
    then show ?case using proxy_loop_goes_on[of p ps] by (simp add: cons_split[of p ps])
  qed (simp add: to_vm_def to_client_def sent_up_def sent_down_def)
  show ?thesis
    using pre[of ps] all[of ps] by (auto simp: proxy_console_def to_vm_def to_client_def)
qed

theorem con_session_prefix_witness:
  "to_vm (proxy_console True [Some \<lparr>client_in = Some [108, 115], client_hup = False, relay_in = None,
      relay_hup = False, client_write_ok = True\<rparr>]) = [108, 115]"
  using con_session_prefix[of "[Some \<lparr>client_in = Some [108, 115], client_hup = False, relay_in = None,
      relay_hup = False, client_write_ok = True\<rparr>]" True]
  by (simp add: goes_on_def sent_up_def)

end
