(* ===== verification/Vmnet.thy ===== *)
theory Vmnet
  imports Byte_Codec
begin

text \<open>
  The socket_vmnet relay of \<open>pelagos-vz/src/socket_vmnet.rs\<close>: probing for the socket, the
  loops that move exactly \<open>n\<close> bytes through a file descriptor that delivers or accepts
  fewer at a time, and the two relay threads between the length-prefixed stream of
  socket_vmnet and the datagrams of the virtual machine. The list of numbers \<open>hs\<close> that the
  reads take says how many bytes the kernel delivers in each call (at least one); the
  theorems hold for every such list.
\<close>

section \<open>Finding the socket\<close>

definition CANDIDATE_PATHS :: "string list" where
  "CANDIDATE_PATHS =
     [''/opt/homebrew/var/run/socket_vmnet'',
      ''/opt/homebrew/var/run/socket_vmnet.shared'',
      ''/usr/local/var/run/socket_vmnet'',
      ''/usr/local/var/run/socket_vmnet.shared'',
      ''/var/run/socket_vmnet'',
      ''/var/run/socket_vmnet.shared'']"

definition find_socket_path :: "(string \<Rightarrow> bool) \<Rightarrow> string option" where
  "find_socket_path exists = find exists CANDIDATE_PATHS"

section \<open>Reading and writing in full\<close>

text \<open>One \<open>read(2)\<close> of up to \<open>n\<close> bytes from the stream \<open>s\<close>; no bytes means end of file.\<close>

definition fd_read :: "nat list \<Rightarrow> nat \<Rightarrow> bytes \<Rightarrow> bytes \<times> bytes \<times> nat list" where
  "fd_read hs n s =
     (let k = min n (case hs of [] \<Rightarrow> n | h # _ \<Rightarrow> max 1 h) in (take k s, drop k s, tl hs))"

function read_exact_loop :: "nat list \<Rightarrow> bytes \<Rightarrow> nat \<Rightarrow> bytes \<Rightarrow> unit + bytes \<times> bytes \<times> nat list" where
  "read_exact_loop hs acc n s =
     (if n = 0 then Inr (acc, s, hs)
      else let (d, s', hs') = fd_read hs n s in
           if d = [] then Inl () else read_exact_loop hs' (acc @ d) (n - length d) s')"
  by pat_completeness auto
termination
  by (relation "measure (\<lambda>(_, _, n, _). n)") (auto simp: fd_read_def Let_def split: list.splits)

declare read_exact_loop.simps [simp del]

text \<open>
  One \<open>write(2)\<close> accepts as many bytes as the next entry of \<open>hs\<close> allows, all of them
  when the list is used up; an entry 0 is a failed write.
\<close>

definition fd_write :: "nat list \<Rightarrow> bytes \<Rightarrow> nat \<times> nat list" where
  "fd_write hs buf = (case hs of [] \<Rightarrow> (length buf, []) | h # hs' \<Rightarrow> (min h (length buf), hs'))"

text \<open>The bytes accepted, whether all were, and the remaining schedule.\<close>

function write_all_loop :: "nat list \<Rightarrow> bytes \<Rightarrow> bytes \<times> bool \<times> nat list" where
  "write_all_loop hs buf =
     (if buf = [] then ([], True, hs)
      else let (r, hs') = fd_write hs buf in
           if r = 0 then ([], False, hs')
           else let (w, ok, hs'') = write_all_loop hs' (drop r buf) in (take r buf @ w, ok, hs''))"
  by pat_completeness auto
termination
  by (relation "measure (\<lambda>(_, buf). length buf)") (auto simp: fd_write_def split: list.splits)

declare write_all_loop.simps [simp del]

section \<open>The relay threads\<close>

text \<open>
  \<open>relay_vmnet_to_avf\<close>: the datagrams sent to the virtual machine before the loop ends;
  \<open>send_ok\<close> says whether \<open>send(2)\<close> of a frame succeeds.
\<close>

definition FRAME_BUF :: nat where "FRAME_BUF = 64 * 1024"

lemma read_exact_loop_spec:
  "if length s < n then read_exact_loop hs acc n s = Inl ()
   else \<exists>hs'. read_exact_loop hs acc n s = Inr (acc @ take n s, drop n s, hs')"
proof (induction hs acc n s rule: read_exact_loop.induct)
  case (1 hs acc n s)
  define k where "k = min n (case hs of [] \<Rightarrow> n | h # _ \<Rightarrow> max 1 h)"
  have fr: "fd_read hs n s = (take k s, drop k s, tl hs)" by (simp add: fd_read_def k_def Let_def)
  consider "n = 0" | "n \<noteq> 0" "s = []" | "n \<noteq> 0" "s \<noteq> []" by blast
  then show ?case
  proof cases
    case 3
    then have k: "0 < k" "k \<le> n" by (auto simp: k_def split: list.splits)
    let ?n' = "n - length (take k s)"
    have step: "read_exact_loop hs acc n s = read_exact_loop (tl hs) (acc @ take k s) ?n' (drop k s)"
      using 3 fr k by (simp add: read_exact_loop.simps[of hs acc n s])
    from "1.IH"[OF \<open>n \<noteq> 0\<close> fr[symmetric] refl refl] 3 k
    have IH: "if length (drop k s) < ?n'
        then read_exact_loop (tl hs) (acc @ take k s) ?n' (drop k s) = Inl ()
        else \<exists>hs'. read_exact_loop (tl hs) (acc @ take k s) ?n' (drop k s) =
          Inr ((acc @ take k s) @ take ?n' (drop k s), drop ?n' (drop k s), hs')"
      by simp
    show ?thesis
    proof (cases "length s < n")
      case True
      with k 3 have "length (drop k s) < ?n'" by (auto simp: min_def)
      with IH step True show ?thesis by simp
    next
      case False
      with k have m: "length (take k s) = k" by simp
      from k have "take k s @ take ?n' (drop k s) = take n s" "drop ?n' (drop k s) = drop n s"
        unfolding m by (simp_all add: take_add[symmetric])
      moreover from False k m have "\<not> length (drop k s) < ?n'" by simp
      ultimately show ?thesis using IH step False m by auto
    qed
  qed (use fr in \<open>simp_all add: read_exact_loop.simps[of hs acc 0 s]
        read_exact_loop.simps[of hs acc n "[]"]\<close>)
qed

lemma read_exact_loop_Inr:
  "read_exact_loop hs acc n s = Inr (b, s', hs') \<Longrightarrow>
     n \<le> length s \<and> b = acc @ take n s \<and> s' = drop n s"
  using read_exact_loop_spec[of s n hs acc] by (cases "length s < n") auto

lemma read_exact_loop_cases:
  obtains "length s < n" "read_exact_loop hs [] n s = Inl ()"
  | hs' where "n \<le> length s" "read_exact_loop hs [] n s = Inr (take n s, drop n s, hs')"
  using read_exact_loop_spec[of s n hs "[]"] by (cases "length s < n") auto

function relay_vmnet_to_avf :: "(bytes \<Rightarrow> bool) \<Rightarrow> nat list \<Rightarrow> bytes \<Rightarrow> bytes list" where
  "relay_vmnet_to_avf send_ok hs s =
     (case read_exact_loop hs [] 4 s of Inl _ \<Rightarrow> [] | Inr (len_buf, s1, hs1) \<Rightarrow>
      let frame_len = unat (from_be32 (len_buf ! 0) (len_buf ! 1) (len_buf ! 2) (len_buf ! 3)) in
      if frame_len = 0 \<or> frame_len > FRAME_BUF then []
      else (case read_exact_loop hs1 [] frame_len s1 of Inl _ \<Rightarrow> [] | Inr (frame, s2, hs2) \<Rightarrow>
            if send_ok frame then frame # relay_vmnet_to_avf send_ok hs2 s2 else []))"
  by pat_completeness auto
termination
  by (relation "measure (\<lambda>(_, _, s). length s)") (auto dest!: read_exact_loop_Inr)

declare relay_vmnet_to_avf.simps [simp del]

text \<open>
  \<open>relay_avf_to_vmnet\<close>: the bytes written to socket_vmnet for a sequence of datagrams
  received from the virtual machine. A receive longer than the buffer is cut to it, and an
  empty datagram ends the loop as an error does.
\<close>

fun relay_avf_to_vmnet :: "nat list \<Rightarrow> bytes list \<Rightarrow> bytes" where
  "relay_avf_to_vmnet hs [] = []"
| "relay_avf_to_vmnet hs (d # ds) =
     (let frame = take FRAME_BUF d in
      if frame = [] then []
      else let (w1, ok1, hs1) = write_all_loop hs (to_be32 (of_nat (length frame))) in
           if \<not> ok1 then w1
           else let (w2, ok2, hs2) = write_all_loop hs1 frame in
                if \<not> ok2 then w1 @ w2 else w1 @ w2 @ relay_avf_to_vmnet hs2 ds)"

section \<open>The frame contract\<close>

definition vmnet_enc :: "bytes \<Rightarrow> bytes" where
  "vmnet_enc d = to_be32 (of_nat (length d)) @ d"

definition vmnet_dec :: "bytes \<Rightarrow> io_error + bytes \<times> bytes" where
  "vmnet_dec s =
     (case read_exact 4 s of Inl e \<Rightarrow> Inl e | Inr (l, s1) \<Rightarrow>
      let n = unat (from_be32 (l ! 0) (l ! 1) (l ! 2) (l ! 3)) in
      if n = 0 \<or> n > FRAME_BUF then Inl (InvalidLength n) else read_exact n s1)"

definition wf_datagram :: "bytes \<Rightarrow> bool" where
  "wf_datagram d = (d \<noteq> [] \<and> length d \<le> FRAME_BUF)"

lemma vmnet_dec_enc: "wf_datagram d \<Longrightarrow> vmnet_dec (vmnet_enc d @ r) = Inr (d, r)"
  by (simp add: vmnet_dec_def vmnet_enc_def wf_datagram_def FRAME_BUF_def to_be32_def read_exact_def
      from_to_be32 unat_of_nat)

interpretation vmnet: frame_codec vmnet_enc vmnet_dec wf_datagram
proof unfold_locales
  fix d r assume "wf_datagram d"
  then show "vmnet_dec (vmnet_enc d @ r) = Inr (d, r)" by (rule vmnet_dec_enc)
next
  fix s d r assume "vmnet_dec s = Inr (d, r)"
  then show "length r < length s"
    by (auto simp: vmnet_dec_def read_exact_def Let_def split: sum.splits if_splits)
next
  show "vmnet_dec [] = Inl UnexpectedEof" by (simp add: vmnet_dec_def read_exact_def)
qed

text \<open>Whatever the kernel's read sizes, the loop sees the frames of the stream.\<close>

lemma relay_vmnet_frames: "relay_vmnet_to_avf (\<lambda>_. True) hs s = fst (vmnet.frames s)"
proof (induction "length s" arbitrary: hs s rule: less_induct)
  case less
  show ?case
  proof (cases rule: read_exact_loop_cases[of s 4 hs])
    case 1
    then show ?thesis
      by (simp add: relay_vmnet_to_avf.simps[of _ hs s] vmnet.frames.simps[of s] vmnet_dec_def
          read_exact_def)
  next
    case (2 hs1)
    let ?n = "unat (from_be32 (take 4 s ! 0) (take 4 s ! 1) (take 4 s ! 2) (take 4 s ! 3))"
    show ?thesis
    proof (cases "?n = 0 \<or> ?n > FRAME_BUF")
      case True
      with 2 show ?thesis
        by (auto simp: relay_vmnet_to_avf.simps[of _ hs s] vmnet.frames.simps[of s] vmnet_dec_def
            read_exact_def Let_def)
    next
      case n: False
      show ?thesis
      proof (cases rule: read_exact_loop_cases[of "drop 4 s" ?n hs1])
        case 1
        with 2 n show ?thesis
          by (simp add: relay_vmnet_to_avf.simps[of _ hs s] vmnet.frames.simps[of s] vmnet_dec_def
              read_exact_def Let_def)
      next
        case (2 hs2)
        have "length (drop ?n (drop 4 s)) < length s" using \<open>4 \<le> length s\<close> by simp
        from less[OF this, of hs2] 2 n \<open>4 \<le> length s\<close> \<open>read_exact_loop hs [] 4 s = _\<close>
        show ?thesis
          by (simp add: relay_vmnet_to_avf.simps[of _ hs s] vmnet.frames.simps[of s] vmnet_dec_def
              read_exact_def Let_def case_prod_beta)
      qed
    qed
  qed
qed

lemma write_all_loop_Nil: "write_all_loop [] buf = (buf, True, [])"
  by (cases "buf = []"; subst write_all_loop.simps)
     (simp_all add: fd_write_def write_all_loop.simps[of "[]" "[]"])

lemma relay_avf_stream:
  "list_all wf_datagram ds \<Longrightarrow> relay_avf_to_vmnet [] ds = concat (map vmnet_enc ds)"
  by (induction ds) (auto simp: wf_datagram_def vmnet_enc_def write_all_loop_Nil)

lemma vmnet_dec_Inr:
  assumes "vmnet_dec s = Inr (f, r)"
  shows "s = vmnet_enc f @ r \<and> wf_datagram f"
proof -
  from assms have "4 \<le> length s" by (auto simp: vmnet_dec_def read_exact_def split: if_splits)
  then obtain a b c d t where s: "s = [a, b, c, d] @ t"
    by (auto simp: Suc_le_length_iff numeral_eq_Suc)
  let ?n = "from_be32 a b c d"
  from assms have n: "unat ?n \<noteq> 0" "unat ?n \<le> FRAME_BUF" "t = f @ r" "length f = unat ?n"
    unfolding s vmnet_dec_def by (auto simp: read_exact_Inr read_exact_def[of 4] Let_def split: if_splits)
  then show ?thesis by (auto simp: s vmnet_enc_def wf_datagram_def to_be32_from_be32)
qed

lemma frames_prefix:
  "\<exists>rest. s = concat (map vmnet_enc (fst (vmnet.frames s))) @ rest \<and>
          list_all wf_datagram (fst (vmnet.frames s))"
proof (induction s rule: vmnet.frames.induct)
  case (1 s)
  show ?case
  proof (cases "vmnet_dec s")
    case (Inl e)
    then show ?thesis by (simp add: vmnet.frames.simps[of s])
  next
    case (Inr p)
    obtain f r where p: "p = (f, r)" by fastforce
    from Inr p have s: "s = vmnet_enc f @ r" and f: "wf_datagram f"
      using vmnet_dec_Inr by simp_all
    from "1.IH"[OF Inr p[symmetric]] obtain rest where
      "r = concat (map vmnet_enc (fst (vmnet.frames r))) @ rest"
      "list_all wf_datagram (fst (vmnet.frames r))" by blast
    with s f show ?thesis
      by (auto simp: vmnet.frames_enc_append)
  qed
qed

section \<open>The properties of the relay\<close>

text \<open>
  C33: round trip through socket_vmnet. The stream one relay thread writes for any sequence of
  Ethernet frames of 1 to 65536 bytes is split by the other thread into exactly those frames,
  in order, whatever sizes the kernel delivers the stream in.
\<close>

theorem vmnet_roundtrip:
  assumes "list_all wf_datagram ds"
  shows "relay_vmnet_to_avf (\<lambda>_. True) hs (relay_avf_to_vmnet [] ds) = ds"
  by (simp add: assms relay_vmnet_frames relay_avf_stream vmnet.frames_roundtrip)

theorem vmnet_roundtrip_witness:
  "relay_vmnet_to_avf (\<lambda>_. True) [1, 2] (relay_avf_to_vmnet [] [[1, 2, 3], [4]]) = [[1, 2, 3], [4]]"
  by (rule vmnet_roundtrip) (simp add: wf_datagram_def FRAME_BUF_def)

text \<open>
  nothing but well-formed frames reaches the virtual machine. For every byte stream, well
  formed or not, the frames the relay forwards are non-empty and fit its buffer, and their
  encodings are a prefix of the stream: no byte is invented, dropped or reordered before the
  point where the relay stops.
\<close>

theorem vmnet_forwards_prefix:
  "\<exists>rest. s = concat (map vmnet_enc (relay_vmnet_to_avf (\<lambda>_. True) hs s)) @ rest \<and>
          list_all wf_datagram (relay_vmnet_to_avf (\<lambda>_. True) hs s)"
  using frames_prefix[of s] by (simp add: relay_vmnet_frames)

end
