(* ===== verification/Image_Commands.thy ===== *)
theory Image_Commands
  imports File_Copy State_Dir
begin

text \<open>
  Images from the command of the host to the runtime in the guest: building (\<open>build_command\<close> of
  \<open>pelagos-mac/src/main.rs\<close> and the build on a connection of \<open>pelagos-guest/src/main.rs\<close>), looking an image up
  (\<open>inspect_image_command\<close>) and logging in to a registry (\<open>image_login_command\<close>). The handlers of the guest themselves are in \<open>Guest_Runtime\<close>.
\<close>

section \<open>Requests and what is printed of their replies\<close>

text \<open>A command that is written to the connection, whose replies are printed until it ends; \<open>guest\<close>
  is what comes back (\<open>None\<close>: the request cannot be written).\<close>

definition send_command :: "(json \<Rightarrow> string) \<Rightarrow> (string \<Rightarrow> json option) \<Rightarrow> (string \<Rightarrow> string option) \<Rightarrow> host_command
    \<Rightarrow> string \<times> string \<times> u32" where
  "send_command to_json from_json guest cmd =
     (case guest (to_json (ser_command cmd) @ [nl]) of
        None \<Rightarrow> ([], [], 1)
      | Some s \<Rightarrow> passthrough_command from_json (split_chr nl s))"

text \<open>What a list of replies means for the user: the texts of the two streams and the exit code.\<close>

fun printed :: "guest_response list \<Rightarrow> string \<times> string \<times> u32" where
  "printed [] = ([], [], 1)"
| "printed (GStream k d # rs) =
     (case printed rs of (out, err, code) \<Rightarrow> if k = Stderr then (out, d @ err, code) else (d @ out, err, code))"
| "printed (GExit c # rs) = ([], [], c)"
| "printed (GError e # rs) = ([], [], 1)"
| "printed (_ # rs) = printed rs"

section \<open>Logging in\<close>

text \<open>The standard input of the host is its text, or \<open>None\<close> when it cannot be read; \<open>prompt\<close> is the result
  of asking for a password on the terminal. The result is the text of the prompts and messages, and
  name and password.\<close>

definition login_name :: "string option \<Rightarrow> string option \<Rightarrow> string \<times> (string \<times> string option) option" where
  "login_name username stdin =
     (case username of
        Some u \<Rightarrow> ([], Some (u, stdin))
      | None \<Rightarrow>
          (let required = (''Username: '' @ ''error: username is required'' @ [nl], None) in
           case stdin of
             None \<Rightarrow> required
           | Some s \<Rightarrow>
               (case read_line s of
                  None \<Rightarrow> required
                | Some (u, rest) \<Rightarrow> if trim u = [] then required else (''Username: '', Some (trim u, Some rest)))))"

definition login_password :: "bool \<Rightarrow> string option \<Rightarrow> string + string \<Rightarrow> string + string" where
  "login_password password_stdin stdin prompt =
     (if password_stdin then
        (case stdin of
           None \<Rightarrow> Inl (''error: failed to read password from stdin'' @ [nl])
         | Some s \<Rightarrow>
             (let p = (case read_line s of None \<Rightarrow> [] | Some (l, _) \<Rightarrow> l)
              in Inr (rev (dropWhile (\<lambda>c. c = cr) (dropWhile (\<lambda>c. c = nl) (rev p))))))
      else (case prompt of
              Inl e \<Rightarrow> Inl (''error: failed to read password: '' @ e @ [nl])
            | Inr p \<Rightarrow> Inr p))"

definition image_login_command :: "(json \<Rightarrow> string) \<Rightarrow> (string \<Rightarrow> json option) \<Rightarrow> (string \<Rightarrow> string option)
    \<Rightarrow> string option \<Rightarrow> string + string \<Rightarrow> string \<Rightarrow> string option \<Rightarrow> bool \<Rightarrow> string \<times> string \<times> u32" where
  "image_login_command to_json from_json guest stdin prompt registry username password_stdin =
     (case login_name username stdin of
        (msg, None) \<Rightarrow> ([], msg, 1)
      | (msg, Some (u, rest)) \<Rightarrow>
          (case login_password password_stdin rest prompt of
             Inl e \<Rightarrow> ([], msg @ e, 1)
           | Inr p \<Rightarrow> (case send_command to_json from_json guest (HImageLogin registry u p) of
                         (out, err, code) \<Rightarrow> (out, msg @ err, code))))"

section \<open>Looking an image up\<close>

text \<open>The loop of \<open>inspect_image_command\<close>: what it writes to its error stream, and either the early
  result or the exit code with the collected output.\<close>

fun inspect_loop :: "(string \<Rightarrow> json option) \<Rightarrow> string list \<Rightarrow> string \<Rightarrow> string \<times> (u32 + u32 \<times> string)" where
  "inspect_loop from_json [] buf = ([], Inr (1, buf))"
| "inspect_loop from_json (l # ls) buf =
     (let trimmed = trim_end l in
      if trimmed = [] then inspect_loop from_json ls buf
      else (case Option.bind (from_json trimmed) de_response of
              None \<Rightarrow> ([], Inl 1)
            | Some (HStream s d) \<Rightarrow>
                if s = ''stderr'' then apfst (append d) (inspect_loop from_json ls buf)
                else inspect_loop from_json ls (buf @ d)
            | Some (HExit c) \<Rightarrow> ([], Inr (c, buf))
            | Some (HError _) \<Rightarrow> ([], Inl 1)
            | Some _ \<Rightarrow> inspect_loop from_json ls buf))"

text \<open>\<open>img.get("reference").and_then(as_str) == Some(reference)\<close>; the last of equal keys counts.\<close>

definition has_reference :: "string \<Rightarrow> json \<Rightarrow> bool" where
  "has_reference r img = (case img of JObj kvs \<Rightarrow> map_of (rev kvs) ''reference'' = Some (JStr r) | _ \<Rightarrow> False)"

definition inspect_image_command :: "(json \<Rightarrow> string) \<Rightarrow> (string \<Rightarrow> json option) \<Rightarrow> (json \<Rightarrow> string option) \<Rightarrow> (string \<Rightarrow> string option)
    \<Rightarrow> string \<Rightarrow> string \<times> string \<times> u32" where
  "inspect_image_command to_json from_json pretty guest r =
     (case guest (to_json (ser_command (HImageInspect r)) @ [nl]) of
        None \<Rightarrow> ([], [], 1)
      | Some s \<Rightarrow>
          (case inspect_loop from_json (split_chr nl s) [] of
             (err, Inl c) \<Rightarrow> ([], err, c)
           | (err, Inr (code, buf)) \<Rightarrow>
               if code \<noteq> 0 then ([], err, code)
               else (case from_json buf of
                       Some (JArr images) \<Rightarrow>
                         (case find (has_reference r) images of
                            Some img \<Rightarrow> (some_or (pretty img) [] @ [nl], err, 0)
                          | None \<Rightarrow> ([], err @ ''Error: image not found: '' @ r @ [nl], 1))
                     | _ \<Rightarrow> ([], err, 1))))"

section \<open>Building\<close>

text \<open>\<open>Path::starts_with\<close>, by components.\<close>

definition path_starts_with :: "string \<Rightarrow> string \<Rightarrow> bool" where
  "path_starts_with p b =
     ((path_comps b = [] \<and> \<not> starts_with b ''/'') \<or>
      (starts_with p ''/'' = starts_with b ''/'' \<and> take (length (path_comps b)) (path_comps p) = path_comps b))"

text \<open>The host: its directory for temporary files, the microseconds in the two names, and what the
  programs and calls answer: creating a directory, \<open>cp -a\<close>, copying a file, and \<open>tar czf\<close> (left: it
  cannot be started; otherwise its code, and the archive if the file can be read).\<close>

record build_host =
  bh_tmp :: string
  bh_time :: "nat \<times> nat"
  bh_mkdir :: "string \<Rightarrow> bool"
  bh_cp :: "string \<Rightarrow> string \<Rightarrow> bool"
  bh_copy :: "string \<Rightarrow> string \<Rightarrow> bool"
  bh_tar :: "string \<Rightarrow> string + u32 option \<times> string option"

definition scratch_dir :: "build_host \<Rightarrow> string" where
  "scratch_dir bh = path_join (bh_tmp bh) (''pelagos-ctx-prep-'' @ show_nat (fst (bh_time bh)))"

definition context_tar :: "build_host \<Rightarrow> string" where
  "context_tar bh = path_join (bh_tmp bh) (''pelagos-ctx-'' @ show_nat (snd (bh_time bh)) @ ''.tar.gz'')"

text \<open>The directory that is packed and the name of the Dockerfile in it; the last argument and the last
  result are the temporary files and directories that exist.\<close>

definition is_external :: "string \<Rightarrow> string \<Rightarrow> bool" where
  "is_external dockerfile context_dir = (starts_with dockerfile ''/'' \<and> \<not> path_starts_with dockerfile context_dir)"

definition build_context :: "build_host \<Rightarrow> string \<Rightarrow> string \<Rightarrow> string set \<Rightarrow> (string \<times> string) option \<times> string set" where
  "build_context bh dockerfile context_dir tmp =
     (if is_external dockerfile context_dir then
        (let scratch = scratch_dir bh; name = some_or (path_file_name dockerfile) ''Dockerfile'' in
         if \<not> bh_mkdir bh scratch then (None, tmp)
         else if \<not> bh_cp bh (context_dir @ ''/.'') scratch then (None, insert scratch tmp - {scratch})
         else if \<not> bh_copy bh dockerfile (path_join scratch name) then (None, insert scratch tmp - {scratch})
         else (Some (scratch, name), insert scratch tmp))
      else (Some (context_dir, some_or (path_file_name dockerfile) dockerfile), tmp))"

text \<open>The header with the size of the archive, and the archive.\<close>

definition build_request :: "(json \<Rightarrow> string) \<Rightarrow> string \<Rightarrow> string \<Rightarrow> string list \<Rightarrow> bool \<Rightarrow> string \<Rightarrow> string" where
  "build_request to_json t name build_args no_cache data =
     to_json (ser_command (HBuild t name build_args no_cache (of_nat (length data)))) @ [nl] @ data"

definition build_command :: "(json \<Rightarrow> string) \<Rightarrow> (string \<Rightarrow> json option) \<Rightarrow> build_host \<Rightarrow> (string \<Rightarrow> string option)
    \<Rightarrow> string \<Rightarrow> string \<Rightarrow> string list \<Rightarrow> bool \<Rightarrow> string \<Rightarrow> string set \<Rightarrow> (string \<times> string \<times> u32) \<times> string set" where
  "build_command to_json from_json bh guest t dockerfile build_args no_cache context_dir tmp =
     (case build_context bh dockerfile context_dir tmp of
        (None, tmp1) \<Rightarrow> (([], [], 1), tmp1)
      | (Some (effective, name), tmp1) \<Rightarrow>
          (let status = bh_tar bh effective;
               tmp2 = (case status of Inr (_, Some _) \<Rightarrow> insert (context_tar bh) tmp1 | _ \<Rightarrow> tmp1);
               tmp3 = (if path_eq effective context_dir then tmp2 else tmp2 - {effective})
           in case status of
                Inl _ \<Rightarrow> (([], [], 1), tmp3)
              | Inr (code, file) \<Rightarrow>
                  if code \<noteq> Some 0 then (([], [], 1), tmp3)
                  else (case file of
                          None \<Rightarrow> (([], [], 1), tmp3 - {context_tar bh})
                        | Some data \<Rightarrow>
                            (case guest (build_request to_json t name build_args no_cache data) of
                               None \<Rightarrow> ([], [], 1)
                             | Some s \<Rightarrow> passthrough_command from_json (split_chr nl s), tmp3 - {context_tar bh}))))"

text \<open>The guest: the directory of the build, whether it can be created, and the result of unpacking
  bytes there with the text of the Dockerfile of the given name (see \<open>handle_build\<close>).\<close>

record guest_build =
  gb_ctx :: string
  gb_mkdir :: bool
  gb_untar :: "string \<Rightarrow> string \<Rightarrow> string + (u32 option \<times> string) + string option"

definition serve_build :: "guest_os \<Rightarrow> (guest_command \<Rightarrow> guest_response list) \<Rightarrow> guest_build \<Rightarrow> (string \<Rightarrow> json option)
    \<Rightarrow> (string \<Rightarrow> string) \<Rightarrow> string \<Rightarrow> guest_response list" where
  "serve_build os k8s gb from_json json_error s =
     (case serve_bytes os k8s from_json json_error s of (rs, last_command) \<Rightarrow>
        rs @ (case last_command of
                Some (GBuild t dockerfile build_args no_cache context_size, rest) \<Rightarrow>
                  if gb_mkdir gb
                  then handle_build os (gb_ctx gb) (gb_untar gb (take (unat context_size) rest) dockerfile) t dockerfile build_args no_cache
                  else []
              | _ \<Rightarrow> []))"

section \<open>Replies over the wire\<close>

lemma passthrough_printed:
  assumes "list_all (\<lambda>r. text_line to_json from_json (ser_response r)) rs"
  shows "passthrough_command from_json (map (\<lambda>r. to_json (ser_response r)) rs @ [[]]) = printed rs"
  using assms
proof (induction rs)
  case (Cons r rs)
  then have j: "json_line to_json from_json (ser_response r)" by (simp add: text_line_def)
  from Cons show ?case
    by (cases r) (simp_all add: passthrough_response[OF j] passthrough_response ser_stream_kind_def text_line_def
        del: passthrough_command.simps ser_response.simps split: stream_kind.split prod.split)
qed (simp add: trim_end_def)

lemma passthrough_wire:
  assumes "list_all (\<lambda>r. text_line to_json from_json (ser_response r)) rs"
  shows "passthrough_command from_json (split_chr nl (wire to_json (map Reply rs))) = printed rs"
  using passthrough_printed[OF assms] by (simp add: split_chr_wire[OF assms])

lemma printed_chunks:
  "printed (map chunk_response cs @ [GExit c]) = (unlines (out_lines cs), unlines (err_lines cs), c)"
proof (induction cs)
  case (Cons x cs)
  then show ?case by (cases x) (simp_all add: unlines_def)
qed (simp add: unlines_def)

lemma serve_copy_command:
  assumes "text_line to_json from_json (ser_command c)" and "\<not> ends_connection (as_guest c)" and "env_of c = []"
  shows "serve_copy os k8s co from_json json_error (to_json (ser_command c) @ [nl]) = map Reply (handle_command os k8s (as_guest c))"
proof -
  have j: "json_line to_json from_json (ser_command c)" and n: "nl \<notin> set (to_json (ser_command c))"
    using assms by (auto simp: text_line_def)
  have "serve_bytes os k8s from_json json_error [] = ([], None)" by (simp add: read_line_def)
  then show ?thesis using assms(2,3) json_line_read[OF j] de_ser_command[of c]
    by (simp add: serve_copy_def serve_bytes_line[OF n] Let_def del: serve_bytes.simps)
qed

lemma send_command_printed:
  assumes "text_line to_json from_json (ser_command c)" and "\<not> ends_connection (as_guest c)" and "env_of c = []"
    and "list_all (\<lambda>r. text_line to_json from_json (ser_response r)) (handle_command os k8s (as_guest c))"
  shows "send_command to_json from_json (\<lambda>req. Some (wire to_json (serve_copy os k8s co from_json json_error req))) c =
    printed (handle_command os k8s (as_guest c))"
  using passthrough_wire[OF assms(4)] by (simp add: send_command_def serve_copy_command[OF assms(1-3)])

section \<open>Builds arrive and leave nothing behind\<close>

lemma serve_build_request:
  assumes "text_line to_json from_json (ser_command (HBuild t name build_args no_cache (of_nat (length data))))"
    and "length data < 2 ^ 64" and "gb_mkdir gb"
  shows "serve_build os k8s gb from_json json_error (build_request to_json t name build_args no_cache data @ later) =
    handle_build os (gb_ctx gb) (gb_untar gb data name) t name build_args no_cache"
proof -
  let ?c = "HBuild t name build_args no_cache (of_nat (length data))"
  have j: "json_line to_json from_json (ser_command ?c)" and n: "nl \<notin> set (to_json (ser_command ?c))"
    using assms(1) by (auto simp: text_line_def)
  show ?thesis
    using json_line_read[OF j] de_ser_command[of ?c] serve_bytes_line[OF n, of os k8s from_json json_error "data @ later"] assms(3)
    by (simp add: serve_build_def build_request_def Let_def unat_of_nat64[OF assms(2)] del: serve_bytes.simps ser_command.simps)
qed

lemma scratch_removed:
  assumes "build_context bh dockerfile context_dir tmp = (Some (effective, name), tmp1)" and "scratch_dir bh \<notin> tmp" and "context_tar bh \<notin> tmp"
    and "is_external dockerfile context_dir \<Longrightarrow> \<not> path_eq (scratch_dir bh) context_dir"
  shows "(if path_eq effective context_dir then insert (context_tar bh) tmp1 else insert (context_tar bh) tmp1 - {effective}) - {context_tar bh} = tmp"
  using assms by (auto simp: build_context_def Let_def path_eq_def split: if_splits)

text \<open>
  C26: A build reaches the runtime of the guest with its context unchanged: the \<open>tar\<close> of the guest is given
  exactly the bytes the \<open>tar\<close> of the host made, whatever follows on the connection; what the guest
  answers, from failed unpacking over pulls to the output and exit code of the runtime, is what
  the host prints and returns; and no temporary file or directory is left on the host, also
  when the Dockerfile is outside of the context and the context is copied first.
\<close>

theorem build_delivers:
  assumes "build_context bh dockerfile context_dir tmp = (Some (effective, name), tmp1)"
    and "bh_tar bh effective = Inr (Some 0, Some data)" and "length data < 2 ^ 64" and "gb_mkdir gb"
    and "text_line to_json from_json (ser_command (HBuild t name build_args no_cache (of_nat (length data))))"
    and "list_all (\<lambda>r. text_line to_json from_json (ser_response r))
      (handle_build os (gb_ctx gb) (gb_untar gb data name) t name build_args no_cache)"
    and "scratch_dir bh \<notin> tmp" and "context_tar bh \<notin> tmp"
    and "is_external dockerfile context_dir \<Longrightarrow> \<not> path_eq (scratch_dir bh) context_dir"
  shows "build_command to_json from_json bh
      (\<lambda>req. Some (wire to_json (map Reply (serve_build os k8s gb from_json json_error (req @ later)))))
      t dockerfile build_args no_cache context_dir tmp =
    (printed (handle_build os (gb_ctx gb) (gb_untar gb data name) t name build_args no_cache), tmp)"
  using scratch_removed[OF assms(1,7,8,9)] passthrough_wire[OF assms(6)]
  by (cases "path_eq effective context_dir")
    (simp_all add: build_command_def assms(1,2) serve_build_request[OF assms(5,3,4)] Let_def)

lemma text_line_letters: "text_line (letters \<circ> sized_text) (unsized_text \<circ> unletters) j"
proof -
  have ne: "letters (sized_text j) \<noteq> []" using sized_text_end[of j] by (cases "sized_text j") (auto simp: letters_def Let_def)
  then have "97 \<le> (of_char (last (letters (sized_text j))) :: nat) \<and> (of_char (last (letters (sized_text j))) :: nat) < 113" using letters_lower[OF last_in_set] by blast
  moreover have "nl \<notin> set (letters (sized_text j))" using letters_lower[of nl] by auto
  ultimately show ?thesis using ne json_libD[OF json_lib_sized]
    by (auto simp: text_line_def json_line_def unletters_letters is_ws_def Let_def)
qed

text \<open>A build whose Dockerfile lies outside of the context.\<close>

definition demo_bh :: build_host where
  "demo_bh = \<lparr>bh_tmp = ''/t'', bh_time = (1, 2), bh_mkdir = \<lambda>_. True, bh_cp = \<lambda>_ _. True, bh_copy = \<lambda>_ _. True,
     bh_tar = \<lambda>d. Inr (Some 0, Some (''x'' @ [nl]))\<rparr>"

definition demo_gb :: guest_build where
  "demo_gb = \<lparr>gb_ctx = ''/tmp/b'', gb_mkdir = True, gb_untar = \<lambda>d _. if d = ''x'' @ [nl] then Inr (Inr None) else Inl []\<rparr>"

definition demo_build_os :: guest_os where
  "demo_build_os = quiet_os\<lparr>os_stream := \<lambda>_. Inr ([OutLine ''ok''], Some 3)\<rparr>"

lemma demo_external: "is_external ''/o/D'' ''/c''"
  by (simp add: is_external_def path_starts_with_def path_comps_def starts_with_def Let_def)

lemma demo_context: "build_context demo_bh ''/o/D'' ''/c'' {} = (Some (scratch_dir demo_bh, ''D''), {scratch_dir demo_bh})"
  by (simp add: build_context_def demo_external demo_bh_def path_file_name_def path_comps_def starts_with_def some_or_def Let_def)

theorem build_delivers_witness:
  "build_command (letters \<circ> sized_text) (unsized_text \<circ> unletters) demo_bh
     (\<lambda>req. Some (wire (letters \<circ> sized_text) (map Reply (serve_build demo_build_os (\<lambda>_. []) demo_gb (unsized_text \<circ> unletters) id (req @ ''z'')))))
     ''img'' ''/o/D'' [] False ''/c'' {} = ((''ok'' @ [nl], [], 3), {})"
proof -
  have h: "handle_build demo_build_os (gb_ctx demo_gb) (gb_untar demo_gb (''x'' @ [nl]) ''D'') ''img'' ''D'' [] False =
      [GStream Stdout (''ok'' @ [nl]), GExit 3]"
    by (simp add: handle_build_def demo_gb_def demo_build_os_def spawn_and_stream_def code_of_def Let_def)
  have "\<not> path_eq (scratch_dir demo_bh) ''/c''"
    by (simp add: path_eq_def scratch_dir_def demo_bh_def path_join_def path_comps_def starts_with_def Let_def show_nat.simps)
  moreover have "bh_tar demo_bh (scratch_dir demo_bh) = Inr (Some 0, Some (''x'' @ [nl]))" "gb_mkdir demo_gb"
    by (simp_all add: demo_bh_def demo_gb_def)
  ultimately show ?thesis
    using build_delivers[OF demo_context, of "''x'' @ [nl]" demo_gb "letters \<circ> sized_text" "unsized_text \<circ> unletters" "''img''" "[]" False demo_build_os "\<lambda>_. []" id "''z''"]
    unfolding h by (simp add: text_line_letters del: ser_command.simps ser_response.simps comp_apply)
qed

text \<open>Of a Dockerfile in a directory of the context only the last name is sent.\<close>

lemma build_directory_lost:
  "path_file_name dockerfile = Some name \<Longrightarrow> \<not> is_external dockerfile context_dir \<Longrightarrow>
   fst (build_context bh dockerfile context_dir tmp) = Some (context_dir, name)"
  by (simp add: build_context_def some_or_def)

text \<open>An archive that \<open>tar\<close> began but did not finish is left behind.\<close>

lemma failed_archive_left:
  assumes "\<not> is_external dockerfile context_dir" and "bh_tar bh context_dir = Inr (code, Some part)" and "code \<noteq> Some 0"
  shows "build_command to_json from_json bh guest t dockerfile build_args no_cache context_dir tmp = (([], [], 1), insert (context_tar bh) tmp)"
  using assms by (simp add: build_command_def build_context_def path_eq_def Let_def)

section \<open>Credentials\<close>

lemma login_handled:
  "handle_command os k8s (GImageLogin r u p) =
     spawn_and_stream_with_stdin (os_stream os (handle_image_login r u p)) (os_takes_stdin os (handle_image_login r u p))"
  by (simp add: handle_command_def Let_def)

lemma login_name_read:
  assumes "nl \<notin> set u" and "trim (u @ [nl]) \<noteq> []"
  shows "login_name None (Some (u @ nl # rest)) = (''Username: '', Some (trim (u @ [nl]), Some rest))"
  using assms by (simp add: login_name_def read_line_text)

lemma login_password_read:
  assumes "nl \<notin> set p" and "cr \<notin> set p" and "e \<in> {[], [cr]}"
  shows "login_password True (Some (p @ e @ nl # rest)) prompt = Inr p"
proof -
  have n: "nl \<notin> set (p @ e)" using assms by auto
  have "dropWhile (\<lambda>c. c = cr) (rev p) = rev p" using assms(2) by (cases "rev p") auto
  then have "rev (dropWhile (\<lambda>c. c = cr) (rev (p @ e))) = p" using assms(3) by auto
  moreover have "dropWhile (\<lambda>c. c = nl) (rev ((p @ e) @ [nl])) = rev (p @ e)" by (rule drop_nl[OF n])
  ultimately show ?thesis using read_line_text[OF n, of rest] by (simp add: login_password_def)
qed


definition demo_login_os :: guest_os where
  "demo_login_os = quiet_os\<lparr>os_stream := \<lambda>c. if rc_stdin c = Some ''pw'' \<and> rc_args c ! 3 = ''me'' then Inr ([OutLine ''Login''], Some 0) else Inl []\<rparr>"


section \<open>Looking up\<close>

text \<open>The loop collects what \<open>passthrough_command\<close> would print, and treats the end of the connection and errors
  alike: as exit code 1.\<close>

lemma inspect_loop_passthrough:
  "(case inspect_loop from_json ls buf of
      (err, Inl c) \<Rightarrow> c = 1 \<and> (\<exists>out. passthrough_command from_json ls = (out, err, 1))
    | (err, Inr (c, b)) \<Rightarrow> \<exists>out. passthrough_command from_json ls = (out, err, c) \<and> b = buf @ out)"
proof (induction ls arbitrary: buf)
  case (Cons l ls)
  show ?case
  proof (cases "Option.bind (from_json (trim_end l)) de_response")
    case (Some r)
    then show ?thesis using Cons.IH[of buf] Cons.IH
      by (cases r) (fastforce simp: Let_def split: prod.splits sum.splits if_splits)+
  qed (use Cons.IH[of buf] in \<open>auto simp: Let_def split: prod.splits sum.splits\<close>)
qed simp

text \<open>An image is found exactly when the list of the runtime has an entry with this reference; then
  the first such entry is printed.\<close>

lemma inspect_finds:
  assumes "text_line to_json from_json (ser_command (HImageInspect r))"
    and "os_stream os (handle_image_inspect r) = Inr (chunks, Some 0)"
    and "list_all (\<lambda>r. text_line to_json from_json (ser_response r)) (map chunk_response chunks @ [GExit 0])"
    and "from_json (unlines (out_lines chunks)) = Some (JArr images)"
  shows "inspect_image_command to_json from_json pretty (\<lambda>req. Some (wire to_json (serve_copy os k8s co from_json json_error req))) r =
    (case find (has_reference r) images of
       Some img \<Rightarrow> (some_or (pretty img) [] @ [nl], unlines (err_lines chunks), 0)
     | None \<Rightarrow> ([], unlines (err_lines chunks) @ ''Error: image not found: '' @ r @ [nl], 1))"
proof -
  let ?rs = "map chunk_response chunks @ [GExit 0]"
  have "handle_command os k8s (GImageInspect r) = ?rs"
    using assms(2) by (simp add: handle_command_def spawn_and_stream_def code_of_def)
  then have s: "serve_copy os k8s co from_json json_error (to_json (ser_command (HImageInspect r)) @ [nl]) = map Reply ?rs"
    using serve_copy_command[OF assms(1), of os k8s co json_error] by simp
  have p: "passthrough_command from_json (split_chr nl (wire to_json (map Reply ?rs))) =
      (unlines (out_lines chunks), unlines (err_lines chunks), 0)"
    using passthrough_wire[OF assms(3)] printed_chunks[of chunks 0] by (simp only:)
  have "inspect_loop from_json (split_chr nl (wire to_json (map Reply ?rs))) [] = (unlines (err_lines chunks), Inr (0, unlines (out_lines chunks)))"
    using inspect_loop_passthrough[of from_json "split_chr nl (wire to_json (map Reply ?rs))" "[]"] unfolding p
    by (auto split: prod.splits sum.splits)
  then show ?thesis unfolding inspect_image_command_def s by (simp add: assms(4) split: option.split)
qed

end
