(* ===== verification/Vm_Start.thy ===== *)
theory Vm_Start
  imports Relay_Control Daemon_Args
begin

text \<open>
  The virtual machine (\<open>pelagos-vz/src/vm.rs\<close>): starting it with its devices and its relay, a single
  connection attempt to the guest, and stopping it. The Virtualization framework is a parameter:
  whether it accepts a disk, a configuration or the start, and when it calls back.
\<close>

section \<open>Starting\<close>

datatype vz_error = Config string | Runtime string | Io string

text \<open>The text of an error (\<open>thiserror\<close>).\<close>

fun show_error :: "vz_error \<Rightarrow> string" where
  "show_error (Config e) = ''VM configuration error: '' @ e"
| "show_error (Runtime e) = ''VM runtime error: '' @ e"
| "show_error (Io e) = ''I/O error: '' @ e"

text \<open>The configuration of the framework: boot loader, processors, memory in bytes, the paths of the block
  devices in order, and the shared directories. There is always one network, entropy, socket and
  serial device.\<close>

record machine =
  m_kernel :: string
  m_cmdline :: string
  m_initrd :: "string option"
  m_cpus :: u64
  m_memory :: u64
  m_disks :: "string list"
  m_shares :: "(string \<times> string \<times> bool) list"

text \<open>What the framework answers: the error of attaching a disk and of validating a configuration, the
  error of the start (domain, code, description, reason) and whether there is a socket device; and
  the error of \<open>socketpair\<close>.\<close>

record framework =
  fw_attach :: "string \<Rightarrow> string option"
  fw_socketpair :: "string option"
  fw_validate :: "machine \<Rightarrow> string option"
  fw_start :: "machine \<Rightarrow> (string \<times> string \<times> string \<times> string option) option"
  fw_sockdev :: bool

definition machine_of :: "vm_config \<Rightarrow> machine" where
  "machine_of c =
     \<lparr>m_kernel = vc_kernel c, m_cmdline = vc_cmdline c, m_initrd = vc_initrd c, m_cpus = vc_cpus c,
      m_memory = vc_memory_mib c * 1024 * 1024, m_disks = [], m_shares = []\<rparr>"

fun attach_disks :: "framework \<Rightarrow> string list \<Rightarrow> machine \<Rightarrow> vz_error + machine" where
  "attach_disks fw [] m = Inr m"
| "attach_disks fw (d # ds) m =
     (case fw_attach fw d of
        Some e \<Rightarrow> Inl (Config e)
      | None \<Rightarrow> attach_disks fw ds (m\<lparr>m_disks := m_disks m @ [d]\<rparr>))"

definition share_dirs :: "vm_config \<Rightarrow> machine \<Rightarrow> machine" where
  "share_dirs c m = fold (\<lambda>(host, share_tag, ro) m. m\<lparr>m_shares := m_shares m @ [(host, share_tag, ro)]\<rparr>) (vc_shares c) m"

definition start_error :: "string \<times> string \<times> string \<times> string option \<Rightarrow> vz_error" where
  "start_error e =
     (case e of (domain, code, desc, reason) \<Rightarrow>
        Runtime (''['' @ domain @ '' '' @ code @ ''] '' @ desc @ '' | reason: '' @ or_empty reason))"

text \<open>A running machine: its configuration, the relay and the address of the guest.\<close>

record vm =
  running_machine :: machine
  relay :: relay_state
  guest_addr :: ipv4

text \<open>Every early return after the relay has started drops its handle.\<close>

definition start_vm :: "framework \<Rightarrow> helper_link \<Rightarrow> relay_host \<Rightarrow> vm_config \<Rightarrow> pf_world \<Rightarrow> (vz_error + vm) \<times> pf_world" where
  "start_vm fw hl rh c w =
     (case attach_disks fw (vc_disk c # vc_extra_disks c) (machine_of c) of
        Inl e \<Rightarrow> (Inl e, w)
      | Inr m \<Rightarrow>
          (case start_relay hl rh (from_guest_ip (vc_guest_ip c)) w of
             (Inl e, w1) \<Rightarrow>
               (Inl (Runtime (''tun_relay: '' @ show_error (if rh_socketpair rh \<noteq> None then Io e else Runtime e))), w1)
           | (Inr rs, w1) \<Rightarrow>
               (let m' = share_dirs c m; failed = (\<lambda>e. (Inl e, drop_relay hl (utun_iface rs) w1)) in
                case fw_socketpair fw of
                  Some e \<Rightarrow> failed (Runtime (''socketpair for console: '' @ e))
                | None \<Rightarrow>
                    (case fw_validate fw m' of
                       Some e \<Rightarrow> failed (Config e)
                     | None \<Rightarrow>
                         (case fw_start fw m' of
                            Some e \<Rightarrow> failed (start_error e)
                          | None \<Rightarrow>
                              if \<not> fw_sockdev fw then failed (Runtime ''failed to obtain vsock device'')
                              else (Inr \<lparr>running_machine = m', relay = rs, guest_addr = vc_guest_ip c\<rparr>, w1))))))"

section \<open>Connecting and stopping\<close>

text \<open>What the completion handler is given: an error, no connection, or the descriptor of the connection with
  the result of duplicating it.\<close>

datatype vsock_answer = VsockErr string | NullConnection | VsockFd u32 "string + nat"

fun vsock_result :: "vsock_answer \<Rightarrow> string + nat" where
  "vsock_result (VsockErr e) = Inl e"
| "vsock_result NullConnection = Inl ''null connection''"
| "vsock_result (VsockFd fd duplicate) =
     (if sint fd < 0 then Inl (''invalid fileDescriptor: '' @ show_i32 fd)
      else (case duplicate of Inl e \<Rightarrow> Inl (''dup failed: '' @ e) | Inr owned \<Rightarrow> Inr owned))"

text \<open>One attempt: the answer and the milliseconds after which it comes, if ever. The second result is the
  duplicated descriptors that are open afterwards and have no owner.\<close>

definition try_connect_vsock :: "(nat \<times> vsock_answer) option \<Rightarrow> (vz_error + nat) \<times> nat list" where
  "try_connect_vsock completion =
     (let timeout = Inl (Runtime ''vsock connect timed out (guest not listening yet)'') in
      case completion of
        None \<Rightarrow> (timeout, [])
      | Some (ms, answer) \<Rightarrow>
          if ms < 5000 then (map_sum Runtime id (vsock_result answer), [])
          else (timeout, case vsock_result answer of Inl _ \<Rightarrow> [] | Inr owned \<Rightarrow> [owned]))"

datatype vm_state = VmRunning | VmStopping | VmStopped | VmError

text \<open>\<open>Vm::stop\<close>: the answer to the request and the states at the polls; \<open>None\<close>: it still waits.\<close>

fun poll_stopped :: "vm_state list \<Rightarrow> (vz_error + unit) option" where
  "poll_stopped [] = None"
| "poll_stopped (s # ss) = (if s = VmStopped \<or> s = VmError then Some (Inr ()) else poll_stopped ss)"

definition stop_vm :: "(string + unit) option \<Rightarrow> vm_state list \<Rightarrow> (vz_error + unit) option" where
  "stop_vm accepted states =
     (case accepted of
        None \<Rightarrow> None
      | Some (Inl e) \<Rightarrow> Some (Inl (Runtime e))
      | Some (Inr _) \<Rightarrow> poll_stopped states)"

section \<open>A start that fails leaves no relay behind\<close>

lemma attach_disks_all:
  "attach_disks fw ds m = Inr m' \<Longrightarrow> m' = m\<lparr>m_disks := m_disks m @ ds\<rparr> \<and> list_all (\<lambda>d. fw_attach fw d = None) ds"
proof (induction ds arbitrary: m)
  case (Cons d ds)
  then show ?case using Cons.IH[of "m\<lparr>m_disks := m_disks m @ [d]\<rparr>"] by (cases m) (simp split: option.splits)
qed simp

lemma share_dirs_all: "share_dirs c m = m\<lparr>m_shares := m_shares m @ vc_shares c\<rparr>"
proof -
  have "fold (\<lambda>(host, share_tag, ro) m. m\<lparr>m_shares := m_shares m @ [(host, share_tag, ro)]\<rparr>) ss m = m\<lparr>m_shares := m_shares m @ ss\<rparr>" for ss m
    by (induction ss arbitrary: m) auto
  then show ?thesis by (simp add: share_dirs_def)
qed

text \<open>How a start can end: before the relay was started or with its error, or with the relay and then with
  the machine or with the drop of the relay.\<close>

lemma start_vm_cases:
  assumes "start_vm fw hl rh c w = (res, w')"
  obtains (before) e where "res = Inl e" "w' = w"
    | (refused) e e' where "res = Inl e" "start_relay hl rh (from_guest_ip (vc_guest_ip c)) w = (Inl e', w')"
    | (dropped) e rs w1 where "res = Inl e" "start_relay hl rh (from_guest_ip (vc_guest_ip c)) w = (Inr rs, w1)"
        "w' = drop_relay hl (utun_iface rs) w1"
    | (started) rs where "start_relay hl rh (from_guest_ip (vc_guest_ip c)) w = (Inr rs, w')"
        "res = Inr \<lparr>running_machine = (machine_of c)\<lparr>m_disks := vc_disk c # vc_extra_disks c, m_shares := vc_shares c\<rparr>,
           relay = rs, guest_addr = vc_guest_ip c\<rparr>"
  using assms unfolding start_vm_def Let_def
  by (auto simp del: attach_disks.simps simp: share_dirs_all machine_of_def dest!: attach_disks_all
      split: sum.splits prod.splits option.splits if_splits)

text \<open>
  C15: On a system that carries out the commands of the helper a machine is started as a whole or not at all. A machine that starts has exactly the disks, root first,
  and the shares of its configuration, and its relay is recorded in the helper for its subnet
  next to the ones that were there. When the start fails, at whatever step, the helper has no
  relay it did not have before. In both cases the loaded rules and forwarding switches agree
  with the state of the helper.
\<close>

theorem vm_start_all_or_nothing:
  assumes "link_up hl" and "cooperative (hl_os hl)" and "synced st h"
    and "start_vm fw hl rh c (st, h) = (res, st', h')"
  shows "synced st' h' \<and> (case res of
      Inl _ \<Rightarrow> map_of (active_utuns st') \<subseteq>\<^sub>m map_of (active_utuns st)
    | Inr v \<Rightarrow>
        m_disks (running_machine v) = vc_disk c # vc_extra_disks c \<and> m_shares (running_machine v) = vc_shares c \<and>
        guest_addr v = vc_guest_ip c \<and>
        (\<exists>egress. map_of (active_utuns st') = (map_of (active_utuns st))
           (utun_iface (relay v) \<mapsto> \<lparr>egress_iface = egress, ipv4_cidr = cidr (from_guest_ip (vc_guest_ip c))\<rparr>)))"
  using assms(4)
proof (cases rule: start_vm_cases)
  case (before e)
  then show ?thesis using assms(3) by simp
next
  case (refused e e')
  then show ?thesis using start_relay_world[OF assms(1-3) refused(2)] by auto
next
  case (dropped e rs w1)
  obtain st1 h1 where w1: "w1 = (st1, h1)" by (cases w1)
  have "drop_relay hl (utun_iface rs) (st1, h1) = (st', h')" using dropped(3) w1 by simp
  note down = teardown_run[OF assms(1) this] and up = start_relay_world[OF assms(1-3) dropped(2)[unfolded w1]]
  have "map_of (active_utuns st') = (map_of (active_utuns st))(utun_iface rs := None)"
    unfolding down(1) using up by (auto simp: update_conv')
  moreover have "synced st' h'" using down(5) up assms(2) by simp
  ultimately show ?thesis using dropped(1) by (simp add: map_le_def)
next
  case (started rs)
  then show ?thesis using start_relay_world[OF assms(1-3) started(1)] by (auto simp: update_conv')
qed

text \<open>A machine whose configuration the framework refuses, after its relay was started.\<close>

definition refusing :: framework where
  "refusing = \<lparr>fw_attach = \<lambda>_. None, fw_socketpair = None, fw_validate = \<lambda>_. Some ''no'', fw_start = \<lambda>_. None, fw_sockdev = True\<rparr>"

definition demo_config :: vm_config where
  "demo_config = \<lparr>vc_kernel = ''k'', vc_initrd = None, vc_cmdline = [], vc_disk = ''d'', vc_extra_disks = [], vc_cpus = 2,
     vc_memory_mib = 512, vc_vsock_port = 1024, vc_shares = [], vc_rosetta = False, vc_guest_ip = (192, 168, 105, 2)\<rparr>"

theorem vm_start_all_or_nothing_witness:
  "\<exists>st h. start_vm refusing demo_link demo_host demo_config (daemon_state_new, []) = (Inl (Config ''no''), st, h) \<and>
     (\<exists>st1 h1. snd (start_relay demo_link demo_host (from_guest_ip (192, 168, 105, 2)) (daemon_state_new, [])) = (st1, h1) \<and>
        active_utuns st1 \<noteq> []) \<and> active_utuns st = []"
proof -
  obtain st1 h1 where start: "start_relay demo_link demo_host (from_guest_ip (192, 168, 105, 2)) (daemon_state_new, []) =
      (Inr (init_relay ''utun5'' [192, 168, 105, 1] None), st1, h1)" using demo_start by blast
  obtain st h where w: "drop_relay demo_link ''utun5'' (st1, h1) = (st, h)" by (cases "drop_relay demo_link ''utun5'' (st1, h1)")
  have coop: "cooperative (hl_os demo_link)" by (simp add: demo_link_def cooperative_def demo_os_def plain_status_def)
  note sync = synced_new
  have run: "start_vm refusing demo_link demo_host demo_config (daemon_state_new, []) = (Inl (Config ''no''), st, h)"
    using start w by (simp add: start_vm_def refusing_def demo_config_def init_relay_def)
  from vm_start_all_or_nothing[OF demo_link_up coop sync run] have "active_utuns st = []"
    by (cases "active_utuns st") (auto simp: daemon_state_new_def map_le_def dom_map_of_conv_image_fst)
  moreover have "active_utuns st1 \<noteq> []"
    using start_relay_world[OF demo_link_up coop sync start] by (auto simp: init_relay_def daemon_state_new_def)
  ultimately show ?thesis using run start by auto
qed

section \<open>Connections and the end\<close>

text \<open>An attempt that times out can still be completed; the descriptor then belongs to nobody.\<close>

lemma late_connection_leaks:
  "5000 \<le> ms \<Longrightarrow> 0 \<le> sint fd \<Longrightarrow> \<exists>e. try_connect_vsock (Some (ms, VsockFd fd (Inr owned))) = (Inl e, [owned])"
  by (simp add: try_connect_vsock_def)

lemma stop_returns: "stop_vm (Some (Inr ())) states \<noteq> None \<longleftrightarrow> VmStopped \<in> set states \<or> VmError \<in> set states"
  by (simp add: stop_vm_def, induction states) auto

end
