(* ===== verification/Vm_Admin.thy ===== *)
theory Vm_Admin
  imports Cli_Main Console "HOL-Library.Sublist" "HOL-Library.List_Lexorder" "HOL-Library.Char_ord"
begin

text \<open>
  The other activities of the command line (\<open>pelagos-mac/src/main.rs\<close>): the list of the machines (\<open>vm_ls\<close>),
  waiting for a machine over SSH (\<open>ping_ssh\<close>) with its proxy command (\<open>ssh_relay_proxy\<close>), the serial console
  (\<open>console_proxy\<close>) and the stream of events (\<open>subscribe_command\<close>).
\<close>

section \<open>The list of machines\<close>

text \<open>Rust's padding to the left and to the right edge: longer texts are not cut.\<close>

definition pad_right :: "nat \<Rightarrow> char \<Rightarrow> string \<Rightarrow> string" where
  "pad_right w c s = s @ replicate (w - length s) c"

definition pad_left :: "nat \<Rightarrow> char \<Rightarrow> string \<Rightarrow> string" where
  "pad_left w c s = replicate (w - length s) c @ s"

definition ls_line :: "char \<Rightarrow> string \<Rightarrow> string \<Rightarrow> string \<Rightarrow> string \<Rightarrow> string \<Rightarrow> string" where
  "ls_line c prof access mem cpu status =
     pad_right 10 c prof @ ''  '' @ pad_right 10 c access @ ''  '' @ pad_left 7 c mem @ ''  '' @ pad_left 5 c cpu @ ''  ''
     @ pad_right 20 c status @ [nl]"

type_synonym ls_entry = "string \<times> vm_profile_config \<times> u32 option"

definition ls_status :: "u32 option \<Rightarrow> string" where
  "ls_status pid = (case pid of Some p \<Rightarrow> ''running (pid '' @ show_word p @ '')'' | None \<Rightarrow> ''stopped'')"

definition ls_row :: "ls_entry \<Rightarrow> string" where
  "ls_row en =
     (case en of (name, cfg, pid) \<Rightarrow>
        ls_line CHR '' '' name
          (case ping_mode cfg of Ssh \<Rightarrow> ''ssh'' | Vsock \<Rightarrow> ''vsock/shell'')
          (case memory cfg of Some m \<Rightarrow> show_word m @ '' MB'' | None \<Rightarrow> ''-'')
          (case cpus cfg of Some c \<Rightarrow> show_word c | None \<Rightarrow> ''-'')
          (ls_status pid))"

definition ls_entry_of :: "env \<Rightarrow> (int \<Rightarrow> bool) \<Rightarrow> string \<Rightarrow> fs \<Rightarrow> ls_entry \<times> fs" where
  "ls_entry_of e kill0 name f =
     (case open_profile e name f of
        (st, f1) \<Rightarrow>
          ((name, case load_conf e f1 name of Inr cfg \<Rightarrow> cfg | Inl _ \<Rightarrow> config_default,
            case st of Inr sd \<Rightarrow> running_pid kill0 f1 sd | Inl _ \<Rightarrow> None), f1))"

fun ls_entries :: "env \<Rightarrow> (int \<Rightarrow> bool) \<Rightarrow> string list \<Rightarrow> fs \<Rightarrow> ls_entry list \<times> fs" where
  "ls_entries e kill0 [] f = ([], f)"
| "ls_entries e kill0 (n # ns) f =
     (case ls_entry_of e kill0 n f of (x, f1) \<Rightarrow> apfst (Cons x) (ls_entries e kill0 ns f1))"

text \<open>The directory of the named machines is read after the default one was opened.\<close>

definition vm_ls :: "env \<Rightarrow> (int \<Rightarrow> bool) \<Rightarrow> fs \<Rightarrow> (string \<times> u32) \<times> fs" where
  "vm_ls e kill0 f =
     (case pelagos_base e of
        Inl _ \<Rightarrow> (([], 1), f)
      | Inr _ \<Rightarrow>
          (case ls_entry_of e kill0 ''default'' f of
             (x, f1) \<Rightarrow>
               (case ls_entries e kill0 (sort (case listing f1 of None \<Rightarrow> [] | Some ns \<Rightarrow> ns)) f1 of
                  (xs, f2) \<Rightarrow>
                    ((ls_line CHR '' '' ''PROFILE'' ''ACCESS'' ''MEMORY'' ''CPUS'' ''STATUS''
                      @ ls_line CHR ''-'' [] [] [] [] [] @ concat (map ls_row (x # xs)), 0), f2))))"

section \<open>SSH\<close>

definition VM_SSH_PORT :: u16 where "VM_SSH_PORT = 22"

definition ping_ssh_args :: "string \<Rightarrow> string \<Rightarrow> string \<Rightarrow> string list" where
  "ping_ssh_args key exe prof =
     [''-i'', key, ''-o'', ''StrictHostKeyChecking=no'', ''-o'', ''UserKnownHostsFile=/dev/null'', ''-o'', ''LogLevel=ERROR'',
      ''-o'', ''ControlMaster=no'', ''-o'', ''ConnectTimeout=30'',
      ''-o'', ''ProxyCommand='' @ exe @ '' --profile '' @ prof @ '' ssh-relay-proxy '' @ show_word VM_SSH_PORT, ''root@vm'', ''true'']"

text \<open>The loop of \<open>ping_ssh\<close>: for each attempt the seconds it takes and its result (\<open>None\<close>: \<open>ssh\<close> cannot be started;
  otherwise whether it succeeded and its messages). The results are the texts for the two streams
  and the exit code; \<open>None\<close>: still waiting after these attempts.\<close>

fun ping_ssh_loop :: "nat \<Rightarrow> nat \<Rightarrow> (nat \<times> (bool \<times> string) option) list \<Rightarrow> (string \<times> string \<times> u32) option" where
  "ping_ssh_loop elapsed attempt [] = None"
| "ping_ssh_loop elapsed attempt ((secs, res) # rs) =
     (let progress = cr # ''[ping] attempt '' @ show_nat attempt @ '' ('' @ show_nat elapsed @ ''s elapsed) ...'';
          now = elapsed + secs in
      if (case res of Some (True, _) \<Rightarrow> True | _ \<Rightarrow> False) then Some (''pong'' @ [nl], progress @ [nl], 0)
      else
        (let shown = (case res of
               Some (_, msg) \<Rightarrow>
                 if trim msg \<noteq> [] then cr # ''[ping] attempt '' @ show_nat attempt @ '' ('' @ show_nat elapsed @ ''s): '' @ trim msg @ [nl] else []
             | None \<Rightarrow> []) in
         if 600 \<le> now then Some ([], progress @ shown @ [nl], 1)
         else map_option (\<lambda>(out, err, code). (out, progress @ shown @ err, code)) (ping_ssh_loop (now + 15) (attempt + 1) rs)))"

definition ping_ssh :: "env \<Rightarrow> string option \<Rightarrow> cli \<Rightarrow> (string list \<Rightarrow> (nat \<times> (bool \<times> string) option) list) \<Rightarrow> (string \<times> string \<times> u32) option" where
  "ping_ssh e exe c ssh =
     (case (global_ssh_key_file e, exe) of
        (Inr key, Some x) \<Rightarrow> ping_ssh_loop 0 1 (ssh (ping_ssh_args key x (cli_profile c)))
      | _ \<Rightarrow> Some ([], [], 1))"

text \<open>Copying one direction: the chunks read until the end or an error, and how many writes succeed.\<close>

definition copy_chunks :: "bytes list \<Rightarrow> nat \<Rightarrow> bytes" where
  "copy_chunks chunks writes = concat (take writes chunks)"

text \<open>\<open>ssh_relay_proxy\<close>: \<open>connect\<close> gives for an address the chunks the machine sends and the number of writes it
  takes; the results are what the machine gets, what is printed, and the exit code.\<close>

definition ssh_relay_proxy :: "env \<Rightarrow> fs \<Rightarrow> (string \<Rightarrow> (bytes list \<times> nat) option) \<Rightarrow> bytes list \<Rightarrow> nat \<Rightarrow> string \<Rightarrow> u16 \<Rightarrow> bytes \<times> bytes \<times> u32" where
  "ssh_relay_proxy e f connect stdin stdout_writes prof port =
     (let ip = get_or (case load_conf e f prof of Inl _ \<Rightarrow> None | Inr cfg \<Rightarrow> vm_profile_config.vm_ip cfg) DEFAULT_GUEST_IP in
      case connect (show_ipv4 ip @ '':'' @ show_word port) of
        None \<Rightarrow> ([], [], 1)
      | Some (replies, writes) \<Rightarrow> (copy_chunks stdin writes, copy_chunks replies stdout_writes, 0))"

section \<open>Events and console\<close>

text \<open>\<open>subscribe_command\<close>: every line is printed as it is, until the connection ends or the output is closed;
  the list tells whether each flush succeeds.\<close>

function subscribe_loop :: "string \<Rightarrow> bool list \<Rightarrow> string" where
  "subscribe_loop s flushes =
     (case read_line s of
        None \<Rightarrow> []
      | Some (line, rest) \<Rightarrow>
          (case flushes of
             False # _ \<Rightarrow> line
           | True # later \<Rightarrow> line @ subscribe_loop rest later
           | [] \<Rightarrow> line @ subscribe_loop rest []))"
  by pat_completeness auto
termination
  by (relation "measure (\<lambda>(s, _). length s)") (auto dest: read_line_shorter)

text \<open>One round of \<open>console_proxy\<close>: whether time is left before the deadline for draining, whether \<open>poll\<close> reports
  anything, what is read from standard input and from the console (\<open>Some None\<close>: end or error), and whether
  either is closed and the output takes the bytes.\<close>

record con_poll =
  cn_left :: bool
  cn_ready :: bool
  cn_in :: "bytes option option"
  cn_in_hup :: bool
  cn_out :: "bytes option option"
  cn_written :: bool
  cn_out_hup :: bool

fun console_proxy :: "bool \<Rightarrow> bool \<Rightarrow> con_poll list \<Rightarrow> bytes \<times> bytes" where
  "console_proxy is_tty stdin_done [] = ([], [])"
| "console_proxy is_tty stdin_done (p # ps) =
     (if stdin_done \<and> (is_tty \<or> \<not> cn_left p) then ([], [])
      else if \<not> cn_ready p then ([], [])
      else
        (let input = (if stdin_done then None else cn_in p) in
         if input = Some None then console_proxy is_tty True ps
         else
           (let chunk = (case input of Some (Some d) \<Rightarrow> d | _ \<Rightarrow> []) in
            if 0x1D \<in> set chunk then ([], [])
            else if cn_out p = Some None then (chunk, [])
            else if cn_out p \<noteq> None \<and> \<not> cn_written p then (chunk, [])
            else
              (let out = (case cn_out p of Some (Some d) \<Rightarrow> d | _ \<Rightarrow> []) in
               if cn_out_hup p then (chunk, out)
               else (case console_proxy is_tty (stdin_done \<or> cn_in_hup p) ps of (sent, shown) \<Rightarrow> (chunk @ sent, out @ shown))))))"

section \<open>What the console client forwards\<close>

fun chunk_of :: "bytes option option \<Rightarrow> bytes" where
  "chunk_of (Some (Some d)) = d"
| "chunk_of _ = []"

primrec typed_in :: "con_poll list \<Rightarrow> bytes" where
  "typed_in [] = []"
| "typed_in (p # ps) = chunk_of (cn_in p) @ typed_in ps"

primrec console_out :: "con_poll list \<Rightarrow> bytes" where
  "console_out [] = []"
| "console_out (p # ps) = chunk_of (cn_out p) @ console_out ps"

text \<open>A round in which the end of standard input is seen does not read the console.\<close>

definition round_ok :: "con_poll \<Rightarrow> bool" where
  "round_ok p = (cn_in p = Some None \<longrightarrow> cn_out p = None)"

text \<open>A round in which nothing ends the session.\<close>

definition flowing :: "con_poll \<Rightarrow> bool" where
  "flowing p = (cn_ready p \<and> cn_in p \<noteq> Some None \<and> 0x1D \<notin> set (chunk_of (cn_in p)) \<and> \<not> cn_in_hup p \<and>
     cn_out p \<noteq> Some None \<and> cn_written p \<and> \<not> cn_out_hup p)"

lemma chunk_case: "(case x of Some (Some d) \<Rightarrow> d | _ \<Rightarrow> []) = chunk_of x"
  by (cases x rule: chunk_of.cases) auto

lemma console_proxy_step:
  "console_proxy is_tty stdin_done (p # ps) =
     (if (stdin_done \<and> (is_tty \<or> \<not> cn_left p)) \<or> \<not> cn_ready p then ([], [])
      else if \<not> stdin_done \<and> cn_in p = Some None then console_proxy is_tty True ps
      else
        (let chunk = (if stdin_done then [] else chunk_of (cn_in p)) in
         if 0x1D \<in> set chunk then ([], [])
         else if cn_out p = Some None \<or> (cn_out p \<noteq> None \<and> \<not> cn_written p) then (chunk, [])
         else if cn_out_hup p then (chunk, chunk_of (cn_out p))
         else map_prod (append chunk) (append (chunk_of (cn_out p))) (console_proxy is_tty (stdin_done \<or> cn_in_hup p) ps)))"
  by (cases "cn_out p" rule: chunk_of.cases) (simp_all add: chunk_case Let_def map_prod_def split_beta)

declare console_proxy.simps(2) [simp del]

lemma console_prefix:
  assumes "console_proxy is_tty stdin_done ps = (sent, shown)" and "list_all round_ok ps"
  shows "prefix sent (if stdin_done then [] else typed_in ps)" "prefix shown (console_out ps)"
    "0x1D \<notin> set sent"
proof -
  have "prefix sent (if stdin_done then [] else typed_in ps) \<and> prefix shown (console_out ps) \<and>
      0x1D \<notin> set sent"
    using assms
  proof (induction ps arbitrary: stdin_done sent shown)
    case (Cons p ps)
    let ?q = "\<lambda>x. console_proxy is_tty x ps"
    have ih: "prefix (fst (?q x)) (if x then [] else typed_in ps)"
      "prefix (snd (?q x)) (console_out ps)" "0x1D \<notin> set (fst (?q x))" for x
      using Cons.IH[of x "fst (?q x)" "snd (?q x)"] Cons.prems by auto
    show ?case using Cons.prems ih[of True] ih[of False] ih[of "cn_in_hup p"]
      by (auto simp: console_proxy_step Let_def map_prod_def split_beta round_ok_def split: if_splits)
  qed simp
  then show "prefix sent (if stdin_done then [] else typed_in ps)" "prefix shown (console_out ps)"
    "0x1D \<notin> set sent" by auto
qed

lemma console_flowing:
  "list_all flowing ps \<Longrightarrow>
   console_proxy is_tty False ps = (typed_in ps, console_out ps)"
  by (induction ps) (auto simp: console_proxy_step flowing_def Let_def)

text \<open>The daemon's side of the same connection: what reaches the machine is what the session read.\<close>

fun to_vm :: "relayed list \<Rightarrow> bytes" where
  "to_vm [] = []"
| "to_vm (ToVm d # rs) = d @ to_vm rs"
| "to_vm (ToClient d # rs) = to_vm rs"

lemma to_vm_append [simp]: "to_vm (xs @ ys) = to_vm xs @ to_vm ys"
  by (induction xs rule: to_vm.induct) auto

definition client_bytes :: "session_poll option list \<Rightarrow> bytes" where
  "client_bytes ps = concat (map (\<lambda>p. case p of Some q \<Rightarrow> (case client_in q of Some d \<Rightarrow> d | None \<Rightarrow> []) | None \<Rightarrow> []) ps)"

lemma session_to_vm: "prefix (to_vm (proxy_console_loop ps)) (client_bytes ps)"
proof (induction ps rule: proxy_console_loop.induct)
  case (3 p ps)
  then show ?case by (cases "client_in p"; cases "relay_in p") (auto simp: client_bytes_def Let_def)
qed (auto simp: client_bytes_def)

text \<open>
  C38: The console of a machine is never fed anything that was not typed: whatever happens on either side,
  the bytes that reach the machine are an initial part of what was read from standard input, in
  order and without the detach key, and what is printed is an initial part of what the console
  sent. As long as nothing ends the session every byte typed is sent on and every byte of the
  console is printed.
\<close>

theorem console_faithful:
  assumes "console_proxy is_tty False ps = (sent, shown)" and "list_all round_ok ps" and "client_bytes qs = sent"
  shows "prefix (to_vm (proxy_console dup_ok qs)) (typed_in ps) \<and>
    0x1D \<notin> set (to_vm (proxy_console dup_ok qs)) \<and>
    prefix shown (console_out ps) \<and>
    (list_all flowing ps \<longrightarrow> sent = typed_in ps \<and> shown = console_out ps)"
proof -
  have "prefix (to_vm (proxy_console dup_ok qs)) sent"
    using session_to_vm[of qs] assms(3) by (simp add: proxy_console_def)
  moreover from this have "set (to_vm (proxy_console dup_ok qs)) \<subseteq> set sent" by (rule set_mono_prefix)
  ultimately show ?thesis
    using console_prefix[OF assms(1,2)] console_flowing[of ps is_tty] assms(1) by (auto intro: prefix_order.trans)
qed

text \<open>A command typed in two parts and the detach key.\<close>

definition typed :: "bytes \<Rightarrow> con_poll" where
  "typed d = \<lparr>cn_left = True, cn_ready = True, cn_in = Some (Some d), cn_in_hup = False, cn_out = Some (Some [62]), cn_written = True, cn_out_hup = False\<rparr>"

definition read_by_daemon :: "bytes \<Rightarrow> session_poll option" where
  "read_by_daemon d = Some \<lparr>client_in = Some d, client_hup = False, relay_in = None, relay_hup = False, client_write_ok = True\<rparr>"

theorem console_faithful_witness:
  "prefix (to_vm (proxy_console True [read_by_daemon [108, 115, 10]])) [108, 115, 10, 0x1D] \<and>
   to_vm (proxy_console True [read_by_daemon [108, 115, 10]]) = [108, 115, 10]"
  using console_faithful[of True "[typed [108], typed [115, 10], typed [0x1D]]" "[108, 115, 10]" "[62, 62]" "[read_by_daemon [108, 115, 10]]" True]
  by (simp add: console_proxy_step typed_def read_by_daemon_def client_bytes_def proxy_console_def round_ok_def)

text \<open>A closed pipe as standard input: what is still in it after one read is not sent.\<close>

lemma piped_input_lost:
  assumes "flowing (p\<lparr>cn_in_hup := False\<rparr>)" and "cn_in_hup p" and "list_all round_ok ps"
  shows "fst (console_proxy False False (p # ps)) = chunk_of (cn_in p)"
proof -
  obtain s1 o1 where d: "console_proxy False True ps = (s1, o1)" by (rule prod.exhaust)
  have "s1 = []" using console_prefix(1)[OF d assms(3)] by simp
  then show ?thesis using assms d by (auto simp: console_proxy_step flowing_def Let_def)
qed

section \<open>Waiting ends\<close>

definition ssh_ok :: "nat \<times> (bool \<times> string) option \<Rightarrow> bool" where
  "ssh_ok r = (case snd r of Some (True, _) \<Rightarrow> True | _ \<Rightarrow> False)"

lemma ping_ssh_loop_step:
  "ping_ssh_loop elapsed attempt (r # rs) = res \<Longrightarrow>
   if ssh_ok r then \<exists>err. res = Some (''pong'' @ [nl], err, 0)
   else if 600 \<le> elapsed + fst r then \<exists>err. res = Some ([], err, 1)
   else \<exists>pre. res = map_option (\<lambda>(out, err, code). (out, pre @ err, code)) (ping_ssh_loop (elapsed + fst r + 15) (attempt + 1) rs)"
  by (cases r) (auto simp: ssh_ok_def Let_def simp flip: append_assoc append_Cons split: option.splits prod.splits)

lemma ping_ssh_within:
  assumes "n \<le> length rs" and "0 < n" and "600 \<le> elapsed + 15 * (n - 1)"
  shows "\<exists>k err. k < n \<and> (\<forall>j < k. \<not> ssh_ok (rs ! j)) \<and>
    ping_ssh_loop elapsed attempt rs = Some (if ssh_ok (rs ! k) then (''pong'' @ [nl], err, 0) else ([], err, 1))"
  using assms
proof (induction n arbitrary: elapsed attempt rs)
  case (Suc n)
  obtain r rs' where rs: "rs = r # rs'" using Suc.prems by (cases rs) auto
  note step = ping_ssh_loop_step[of elapsed attempt r rs', OF refl]
  show ?case
  proof (cases "ssh_ok r \<or> 600 \<le> elapsed + fst r")
    case True
    then show ?thesis using step by (intro exI[of _ 0]) (auto simp: rs split: if_splits)
  next
    case False
    then have n: "0 < n" using Suc.prems by (cases n) auto
    have "600 \<le> elapsed + fst r + 15 + 15 * (n - 1)" using Suc.prems n by (cases n) auto
    from Suc.IH[OF _ n this, of rs' "attempt + 1"] Suc.prems rs obtain k err where k: "k < n" "\<forall>j < k. \<not> ssh_ok (rs' ! j)"
      "ping_ssh_loop (elapsed + fst r + 15) (attempt + 1) rs' = Some (if ssh_ok (rs' ! k) then (''pong'' @ [nl], err, 0) else ([], err, 1))"
      by auto
    have "\<forall>j < Suc k. \<not> ssh_ok (rs ! j)" using k(2) False by (auto simp: rs less_Suc_eq_0_disj)
    then show ?thesis using k step False by (intro exI[of _ "Suc k"]) (auto simp: rs)
  qed
qed simp

text \<open>
  Waiting for a machine over SSH ends: within 41 attempts, however long each takes, the command has
  either succeeded or given up. It answers with \<open>pong\<close> and the exit code 0 if the last attempt it made
  succeeded, with 1 otherwise, and makes no attempt after one that succeeded.
\<close>

lemma ping_ssh_ends:
  assumes "global_ssh_key_file e = Inr key" and "41 \<le> length (ssh (ping_ssh_args key exe (cli_profile c)))"
  shows "\<exists>k err. k < 41 \<and> (\<forall>j < k. \<not> ssh_ok (ssh (ping_ssh_args key exe (cli_profile c)) ! j)) \<and>
    ping_ssh e (Some exe) c ssh =
      Some (if ssh_ok (ssh (ping_ssh_args key exe (cli_profile c)) ! k) then (''pong'' @ [nl], err, 0) else ([], err, 1))"
  using ping_ssh_within[OF assms(2), of 0 1] assms(1) by (simp add: ping_ssh_def)

lemma ping_ssh_ends_witness:
  "\<exists>err. ping_ssh demo_env (Some ''pelagos'') demo_cli (\<lambda>_. replicate 50 (3, Some (False, ''no''))) = Some ([], err, 1)"
proof -
  obtain key where key: "global_ssh_key_file demo_env = Inr key" using demo_base by (auto simp: global_ssh_key_file_def)
  have "\<not> ssh_ok (replicate 50 (3, Some (False, ''no'')) ! k)" if "k < 41" for k using that by (simp add: ssh_ok_def)
  with ping_ssh_ends[OF key, of "\<lambda>_. replicate 50 (3, Some (False, ''no''))" "''pelagos''" demo_cli] show ?thesis by auto
qed

section \<open>The list agrees with the status\<close>

lemma ls_entry_status:
  assumes "open_profile e n f = (Inr sd, f1)" and "ls_entry_of e kill0 n f = ((n', cfg, pid), f2)"
  shows "n' = n \<and> f2 = f1 \<and> ls_status pid = fst (vm_status kill0 sd f1)"
  using assms by (auto simp: ls_entry_of_def ls_status_def vm_status_def split: option.split)

lemma subscribe_verbatim: "list_all id flushes \<Longrightarrow> subscribe_loop s flushes = s"
proof (induction s flushes rule: subscribe_loop.induct)
  case (1 s flushes)
  show ?case
  proof (cases "read_line s")
    case None
    then show ?thesis by (auto simp: read_line_def split: if_splits option.splits prod.splits)
  next
    case (Some x)
    obtain l r where x: "x = (l, r)" by (cases x)
    have "l @ r = s" using Some x by (auto simp: read_line_def split_once_Some split: if_splits option.splits)
    moreover have "subscribe_loop r (tl flushes) = r" using 1 Some x by (cases flushes) auto
    ultimately show ?thesis using 1(3) Some x by (cases flushes) auto
  qed
qed

lemma access_too_wide: "length (pad_right 10 c ''vsock/shell'') = 11"
  by (simp add: pad_right_def)

end
