(* ===== verification/Daemon_Links.thy ===== *)
theory Daemon_Links
  imports Port_Daemon "HOL-Library.Sublist"
begin

text \<open>
  The long-lived links of the daemon to the guest (\<open>pelagos-mac/src/daemon.rs\<close>): \<open>proxy\<close>, whose two threads
  copy a client connection and a vsock connection into each other, and \<open>subscription_watcher_loop\<close>, which
  connects again and again. The proxy is a machine whose steps are those of its threads, of the client, and
  of the guest, whose end of the connection is a descriptor (\<open>ConnFd\<close> in \<open>handle_connection\<close>) and a thread
  that may be inside \<open>read\<close> on it (the input thread of a session, which \<open>handle_exec_piped\<close> and
  \<open>handle_exec_tty\<close> leave behind). As \<open>close(2)\<close> documents, a call that is blocked in \<open>read\<close> keeps the connection
  open after its descriptor was closed.
\<close>

section \<open>The proxy\<close>

record proxied =
  from_client :: bytes
  to_guest :: bytes
  from_guest :: bytes
  to_client :: bytes
  client_open :: bool
  a_copying :: bool
  b_copying :: bool
  guest_fd :: bool
  guest_reader :: bool
  guest_read :: nat

definition guest_open :: "proxied \<Rightarrow> bool" where
  "guest_open s = (guest_fd s \<or> guest_reader s)"

text \<open>Both threads hold a descriptor of both connections, so that the daemon has let go of them when both
  have ended; this is when \<open>proxy\<close> returns, and when the client and the guest read the end of their input.\<close>

definition proxy_returned :: "proxied \<Rightarrow> bool" where
  "proxy_returned s = (\<not> a_copying s \<and> \<not> b_copying s)"

text \<open>After the first line was replayed.\<close>

definition proxy_begin :: "bytes \<Rightarrow> proxied" where
  "proxy_begin first_line =
     \<lparr>from_client = [], to_guest = first_line, from_guest = [], to_client = [], client_open = True, a_copying = True, b_copying = True,
      guest_fd = True, guest_reader = False, guest_read = 0\<rparr>"

text \<open>What the daemon's own threads do: copying a chunk of at most 8 KiB, and ending at the end of the
  input. A chunk is lost, and the thread ends, when the other side has gone.\<close>

datatype copier_event = CopyA nat | EndA | CopyB nat | EndB

fun copier_step :: "copier_event \<Rightarrow> proxied \<Rightarrow> proxied option" where
  "copier_step (CopyA n) s =
     (if a_copying s \<and> from_client s \<noteq> [] \<and> 0 < n \<and> n \<le> 8192 then
        Some (if guest_open s
              then s\<lparr>from_client := drop n (from_client s), to_guest := to_guest s @ take n (from_client s)\<rparr>
              else s\<lparr>from_client := drop n (from_client s), a_copying := False\<rparr>)
      else None)"
| "copier_step EndA s =
     (if a_copying s \<and> from_client s = [] \<and> \<not> client_open s then Some (s\<lparr>a_copying := False\<rparr>) else None)"
| "copier_step (CopyB n) s =
     (if b_copying s \<and> from_guest s \<noteq> [] \<and> 0 < n \<and> n \<le> 8192 then
        Some (if client_open s
              then s\<lparr>from_guest := drop n (from_guest s), to_client := to_client s @ take n (from_guest s)\<rparr>
              else s\<lparr>from_guest := drop n (from_guest s), b_copying := False\<rparr>)
      else None)"
| "copier_step EndB s =
     (if b_copying s \<and> from_guest s = [] \<and> \<not> guest_open s then Some (s\<lparr>b_copying := False\<rparr>) else None)"

text \<open>What the two sides do. A write to a connection the daemon has let go of fails without an effect.\<close>

datatype link_event =
    Thread copier_event
  | ClientSends bytes
  | ClientCloses
  | GuestSends bytes
  | GuestReads
  | GuestGets nat
  | GuestCloses

fun proxy_step :: "link_event \<Rightarrow> proxied \<Rightarrow> proxied option" where
  "proxy_step (Thread e) s = copier_step e s"
| "proxy_step (ClientSends d) s =
     (if client_open s \<and> \<not> proxy_returned s then Some (s\<lparr>from_client := from_client s @ d\<rparr>) else None)"
| "proxy_step ClientCloses s = (if client_open s then Some (s\<lparr>client_open := False\<rparr>) else None)"
| "proxy_step (GuestSends d) s =
     (if guest_fd s \<and> \<not> proxy_returned s then Some (s\<lparr>from_guest := from_guest s @ d\<rparr>) else None)"
| "proxy_step GuestReads s = (if guest_fd s \<and> \<not> guest_reader s then Some (s\<lparr>guest_reader := True\<rparr>) else None)"
| "proxy_step (GuestGets n) s =
     (if guest_reader s \<and> guest_read s + n \<le> length (to_guest s) \<and> (0 < n \<or> proxy_returned s \<and> guest_read s = length (to_guest s))
      then Some (s\<lparr>guest_reader := False, guest_read := guest_read s + n\<rparr>) else None)"
| "proxy_step GuestCloses s = (if guest_fd s then Some (s\<lparr>guest_fd := False\<rparr>) else None)"

fun proxy_run :: "link_event list \<Rightarrow> proxied \<Rightarrow> proxied option" where
  "proxy_run [] s = Some s"
| "proxy_run (e # es) s = Option.bind (proxy_step e s) (proxy_run es)"

definition copiers_rest :: "proxied \<Rightarrow> bool" where
  "copiers_rest s = (\<forall>e. copier_step e s = None)"

fun sent_by_client :: "link_event list \<Rightarrow> bytes" where
  "sent_by_client [] = []"
| "sent_by_client (ClientSends d # es) = d @ sent_by_client es"
| "sent_by_client (_ # es) = sent_by_client es"

fun sent_by_guest :: "link_event list \<Rightarrow> bytes" where
  "sent_by_guest [] = []"
| "sent_by_guest (GuestSends d # es) = d @ sent_by_guest es"
| "sent_by_guest (_ # es) = sent_by_guest es"

section \<open>What the proxy delivers\<close>

text \<open>One direction: \<open>c\<close> was sent, \<open>src\<close> waits and \<open>dst\<close> was delivered.\<close>

definition half_inv :: "bytes \<Rightarrow> bytes \<Rightarrow> bytes \<Rightarrow> bool \<Rightarrow> bool \<Rightarrow> bool \<Rightarrow> bool" where
  "half_inv c src dst copying src_open dst_open =
     (prefix dst c \<and> (copying \<longrightarrow> dst @ src = c) \<and> (\<not> copying \<longrightarrow> \<not> dst_open \<or> \<not> src_open \<and> dst = c))"

lemma half_inv_copy: "half_inv c src dst True so do' \<Longrightarrow> half_inv c (drop n src) (dst @ take n src) True so do'"
  by (auto simp: half_inv_def take_is_prefix)

lemma half_inv_lost: "half_inv c src dst True so False \<Longrightarrow> half_inv c src' dst False so False"
  by (simp add: half_inv_def)

lemma half_inv_end: "half_inv c [] dst True False do' \<Longrightarrow> half_inv c [] dst False False do'"
  by (auto simp: half_inv_def)

lemma half_inv_send: "half_inv c src dst copying True do' \<Longrightarrow> half_inv (c @ d) (src @ d) dst copying True do'"
  by (auto simp: half_inv_def prefix_prefix)

lemma half_inv_close:
  "half_inv c src dst copying so do' \<Longrightarrow> (so' \<longrightarrow> so) \<Longrightarrow> (do2 \<longrightarrow> do') \<Longrightarrow> half_inv c src dst copying so' do2"
  by (auto simp: half_inv_def)

lemmas half_inv_intros = half_inv_copy half_inv_lost half_inv_end half_inv_send half_inv_close

definition proxy_inv :: "bytes \<Rightarrow> bytes \<Rightarrow> proxied \<Rightarrow> bool" where
  "proxy_inv c g s =
     (half_inv c (from_client s) (to_guest s) (a_copying s) (client_open s) (guest_open s) \<and>
      half_inv g (from_guest s) (to_client s) (b_copying s) (guest_open s) (client_open s))"

lemma guest_open_update [simp]:
  "guest_open (s\<lparr>from_client := x\<rparr>) = guest_open s" "guest_open (s\<lparr>from_guest := x\<rparr>) = guest_open s"
  "guest_open (s\<lparr>to_client := x\<rparr>) = guest_open s" "guest_open (s\<lparr>to_guest := x\<rparr>) = guest_open s"
  "guest_open (s\<lparr>a_copying := b\<rparr>) = guest_open s" "guest_open (s\<lparr>b_copying := b\<rparr>) = guest_open s"
  "guest_open (s\<lparr>client_open := b\<rparr>) = guest_open s" "guest_open (s\<lparr>guest_read := n\<rparr>) = guest_open s"
  "guest_fd s \<Longrightarrow> guest_open s" "guest_reader s \<Longrightarrow> guest_open s"
  by (simp_all add: guest_open_def)

lemma copier_inv_step:
  assumes "proxy_inv c g s" and "copier_step t s = Some s'"
  shows "proxy_inv c g s'"
  using assms by (cases t; simp add: proxy_inv_def half_inv_intros split: if_splits) (auto simp: half_inv_intros)

lemma proxy_inv_step:
  assumes "proxy_inv c g s" and "proxy_step e s = Some s'"
  shows "proxy_inv (c @ sent_by_client [e]) (g @ sent_by_guest [e]) s'"
proof (cases e)
  case (Thread t)
  then show ?thesis using assms copier_inv_step by simp
next
  case GuestReads
  then show ?thesis using assms by (auto simp: proxy_inv_def guest_open_def split: if_splits)
next
  case (GuestGets n)
  then show ?thesis using assms by (auto simp: proxy_inv_def guest_open_def elim: half_inv_close split: if_splits)
next
  case GuestCloses
  then show ?thesis using assms by (auto simp: proxy_inv_def guest_open_def elim: half_inv_close split: if_splits)
next
  case ClientCloses
  then show ?thesis using assms by (auto simp: proxy_inv_def elim: half_inv_close split: if_splits)
qed (use assms in \<open>auto simp: proxy_inv_def half_inv_send split: if_splits\<close>)

lemma proxy_run_inv:
  assumes "proxy_inv c g s" and "proxy_run es s = Some s'"
  shows "proxy_inv (c @ sent_by_client es) (g @ sent_by_guest es) s'"
  using assms
proof (induction es arbitrary: c g s)
  case (Cons e es)
  then obtain t where t: "proxy_step e s = Some t" and r: "proxy_run es t = Some s'" by (auto simp: bind_eq_Some_conv)
  have split: "sent_by_client (e # es) = sent_by_client [e] @ sent_by_client es" "sent_by_guest (e # es) = sent_by_guest [e] @ sent_by_guest es"
    by (cases e; simp)+
  show ?case using Cons.IH[OF proxy_inv_step[OF Cons.prems(1) t] r] by (simp only: split append.assoc)
qed simp

lemma proxy_inv_begin: "proxy_inv l [] (proxy_begin l)"
  by (simp add: proxy_inv_def half_inv_def proxy_begin_def)

lemma copiers_rest_ended:
  assumes "copiers_rest s"
  shows "a_copying s \<Longrightarrow> from_client s = [] \<and> client_open s" and "b_copying s \<Longrightarrow> from_guest s = [] \<and> guest_open s"
proof -
  have r: "copier_step (CopyA 1) s = None" "copier_step EndA s = None" "copier_step (CopyB 1) s = None" "copier_step EndB s = None"
    using assms by (simp_all add: copiers_rest_def)
  show "a_copying s \<Longrightarrow> from_client s = [] \<and> client_open s" using r(1,2) by (auto split: if_splits)
  show "b_copying s \<Longrightarrow> from_guest s = [] \<and> guest_open s" using r(3,4) by (auto split: if_splits)
qed

lemma proxy_run_delivers:
  assumes "proxy_run es (proxy_begin first_line) = Some s"
  shows "prefix (to_guest s) (first_line @ sent_by_client es) \<and> prefix (to_client s) (sent_by_guest es) \<and>
    (copiers_rest s \<longrightarrow> (guest_open s \<longrightarrow> to_guest s = first_line @ sent_by_client es) \<and> (client_open s \<longrightarrow> to_client s = sent_by_guest es))"
proof -
  have "proxy_inv (first_line @ sent_by_client es) (sent_by_guest es) s"
    using proxy_run_inv[OF proxy_inv_begin assms] by simp
  then show ?thesis
    using copiers_rest_ended[of s] by (auto simp: proxy_inv_def half_inv_def)
qed

text \<open>
  C6: A connection that is not a command of the daemon is relayed faithfully, first line included, in every
  interleaving of the two threads, the client and the guest: the guest is given an initial part of
  the bytes the client sends, the client an initial part of the bytes the guest sends; and
  whenever the threads have nothing to do, a side that is still there has been given all of them.
\<close>

theorem proxy_delivers:
  assumes "read_first_line [] stream = Some (first_line, sent_by_client es)" and "parse_cmd first_line = None"
    and "proxy_run es (proxy_begin first_line) = Some s"
  shows "handle_connection parse_cmd (Inr ()) True stream ps = (Proxied stream, ps) \<and>
    prefix (to_guest s) stream \<and> prefix (to_client s) (sent_by_guest es) \<and>
    (copiers_rest s \<longrightarrow> (guest_open s \<longrightarrow> to_guest s = stream) \<and> (client_open s \<longrightarrow> to_client s = sent_by_guest es))"
proof -
  have "stream = first_line @ sent_by_client es" using read_first_line_Some[OF assms(1)] by simp
  then show ?thesis using proxy_run_delivers[OF assms(3)] assms(1,2) by (simp add: handle_connection_def)
qed

theorem proxy_delivers_witness:
  "\<exists>s. proxy_run [ClientSends [65, 66], GuestSends [67], Thread (CopyB 5), Thread (CopyA 1), Thread (CopyA 1)] (proxy_begin [123, 10]) = Some s \<and>
     to_guest s = [123, 10, 65, 66] \<and> to_client s = [67] \<and> prefix (to_guest s) [123, 10, 65, 66]"
proof -
  let ?es = "[ClientSends [65, 66], GuestSends [67], Thread (CopyB 5), Thread (CopyA 1), Thread (CopyA 1)]"
  obtain s where s: "proxy_run ?es (proxy_begin [123, 10]) = Some s"
    by (simp add: proxy_begin_def guest_open_def proxy_returned_def)
  moreover have "to_guest s = [123, 10, 65, 66] \<and> to_client s = [67]"
    using s by (auto simp: proxy_begin_def guest_open_def proxy_returned_def)
  ultimately show ?thesis using proxy_delivers[of "[123, 10, 65, 66]" "[123, 10]" ?es "\<lambda>_. None" s] by auto
qed

section \<open>How the proxy ends\<close>

definition copier_work :: "proxied \<Rightarrow> nat" where
  "copier_work s = length (from_client s) + length (from_guest s) + of_bool (a_copying s) + of_bool (b_copying s)"

lemma copier_step_works: "copier_step t s = Some s' \<Longrightarrow> copier_work s' < copier_work s"
  by (cases t) (auto simp: copier_work_def split: if_splits)

lemma copier_step_sides:
  "copier_step t s = Some s' \<Longrightarrow> client_open s' = client_open s \<and> guest_open s' = guest_open s"
  by (cases t) (auto simp: guest_open_def split: if_splits)

lemma copiers_run:
  "proxy_run (map Thread ts) s = Some s' \<Longrightarrow>
   length ts + copier_work s' \<le> copier_work s \<and> client_open s' = client_open s \<and> guest_open s' = guest_open s"
proof (induction ts arbitrary: s)
  case (Cons t ts)
  then obtain u where u: "copier_step t s = Some u" and r: "proxy_run (map Thread ts) u = Some s'" by (auto simp: bind_eq_Some_conv)
  show ?case using Cons.IH[OF r] copier_step_works[OF u] copier_step_sides[OF u] by simp
qed simp

text \<open>
  The proxy ends: its threads come to rest after at most one step for every waiting byte and one for each
  thread, and if the client and the guest have both let go of their connections, both threads have
  ended then, so that \<open>proxy\<close> returns and no descriptor is kept.
\<close>

lemma proxy_returns:
  assumes "proxy_run (map Thread ts) s = Some s'"
  shows "length ts \<le> length (from_client s) + length (from_guest s) + 2 \<and>
    (copiers_rest s' \<and> \<not> client_open s \<and> \<not> guest_open s \<longrightarrow> proxy_returned s')"
proof -
  have "copier_work s \<le> length (from_client s) + length (from_guest s) + 2" by (simp add: copier_work_def)
  then show ?thesis using copiers_run[OF assms] copiers_rest_ended[of s'] by (auto simp: proxy_returned_def)
qed

lemma proxy_returns_witness:
  "\<exists>s'. proxy_run [Thread EndA, Thread (CopyB 8), Thread EndB]
       ((proxy_begin [10])\<lparr>from_guest := [67], client_open := False, guest_fd := False\<rparr>) = None \<and>
     proxy_run (map Thread [EndA, CopyB 8])
       ((proxy_begin [10])\<lparr>from_guest := [67], client_open := False, guest_fd := False\<rparr>) = Some s' \<and> proxy_returned s'"
proof -
  let ?s = "(proxy_begin [10])\<lparr>from_guest := [67], client_open := False, guest_fd := False\<rparr>"
  obtain s' where s': "proxy_run (map Thread [EndA, CopyB 8]) ?s = Some s'" and e: "\<not> a_copying s'" "\<not> b_copying s'"
    by (simp add: proxy_begin_def guest_open_def)
  have "copiers_rest s'" unfolding copiers_rest_def
  proof
    fix t show "copier_step t s' = None" using e by (cases t) auto
  qed
  then have "proxy_returned s'" using proxy_returns[OF s'] by (simp add: proxy_begin_def guest_open_def)
  moreover have "proxy_run [Thread EndA, Thread (CopyB 8), Thread EndB] ?s = None" by (simp add: proxy_begin_def guest_open_def)
  ultimately show ?thesis using s' by blast
qed

text \<open>A client that waits, and a session that is over: the client has left and the guest has closed its
  descriptor, but the input thread of the session is still in \<open>read\<close>.\<close>

definition client_waits :: "proxied \<Rightarrow> bool" where
  "client_waits s = (client_open s \<and> a_copying s \<and> from_client s = [])"

definition session_over :: "proxied \<Rightarrow> bool" where
  "session_over s = (\<not> client_open s \<and> from_client s = [] \<and> from_guest s = [] \<and> b_copying s \<and> \<not> guest_fd s \<and> guest_reader s \<and>
     guest_read s = length (to_guest s))"

fun by_client :: "link_event \<Rightarrow> bool" where
  "by_client (ClientSends _) = True"
| "by_client ClientCloses = True"
| "by_client _ = False"

lemma client_waits_step: "client_waits s \<Longrightarrow> \<not> by_client e \<Longrightarrow> proxy_step e s = Some s' \<Longrightarrow> client_waits s'"
proof (cases e)
  case (Thread t)
  then show "client_waits s \<Longrightarrow> proxy_step e s = Some s' \<Longrightarrow> client_waits s'" by (cases t) (auto simp: client_waits_def split: if_splits)
qed (auto simp: client_waits_def split: if_splits)

lemma session_over_step: "session_over s \<Longrightarrow> proxy_step e s = Some s' \<Longrightarrow> session_over s'"
proof (cases e)
  case (Thread t)
  then show "session_over s \<Longrightarrow> proxy_step e s = Some s' \<Longrightarrow> session_over s'"
    by (cases t) (auto simp: session_over_def guest_open_def split: if_splits)
qed (auto simp: session_over_def proxy_returned_def split: if_splits)

lemma client_waits_run: "client_waits s \<Longrightarrow> list_all (\<lambda>e. \<not> by_client e) es \<Longrightarrow> proxy_run es s = Some s' \<Longrightarrow> client_waits s'"
  by (induction es arbitrary: s) (auto simp: bind_eq_Some_conv dest: client_waits_step)

lemma session_over_run: "session_over s \<Longrightarrow> proxy_run es s = Some s' \<Longrightarrow> session_over s'"
  by (induction es arbitrary: s) (auto simp: bind_eq_Some_conv dest: session_over_step)

text \<open>
  C7: The end of one side is not passed on to the other. A client that waits for an answer, with all it
  sent delivered, never reads the end of its input, whatever the guest does, closing the
  connection included. And when a session is over for both sides while its input thread in the guest is still
  reading, the thread of the daemon that waits for the guest and the thread of the guest that waits for the
  daemon wait for each other, whatever happens: the session keeps both threads and its connection for
  ever.
\<close>

theorem hangup_not_passed_on:
  "(client_waits s \<and> list_all (\<lambda>e. \<not> by_client e) es \<and> proxy_run es s = Some s' \<longrightarrow> \<not> proxy_returned s') \<and>
   (session_over t \<and> proxy_run es' t = Some t' \<longrightarrow> b_copying t' \<and> guest_reader t' \<and> \<not> proxy_returned t')"
  using client_waits_run[of s es s'] session_over_run[of t es' t']
  by (auto simp: client_waits_def session_over_def proxy_returned_def)

text \<open>A session that reaches this state: the user types a command, the shell echoes it and ends.\<close>

theorem hangup_not_passed_on_witness:
  "\<exists>t. proxy_run [GuestReads, ClientSends [101], Thread (CopyA 1), GuestGets 2, GuestReads, GuestSends [101], Thread (CopyB 1),
        GuestCloses, ClientCloses, Thread EndA] (proxy_begin [10]) = Some t \<and>
     (\<forall>es' t'. proxy_run es' t = Some t' \<longrightarrow> b_copying t' \<and> guest_reader t' \<and> \<not> proxy_returned t')"
proof -
  let ?es = "[GuestReads, ClientSends [101], Thread (CopyA 1), GuestGets 2, GuestReads, GuestSends [101], Thread (CopyB 1),
        GuestCloses, ClientCloses, Thread EndA]"
  obtain t where t: "proxy_run ?es (proxy_begin [10]) = Some t"
    by (simp add: proxy_begin_def guest_open_def proxy_returned_def)
  then have "session_over t" by (auto simp: proxy_begin_def guest_open_def proxy_returned_def session_over_def)
  then show ?thesis using t hangup_not_passed_on[of undefined "[]" undefined t] by blast
qed

section \<open>The subscription watcher\<close>

text \<open>
  One round of \<open>subscription_watcher_loop\<close>: the results of \<open>connect_vsock\<close> until it succeeds, whether the
  command can be written, and the lines read until the connection closes. The watcher keeps its map
  of containers over the rounds. The second result is the seconds slept.
\<close>

record watch_round =
  wr_connects :: "(string + unit) list"
  wr_written :: bool
  wr_lines :: "string list"

fun reconnect :: "(string + unit) list \<Rightarrow> nat list" where
  "reconnect [] = []"
| "reconnect (Inr _ # rs) = []"
| "reconnect (Inl _ # rs) = 2 # reconnect rs"

definition connected :: "watch_round \<Rightarrow> bool" where
  "connected r = list_ex (\<lambda>c. c = Inr ()) (wr_connects r)"

definition watcher_round :: "(string \<Rightarrow> watch_event option) \<Rightarrow> watch_round \<Rightarrow> container_ports \<times> port_state
    \<Rightarrow> (container_ports \<times> port_state) \<times> nat list" where
  "watcher_round from_json r w =
     (if \<not> connected r then (w, reconnect (wr_connects r))
      else if \<not> wr_written r then (w, reconnect (wr_connects r) @ [5])
      else (fold (watch_line from_json) (wr_lines r) w, reconnect (wr_connects r) @ [5]))"

fun subscription_watcher_loop :: "(string \<Rightarrow> watch_event option) \<Rightarrow> watch_round list \<Rightarrow> container_ports \<times> port_state
    \<Rightarrow> (container_ports \<times> port_state) \<times> nat list" where
  "subscription_watcher_loop from_json [] w = (w, [])"
| "subscription_watcher_loop from_json (r # rs) w =
     (case watcher_round from_json r w of (w1, slept) \<Rightarrow>
        (case subscription_watcher_loop from_json rs w1 of (w2, slept') \<Rightarrow> (w2, slept @ slept')))"

text \<open>A container publishes a host port.\<close>

definition publishes :: "u16 \<Rightarrow> watch_container \<Rightarrow> bool" where
  "publishes p c = (p \<in> set (spec_ports (wc_ports c)))"

fun announces :: "u16 \<Rightarrow> watch_event \<Rightarrow> bool" where
  "announces p (Snapshot cs) = list_ex (publishes p) cs"
| "announces p (ContainerStarted c) = publishes p c"
| "announces p _ = False"

definition tracked :: "u16 \<Rightarrow> container_ports \<Rightarrow> bool" where
  "tracked p m = (\<exists>name specs. m name = Some specs \<and> p \<in> set (spec_ports specs))"

lemma track_untracked: "\<not> tracked p m \<Longrightarrow> \<not> publishes p c \<Longrightarrow> \<not> tracked p (track_container c m)"
  by (auto simp: tracked_def publishes_def track_container_def)

lemma fold_track_untracked: "\<not> tracked p m \<Longrightarrow> \<not> list_ex (publishes p) cs \<Longrightarrow> \<not> tracked p (fold track_container cs m)"
  by (induction cs arbitrary: m) (auto simp: track_untracked)

lemma watch_step_untracked:
  assumes "\<not> announces p e" and "\<not> tracked p m \<or> (\<exists>cs. e = Snapshot cs)" and "watch_step e (m, ps) = (m', ps')"
  shows "\<not> tracked p m' \<and> active ps' p = active ps p"
proof (cases e)
  case (Snapshot cs)
  have "\<not> tracked p (\<lambda>_. None)" by (simp add: tracked_def)
  then show ?thesis using Snapshot assms fold_track_untracked[of p "\<lambda>_. None" cs] by (auto simp: watch_step_def)
next
  case (ContainerStarted c)
  then show ?thesis using assms track_untracked by (auto simp: watch_step_def)
next
  case (ContainerExited name)
  then show ?thesis using assms by (auto simp: watch_step_def tracked_def fold_drop_spec fold_drop_active split: option.splits if_splits)
qed (use assms in \<open>auto simp: watch_step_def\<close>)

text \<open>A line that is not an event has no effect.\<close>

definition event_of :: "(string \<Rightarrow> watch_event option) \<Rightarrow> string \<Rightarrow> watch_event option" where
  "event_of from_json l = (if trim_end l = [] then None else from_json (trim_end l))"

lemma watch_line_event_of: "watch_line from_json l w = (case event_of from_json l of Some e \<Rightarrow> watch_step e w | None \<Rightarrow> w)"
  by (simp add: watch_line_def event_of_def Let_def)

definition unannounced :: "(string \<Rightarrow> watch_event option) \<Rightarrow> u16 \<Rightarrow> string \<Rightarrow> bool" where
  "unannounced from_json p l = (case event_of from_json l of Some e \<Rightarrow> \<not> announces p e | None \<Rightarrow> True)"

lemma lines_untracked:
  "\<not> tracked p (fst w) \<Longrightarrow> list_all (unannounced from_json p) ls \<Longrightarrow>
   \<not> tracked p (fst (fold (watch_line from_json) ls w)) \<and> active (snd (fold (watch_line from_json) ls w)) p = active (snd w) p"
proof (induction ls arbitrary: w)
  case (Cons l ls)
  have "\<not> tracked p (fst (watch_line from_json l w)) \<and> active (snd (watch_line from_json l w)) p = active (snd w) p"
    using Cons.prems watch_step_untracked[of p _ "fst w" "snd w"]
    by (auto simp: watch_line_event_of unannounced_def split: option.splits) (metis prod.collapse)+
  then show ?case using Cons.IH[of "watch_line from_json l w"] Cons.prems by simp
qed simp

lemma loop_untracked:
  "\<not> tracked p (fst w) \<Longrightarrow> list_all (\<lambda>r. list_all (unannounced from_json p) (wr_lines r)) rs \<Longrightarrow>
   active (snd (fst (subscription_watcher_loop from_json rs w))) p = active (snd w) p"
proof (induction rs arbitrary: w)
  case (Cons r rs)
  let ?w = "fst (watcher_round from_json r w)"
  have "\<not> tracked p (fst ?w) \<and> active (snd ?w) p = active (snd w) p"
    using Cons.prems lines_untracked[of p w from_json "wr_lines r"] by (auto simp: watcher_round_def)
  then show ?case using Cons.IH[of ?w] Cons.prems by (auto split: prod.split)
qed simp

text \<open>
  A container that ends while the watcher is not connected keeps its ports. Whatever the watcher knew
  before, after it has connected again and read the list of running containers, from which the container
  is missing, no later round ever releases the port, until a container that publishes the same port
  is started: the exit is never made up for.
\<close>

lemma missed_exit_keeps_port:
  assumes "connected r" and "wr_written r" and "wr_lines r = l # ls" and "event_of from_json l = Some (Snapshot cs)"
    and "\<not> list_ex (publishes p) cs" and "list_all (unannounced from_json p) ls"
    and "list_all (\<lambda>r. list_all (unannounced from_json p) (wr_lines r)) rs"
  shows "active (snd (fst (subscription_watcher_loop from_json (r # rs) (m, ps)))) p = active ps p"
proof -
  obtain m1 ps1 where s: "watch_step (Snapshot cs) (m, ps) = (m1, ps1)" by (rule prod.exhaust)
  then have u: "\<not> tracked p m1 \<and> active ps1 p = active ps p" using watch_step_untracked[of p "Snapshot cs" m ps] assms(5) by auto
  let ?w = "fold (watch_line from_json) ls (m1, ps1)"
  have "\<not> tracked p (fst ?w) \<and> active (snd ?w) p = active ps p" using lines_untracked[of p "(m1, ps1)", OF _ assms(6)] u by simp
  moreover have "fst (watcher_round from_json r (m, ps)) = ?w" using assms(1-4) s by (simp add: watcher_round_def watch_line_event_of)
  ultimately show ?thesis using loop_untracked[of p ?w, OF _ assms(7)] by (auto split: prod.split)
qed

definition demo_events :: "string \<Rightarrow> watch_event option" where
  "demo_events l = (if l = ''none'' then Some (Snapshot []) else if l = ''exit'' then Some (ContainerExited ''c'') else None)"

definition demo_watch :: "string list \<Rightarrow> watch_round" where
  "demo_watch ls = \<lparr>wr_connects = [Inl ''no guest'', Inr ()], wr_written = True, wr_lines = ls\<rparr>"

lemma missed_exit_keeps_port_witness:
  "active (snd (fst (subscription_watcher_loop demo_events [demo_watch [''none''], demo_watch [''exit'']]
     ((\<lambda>_. None)(''c'' := Some [''8080:80'']), demo_ports)))) 8080 = Some 80"
proof -
  have e: "event_of demo_events ''none'' = Some (Snapshot [])" "unannounced demo_events 8080 ''exit''"
    by (simp_all add: event_of_def demo_events_def unannounced_def trim_end_def is_ws_def)
  then show ?thesis
    using missed_exit_keeps_port[of "demo_watch [''none'']" "''none''" "[]" demo_events "[]" 8080 "[demo_watch [''exit'']]"
        "(\<lambda>_. None)(''c'' := Some [''8080:80''])" demo_ports]
    by (simp add: demo_watch_def connected_def) (simp add: demo_ports_def)
qed

end
