(* ===== verification/Helper_Install.thy ===== *)
theory Helper_Install
  imports File_Copy State_Dir
begin

text \<open>
  Installing the privileged helper (\<open>pelagos-mac/src/bless.rs\<close>): finding the program, the command that
  \<open>osascript\<close> runs as root, the temporary files around it and waiting for the socket. What the files and
  programs answer is a parameter. The last part shows which words the shell is given, for an
  AppleScript and a shell that read quoted text as they document.
\<close>

section \<open>The program\<close>

definition PFCTL_SOCK :: string where "PFCTL_SOCK = ''/var/run/pelagos-pfctl.sock''"
definition HELPER_LABEL :: string where "HELPER_LABEL = ''com.pelagos.pfctl''"
definition HELPER_DST :: string where "HELPER_DST = ''/Library/PrivilegedHelperTools/com.pelagos.pfctl''"
definition plist_tmp :: string where "plist_tmp = ''/tmp/com.pelagos.pfctl.plist''"
definition script_tmp :: string where "script_tmp = ''/tmp/pelagos-install-pfctl.sh''"

datatype install_error = BlessIo string | BlessNotFound string | BlessDenied string | BlessTimedOut string

text \<open>The host: the path of the program, files that exist, \<open>canonicalize\<close>, the error of writing a file and
  whether it was created all the same, the error of \<open>set_permissions\<close>, and \<open>osascript\<close>: the error of
  starting it, or whether it succeeded and what it wrote to its error stream.\<close>

record install_host =
  ih_exe :: "string + string"
  ih_exists :: "string \<Rightarrow> bool"
  ih_canonical :: "string \<Rightarrow> string option"
  ih_write :: "string \<Rightarrow> (string \<times> bool) option"
  ih_chmod :: "string option"
  ih_osascript :: "string \<Rightarrow> string + bool \<times> string"

definition find_helper_binary :: "install_host \<Rightarrow> install_error + string" where
  "find_helper_binary h =
     (case ih_exe h of
        Inl e \<Rightarrow> Inl (BlessIo e)
      | Inr exe \<Rightarrow>
          (case path_parent exe of
             None \<Rightarrow> Inl (BlessNotFound ''cannot determine exe directory'')
           | Some exe_dir \<Rightarrow>
               (let dev = path_join (path_join exe_dir ''Contents/Library/LaunchServices'') HELPER_LABEL;
                    brew = path_join (path_join exe_dir ''../share/pelagos-mac'') HELPER_LABEL;
                    missing = Inl (BlessNotFound (''privileged helper not found.'' @ [nl] @ ''Expected at '' @ dev @ '' (dev) or '' @ brew @
                      '' (Homebrew).'' @ [nl] @ ''If using Homebrew: brew reinstall pelagos-containers/tap/pelagos-mac'' @ [nl] @
                      ''If developing locally: run scripts/sign.sh''))
                in if ih_exists h dev then Inr dev
                   else (case ih_canonical h brew of
                           Some p \<Rightarrow> if ih_exists h p then Inr p else missing
                         | None \<Rightarrow> missing))))"

text \<open>The paths in single quotes, and the whole as a string of AppleScript in the format \<open>{:?}\<close>.\<close>

definition quoted :: "string \<Rightarrow> string" where
  "quoted s = CHR 0x27 # s @ [CHR 0x27]"

definition root_cmd :: "string \<Rightarrow> string" where
  "root_cmd helper = quoted script_tmp @ '' '' @ quoted helper @ '' '' @ quoted plist_tmp"

definition applescript :: "string \<Rightarrow> string" where
  "applescript helper = ''do shell script '' @ debug_str (root_cmd helper) @ '' with administrator privileges''"

text \<open>\<open>wait_for_socket\<close>: the milliseconds before each look at the socket and what it shows; \<open>None\<close>: it still
  waits. Between two looks at least 200 milliseconds pass.\<close>

fun wait_for_helper :: "nat \<Rightarrow> (nat \<times> bool) list \<Rightarrow> (install_error + unit) option" where
  "wait_for_helper elapsed [] = None"
| "wait_for_helper elapsed ((ms, present) # ps) =
     (let now = elapsed + ms in
      if present then Some (Inr ())
      else if 5000 \<le> now then
        Some (Inl (BlessTimedOut (''helper installed but '' @ PFCTL_SOCK @ '' did not appear within 5s'' @ [nl] @
          ''Check /var/log/pelagos-pfctl.log for errors.'')))
      else wait_for_helper (now + 200) ps)"

definition denied_text :: "string \<Rightarrow> string" where
  "denied_text err =
     ''privileged install failed (user may have cancelled, or no GUI session).'' @ [nl] @ ''osascript: '' @ err @ [nl, nl] @
     ''To install manually:'' @ [nl] @ ''sudo bash scripts/install-pfctl-daemon.sh'' @ [nl] @ ''Or (Homebrew):'' @ [nl] @
     ''sudo bash '' @ [CHR 0x22] @ ''$(brew --prefix)/share/pelagos-mac/install-pfctl-daemon.sh'' @ [CHR 0x22, nl, nl] @
     ''The daemon installs to '' @ HELPER_DST @ '' and runs as a system LaunchDaemon.''"

text \<open>\<open>install_helper\<close>: the result, the temporary files that are there, and the scripts that were run. The
  looks at the socket depend on whether the installation succeeded.\<close>

definition written :: "string \<Rightarrow> (string \<times> bool) option \<Rightarrow> string set \<Rightarrow> string set" where
  "written p err tmp = (case err of Some (_, False) \<Rightarrow> tmp | _ \<Rightarrow> insert p tmp)"

definition install_helper :: "install_host \<Rightarrow> (nat \<times> bool) list \<Rightarrow> string set \<Rightarrow> (install_error + unit) option \<times> string set \<times> string list" where
  "install_helper h polls tmp =
     (case find_helper_binary h of
        Inl e \<Rightarrow> (Some (Inl e), tmp, [])
      | Inr helper \<Rightarrow>
          (let tmp1 = written plist_tmp (ih_write h plist_tmp) tmp;
               tmp2 = written script_tmp (ih_write h script_tmp) tmp1
           in case ih_write h plist_tmp of
                Some (e, _) \<Rightarrow> (Some (Inl (BlessIo e)), tmp1, [])
              | None \<Rightarrow>
                  (case ih_write h script_tmp of
                     Some (e, _) \<Rightarrow> (Some (Inl (BlessIo e)), tmp2, [])
                   | None \<Rightarrow>
                       (case ih_chmod h of
                          Some e \<Rightarrow> (Some (Inl (BlessIo e)), tmp2, [])
                        | None \<Rightarrow>
                            (let text = applescript helper in
                             case ih_osascript h text of
                               Inl e \<Rightarrow> (Some (Inl (BlessIo (''osascript: '' @ e))), tmp2, [])
                             | Inr (ok, err) \<Rightarrow>
                                 (if ok then wait_for_helper 0 polls else Some (Inl (BlessDenied (denied_text err))),
                                  tmp2 - {plist_tmp, script_tmp}, [text]))))))"

definition ensure_pfctl_blessed :: "install_host \<Rightarrow> bool \<Rightarrow> (nat \<times> bool) list \<Rightarrow> string set
    \<Rightarrow> (install_error + unit) option \<times> string set \<times> string list" where
  "ensure_pfctl_blessed h present polls tmp = (if present then (Some (Inr ()), tmp, []) else install_helper h polls tmp)"

section \<open>What an installation leaves\<close>

lemma wait_ends: "5000 \<le> elapsed + 200 * length ps \<Longrightarrow> ps \<noteq> [] \<Longrightarrow> \<exists>r. wait_for_helper elapsed (ps @ [p]) = Some r"
proof (induction ps arbitrary: elapsed)
  case (Cons q qs)
  show ?case
  proof (cases "qs = []")
    case True
    then show ?thesis using Cons.prems by (cases q; cases p) (auto simp: Let_def)
  next
    case False
    then show ?thesis using Cons.prems Cons.IH[of "elapsed + fst q + 200"] by (cases q) (auto simp: Let_def)
  qed
qed simp

lemma wait_success: "wait_for_helper elapsed ps = Some (Inr ()) \<Longrightarrow> list_ex snd ps"
  by (induction elapsed ps rule: wait_for_helper.induct) (auto simp: Let_def split: if_splits)

text \<open>
  Making sure that the helper is installed: with a socket nothing is done; otherwise at most one script
  is run, and whatever becomes of it the two temporary files are gone afterwards; success is only
  reported when the socket was seen; and after 26 looks at the socket there is a result.
\<close>

lemma bless_outcome:
  assumes "ensure_pfctl_blessed h present polls tmp = (r, tmp', scripts)"
  shows "(present \<longrightarrow> r = Some (Inr ()) \<and> scripts = [] \<and> tmp' = tmp) \<and> length scripts \<le> 1 \<and>
    (scripts \<noteq> [] \<longrightarrow> tmp' = tmp - {plist_tmp, script_tmp}) \<and>
    (r = Some (Inr ()) \<longrightarrow> present \<or> list_ex snd polls) \<and> (26 \<le> length polls \<longrightarrow> r \<noteq> None)"
proof (cases present)
  case False
  have w: "wait_for_helper 0 polls \<noteq> None" if "26 \<le> length polls"
  proof -
    have "polls \<noteq> []" "25 \<le> length (butlast polls)" using that by auto
    then have "\<exists>r. wait_for_helper 0 (butlast polls @ [last polls]) = Some r" by (intro wait_ends) (auto simp del: length_butlast)
    with \<open>polls \<noteq> []\<close> show ?thesis by auto
  qed
  then show ?thesis
    using assms False wait_success[of 0 polls]
    by (auto simp: ensure_pfctl_blessed_def install_helper_def written_def Let_def split: sum.splits option.splits prod.splits bool.splits if_splits)
qed (use assms in \<open>auto simp: ensure_pfctl_blessed_def\<close>)

definition demo_mac :: install_host where
  "demo_mac = \<lparr>ih_exe = Inr ''/bin/pelagos'', ih_exists = (\<lambda>_. True), ih_canonical = (\<lambda>_. None), ih_write = (\<lambda>_. None), ih_chmod = None,
     ih_osascript = (\<lambda>_. Inr (True, []))\<rparr>"

lemma bless_outcome_witness:
  "\<exists>r tmp' scripts. ensure_pfctl_blessed demo_mac False [(0, False), (0, True)] {''/tmp/x''} = (r, tmp', scripts) \<and>
     r = Some (Inr ()) \<and> tmp' = {''/tmp/x''} \<and> length scripts = 1"
proof -
  obtain r tmp' scripts where e: "ensure_pfctl_blessed demo_mac False [(0, False), (0, True)] {''/tmp/x''} = (r, tmp', scripts)"
    by (rule prod_cases3)
  then have "r = Some (Inr ()) \<and> scripts \<noteq> []"
    by (auto simp: ensure_pfctl_blessed_def install_helper_def find_helper_binary_def demo_mac_def path_parent_def path_comps_def Let_def)
  moreover have "{''/tmp/x''} - {plist_tmp, script_tmp} = {''/tmp/x''}" by (simp add: plist_tmp_def script_tmp_def)
  moreover have "length scripts \<le> 1" "scripts \<noteq> [] \<longrightarrow> tmp' = {''/tmp/x''} - {plist_tmp, script_tmp}" using bless_outcome[OF e] by simp_all
  ultimately show ?thesis using e by (cases scripts) auto
qed

text \<open>When the script cannot be written or made executable, the first files stay.\<close>

lemma unwritten_script_leaves_plist:
  "ih_write h script_tmp = Some (e, False) \<Longrightarrow> ih_write h plist_tmp = None \<Longrightarrow> find_helper_binary h = Inr helper \<Longrightarrow>
   plist_tmp \<in> fst (snd (ensure_pfctl_blessed h False polls tmp))"
  by (simp add: ensure_pfctl_blessed_def install_helper_def written_def)

section \<open>What is run as root\<close>

definition plain_chr :: "char \<Rightarrow> bool" where
  "plain_chr c = (let n = of_char c :: nat in 32 \<le> n \<and> n \<noteq> 173 \<and> (n < 127 \<or> 160 < n))"

lemma debug_plain: "plain_chr c \<Longrightarrow> debug_chr c = (if c = CHR 0x22 \<or> c = CHR 0x5C then [CHR 0x5C, c] else [c])"
  unfolding debug_chr_def plain_chr_def Let_def using of_char_eq_iff[of c "CHR 0x22"] of_char_eq_iff[of c "CHR 0x5C"] by (auto split: if_splits)

text \<open>
  C16: What is run as root: let AppleScript read a text in double quotes as documented, with the backslash before
  a quote or a backslash, and the shell a word in single quotes. Then for every path of the
  helper that has printable characters, double quotes, blanks and backslashes included, but no
  single quote, the shell is given exactly the installation script with the helper and the
  configuration as its two arguments.
\<close>

theorem root_runs_script:
  fixes osa :: "string \<Rightarrow> (string \<times> string) option" and sh :: "string \<Rightarrow> string list option"
  assumes osa_end: "\<And>r. osa (CHR 0x22 # r) = Some ([], r)"
    and osa_escape: "\<And>c r. c = CHR 0x22 \<or> c = CHR 0x5C \<Longrightarrow> osa (CHR 0x5C # c # r) = map_option (apfst (Cons c)) (osa r)"
    and osa_plain: "\<And>c r. c \<noteq> CHR 0x22 \<Longrightarrow> c \<noteq> CHR 0x5C \<Longrightarrow> osa (c # r) = map_option (apfst (Cons c)) (osa r)"
    and sh_last: "\<And>w. CHR 0x27 \<notin> set w \<Longrightarrow> sh (quoted w) = Some [w]"
    and sh_word: "\<And>w r. CHR 0x27 \<notin> set w \<Longrightarrow> sh (quoted w @ CHR '' '' # r) = map_option (Cons w) (sh r)"
    and "list_all plain_chr helper" and "CHR 0x27 \<notin> set helper"
  shows "\<exists>lit text. applescript helper = ''do shell script '' @ CHR 0x22 # lit \<and>
    osa lit = Some (text, '' with administrator privileges'') \<and> sh text = Some [script_tmp, helper, plist_tmp]"
proof -
  have dec: "list_all plain_chr s \<Longrightarrow> osa (concat (map debug_chr s) @ CHR 0x22 # r) = Some (s, r)" for s r
    by (induction s) (auto simp: osa_end osa_escape osa_plain debug_plain)
  have "list_all plain_chr (root_cmd helper)"
    using assms(6) by (auto simp: root_cmd_def quoted_def script_tmp_def plist_tmp_def plain_chr_def)
  then have "osa (concat (map debug_chr (root_cmd helper)) @ CHR 0x22 # '' with administrator privileges'') =
      Some (root_cmd helper, '' with administrator privileges'')" by (rule dec)
  moreover have "sh (root_cmd helper) = Some [script_tmp, helper, plist_tmp]"
    using assms(7) by (simp add: root_cmd_def sh_word sh_last script_tmp_def plist_tmp_def)
  ultimately show ?thesis by (auto simp: applescript_def debug_str_def)
qed

text \<open>Readers with these properties.\<close>

fun demo_osa :: "string \<Rightarrow> (string \<times> string) option" where
  "demo_osa [] = None"
| "demo_osa (c # s) =
     (if c = CHR 0x22 then Some ([], s)
      else if c = CHR 0x5C then (case s of [] \<Rightarrow> None | d # r \<Rightarrow> map_option (apfst (Cons d)) (demo_osa r))
      else map_option (apfst (Cons c)) (demo_osa s))"

fun demo_sh :: "string option \<Rightarrow> string \<Rightarrow> string list option" where
  "demo_sh None [] = Some []"
| "demo_sh None (c # s) = (if c = CHR '' '' then demo_sh None s else if c = CHR 0x27 then demo_sh (Some []) s else None)"
| "demo_sh (Some w) [] = None"
| "demo_sh (Some w) (c # s) = (if c = CHR 0x27 then map_option (Cons w) (demo_sh None s) else demo_sh (Some (w @ [c])) s)"

lemma demo_sh_word: "CHR 0x27 \<notin> set v \<Longrightarrow> demo_sh (Some w) (v @ CHR 0x27 # s) = map_option (Cons (w @ v)) (demo_sh None s)"
  by (induction v arbitrary: w) auto

theorem root_runs_script_witness:
  "\<exists>lit text. applescript [CHR ''/'', CHR 0x22, CHR '' '', CHR 0x5C] = ''do shell script '' @ CHR 0x22 # lit \<and>
    demo_osa lit = Some (text, '' with administrator privileges'') \<and>
    demo_sh None text = Some [script_tmp, [CHR ''/'', CHR 0x22, CHR '' '', CHR 0x5C], plist_tmp]"
  by (rule root_runs_script[of demo_osa "demo_sh None"]) (auto simp: quoted_def demo_sh_word plain_chr_def)

text \<open>A single quote in the path ends the quoting: what follows it is read as shell text.\<close>

lemma quote_breaks_out:
  "root_cmd (p @ CHR 0x27 # q) = quoted script_tmp @ '' '' @ quoted p @ q @ CHR 0x27 # '' '' @ quoted plist_tmp"
  by (simp add: root_cmd_def quoted_def)

end
