(* ===== verification/Guest_Listen.thy ===== *)
theory Guest_Listen
  imports Prelude
begin

text \<open>
  The sockets of the guest (\<open>pelagos-guest/src/main.rs\<close>): creating the listener, accepting connections, and the
  descriptors of connections. A connection has the descriptor \<open>accept4\<close> returned, the lowest free number, as
  POSIX has it, until its handler returns and its guard closes it. A session leaves an input thread
  behind that goes on using the number.
\<close>

section \<open>The listener\<close>

definition VSOCK_PORT :: u32 where "VSOCK_PORT = 1024"

text \<open>The results of \<open>socket\<close>, \<open>bind\<close> and \<open>listen\<close>; the second result is the descriptors that are closed.\<close>

definition create_vsock_listener :: "string + nat \<Rightarrow> string option \<Rightarrow> string option \<Rightarrow> (string + nat) \<times> nat list" where
  "create_vsock_listener socket bind listen =
     (case socket of
        Inl e \<Rightarrow> (Inl e, [])
      | Inr fd \<Rightarrow>
          (case bind of
             Some e \<Rightarrow> (Inl e, [fd])
           | None \<Rightarrow> (case listen of Some e \<Rightarrow> (Inl e, [fd]) | None \<Rightarrow> (Inr fd, []))))"

section \<open>Accepting and closing\<close>

text \<open>The descriptors: which connection a number stands for (connections are numbered as they come; the
  listener is not among them), the connections made so far, the bytes each has received and not read, and the
  input threads left behind, with the number they read from and the connection they belong to.\<close>

record guest_fds =
  fd_conn :: "(nat \<times> nat) list"
  accepted :: nat
  unread :: "nat \<Rightarrow> string"
  stale :: "(nat \<times> nat) list"

definition free_fd :: "nat set \<Rightarrow> nat \<Rightarrow> bool" where
  "free_fd used n = (n \<notin> used \<and> {..<n} \<subseteq> used)"

text \<open>Descriptors the process has for other things.\<close>

definition used_fds :: "nat set \<Rightarrow> guest_fds \<Rightarrow> nat set" where
  "used_fds others g = others \<union> fst ` set (fd_conn g)"

text \<open>\<open>accept_vsock\<close> and the round of \<open>main\<close>: a connection is handed to a new thread; an error is logged, after
  a pause of 500 milliseconds when the table is full, and the loop goes on. The last part of the result is the
  milliseconds slept.\<close>

datatype accepted_as = Connection nat | TableFull | AcceptError

definition accept_round :: "accepted_as \<Rightarrow> guest_fds \<Rightarrow> guest_fds \<times> nat" where
  "accept_round a g =
     (case a of
        Connection fd \<Rightarrow> (g\<lparr>fd_conn := (fd, accepted g) # fd_conn g, accepted := Suc (accepted g), unread := (unread g)(accepted g := [])\<rparr>, 0)
      | TableFull \<Rightarrow> (g, 500)
      | AcceptError \<Rightarrow> (g, 0))"

text \<open>\<open>handle_connection\<close> of the connection \<open>c\<close> with the number \<open>fd\<close> returns; \<open>left\<close>: it was a session whose input
  thread has not ended.\<close>

definition connection_ends :: "nat \<Rightarrow> nat \<Rightarrow> bool \<Rightarrow> guest_fds \<Rightarrow> guest_fds" where
  "connection_ends fd c left g =
     g\<lparr>fd_conn := filter (\<lambda>x. x \<noteq> (fd, c)) (fd_conn g), stale := (if left then (fd, c) # stale g else stale g)\<rparr>"

definition receives :: "nat \<Rightarrow> string \<Rightarrow> guest_fds \<Rightarrow> guest_fds" where
  "receives c d g = g\<lparr>unread := (unread g)(c := unread g c @ d)\<rparr>"

text \<open>\<open>FdReader::read\<close> on a number: what the connection it stands for now has received; \<open>None\<close>: the number is
  closed, or nothing has come.\<close>

definition read_fd :: "nat \<Rightarrow> nat \<Rightarrow> guest_fds \<Rightarrow> (string \<times> guest_fds) option" where
  "read_fd n fd g =
     (case map_of (fd_conn g) fd of
        None \<Rightarrow> None
      | Some c \<Rightarrow>
          if unread g c = [] \<or> n = 0 then None
          else Some (take n (unread g c), g\<lparr>unread := (unread g)(c := drop n (unread g c))\<rparr>))"

inductive serves :: "nat set \<Rightarrow> guest_fds \<Rightarrow> guest_fds \<Rightarrow> bool" for others where
  accept: "free_fd (used_fds others g) fd \<Longrightarrow> serves others g (fst (accept_round (Connection fd) g))"
| failed: "a \<in> {TableFull, AcceptError} \<Longrightarrow> serves others g (fst (accept_round a g))"
| ends: "(fd, c) \<in> set (fd_conn g) \<Longrightarrow> serves others g (connection_ends fd c left g)"
| receive: "c \<in> snd ` set (fd_conn g) \<Longrightarrow> serves others g (receives c d g)"
| handler_reads: "(fd, c) \<in> set (fd_conn g) \<Longrightarrow> read_fd n fd g = Some (d, g') \<Longrightarrow> serves others g g'"
| stale_reads: "(fd, c) \<in> set (stale g) \<Longrightarrow> read_fd n fd g = Some (d, g') \<Longrightarrow> serves others g g'"

definition no_connection :: guest_fds where
  "no_connection = \<lparr>fd_conn = [], accepted = 0, unread = (\<lambda>_. []), stale = []\<rparr>"

section \<open>Descriptors are kept apart\<close>

definition fds_ok :: "nat set \<Rightarrow> guest_fds \<Rightarrow> bool" where
  "fds_ok others g =
     (distinct (map fst (fd_conn g)) \<and> distinct (map snd (fd_conn g)) \<and> fst ` set (fd_conn g) \<inter> others = {} \<and>
      (\<forall>c \<in> snd ` set (fd_conn g). c < accepted g))"

lemma read_fd_conn: "read_fd n fd g = Some (d, g') \<Longrightarrow> fd_conn g' = fd_conn g \<and> accepted g' = accepted g \<and> stale g' = stale g"
  by (auto simp: read_fd_def split: option.splits if_splits)

lemma serves_ok: "serves others g g' \<Longrightarrow> fds_ok others g \<Longrightarrow> fds_ok others g'"
proof (induction rule: serves.induct)
  case (accept g fd)
  then show ?case by (auto simp: fds_ok_def accept_round_def free_fd_def used_fds_def)
next
  case (ends fd c g left)
  then show ?case by (auto simp: fds_ok_def connection_ends_def distinct_map inj_on_def)
next
  case (handler_reads fd c g n d g')
  then show ?case using read_fd_conn by (simp add: fds_ok_def)
next
  case (stale_reads fd c g n d g')
  then show ?case using read_fd_conn by (simp add: fds_ok_def)
next
  case (failed a g)
  then have "fst (accept_round a g) = g" by (auto simp: accept_round_def)
  with failed show ?case by simp
next
  case (receive c g d)
  then show ?case by (simp add: fds_ok_def receives_def)
qed

text \<open>In every history each connection has its own descriptor, apart from those of the rest of the
  process, and no connection is served twice.\<close>

lemma guest_fds_apart: "(serves others)\<^sup>*\<^sup>* no_connection g \<Longrightarrow> fds_ok others g"
proof (induction rule: rtranclp_induct)
  case base
  show ?case by (simp add: fds_ok_def no_connection_def)
qed (rule serves_ok)

text \<open>The listener that cannot be used is closed.\<close>

lemma listener_closed:
  "create_vsock_listener (Inr fd) b l = (r, closed) \<Longrightarrow> (case r of Inl _ \<Rightarrow> closed = [fd] | Inr n \<Rightarrow> n = fd \<and> closed = [])"
  by (auto simp: create_vsock_listener_def split: option.splits)

section \<open>The thread that is left behind\<close>

text \<open>After a session has ended the next connection gets its number, and the input thread of the session reads
  the bytes of the new connection, which its handler then never sees.\<close>

lemma stale_reader_steals:
  assumes "fds_ok others g" and "(fd, c) \<in> set (fd_conn g)" and "free_fd (used_fds others (connection_ends fd c True g)) fd" and "d \<noteq> []"
  shows "\<exists>g'. (serves others)\<^sup>*\<^sup>* g g' \<and> (fd, c) \<in> set (stale g') \<and> map_of (fd_conn g') fd = Some (accepted g) \<and> c \<noteq> accepted g \<and>
    (\<exists>g''. read_fd (length d) fd g' = Some (d, g'') \<and> serves others g' g'' \<and> unread g'' (accepted g) = [])"
proof -
  define g1 where "g1 = connection_ends fd c True g"
  define g2 where "g2 = fst (accept_round (Connection fd) g1)"
  define g3 where "g3 = receives (accepted g) d g2"
  have s1: "serves others g g1" unfolding g1_def by (rule serves.ends[OF assms(2)])
  have s2: "serves others g1 g2" unfolding g2_def using assms(3) by (auto simp: g1_def intro: serves.accept)
  have c2: "fd_conn g2 = (fd, accepted g) # fd_conn g1" "stale g2 = (fd, c) # stale g" "unread g2 (accepted g) = []"
    by (simp_all add: g2_def g1_def accept_round_def connection_ends_def)
  have s3: "serves others g2 g3" unfolding g3_def by (rule serves.receive) (simp add: c2)
  have r: "read_fd (length d) fd g3 = Some (d, g3\<lparr>unread := (unread g3)(accepted g := [])\<rparr>)"
    using assms(4) by (simp add: read_fd_def g3_def receives_def c2)
  have st: "(fd, c) \<in> set (stale g3)" by (simp add: g3_def receives_def c2)
  have "serves others g3 (g3\<lparr>unread := (unread g3)(accepted g := [])\<rparr>)" by (rule serves.stale_reads[OF st r])
  moreover have "(serves others)\<^sup>*\<^sup>* g g3" using s1 s2 s3 by (metis rtranclp.rtrancl_into_rtrancl rtranclp.rtrancl_refl)
  moreover have "c \<noteq> accepted g" using assms(1,2) by (force simp: fds_ok_def)
  moreover have "map_of (fd_conn g3) fd = Some (accepted g)" by (simp add: g3_def receives_def c2)
  ultimately show ?thesis using r st by (intro exI[of _ g3] conjI exI[of _ "g3\<lparr>unread := (unread g3)(accepted g := [])\<rparr>"]) simp_all
qed

end
