(* ===== verification/Vmnet_Connect.thy ===== *)
theory Vmnet_Connect
  imports Vmnet Vm_Start
begin

text \<open>
  Connecting to socket_vmnet (\<open>connect\<close> in \<open>pelagos-vz/src/socket_vmnet.rs\<close>): the descriptors it opens and
  who owns them. The second result of each operation is the descriptors that are open afterwards; the
  threads of a relay own four of them and the machine one.
\<close>

text \<open>What the system calls answer: \<open>socket\<close>, \<open>connect\<close>, \<open>socketpair\<close>, and the two calls of \<open>dup\<close> (\<open>None\<close>: it
  fails) with the last error.\<close>

record vmnet_sys =
  vs_exists :: "string \<Rightarrow> bool"
  vs_socket :: "string + nat"
  vs_connect :: "string option"
  vs_pair :: "string + nat \<times> nat"
  vs_dups :: "nat option \<times> nat option"
  vs_errno :: string

definition connect_unix_stream :: "vmnet_sys \<Rightarrow> string \<Rightarrow> (vz_error + nat) \<times> nat list" where
  "connect_unix_stream sys path =
     (case vs_socket sys of
        Inl e \<Rightarrow> (Inl (Io e), [])
      | Inr fd \<Rightarrow>
          (case vs_connect sys of
             Some e \<Rightarrow> (Inl (Runtime (''socket_vmnet connect('' @ path @ ''): '' @ e)), [])
           | None \<Rightarrow> (Inr fd, [fd])))"

definition create_socketpair :: "vmnet_sys \<Rightarrow> (vz_error + nat \<times> nat) \<times> nat list" where
  "create_socketpair sys =
     (case vs_pair sys of Inl e \<Rightarrow> (Inl (Io e), []) | Inr (a, b) \<Rightarrow> (Inr (a, b), [a, b]))"

text \<open>A relay: what each thread reads from and writes to.\<close>

record vmnet_relay =
  to_avf_fds :: "nat \<times> nat"
  to_vmnet_fds :: "nat \<times> nat"

definition vmnet_connect :: "vmnet_sys \<Rightarrow> (vz_error + nat \<times> vmnet_relay) \<times> nat list" where
  "vmnet_connect sys =
     (case find_socket_path (vs_exists sys) of
        None \<Rightarrow>
          (Inl (Runtime (''socket_vmnet socket not found. Install and start it:'' @ [nl] @ ''  brew install socket_vmnet'' @ [nl] @
             ''  sudo brew services start socket_vmnet'')), [])
      | Some path \<Rightarrow>
          (case connect_unix_stream sys path of
             (Inl e, fds) \<Rightarrow> (Inl e, fds)
           | (Inr vmnet_fd, fds) \<Rightarrow>
               (case create_socketpair sys of
                  (Inl e, _) \<Rightarrow> (Inl e, fds)
                | (Inr (avf_fd, relay_fd), pair) \<Rightarrow>
                    (case vs_dups sys of
                       (Some vmnet_read_fd, Some relay_write_fd) \<Rightarrow>
                         (Inr (avf_fd, \<lparr>to_avf_fds = (vmnet_read_fd, relay_write_fd), to_vmnet_fds = (relay_fd, vmnet_fd)\<rparr>),
                          fds @ pair @ [vmnet_read_fd, relay_write_fd])
                     | (d1, d2) \<Rightarrow>
                         (Inl (Io (vs_errno sys)), fds @ pair @ (case d1 of Some d \<Rightarrow> [d] | None \<Rightarrow> []) @ (case d2 of Some d \<Rightarrow> [d] | None \<Rightarrow> []))))))"

definition owned_fds :: "nat \<times> vmnet_relay \<Rightarrow> nat set" where
  "owned_fds r =
     {fst r, fst (to_avf_fds (snd r)), snd (to_avf_fds (snd r)), fst (to_vmnet_fds (snd r)), snd (to_vmnet_fds (snd r))}"

text \<open>A relay that was made owns all the descriptors that were opened for it: each thread has its own
  two, and the machine the fifth.\<close>

lemma vmnet_connect_owned: "vmnet_connect sys = (Inr r, fds) \<Longrightarrow> set fds = owned_fds r \<and> length fds = 5"
  by (auto simp: vmnet_connect_def connect_unix_stream_def create_socketpair_def owned_fds_def split: option.splits sum.splits prod.splits)

text \<open>When the pair of sockets or a duplicate cannot be made, the descriptors opened before stay open and
  nobody owns them.\<close>

lemma vmnet_connect_leaks:
  assumes "find_socket_path (vs_exists sys) = Some path" and "vs_socket sys = Inr fd" and "vs_connect sys = None"
    and "vmnet_connect sys = (Inl e, fds)"
  shows "fd \<in> set fds \<and> (\<forall>a b. vs_pair sys = Inr (a, b) \<longrightarrow> {a, b} \<subseteq> set fds)"
  using assms by (auto simp: vmnet_connect_def connect_unix_stream_def create_socketpair_def split: option.splits sum.splits prod.splits)

end
