(* ===== verification/Spec2Isabelle.thy ===== *)
theory Spec2Isabelle
  imports Bind_Mounts Guest_Exec Guest_Enter Guest_Kube Port_Proxy File_Copy Run_Command Guest_Events Docker_Main Console Pfctl Tun_Relay Vmnet Exec_Frames Daemon_Life Cli_Main Image_Commands Vm_Start Vm_Admin Daemon_Links Helper_Install Guest_Listen Vmnet_Connect
begin

text \<open>
  A verification library for \<^bold>\<open>pelagos-mac\<close>, which runs Linux containers on macOS in a virtual
  machine.

  \<^bold>\<open>The program.\<close> The command line tool \<open>pelagos\<close> (\<open>pelagos-mac/src/main.rs\<close>) starts a daemon per
  profile (\<open>daemon.rs\<close>), which keeps its files in a state directory (\<open>state.rs\<close>), configures and runs
  the virtual machine (\<open>pelagos-vz/src/vm.rs\<close>), relays its network frames (\<open>tun_relay.rs\<close>,
  \<open>socket_vmnet.rs\<close>) and its serial console, and forwards ports. A privileged helper
  (\<open>pelagos-pfctl/src/main.rs\<close>) changes interfaces, routes and packet filter rules for it. In the
  machine \<open>pelagos-guest/src/main.rs\<close> receives commands as JSON lines, runs the container runtime
  and streams output and container events back. \<open>pelagos-docker\<close> translates the Docker command
  line to \<open>pelagos\<close>.

  \<^bold>\<open>The theories and what they model.\<close>
  \<^item> \<open>Prelude\<close>, \<open>Text_Codec\<close>, \<open>Byte_Codec\<close>, \<open>Host_Io\<close>: words, strings and their library
    functions, byte encodings, and a state monad for code that talks to the system. The locale
    \<open>invariant_machine\<close> is the interface of everything that processes a sequence of events, the
    locales for codecs that of printers and parsers.
  \<^item> \<open>Checksum\<close>, \<open>Tun_Relay\<close>, \<open>Vmnet\<close>, \<open>Vmnet_Connect\<close>, \<open>Ipv6_Text\<close>, \<open>Ipv6_Codec\<close>, \<open>Pfctl\<close>: the network. The state of the relay
    thread and of the helper are records; every frame handler and request handler is one definition. The
    lemmas: no frame makes the relay panic, its answers are well formed, frames pass the
    stream relay unchanged, the loaded packet filter rules agree with the helper's state, and
    printed IPv6 addresses are parsed back.
  \<^item> \<open>Relay_Control\<close>, \<open>Vm_Start\<close>: the requests of the relay to the helper over the wire, starting and
    dropping a relay, and \<open>start_vm\<close>, \<open>try_connect_vsock\<close> and \<open>stop\<close> of \<open>vm.rs\<close> over the answers of the framework. A
    machine starts as a whole or leaves nothing behind in the helper.
  \<^item> \<open>Helper_Install\<close>: \<open>bless.rs\<close>. What is run as root, through two layers of quoting.
  \<^item> \<open>State_Dir\<close>, \<open>Calendar\<close>, \<open>Daemon_Args\<close>: files, subnet allocation, command line arguments and the
    configuration of the machine. The lemmas: profiles get disjoint subnets, the daemon
    subprocess computes the same arguments as its parent, dates are Gregorian.
  \<^item> \<open>Daemon_Loop\<close>, \<open>Daemon_Life\<close>: the accept loop, the reference counts at shutdown, start-up step by step over the
    files, and the commands that look for the daemon. A daemon that is up is recognised; the
    lemmas also show what happens while it starts and why its relay outlives it.
  \<^item> \<open>Console\<close>, \<open>Port_Daemon\<close>, \<open>Port_Proxy\<close>, \<open>Daemon_Links\<close>: the daemon's console ring buffer and sessions, its port table,
    commands and connections, the threads of its port listeners with the connections waiting at
    them and the ports the system refuses, the two threads of a relayed connection, and the event
    watcher with its reconnections. The lemmas: the replay is the
    bounded history of the output, the listener threads refine the port table, connections are
    relayed faithfully in every interleaving, and how they end.
  \<^item> \<open>Exec_Frames\<close>, \<open>Guest_Exec\<close>: the binary frames of interactive sessions, and sessions from the command of
    the host to the child and back. Output, input and exit code are delivered for every
    interleaving of the threads.
  \<^item> \<open>Guest_Protocol\<close>: the JSON messages, with the types of both sides and the functions \<open>serde\<close>
    derives for them. What one side writes the other side reads as the same message.
  \<^item> \<open>Guest_Listen\<close>, \<open>Guest_Runtime\<close>, \<open>Guest_Enter\<close>, \<open>Guest_Kube\<close>, \<open>Guest_Events\<close>: the guest: its sockets and descriptors; its handlers
    (pull, run, stream, prune, build, images, volumes, networks, compose), its line loop, and the
    host's \<open>passthrough_command\<close>; entering the namespaces of a container; the daemons of
    Kubernetes, with the processes that were told to stop and have not gone; and reading container states, comparing, broadcasting through bounded channels,
    and subscriptions. Descriptors are balanced, the Kubernetes status follows the commands if
    every start waits for the stop before it, a subscriber's view converges.
  \<^item> \<open>Cli_Main\<close>, \<open>Run_Command\<close>, \<open>File_Copy\<close>, \<open>Image_Commands\<close>, \<open>Vm_Admin\<close>: the command line of \<open>pelagos\<close>. \<open>main\<close> with every subcommand; \<open>run\<close> and
    \<open>compose\<close> with message, bind mounts and ports; \<open>cp\<close> in both directions; building,
    inspecting and logging in; listing machines, waiting for and relaying \<open>ssh\<close>, and the console
    client. Every command speaks the protocol of the guest, the commands that only look do not
    start a machine, archives and credentials arrive unchanged.
  \<^item> \<open>Docker_Parse\<close>, \<open>Docker_Cache\<close>, \<open>Docker_Shim\<close>, \<open>Docker_Build\<close>, \<open>Docker_Main\<close>: the Docker shim: configuration, text formats,
    the cache of containers as an instance of the locale \<open>key_store\<close>, the commands with the
    port proxies as a step relation over all names, \<open>docker build\<close>, and \<open>main\<close>. Every run of \<open>pelagos\<close>
    is recorded, and the runs are compared with the subcommands of \<open>Cli_Main\<close>.
  \<^item> \<open>Json_Text\<close>: the law assumed of the JSON library, and a text format that satisfies it.
  \<^item> \<open>Bind_Mounts\<close> and this theory: properties of components together: a bind mount on its way
    through host, guest and shim; a run from the command line to its exit code; the ports of a
    container that ends in the guest.

  \<^bold>\<open>Conventions.\<close> Machine integers are words of their width; exit codes are 32-bit words read as
  signed numbers where they are printed. Strings are lists of bytes. A hash map is the list of
  its entries in iteration order where it is written out, and a function where it is only
  looked up. Errors are values of sum and option types; early returns and process exits are
  branches. What the system or another program answers is a parameter: a function of the
  request, of the history of requests (\<open>Host_Io\<close>), or the list of results of the calls in order,
  so that short reads, failures and all interleavings of threads are covered. Loops over such
  lists end with the list; other loops have termination proofs with the length of the remaining
  input as measure. The only fuel is in \<open>Json_Text\<close>, where the length of the text is enough
  (lemma \<open>unsized_sized\<close>).

  \<^bold>\<open>Assumed.\<close> The JSON library parses what it prints, to text that is not empty and does not end in
  white space (\<open>json_lib\<close>, \<open>json_line\<close>; for \<open>cp\<close> also that it is one line, \<open>text_line\<close>); where a property says that files are read back, writing
  them succeeds. Each such hypothesis is discharged for a concrete instance in a witness.

  The option parser (\<open>clap\<close>) is a parameter of the property of \<open>Daemon_Args\<close>: it reads long options with
  values that do not begin with a dash as documented (\<open>clap_reads\<close>). The helper of \<open>Pfctl\<close> starts on a system
  without its rules; \<open>restart_out_of_step\<close> shows what a second start finds. The errors of a connection to it
  may depend on everything that has happened there; the properties that need a working
  connection say so (\<open>link_up\<close>).

  AppleScript and the shell read quoted text as they document (\<open>Helper_Install\<close>), and a call blocked in
  \<open>read\<close> keeps a connection open after its descriptor was closed, as \<open>close(2)\<close> documents (\<open>Daemon_Links\<close>).

  \<^bold>\<open>Not modelled.\<close> What happens inside Apple's Virtualization framework, the container runtime,
  \<open>tar\<close>, \<open>ssh\<close> and the other programs that are run; their answers are parameters. The inside of the
  option parser (\<open>clap\<close>), log messages, socket options and the layout of ancillary data, the permissions of the
  helper's socket, switching a terminal to raw mode, two shims changing the cache file at
  the same time, the unit tests, and the shell scripts that build images and sign programs.
\<close>

section \<open>From an exit in the guest to the ports of the host\<close>

text \<open>The port specifications a sequence of events makes the watcher release, of all containers
  and of one container whose specifications are tracked as \<open>t\<close>.\<close>

fun released :: "container_ports \<Rightarrow> guest_event list \<Rightarrow> string list" where
  "released m [] = []"
| "released m (GStarted c # es) = released (track_container (as_watch_container c) m) es"
| "released m (GExited n _ # es) =
     (case m n of None \<Rightarrow> released m es | Some ports \<Rightarrow> ports @ released (m(n := None)) es)"
| "released m (GSnapshot cs _ # es) = released (fold track_container (map as_watch_container cs) (\<lambda>_. None)) es"
| "released m (GHeartbeat _ # es) = released m es"

fun released_own :: "string list option \<Rightarrow> guest_event list \<Rightarrow> string list" where
  "released_own t [] = []"
| "released_own t (GStarted c # es) = released_own (if cs_ports c \<noteq> [] then Some (cs_ports c) else t) es"
| "released_own t (GExited n _ # es) = (case t of None \<Rightarrow> [] | Some ports \<Rightarrow> ports) @ released_own None es"
| "released_own t (_ # es) = released_own t es"

definition not_snapshot :: "guest_event \<Rightarrow> bool" where
  "not_snapshot e = (case e of GSnapshot _ _ \<Rightarrow> False | _ \<Rightarrow> True)"

lemma spec_ports_append: "spec_ports (a @ b) = spec_ports a @ spec_ports b"
  by (induction a) (auto simp: spec_ports_def List.map_filter_simps split: option.splits)

lemma spec_ports_set: "set (spec_ports xs) = (\<Union>x \<in> set xs. set (spec_ports [x]))"
proof (induction xs)
  case (Cons x xs)
  then show ?case using spec_ports_append[of "[x]" xs] by simp
qed (simp add: spec_ports_def)

lemma watch_steps [simp]:
  "watch_step (as_watch (GStarted c)) (m, ps) = (track_container (as_watch_container c) m, ps)"
  "watch_step (as_watch (GExited n x)) (m, ps) =
     (case m n of None \<Rightarrow> (m, ps) | Some ports \<Rightarrow> (m(n := None), fold drop_spec ports ps))"
  "watch_step (as_watch (GSnapshot cs b)) (m, ps) = (fold track_container (map as_watch_container cs) (\<lambda>_. None), ps)"
  "watch_step (as_watch (GHeartbeat t)) (m, ps) = (m, ps)"
  by (simp_all add: watch_step_def)

lemma watch_active:
  "active (snd (fold (\<lambda>e. watch_step (as_watch e)) es (m, ps))) =
     (\<lambda>p. if p \<in> set (spec_ports (released m es)) then None else active ps p)"
proof (induction es arbitrary: m ps)
  case (Cons e es)
  show ?case
  proof (cases e)
    case (GExited n c)
    show ?thesis
    proof (cases "m n")
      case (Some ports)
      have "active (fold drop_spec ports ps) = (\<lambda>p. if p \<in> set (spec_ports ports) then None else active ps p)"
        by (simp add: fold_drop_spec fold_drop_active)
      then show ?thesis using GExited Some
        by (intro ext) (simp add: Cons.IH spec_ports_append del: as_watch.simps fun_upd_apply)
    qed (use Cons GExited in \<open>simp del: as_watch.simps\<close>)
  qed (use Cons in \<open>simp_all del: as_watch.simps\<close>)
qed (simp add: spec_ports_def)

lemma UN_single: "(\<Union>x. if x = n then A else {}) = A"
  by auto

lemma released_own_all:
  "list_all not_snapshot es \<Longrightarrow> set (released m es) = (\<Union>x. set (released_own (m x) (filter (about x) es)))"
proof (induction es arbitrary: m)
  case (Cons e es)
  show ?case
  proof (cases e)
    case (GStarted c)
    have "released_own (m x) (filter (about x) (e # es)) =
        released_own ((track_container (as_watch_container c) m) x) (filter (about x) es)" for x
      by (simp add: GStarted track_container_def as_watch_container_def)
    then show ?thesis using Cons GStarted by simp
  next
    case (GExited n c)
    have "set (released_own (m x) (filter (about x) (e # es))) =
        (if x = n then set (case m n of None \<Rightarrow> [] | Some ports \<Rightarrow> ports) else {})
        \<union> set (released_own ((m(n := None)) x) (filter (about x) es))" for x
      by (simp add: GExited)
    then have "(\<Union>x. set (released_own (m x) (filter (about x) (e # es)))) =
        set (case m n of None \<Rightarrow> [] | Some ports \<Rightarrow> ports) \<union> set (released (m(n := None)) es)"
      using Cons by (simp add: UN_Un_distrib UN_single)
    moreover have "m n = None \<Longrightarrow> m(n := None) = m" by (simp add: fun_upd_idem)
    ultimately show ?thesis using GExited by (cases "m n") simp_all
  qed (use Cons in \<open>simp_all add: not_snapshot_def\<close>)
qed simp

lemma tracked_snapshot:
  "distinct (map cs_name cs) \<Longrightarrow> fold track_container (map as_watch_container cs) (\<lambda>_. None) x =
     (case named x cs of None \<Rightarrow> None | Some c \<Rightarrow> if cs_ports c = [] then None else Some (cs_ports c))"
proof -
  have "distinct (map cs_name cs) \<Longrightarrow> fold track_container (map as_watch_container cs) m x =
     (case named x cs of None \<Rightarrow> m x | Some c \<Rightarrow> if cs_ports c = [] then m x else Some (cs_ports c))" for m
  proof (induction cs arbitrary: m)
    case (Cons c cs)
    have "named x cs = None" if "cs_name c = x"
      using Cons.prems that by (auto simp: named_def find_None_iff) (metis image_eqI)
    then show ?case using Cons
      by (auto simp: named_def track_container_def as_watch_container_def split: option.splits)
  qed (simp add: named_def)
  then show "distinct (map cs_name cs) \<Longrightarrow> ?thesis" by simp
qed

text \<open>The containers that end between two readings: gone, no longer running, or new and already
  ended.\<close>

definition ended :: "container_snapshot list \<Rightarrow> container_snapshot list \<Rightarrow> container_snapshot \<Rightarrow> bool" where
  "ended prev cur c =
     (c \<in> set prev \<and> (case named (cs_name c) cur of None \<Rightarrow> True | Some c' \<Rightarrow> is_running c \<and> \<not> is_running c') \<or>
      c \<in> set cur \<and> \<not> is_running c \<and> named (cs_name c) prev = None)"

lemma named_set: "distinct (map cs_name cs) \<Longrightarrow> named x cs = Some c \<longleftrightarrow> c \<in> set cs \<and> cs_name c = x"
  by (induction cs) (auto simp: named_def image_iff split: if_splits)

lemma ended_named:
  assumes "distinct (map cs_name prev)" and "distinct (map cs_name cur)"
  shows "ended prev cur c \<and> cs_name c = x \<longleftrightarrow>
    named x prev = Some c \<and> (case named x cur of None \<Rightarrow> True | Some c' \<Rightarrow> is_running c \<and> \<not> is_running c') \<or>
    named x cur = Some c \<and> \<not> is_running c \<and> named x prev = None"
  unfolding ended_def named_set[OF assms(1)] named_set[OF assms(2)] by auto

lemma released_by_poll:
  assumes "distinct (map cs_name prev)" and "distinct (map cs_name cur)"
  shows "set (released m (GSnapshot prev b # diff_container_states prev cur)) = (\<Union>c \<in> {c. ended prev cur c}. set (cs_ports c))"
proof -
  let ?m = "fold track_container (map as_watch_container prev) (\<lambda>_. None)"
  have ns: "list_all not_snapshot (diff_container_states prev cur)"
    by (auto simp: diff_container_states_def list_all_iff not_snapshot_def start_events_def exit_events_def
        split: option.splits if_splits)
  have "set (released_own (?m x) (filter (about x) (diff_container_states prev cur))) =
      (\<Union>c \<in> {c. ended prev cur c \<and> cs_name c = x}. set (cs_ports c))" for x
    unfolding diff_about[OF assms] tracked_snapshot[OF assms(1)] ended_named[OF assms]
    by (cases "named x prev"; cases "named x cur") auto
  then show ?thesis by (simp add: released_own_all[OF ns]) blast
qed

lemma watch_line_event:
  assumes "json_line print_json parse_json (ser_event e)"
  shows "watch_line (\<lambda>l. Option.bind (parse_json l) de_watch_event) (print_json (ser_event e)) w = watch_step (as_watch e) w"
  using json_line_read[OF assms] by (simp add: watch_line_def wire_event_roundtrip)

lemma watch_lines_events:
  assumes "list_all (\<lambda>e. json_line print_json parse_json (ser_event e)) es"
  shows "fold (watch_line (\<lambda>l. Option.bind (parse_json l) de_watch_event)) (map (\<lambda>e. print_json (ser_event e)) es) w =
    fold (\<lambda>e. watch_step (as_watch e)) es w"
  using assms by (induction es arbitrary: w) (simp_all add: watch_line_event)

text \<open>
  C5: When containers end in the guest, the host gives their ports back. The guest's reading of
  its container states, the comparison with the previous reading, the events on the wire and
  the watcher of the daemon together make exactly those host ports inactive that a container
  which ended between the readings publishes; every other forward stays as it is. In
  particular a port is given back although a container that started between the same readings
  publishes it too.
\<close>

theorem exit_releases_ports:
  assumes "distinct (map cs_name prev)" and "distinct (map cs_name cur)"
    and "list_all (\<lambda>e. json_line print_json parse_json (ser_event e)) (GSnapshot prev True # diff_container_states prev cur)"
  shows "active (snd (fold (watch_line (\<lambda>l. Option.bind (parse_json l) de_watch_event))
      (map (\<lambda>e. print_json (ser_event e)) (GSnapshot prev True # diff_container_states prev cur)) (m, ps))) =
    (\<lambda>p. if \<exists>c. ended prev cur c \<and> p \<in> set (spec_ports (cs_ports c)) then None else active ps p)"
proof -
  have "p \<in> set (spec_ports (released m (GSnapshot prev True # diff_container_states prev cur))) \<longleftrightarrow>
      (\<exists>c. ended prev cur c \<and> p \<in> set (spec_ports (cs_ports c)))" for p
    unfolding spec_ports_set[of "released _ _"] released_by_poll[OF assms(1,2)] spec_ports_set[of "cs_ports _"] by blast
  then show ?thesis unfolding watch_lines_events[OF assms(3)] watch_active by simp
qed

text \<open>One container ends and another one takes its port.\<close>

definition ended_box :: container_snapshot where "ended_box = demo_box ''a'' ''exited''"
definition taker_box :: container_snapshot where "taker_box = demo_box ''b'' ''running''"

theorem exit_releases_ports_witness:
  "active (snd (fold (watch_line (\<lambda>l. Option.bind (unsized_text l) de_watch_event))
      (map (\<lambda>e. sized_text (ser_event e)) (GSnapshot [demo_box ''a'' ''running''] True #
         diff_container_states [demo_box ''a'' ''running''] [ended_box, taker_box])) (\<lambda>_. None, demo_ports))) 8080 = None"
proof -
  have "list_all (\<lambda>e. json_line sized_text unsized_text (ser_event e)) (GSnapshot [demo_box ''a'' ''running''] True #
      diff_container_states [demo_box ''a'' ''running''] [ended_box, taker_box])"
    by (simp add: json_line_sized list_all_iff)
  moreover have "ended [demo_box ''a'' ''running''] [ended_box, taker_box] (demo_box ''a'' ''running'')"
    by (simp add: ended_def named_def ended_box_def demo_box_def is_running_def)
  moreover have "8080 \<in> set (spec_ports (cs_ports (demo_box ''a'' ''running'')))"
    by (simp add: demo_box_def demo_spec_ports)
  ultimately show ?thesis
    using exit_releases_ports[of "[demo_box ''a'' ''running'']" "[ended_box, taker_box]" sized_text unsized_text "\<lambda>_. None" demo_ports]
    by (auto simp: ended_box_def taker_box_def demo_box_def)
qed

section \<open>A container run from the command line\<close>

lemma env_map_distinct: "distinct (map fst (env_map kvs))"
proof -
  have "distinct (map fst m) \<Longrightarrow> distinct (map fst (fold (\<lambda>(k, v). AList.update k v) xs m))" for xs and m :: host_env
    by (induction xs arbitrary: m) (auto simp: distinct_update)
  then show ?thesis by (simp add: env_map_def)
qed

text \<open>The runtime command of a run in the foreground.\<close>

definition foreground_cmd :: "env \<Rightarrow> cli \<Rightarrow> daemon_args \<Rightarrow> run_opts \<Rightarrow> runtime_cmd" where
  "foreground_cmd e c a r =
     (plain_cmd (run_args (ro_image r) (ro_args r) (guest_mounts e (da_shares a) (cli_volumes c)) (ro_name r) False (ro_labels r)
        (cli_ports c) (Some (case ro_network r of n # _ \<Rightarrow> n | [] \<Rightarrow> ''pasta'')) (ro_dns r)))\<lparr>rc_env := map_of (env_map (ro_env r))\<rparr>"

text \<open>
  C1: \<open>pelagos run\<close> in the foreground without a terminal, from end to end: the message the host
  writes is read by the guest, which, the image being there, runs the container runtime with
  the image, arguments, bind mounts, ports, labels, network and environment of the command
  line; whatever the interleaving of the container's two output streams, the host prints each
  stream's lines in order and ends with the exit code of the container.
\<close>

theorem run_end_to_end:
  assumes "\<not> ro_interactive r" and "\<not> ro_tty r" and "\<not> ro_detach r"
    and "json_line print_json parse_json (ser_command (run_message e is_tty c a r))"
    and "image_cached_locally (os_exists os) (ro_image r)"
    and "os_stream os (foreground_cmd e c a r) = Inr (chunks, code)"
    and "chunks \<in> shuffles (map OutLine (str_lines out)) (map ErrLine (str_lines err))"
    and "list_all (\<lambda>r. json_line print_json parse_json (ser_response r)) (spawn_and_stream (Inr (chunks, code)))"
  shows "passthrough_command parse_json (map (\<lambda>r. print_json (ser_response r))
      (fst (serve_lines os k8s parse_json json_error [print_json (ser_command (run_message e is_tty c a r))]))) =
    (unlines (str_lines out), unlines (str_lines err), code_of code)"
proof -
  let ?msg = "run_message e is_tty c a r"
  have msg: "?msg = HRun (ro_image r) (ro_args r) (guest_mounts e (da_shares a) (cli_volumes c)) (ro_name r) False
      (env_map (ro_env r)) (ro_labels r) (cli_ports c) (Some (case ro_network r of n # _ \<Rightarrow> n | [] \<Rightarrow> ''pasta'')) (ro_dns r)"
    using assms(1-3) by (simp add: run_message_def Let_def)
  have de: "de_command (ser_command ?msg) = Some (as_guest ?msg)"
    by (rule de_ser_command) (simp add: msg env_map_distinct)
  have "handle_command os k8s (as_guest ?msg) = spawn_and_stream (Inr (chunks, code))"
    using assms(5,6) by (simp add: msg handle_command_def run_container_def pull_image_def foreground_cmd_def)
  moreover have "\<not> ends_connection (as_guest ?msg)" "\<not> breaks_off os (as_guest ?msg)" by (simp_all add: msg)
  ultimately have "fst (serve_lines os k8s parse_json json_error [print_json (ser_command ?msg)]) = spawn_and_stream (Inr (chunks, code))"
    using json_line_read[OF assms(4)] de by simp
  then show ?thesis
    using passthrough_chunks[of print_json parse_json chunks "code_of code"] assms(8) interleaved_lines[OF assms(7)]
    by (simp add: spawn_and_stream_def)
qed

definition demo_cli :: cli where
  "demo_cli = \<lparr>cli_profile = ''default'', cli_kernel = None, cli_initrd = None, cli_disk = None, cli_cmdline = [], cli_memory = None,
     cli_cpus = None, cli_volumes = [], cli_ports = [], cli_extra_disks = []\<rparr>"

definition demo_daemon :: daemon_args where
  "demo_daemon = \<lparr>da_kernel = [], da_initrd = None, da_disk = [], da_cmdline = [], da_memory_mib = 1, da_cpus = 1, da_shares = [],
     da_ports = [], da_profile = [], da_extra_disks = []\<rparr>"

definition demo_fg :: run_opts where
  "demo_fg = \<lparr>ro_image = ''alpine'', ro_args = [''sh''], ro_name = None, ro_detach = False, ro_env = [''A=1''], ro_labels = [],
     ro_interactive = False, ro_tty = False, ro_network = [], ro_dns = []\<rparr>"

definition demo_os :: guest_os where
  "demo_os = \<lparr>os_exists = (\<lambda>_. True), os_pull = (\<lambda>_ _. Inl []), os_stream = (\<lambda>_. Inr ([ErrLine ''w'', OutLine ''x''], Some 3)),
     os_takes_stdin = (\<lambda>_. True), os_detach = (\<lambda>_. Inl []), os_containers = None, os_remove = (\<lambda>_. Inl [])\<rparr>"

theorem run_end_to_end_witness:
  "passthrough_command unsized_text (map (\<lambda>r. sized_text (ser_response r))
     (fst (serve_lines demo_os (\<lambda>_. []) unsized_text (\<lambda>_. []) [sized_text (ser_command
        (run_message \<lparr>xdg_data_home = None, home_dir = None\<rparr> False demo_cli demo_daemon demo_fg))]))) =
   (''x'' @ [nl], ''w'' @ [nl], 3)"
proof -
  let ?e = "\<lparr>xdg_data_home = None, home_dir = None\<rparr>"
  have ls: "str_lines ''x'' = [''x'']" "str_lines ''w'' = [''w'']" by code_simp+
  have "passthrough_command unsized_text (map (\<lambda>r. sized_text (ser_response r))
     (fst (serve_lines demo_os (\<lambda>_. []) unsized_text (\<lambda>_. []) [sized_text (ser_command
        (run_message ?e False demo_cli demo_daemon demo_fg))]))) =
    (unlines (str_lines ''x''), unlines (str_lines ''w''), code_of (Some 3))"
    by (rule run_end_to_end[where chunks = "[ErrLine ''w'', OutLine ''x'']"])
      (simp_all add: demo_fg_def demo_os_def json_line_sized image_cached_locally_def ls list_all_iff)
  then show ?thesis by (simp add: ls unlines_def code_of_def)
qed

end
